(* ===== verification/Prelude.thy ===== *)
theory Prelude
  imports Main "HOL-Library.Word"
begin

unbundle bit_operations_syntax

text \<open>
  Shared vocabulary of the development: the collections of simplification rules, C integer
  conversions with their wrap-around, truncating division, wall-clock times, and the decimal
  conversions of \<open>printf\<close> that every SRCP message uses.
\<close>

named_theorems c_simps \<open>conversions between C integer types\<close>
named_theorems fmt_simps \<open>printed text\<close>

section \<open>C integers\<close>

text \<open>
  A C integer is an \<open>int\<close>; an assignment to a narrower type is an explicit conversion:
  \<open>u8\<close>, \<open>u16\<close>, \<open>u32\<close> and \<open>u64\<close> reduce modulo the width, \<open>s8\<close>, \<open>s16\<close> and \<open>s32\<close> wrap into the
  two's complement range.
\<close>

definition u8 :: "int \<Rightarrow> int" where "u8 x = x mod 256"
definition u16 :: "int \<Rightarrow> int" where "u16 x = x mod 65536"
definition u32 :: "int \<Rightarrow> int" where "u32 x = x mod 4294967296"
definition u64 :: "int \<Rightarrow> int" where "u64 x = x mod 18446744073709551616"
definition s8 :: "int \<Rightarrow> int" where "s8 x = (x + 128) mod 256 - 128"
definition s16 :: "int \<Rightarrow> int" where "s16 x = (x + 32768) mod 65536 - 32768"
definition s32 :: "int \<Rightarrow> int" where "s32 x = (x + 2147483648) mod 4294967296 - 2147483648"

lemma u8_id [c_simps]: "0 \<le> x \<Longrightarrow> x < 256 \<Longrightarrow> u8 x = x"
  by (simp add: u8_def)

lemma u16_id [c_simps]: "0 \<le> x \<Longrightarrow> x < 65536 \<Longrightarrow> u16 x = x"
  by (simp add: u16_def)

lemma u32_id [c_simps]: "0 \<le> x \<Longrightarrow> x < 4294967296 \<Longrightarrow> u32 x = x"
  by (simp add: u32_def)

lemma u64_id [c_simps]: "0 \<le> x \<Longrightarrow> x < 18446744073709551616 \<Longrightarrow> u64 x = x"
  by (simp add: u64_def)

lemma s8_id [c_simps]: "-128 \<le> x \<Longrightarrow> x < 128 \<Longrightarrow> s8 x = x"
  by (simp add: s8_def)

lemma s16_id [c_simps]: "-32768 \<le> x \<Longrightarrow> x < 32768 \<Longrightarrow> s16 x = x"
  by (simp add: s16_def)

lemma s32_id [c_simps]: "-2147483648 \<le> x \<Longrightarrow> x < 2147483648 \<Longrightarrow> s32 x = x"
  by (simp add: s32_def)

lemma u8_range: "0 \<le> u8 x" "u8 x < 256"
  by (simp_all add: u8_def)

lemma u16_range: "0 \<le> u16 x" "u16 x < 65536"
  by (simp_all add: u16_def)

lemma u32_range: "0 \<le> u32 x" "u32 x < 4294967296"
  by (simp_all add: u32_def)

lemma u64_range: "0 \<le> u64 x" "u64 x < 18446744073709551616"
  by (simp_all add: u64_def)

lemma s8_range: "-128 \<le> s8 x" "s8 x < 128"
proof -
  have "0 \<le> (x + 128) mod 256" "(x + 128) mod 256 < 256" by simp_all
  then show "-128 \<le> s8 x" "s8 x < 128" unfolding s8_def by linarith+
qed

lemma s32_range: "-2147483648 \<le> s32 x" "s32 x < 2147483648"
proof -
  have "0 \<le> (x + 2147483648) mod 4294967296" "(x + 2147483648) mod 4294967296 < 4294967296"
    by simp_all
  then show "-2147483648 \<le> s32 x" "s32 x < 2147483648" unfolding s32_def by linarith+
qed

text \<open>C division truncates towards zero.\<close>

definition tdiv :: "int \<Rightarrow> int \<Rightarrow> int" where
  "tdiv a b = sgn a * sgn b * (\<bar>a\<bar> div \<bar>b\<bar>)"

lemma tdiv_nonneg [c_simps]: "0 \<le> a \<Longrightarrow> 0 < b \<Longrightarrow> tdiv a b = a div b"
  by (cases "a = 0") (simp_all add: tdiv_def)

section \<open>Times and decimal text\<close>

record timeval =
  tv_sec :: int
  tv_usec :: int

definition digit :: "nat \<Rightarrow> char" where
  "digit n = char_of (48 + n)"

definition is_dec :: "char \<Rightarrow> bool" where
  "is_dec c \<longleftrightarrow> 48 \<le> (of_char c :: nat) \<and> (of_char c :: nat) \<le> 57"

definition digit_val :: "char \<Rightarrow> nat" where
  "digit_val c = of_char c - 48"

fun show_nat :: "nat \<Rightarrow> string" where
  "show_nat n = (if n < 10 then [digit n] else show_nat (n div 10) @ [digit (n mod 10)])"

declare show_nat.simps [simp del]

text \<open>\<open>%d\<close>, \<open>%ld\<close>, \<open>%lld\<close> of a signed value.\<close>

definition show_int :: "int \<Rightarrow> string" where
  "show_int i = (if i < 0 then CHR ''-'' # show_nat (nat (- i)) else show_nat (nat i))"

text \<open>\<open>%.3ld\<close>: at least three digits.\<close>

definition show_pad3 :: "int \<Rightarrow> string" where
  "show_pad3 i =
     (let ds = show_nat (nat \<bar>i\<bar>)
      in (if i < 0 then ''-'' else '''') @ replicate (3 - length ds) (CHR ''0'') @ ds)"

text \<open>The time stamp \<open>%lld.%.3ld\<close> that starts every reply and every info message.\<close>

definition stamp :: "timeval \<Rightarrow> string" where
  "stamp t = show_int (tv_sec t) @ ''.'' @ show_pad3 (tdiv (tv_usec t) 1000)"

text \<open>Reading decimal digits back.\<close>

definition read_nat :: "string \<Rightarrow> nat" where
  "read_nat ds = foldl (\<lambda>n c. 10 * n + digit_val c) 0 ds"

lemma read_nat_append: "read_nat (xs @ [c]) = 10 * read_nat xs + digit_val c"
  by (simp add: read_nat_def)

lemma digit_val_digit [simp]: "n < 10 \<Longrightarrow> digit_val (digit n) = n"
  by (simp add: digit_val_def digit_def take_bit_nat_eq_self)

lemma is_dec_digit [simp]: "n < 10 \<Longrightarrow> is_dec (digit n)"
  by (simp add: is_dec_def digit_def take_bit_nat_eq_self)

lemma read_show_nat [simp]: "read_nat (show_nat n) = n"
proof (induction n rule: show_nat.induct)
  case (1 n)
  show ?case
  proof (cases "n < 10")
    case True
    then show ?thesis by (simp add: show_nat.simps [of n] read_nat_def)
  next
    case False
    with 1 have "read_nat (show_nat (n div 10)) = n div 10" by simp
    with False show ?thesis
      by (simp add: show_nat.simps [of n] read_nat_append)
  qed
qed

lemma show_nat_inject [simp]: "show_nat m = show_nat n \<longleftrightarrow> m = n"
  by (metis read_show_nat)

lemma show_nat_digits: "c \<in> set (show_nat n) \<Longrightarrow> is_dec c"
proof (induction n rule: show_nat.induct)
  case (1 n)
  then show ?case
    by (cases "n < 10") (auto simp: show_nat.simps [of n])
qed

lemma show_nat_nonempty [simp]: "show_nat n \<noteq> []"
  by (simp add: show_nat.simps [of n])

lemma show_int_inject [simp]: "show_int i = show_int j \<longleftrightarrow> i = j"
proof
  assume eq: "show_int i = show_int j"
  have minus: "\<not> is_dec (CHR ''-'')" by (simp add: is_dec_def)
  have hd_dec: "is_dec (hd (show_nat n))" for n
    by (rule show_nat_digits [of _ n]) simp
  show "i = j"
  proof (cases "i < 0"; cases "j < 0")
    assume "\<not> i < 0" "j < 0"
    with eq have "hd (show_nat (nat i)) = CHR ''-''" by (simp add: show_int_def)
    with hd_dec [of "nat i"] minus show ?thesis by simp
  next
    assume "i < 0" "\<not> j < 0"
    with eq have "hd (show_nat (nat j)) = CHR ''-''"
      by (metis show_int_def list.sel(1))
    with hd_dec [of "nat j"] minus show ?thesis by simp
  qed (use eq in \<open>auto simp: show_int_def\<close>)
qed simp

section \<open>Lists\<close>

lemma fold_invariant:
  assumes "P s" and "\<And>x s. x \<in> set xs \<Longrightarrow> P s \<Longrightarrow> P (f x s)"
  shows "P (fold f xs s)"
  using assms by (induction xs arbitrary: s) auto

end
