(* ===== verification/Ring_Queue.thy ===== *)
theory Ring_Queue
  imports Prelude
begin

text \<open>
  The circular command queues of the daemon. \<open>srcp-gl.c\<close>, \<open>srcp-ga.c\<close>, \<open>srcp-sm.c\<close> and
  \<open>srcp-fb.c\<close> each declare an array \<open>queue[MAX_BUSES][QUEUELEN]\<close> with a write position
  \<open>in\<close> and a read position \<open>out\<close> per bus, and the same \<open>queue_len\<close>, \<open>queue_isfull\<close> and
  position arithmetic. The operations are stated once here over the length of the array;
  each component instantiates them with its own \<open>QUEUELEN\<close>. The interface that the
  components rely on is the locale \<open>bounded_fifo\<close>.
\<close>

section \<open>The array with its two positions\<close>

record 'a ring =
  slots :: "nat \<Rightarrow> 'a"
  inp :: nat
  outp :: nat

definition ring_empty :: "'a \<Rightarrow> 'a ring" where
  "ring_empty d = \<lparr>slots = (\<lambda>_. d), inp = 0, outp = 0\<rparr>"

definition ring_isempty :: "'a ring \<Rightarrow> bool" where
  "ring_isempty q \<longleftrightarrow> inp q = outp q"

definition ring_len :: "nat \<Rightarrow> 'a ring \<Rightarrow> nat" where
  "ring_len N q = (if inp q \<ge> outp q then inp q - outp q else N + inp q - outp q)"

definition ring_isfull :: "nat \<Rightarrow> 'a ring \<Rightarrow> bool" where
  "ring_isfull N q \<longleftrightarrow> ring_len N q \<ge> N - 1"

definition ring_advance :: "nat \<Rightarrow> nat \<Rightarrow> nat" where
  "ring_advance N i = (if Suc i = N then 0 else Suc i)"

definition ring_put :: "nat \<Rightarrow> 'a \<Rightarrow> 'a ring \<Rightarrow> 'a ring" where
  "ring_put N x q = q\<lparr>slots := (slots q)(inp q := x), inp := ring_advance N (inp q)\<rparr>"

definition ring_peek :: "'a ring \<Rightarrow> 'a" where
  "ring_peek q = slots q (outp q)"

definition ring_drop :: "nat \<Rightarrow> 'a ring \<Rightarrow> 'a ring" where
  "ring_drop N q = q\<lparr>outp := ring_advance N (outp q)\<rparr>"

section \<open>Abstraction: the occupied slots in order\<close>

definition ring_ok :: "nat \<Rightarrow> 'a ring \<Rightarrow> bool" where
  "ring_ok N q \<longleftrightarrow> inp q < N \<and> outp q < N"

definition ring_list :: "nat \<Rightarrow> 'a ring \<Rightarrow> 'a list" where
  "ring_list N q = map (\<lambda>k. slots q ((outp q + k) mod N)) [0..<ring_len N q]"

lemma length_ring_list [simp]: "length (ring_list N q) = ring_len N q"
  by (simp add: ring_list_def)

lemma ring_len_less: "ring_ok N q \<Longrightarrow> ring_len N q < N"
  by (auto simp: ring_ok_def ring_len_def)

lemma ring_advance_mod: "i < N \<Longrightarrow> ring_advance N i = Suc i mod N"
  by (auto simp: ring_advance_def)

lemma ring_ok_empty [simp]: "0 < N \<Longrightarrow> ring_ok N (ring_empty d)"
  by (simp add: ring_ok_def ring_empty_def)

lemma ring_list_empty [simp]: "ring_list N (ring_empty d) = []"
  by (simp add: ring_list_def ring_len_def ring_empty_def)

lemma ring_ok_put: "ring_ok N q \<Longrightarrow> ring_ok N (ring_put N x q)"
  by (auto simp: ring_ok_def ring_put_def ring_advance_def)

lemma ring_ok_drop: "ring_ok N q \<Longrightarrow> ring_ok N (ring_drop N q)"
  by (auto simp: ring_ok_def ring_drop_def ring_advance_def)

lemma ring_isempty_iff: "ring_ok N q \<Longrightarrow> ring_isempty q \<longleftrightarrow> ring_list N q = []"
  by (auto simp: ring_isempty_def ring_list_def ring_len_def ring_ok_def split: if_splits)

lemma ring_len_put:
  "ring_ok N q \<Longrightarrow> \<not> ring_isfull N q \<Longrightarrow> ring_len N (ring_put N x q) = Suc (ring_len N q)"
  by (auto simp: ring_len_def ring_put_def ring_ok_def ring_isfull_def ring_advance_def
      split: if_splits)

lemma ring_len_drop:
  "ring_ok N q \<Longrightarrow> \<not> ring_isempty q \<Longrightarrow> ring_len N q = Suc (ring_len N (ring_drop N q))"
  by (auto simp: ring_len_def ring_drop_def ring_ok_def ring_isempty_def ring_advance_def
      split: if_splits)

lemma ring_index_neq_inp:
  assumes "ring_ok N q" and "k < ring_len N q"
  shows "(outp q + k) mod N \<noteq> inp q"
proof (cases "outp q + k < N")
  case True
  with assms show ?thesis by (auto simp: ring_ok_def ring_len_def split: if_splits)
next
  case False
  with assms have "outp q + k - N < N" by (auto simp: ring_ok_def ring_len_def split: if_splits)
  with False have "(outp q + k) mod N = outp q + k - N"
    by (simp add: le_mod_geq)
  with False assms show ?thesis by (auto simp: ring_ok_def ring_len_def split: if_splits)
qed

lemma ring_inp_index:
  assumes "ring_ok N q"
  shows "(outp q + ring_len N q) mod N = inp q"
  using assms by (auto simp: ring_ok_def ring_len_def)

lemma ring_list_put:
  assumes ok: "ring_ok N q" and room: "\<not> ring_isfull N q"
  shows "ring_list N (ring_put N x q) = ring_list N q @ [x]"
proof -
  have "map (\<lambda>k. ((slots q)(inp q := x)) ((outp q + k) mod N)) [0..<ring_len N q]
      = map (\<lambda>k. slots q ((outp q + k) mod N)) [0..<ring_len N q]"
    using ring_index_neq_inp [OF ok] by simp
  then show ?thesis
    using ring_len_put [OF ok room, of x] ring_inp_index [OF ok]
    by (simp add: ring_list_def ring_put_def)
qed

lemma ring_list_drop:
  assumes ok: "ring_ok N q" and ne: "\<not> ring_isempty q"
  shows "ring_list N q = ring_peek q # ring_list N (ring_drop N q)"
proof -
  have N: "outp q < N" "0 < N" using ok by (auto simp: ring_ok_def)
  have shift: "(ring_advance N (outp q) + k) mod N = (outp q + Suc k) mod N" for k
    using N by (simp add: ring_advance_mod mod_simps)
  have "[0..<ring_len N q] = 0 # map Suc [0..<ring_len N (ring_drop N q)]"
    unfolding ring_len_drop [OF ok ne] by (simp add: upt_conv_Cons map_Suc_upt del: upt_Suc)
  then have "ring_list N q = map (\<lambda>k. slots q ((outp q + k) mod N))
      (0 # map Suc [0..<ring_len N (ring_drop N q)])"
    by (simp only: ring_list_def)
  then show ?thesis
    using N shift by (simp add: ring_list_def ring_peek_def ring_drop_def o_def)
qed

section \<open>The interface\<close>

text \<open>One producer or consumer access; a put on a full queue is refused.\<close>

datatype 'a fifo_op = Put 'a | Take

fun fifo_run :: "('q \<Rightarrow> bool) \<Rightarrow> ('q \<Rightarrow> bool) \<Rightarrow> ('a \<Rightarrow> 'q \<Rightarrow> 'q) \<Rightarrow> ('q \<Rightarrow> 'a) \<Rightarrow> ('q \<Rightarrow> 'q) \<Rightarrow>
    'a fifo_op list \<Rightarrow> 'q \<Rightarrow> 'a list \<times> 'a list \<times> 'q" where
  "fifo_run ie if' pt pk dr [] q = ([], [], q)"
| "fifo_run ie if' pt pk dr (Put x # ops) q =
     (if if' q then fifo_run ie if' pt pk dr ops q
      else case fifo_run ie if' pt pk dr ops (pt x q) of (acc, del, q') \<Rightarrow> (x # acc, del, q'))"
| "fifo_run ie if' pt pk dr (Take # ops) q =
     (if ie q then fifo_run ie if' pt pk dr ops q
      else case fifo_run ie if' pt pk dr ops (dr q) of (acc, del, q') \<Rightarrow> (acc, pk q # del, q'))"

locale bounded_fifo =
  fixes cap :: nat
    and inv :: "'q \<Rightarrow> bool"
    and contents :: "'q \<Rightarrow> 'a list"
    and isempty :: "'q \<Rightarrow> bool"
    and isfull :: "'q \<Rightarrow> bool"
    and put :: "'a \<Rightarrow> 'q \<Rightarrow> 'q"
    and peek :: "'q \<Rightarrow> 'a"
    and drop1 :: "'q \<Rightarrow> 'q"
  assumes isempty_law: "inv q \<Longrightarrow> isempty q \<longleftrightarrow> contents q = []"
    and isfull_law: "inv q \<Longrightarrow> isfull q \<longleftrightarrow> cap \<le> length (contents q)"
    and bound_law: "inv q \<Longrightarrow> length (contents q) \<le> cap"
    and put_law: "inv q \<Longrightarrow> \<not> isfull q \<Longrightarrow> contents (put x q) = contents q @ [x]"
    and put_inv: "inv q \<Longrightarrow> inv (put x q)"
    and drop_law: "inv q \<Longrightarrow> \<not> isempty q \<Longrightarrow> contents q = peek q # contents (drop1 q)"
    and drop_inv: "inv q \<Longrightarrow> inv (drop1 q)"
begin

lemma run_fifo:
  assumes "inv q" and "fifo_run isempty isfull put peek drop1 ops q = (acc, del, q')"
  shows "inv q' \<and> del @ contents q' = contents q @ acc"
  using assms
proof (induction ops arbitrary: q acc del)
  case Nil
  then show ?case by auto
next
  case (Cons oper ops)
  show ?case
  proof (cases oper)
    case (Put x)
    show ?thesis
    proof (cases "isfull q")
      case True
      with Put Cons show ?thesis by simp
    next
      case False
      with Put Cons.prems obtain acc' where
        run: "fifo_run isempty isfull put peek drop1 ops (put x q) = (acc', del, q')" and
        acc: "acc = x # acc'"
        by (auto split: prod.splits)
      from Cons.IH [OF put_inv [OF Cons.prems(1)] run] acc put_law [OF Cons.prems(1) False]
      show ?thesis by simp
    qed
  next
    case Take
    show ?thesis
    proof (cases "isempty q")
      case True
      with Take Cons show ?thesis by simp
    next
      case False
      with Take Cons.prems obtain del' where
        run: "fifo_run isempty isfull put peek drop1 ops (drop1 q) = (acc, del', q')" and
        del: "del = peek q # del'"
        by (auto split: prod.splits)
      from Cons.IH [OF drop_inv [OF Cons.prems(1)] run] del drop_law [OF Cons.prems(1) False]
      show ?thesis by simp
    qed
  qed
qed

lemma put_take_single:
  assumes "inv q" and "contents q = []" and "0 < cap"
  shows "peek (put x q) = x \<and> contents (drop1 (put x q)) = []"
proof -
  have "\<not> isfull q" using assms by (simp add: isfull_law)
  then have c: "contents (put x q) = [x]" using assms put_law by simp
  then have "\<not> isempty (put x q)" using isempty_law put_inv [OF assms(1)] by simp
  from drop_law [OF put_inv [OF assms(1)] this] c show ?thesis by simp
qed

end

text \<open>A ring over an array of \<open>N\<close> slots is a FIFO of capacity \<open>N - 1\<close>.\<close>

lemma ring_bounded_fifo:
  "bounded_fifo (N - 1) (ring_ok N) (ring_list N) ring_isempty (ring_isfull N)
     (ring_put N) ring_peek (ring_drop N)"
proof
  fix q :: "'a ring" and x :: 'a
  assume ok: "ring_ok N q"
  show "ring_isempty q \<longleftrightarrow> ring_list N q = []" by (rule ring_isempty_iff [OF ok])
  show "ring_isfull N q \<longleftrightarrow> N - 1 \<le> length (ring_list N q)" by (simp add: ring_isfull_def)
  show "length (ring_list N q) \<le> N - 1" using ring_len_less [OF ok] by simp
  show "ring_ok N (ring_put N x q)" by (rule ring_ok_put [OF ok])
  show "ring_ok N (ring_drop N q)" by (rule ring_ok_drop [OF ok])
  show "\<not> ring_isfull N q \<Longrightarrow> ring_list N (ring_put N x q) = ring_list N q @ [x]"
    by (rule ring_list_put [OF ok])
  show "\<not> ring_isempty q \<Longrightarrow> ring_list N q = ring_peek q # ring_list N (ring_drop N q)"
    by (rule ring_list_drop [OF ok])
qed

section \<open>Command queues\<close>

text \<open>
  What a device group promises of its command queue: a request that is answered with the
  success code appends one entry that carries the request, any other answer leaves the queue
  alone, and the bus thread takes the entries from the front. \<open>matches r e\<close> says that entry
  \<open>e\<close> carries request \<open>r\<close>.
\<close>

datatype 'r queue_op = Enq 'r | Deq

fun queue_run :: "'c \<Rightarrow> ('r \<Rightarrow> 's \<Rightarrow> 'c \<times> 's) \<Rightarrow> ('s \<Rightarrow> 'e option \<times> 's) \<Rightarrow> 'r queue_op list \<Rightarrow> 's \<Rightarrow>
    'r list \<times> 'e list \<times> 's" where
  "queue_run ok enq deq [] s = ([], [], s)"
| "queue_run ok enq deq (Enq r # ops) s =
     (case queue_run ok enq deq ops (snd (enq r s)) of
        (acc, del, s') \<Rightarrow> (if fst (enq r s) = ok then r # acc else acc, del, s'))"
| "queue_run ok enq deq (Deq # ops) s =
     (case queue_run ok enq deq ops (snd (deq s)) of
        (acc, del, s') \<Rightarrow> (acc, (case fst (deq s) of None \<Rightarrow> del | Some e \<Rightarrow> e # del), s'))"

locale command_queue =
  fixes ok :: 'c
    and inv :: "'s \<Rightarrow> bool"
    and contents :: "'s \<Rightarrow> 'e list"
    and matches :: "'r \<Rightarrow> 'e \<Rightarrow> bool"
    and enq :: "'r \<Rightarrow> 's \<Rightarrow> 'c \<times> 's"
    and deq :: "'s \<Rightarrow> 'e option \<times> 's"
  assumes enq_inv: "inv s \<Longrightarrow> inv (snd (enq r s))"
    and enq_ok: "inv s \<Longrightarrow> fst (enq r s) = ok \<Longrightarrow>
          \<exists>e. matches r e \<and> contents (snd (enq r s)) = contents s @ [e]"
    and enq_refused: "inv s \<Longrightarrow> fst (enq r s) \<noteq> ok \<Longrightarrow> contents (snd (enq r s)) = contents s"
    and deq_inv: "inv s \<Longrightarrow> inv (snd (deq s))"
    and deq_empty: "inv s \<Longrightarrow> contents s = [] \<Longrightarrow> fst (deq s) = None \<and> contents (snd (deq s)) = []"
    and deq_front: "inv s \<Longrightarrow> contents s = e # es \<Longrightarrow>
          fst (deq s) = Some e \<and> contents (snd (deq s)) = es"
begin

lemma deq_contents:
  "inv s \<Longrightarrow> contents s = (case fst (deq s) of None \<Rightarrow> [] | Some e \<Rightarrow> [e]) @ contents (snd (deq s))"
  using deq_empty [of s] deq_front [of s] by (cases "contents s") auto

lemma run_in_order:
  assumes "inv s" and "queue_run ok enq deq ops s = (acc, del, s')"
  shows "inv s' \<and> (\<exists>es. del @ contents s' = contents s @ es \<and> list_all2 matches acc es)"
  using assms
proof (induction ops arbitrary: s acc del)
  case Nil
  then show ?case by auto
next
  case (Cons oper ops)
  show ?case
  proof (cases oper)
    case (Enq r)
    obtain acc' where run: "queue_run ok enq deq ops (snd (enq r s)) = (acc', del, s')"
      and acc: "acc = (if fst (enq r s) = ok then r # acc' else acc')"
      using Enq Cons.prems(2) by (auto split: prod.splits)
    from Cons.IH [OF enq_inv [OF Cons.prems(1)] run] obtain es where
      es: "inv s'" "del @ contents s' = contents (snd (enq r s)) @ es" "list_all2 matches acc' es"
      by blast
    show ?thesis
    proof (cases "fst (enq r s) = ok")
      case True
      with enq_ok [OF Cons.prems(1)] obtain e where
        "matches r e" "contents (snd (enq r s)) = contents s @ [e]" by blast
      with es acc True have "del @ contents s' = contents s @ e # es" "list_all2 matches acc (e # es)"
        by simp_all
      with es(1) show ?thesis by blast
    next
      case False
      with es acc enq_refused [OF Cons.prems(1)] show ?thesis by auto
    qed
  next
    case Deq
    obtain del' where run: "queue_run ok enq deq ops (snd (deq s)) = (acc, del', s')"
      and del: "del = (case fst (deq s) of None \<Rightarrow> del' | Some e \<Rightarrow> e # del')"
      using Deq Cons.prems(2) by (auto split: prod.splits)
    from Cons.IH [OF deq_inv [OF Cons.prems(1)] run] deq_contents [OF Cons.prems(1)] del
    show ?thesis by (auto split: option.splits)
  qed
qed

end

end
