(* ===== verification/Srcp_Types.thy ===== *)
theory Srcp_Types
  imports Ring_Queue
begin

text \<open>
  The data model of the daemon \<open>basrcpd\<close>: the structures of \<open>srcp-gl.h\<close>, \<open>srcp-ga.h\<close>,
  \<open>srcp-fb.h\<close>, \<open>srcp-sm.h\<close>, \<open>srcp-time.h\<close>, \<open>srcp-session.h\<close>, \<open>srcp-server.h\<close> and
  \<open>config-srcpd.h\<close>, the result codes of \<open>srcp-error.h\<close>, and the record \<open>srcpd\<close> of all
  global variables. An array indexed by bus or address is a function on \<open>nat\<close>; its allocated
  range is kept beside it (\<open>numberOfGa\<close>, \<open>numberOfGl\<close>, \<open>numberOfFb\<close>). An access outside an
  allocation, or through a null or freed pointer, has no defined behaviour in C: it raises the
  sticky flag \<open>ub\<close>, and nothing is claimed about a run whose flag is raised. The wall clock is a field that the environment advances between
  operations; within one operation every \<open>gettimeofday\<close> reads that field. Logging
  (\<open>syslog_bus\<close>, \<open>syslog_session\<close>) and the mutexes around single assignments leave no trace
  in the state.
\<close>

type_synonym bus_t = nat
type_synonym sessionid_t = nat

definition MAX_BUSES :: nat where [simp, code_unfold]: "MAX_BUSES = 8"

section \<open>Result codes\<close>

definition SRCP_INFO :: int where [code_unfold]: "SRCP_INFO = 100"
definition SRCP_OK :: int where [code_unfold]: "SRCP_OK = 200"
definition SRCP_OK_PROTOCOL :: int where [code_unfold]: "SRCP_OK_PROTOCOL = 201"
definition SRCP_OK_CONNMODE :: int where [code_unfold]: "SRCP_OK_CONNMODE = 202"
definition SRCP_HS_WRONGPROTOCOL :: int where [code_unfold]: "SRCP_HS_WRONGPROTOCOL = 400"
definition SRCP_HS_WRONGCONNMODE :: int where [code_unfold]: "SRCP_HS_WRONGCONNMODE = 401"
definition SRCP_HS_NODATA :: int where [code_unfold]: "SRCP_HS_NODATA = 402"
definition SRCP_UNKNOWNCOMMAND :: int where [code_unfold]: "SRCP_UNKNOWNCOMMAND = 410"
definition SRCP_UNKNOWNVALUE :: int where [code_unfold]: "SRCP_UNKNOWNVALUE = 411"
definition SRCP_WRONGVALUE :: int where [code_unfold]: "SRCP_WRONGVALUE = 412"
definition SRCP_TEMPORARILYPROHIBITED :: int where
  [code_unfold]: "SRCP_TEMPORARILYPROHIBITED = 413"
definition SRCP_DEVICELOCKED :: int where [code_unfold]: "SRCP_DEVICELOCKED = 414"
definition SRCP_FORBIDDEN :: int where [code_unfold]: "SRCP_FORBIDDEN = 415"
definition SRCP_NODATA :: int where [code_unfold]: "SRCP_NODATA = 416"
definition SRCP_TIMEOUT :: int where [code_unfold]: "SRCP_TIMEOUT = 417"
definition SRCP_LISTTOOLONG :: int where [code_unfold]: "SRCP_LISTTOOLONG = 418"
definition SRCP_LISTTOOSHORT :: int where [code_unfold]: "SRCP_LISTTOOSHORT = 419"
definition SRCP_UNSUPPORTEDDEVICEPROTOCOL :: int where
  [code_unfold]: "SRCP_UNSUPPORTEDDEVICEPROTOCOL = 420"
definition SRCP_UNSUPPORTEDDEVICE :: int where [code_unfold]: "SRCP_UNSUPPORTEDDEVICE = 421"
definition SRCP_UNSUPPORTEDDEVICEGROUP :: int where
  [code_unfold]: "SRCP_UNSUPPORTEDDEVICEGROUP = 422"
definition SRCP_UNSUPPORTEDOPERATION :: int where
  [code_unfold]: "SRCP_UNSUPPORTEDOPERATION = 423"
definition SRCP_DEVICEREINITIALIZED :: int where
  [code_unfold]: "SRCP_DEVICEREINITIALIZED = 424"
definition SRCP_OUTOFRESOURCES :: int where [code_unfold]: "SRCP_OUTOFRESOURCES = 500"

lemmas srcp_codes =
  SRCP_INFO_def SRCP_OK_def SRCP_OK_PROTOCOL_def SRCP_OK_CONNMODE_def
  SRCP_HS_WRONGPROTOCOL_def SRCP_HS_WRONGCONNMODE_def SRCP_HS_NODATA_def
  SRCP_UNKNOWNCOMMAND_def SRCP_UNKNOWNVALUE_def SRCP_WRONGVALUE_def
  SRCP_TEMPORARILYPROHIBITED_def SRCP_DEVICELOCKED_def SRCP_FORBIDDEN_def SRCP_NODATA_def
  SRCP_TIMEOUT_def SRCP_LISTTOOLONG_def SRCP_LISTTOOSHORT_def
  SRCP_UNSUPPORTEDDEVICEPROTOCOL_def SRCP_UNSUPPORTEDDEVICE_def
  SRCP_UNSUPPORTEDDEVICEGROUP_def SRCP_UNSUPPORTEDOPERATION_def
  SRCP_DEVICEREINITIALIZED_def SRCP_OUTOFRESOURCES_def

section \<open>Generic locomotives\<close>

definition MAXMFXGL :: int where [code_unfold]: "MAXMFXGL = 16380"
definition MAXNMRAGL :: int where [code_unfold]: "MAXNMRAGL = 10240"
definition MAXMMGL :: int where [code_unfold]: "MAXMMGL = 256"
definition MAXSRCPGL :: int where [code_unfold]: "MAXSRCPGL = 256"

definition SCSPEED :: int where [code_unfold]: "SCSPEED = 1"
definition SCDIREC :: int where [code_unfold]: "SCDIREC = 2"
definition SCEMERG :: int where [code_unfold]: "SCEMERG = 4"

lemmas gl_consts = MAXMFXGL_def MAXNMRAGL_def MAXMMGL_def MAXSRCPGL_def
  SCSPEED_def SCDIREC_def SCEMERG_def

datatype gl_state_t = glsNone | glsTerm | glsInit | glsActive

record gl_dir_t =
  mfxdir :: "nat \<Rightarrow> nat"
  nmradir :: "nat \<Rightarrow> nat"
  mmdir :: "nat \<Rightarrow> nat"
  proto :: "nat \<Rightarrow> char"

record gl_data_t =
  gl_state :: gl_state_t
  gl_protocol :: char
  gl_protocolversion :: int
  gl_n_func :: int
  gl_id :: int
  gl_n_fs :: int
  gl_speed :: int
  gl_direction :: int
  gl_funcs :: int
  gl_funcschange :: int
  gl_speedchange :: int
  gl_cachedspeed :: int
  gl_cacheddirection :: int
  gl_lastfunc :: int
  gl_updatime :: timeval
  gl_inittime :: timeval
  gl_locktime :: timeval
  gl_lockduration :: int
  gl_locked_by :: sessionid_t
  gl_decuid :: int

definition nul :: char where [simp, code_unfold]: "nul = CHR 0x00"

definition tv0 :: timeval where [code_unfold]: "tv0 = \<lparr>tv_sec = 0, tv_usec = 0\<rparr>"

text \<open>The all-zero structure of \<open>bzero\<close>.\<close>

definition gl_zero :: gl_data_t where
  "gl_zero = \<lparr>gl_state = glsNone, gl_protocol = CHR 0x00, gl_protocolversion = 0, gl_n_func = 0,
     gl_id = 0, gl_n_fs = 0, gl_speed = 0, gl_direction = 0, gl_funcs = 0, gl_funcschange = 0,
     gl_speedchange = 0, gl_cachedspeed = 0, gl_cacheddirection = 0, gl_lastfunc = 0, gl_updatime = tv0,
     gl_inittime = tv0, gl_locktime = tv0, gl_lockduration = 0, gl_locked_by = 0,
     gl_decuid = 0\<rparr>"

definition gldir_zero :: gl_dir_t where
  "gldir_zero = \<lparr>mfxdir = (\<lambda>_. 0), nmradir = (\<lambda>_. 0), mmdir = (\<lambda>_. 0), proto = (\<lambda>_. CHR 0x00)\<rparr>"

text \<open>
  One bus of locomotives: the table \<open>glstate[0..numberOfGl]\<close>, the directory (\<open>None\<close> for the
  null pointer), and the command queue, whose entries are pointers into \<open>glstate\<close>, that is,
  indices.
\<close>

record gl_bus =
  numberOfGl :: int
  glstate :: "nat \<Rightarrow> gl_data_t"
  gldir :: "gl_dir_t option"
  gl_queue :: "nat ring"

section \<open>Generic accessories\<close>

definition MAXGAPORT :: nat where [code_unfold]: "MAXGAPORT = 2"

datatype ga_state_t = gasNone | gasActive | gasTerm

record ga_data_t =
  ga_state :: ga_state_t
  ga_protocol :: char
  ga_id :: int
  ga_port :: int
  ga_action :: int
  ga_activetime :: int
  ga_inittime :: timeval
  ga_tv :: "nat \<Rightarrow> timeval"
  ga_t :: timeval
  ga_locktime :: timeval
  ga_locked_by :: sessionid_t
  ga_lockduration :: int

definition ga_zero :: ga_data_t where
  "ga_zero = \<lparr>ga_state = gasNone, ga_protocol = CHR 0x00, ga_id = 0, ga_port = 0, ga_action = 0,
     ga_activetime = 0, ga_inittime = tv0, ga_tv = (\<lambda>_. tv0), ga_t = tv0, ga_locktime = tv0,
     ga_locked_by = 0, ga_lockduration = 0\<rparr>"

record ga_bus =
  numberOfGa :: int
  gastate :: "nat \<Rightarrow> ga_data_t"
  ga_queue :: "ga_data_t ring"

section \<open>Feedback contacts\<close>

record fb_state_t =
  fb_timestamp :: timeval
  fb_state :: int
  fb_change :: int

record fb_reset_t =
  reset_port :: int
  reset_timestamp :: timeval

record fb_bus =
  numberOfFb :: int
  fbstate :: "nat \<Rightarrow> fb_state_t"
  min_time :: int
  reset_queue :: "fb_reset_t ring"

section \<open>Service mode\<close>

datatype sm_protocol_t = PROTO_NONE | PROTO_NMRA | PROTO_MM | PROTO_MFX
datatype sm_command_t = SET | GET | VERIFY | INIT | TERM
datatype sm_type_t = REGISTER | PAGE | CV | CV_BIT | MM_REG | MM_REG_UB | BIND_MFX | CV_MFX
  | NO_TYPE \<comment> \<open>the value -1 that INIT and TERM pass\<close>

record sm_t =
  sm_protocol :: sm_protocol_t
  sm_type :: sm_type_t
  sm_command :: sm_command_t
  sm_protocolversion :: int
  sm_addr :: int
  sm_cvaddr :: int
  sm_index :: int
  sm_value :: int
  sm_tv :: timeval

section \<open>Sessions\<close>

datatype session_mode = smUndefined | smCommand | smInfo

text \<open>
  A node of the session list. \<open>pipefd1\<close> is the write end of the info pipe (\<open>-1\<close> while there
  is none) and \<open>pipe\<close> the messages written to it; \<open>freed\<close> marks a node that has been given
  back to the allocator, whose use raises \<open>ub\<close>.
\<close>

record session_node_t =
  session :: sessionid_t
  thread :: nat
  sock :: int
  mode :: session_mode
  pipefd0 :: int
  pipefd1 :: int
  pipe :: "string list"
  freed :: bool

section \<open>Model time and server state\<close>

record vtime_t =
  vt_day :: int
  vt_hour :: int
  vt_min :: int
  vt_sec :: int

record time_distort_t =
  ratio_x :: int
  ratio_y :: int
  td_inittime :: timeval

datatype server_state_t = ssInitializing | ssRunning | ssTerminating | ssResetting

section \<open>Buses\<close>

text \<open>
  The driver callbacks are fields, as the C function pointers are: \<open>None\<close> is the null
  pointer, and a callback returns its result code with the structure it was given a pointer to.
\<close>

record bus_data_t =
  bus_protocols :: "string option"
  bus_description :: string
  bus_flags :: int
  power_state :: int
  power_changed :: int
  power_change_time :: timeval
  power_msg :: string
  watchdog :: int
  init_gl_func :: "(gl_data_t \<Rightarrow> string option \<Rightarrow> int \<times> gl_data_t) option"
  init_ga_func :: "(ga_data_t \<Rightarrow> int \<times> ga_data_t) option"
  init_fb_func :: "(nat \<Rightarrow> int \<Rightarrow> char \<Rightarrow> int \<Rightarrow> int) option"
  describe_gl_func :: "(gl_data_t \<Rightarrow> string \<Rightarrow> string) option"

record can_frame =
  can_id :: int
  can_dlc :: int
  can_data :: "int list"

section \<open>The daemon\<close>

record srcpd =
  ub :: bool
  clock :: timeval
  num_buses :: nat
  buses :: "nat \<Rightarrow> bus_data_t"
  session_list :: "session_node_t list"
  lastsession :: nat
  runningsessions :: int
  commandsessions :: int
  gl :: "nat \<Rightarrow> gl_bus"
  ga :: "nat \<Rightarrow> ga_bus"
  fb :: "nat \<Rightarrow> fb_bus"
  sm_queue :: "nat \<Rightarrow> sm_t ring"
  vtime :: vtime_t
  distort :: time_distort_t
  server_state :: server_state_t
  mcs_bus :: nat
  ownuid :: int
  ownhash :: int
  pingactive :: int
  mcs_out :: "can_frame list"

definition raise_ub :: "srcpd \<Rightarrow> srcpd" where
  "raise_ub s = s\<lparr>ub := True\<rparr>"

text \<open>Writing one bus of a per-bus array.\<close>

definition upd_gl :: "bus_t \<Rightarrow> (gl_bus \<Rightarrow> gl_bus) \<Rightarrow> srcpd \<Rightarrow> srcpd" where
  "upd_gl b f s = s\<lparr>gl := (gl s)(b := f (gl s b))\<rparr>"

definition upd_ga :: "bus_t \<Rightarrow> (ga_bus \<Rightarrow> ga_bus) \<Rightarrow> srcpd \<Rightarrow> srcpd" where
  "upd_ga b f s = s\<lparr>ga := (ga s)(b := f (ga s b))\<rparr>"

definition upd_fb :: "bus_t \<Rightarrow> (fb_bus \<Rightarrow> fb_bus) \<Rightarrow> srcpd \<Rightarrow> srcpd" where
  "upd_fb b f s = s\<lparr>fb := (fb s)(b := f (fb s b))\<rparr>"

definition upd_bus :: "bus_t \<Rightarrow> (bus_data_t \<Rightarrow> bus_data_t) \<Rightarrow> srcpd \<Rightarrow> srcpd" where
  "upd_bus b f s = s\<lparr>buses := (buses s)(b := f (buses s b))\<rparr>"

section \<open>Program start\<close>

text \<open>
  The static initial values: \<open>num_buses = 1\<close> and everything else zero, before any
  configuration is read.
\<close>

definition sm_zero :: sm_t where
  "sm_zero = \<lparr>sm_protocol = PROTO_NONE, sm_type = REGISTER, sm_command = SET,
     sm_protocolversion = 0, sm_addr = 0, sm_cvaddr = 0, sm_index = 0, sm_value = 0, sm_tv = tv0\<rparr>"

definition bus_zero :: bus_data_t where
  "bus_zero = \<lparr>bus_protocols = None, bus_description = [], bus_flags = 0, power_state = 0,
     power_changed = 0, power_change_time = tv0, power_msg = [], watchdog = 0,
     init_gl_func = None, init_ga_func = None, init_fb_func = None, describe_gl_func = None\<rparr>"

definition gl_bus_zero :: gl_bus where
  "gl_bus_zero = \<lparr>numberOfGl = 0, glstate = (\<lambda>_. gl_zero), gldir = None,
     gl_queue = ring_empty 0\<rparr>"

definition ga_bus_zero :: ga_bus where
  "ga_bus_zero = \<lparr>numberOfGa = 0, gastate = (\<lambda>_. ga_zero), ga_queue = ring_empty ga_zero\<rparr>"

definition fb_bus_zero :: fb_bus where
  "fb_bus_zero = \<lparr>numberOfFb = 0,
     fbstate = (\<lambda>_. \<lparr>fb_timestamp = tv0, fb_state = 0, fb_change = 0\<rparr>), min_time = 0,
     reset_queue = ring_empty \<lparr>reset_port = 0, reset_timestamp = tv0\<rparr>\<rparr>"

definition srcpd_init :: srcpd where
  "srcpd_init = \<lparr>ub = False, clock = tv0, num_buses = 1, buses = (\<lambda>_. bus_zero),
     session_list = [], lastsession = 0, runningsessions = 0, commandsessions = 0,
     gl = (\<lambda>_. gl_bus_zero), ga = (\<lambda>_. ga_bus_zero), fb = (\<lambda>_. fb_bus_zero),
     sm_queue = (\<lambda>_. ring_empty sm_zero),
     vtime = \<lparr>vt_day = 0, vt_hour = 0, vt_min = 0, vt_sec = 0\<rparr>,
     distort = \<lparr>ratio_x = 0, ratio_y = 0, td_inittime = tv0\<rparr>, server_state = ssInitializing,
     mcs_bus = 0, ownuid = 0, ownhash = 0, pingactive = 0, mcs_out = []\<rparr>"

end
