(* ===== verification/Ddl_Signal.thy ===== *)
theory Ddl_Signal
  imports Srcp_Types "HOL-Library.Sublist"
begin

unbundle bit_operations_syntax

text \<open>
  The signal side of the bus driver \<open>ddl.c\<close>: the data of a bus (\<open>DDL_DATA\<close>), the packet pools of the
  three track protocols, and \<open>send_packet\<close>, which turns a packet into the bytes that the SPI
  interface shifts out to the track. A packet and an SPI buffer are lists of bytes between 0 and
  255: plain \<open>char\<close> is unsigned on the ARM boards for which the driver is written.

  The hardware is visible through \<open>ioctl_ok\<close> (whether the \<open>k\<close>th transfer succeeds), \<open>spi_rx\<close> (what it
  receives) and \<open>comport\<close> (what the \<open>k\<close>th read of the feedback port returns); \<open>transfers\<close> records the
  transfers made, each with its clock rate, and \<open>feedback\<close> what is written to the feedback pipe.
  \<open>ddl_ub\<close> is set by an access outside of the packet pools.
\<close>

section \<open>Data\<close>

type_synonym bytes = "int list"

definition PKTSIZE :: nat where [code_unfold]: "PKTSIZE = 80"

datatype pkt_type = QM1LOCOPKT | QM2LOCOPKT | QM2FXPKT | QM1FUNCPKT | QM1SOLEPKT | QMSEARCH20 | QMSEARCH40
  | QNBLOCOPKT | QNBACCPKT | QNPROGPKT
  | QMFX0PKT | QMFX1PKTD | QMFX1PKTV | QMFX8PKT | QMFX16PKT | QMFX32PKT

text \<open>A pointer \<open>glptr\<close> into the locomotive table of the bus is an index.\<close>

record tMaerklinPacket =
  mm_glptr :: nat
  mm_packet :: bytes
  mm_f_packets :: "nat \<Rightarrow> bytes"

record tNMRAPacket =
  nmra_glptr :: nat
  nmra_packet :: bytes
  nmra_fx_packet :: bytes

record tMFXPacket =
  mfx_glptr :: nat
  mfx_packet :: bytes

record 'p packet_pool =
  packets :: "nat \<Rightarrow> 'p option"
  knownAddresses :: "nat \<Rightarrow> int"
  NrOfKnownAddresses :: nat

record tRefreshInfo =
  last_refreshed_maerklin_loco :: nat
  last_refreshed_maerklin_fx :: int
  last_refreshed_nmra_loco :: nat
  last_refreshed_mfx_loco :: nat
  protocol_refresh :: int

record tFbData =
  pktcode :: int
  fbbytnum :: nat
  fb_uid :: int
  fbcollect :: int
  canfbdata :: "nat \<Rightarrow> int"
  canask :: int
  serask :: int
  serfbdata :: "nat \<Rightarrow> int"

record ddl_data =
  ownbusnr :: nat
  CHECKSHORT :: int
  SHORTCUTDELAY :: int
  CHECKCLIENTS :: bool
  ENABLED_PROTOCOLS :: int
  NMRA_GA_OFFSET :: int
  PROGRAM_TRACK :: bool
  BOOSTER_COMM :: bool
  AUTO_MFX_SEARCH :: bool
  FWD_M_ACCESSORIES :: nat
  FWD_N_ACCESSORIES :: nat
  spiLastMM :: bool
  station_uid :: int
  short_detected :: int
  refreshInfo :: tRefreshInfo
  refreshInfoFast :: tRefreshInfo
  lastRefreshFast :: bool
  allowSM :: bool
  resumeSM :: "sm_protocol_t option"
  pgtrkonly :: sm_protocol_t
  NMRAPacketPool :: "tNMRAPacket packet_pool"
  MaerklinPacketPool :: "tMaerklinPacket packet_pool"
  MFXPacketPool :: "tMFXPacket packet_pool"
  fbData :: tFbData
  waitread :: nat
  feedback :: "int list"
  ioctls :: nat
  ioctl_ok :: "nat \<Rightarrow> bool"
  spi_rx :: "nat \<Rightarrow> bytes"
  comreads :: nat
  comport :: "nat \<Rightarrow> bytes"
  transfers :: "(nat \<times> bytes) list"
  ddl_ub :: bool

section \<open>Motorola format\<close>

definition SPI_BAUDRATE_MAERKLIN_LOCO_2 :: nat where [code_unfold]: "SPI_BAUDRATE_MAERKLIN_LOCO_2 = 76922"
definition SPI_BAUDRATE_MAERKLIN_FUNC_2 :: nat where [code_unfold]: "SPI_BAUDRATE_MAERKLIN_FUNC_2 = 153844"

text \<open>The bits of the four bytes in the order in which they are sent.\<close>

definition mmcodetab :: "int list" where
  "mmcodetab = [0x01, 0x02, 0x04, 0x08, 0x10, 0x20, 0x40, 0x80, 0x100, 0x200,
     0x10000, 0x1000000, 0x20000, 0x2000000, 0x40000, 0x4000000, 0x80000, 0x8000000]"

definition mm_word :: "bytes \<Rightarrow> int" where
  "mm_word p = p ! 0 + 256 * p ! 1 + 65536 * p ! 2 + 16777216 * p ! 3"

definition mm_code :: "pkt_type \<Rightarrow> bytes \<Rightarrow> bytes" where
  "mm_code ty p = concat (map (\<lambda>m.
     if mm_word p AND m \<noteq> 0 then [0xFF, 0xFC]
     else [if ty = QM1FUNCPKT \<or> ty = QM1SOLEPKT then 0xE0 else 0xC0, 0x00]) mmcodetab)"

definition mm_timing :: "pkt_type \<Rightarrow> nat \<times> nat \<times> nat" where
  "mm_timing ty =
     (if ty \<in> {QM1FUNCPKT, QM1SOLEPKT, QMSEARCH40} then (12, 59, SPI_BAUDRATE_MAERKLIN_FUNC_2)
      else (12, 42, SPI_BAUDRATE_MAERKLIN_LOCO_2))"

definition mm_stream :: "pkt_type \<Rightarrow> bytes \<Rightarrow> bytes" where
  "mm_stream ty p =
     (let (pause_btw, pause_end, hz) = mm_timing ty
      in replicate 2 0 @ mm_code ty p @ replicate pause_btw 0 @ mm_code ty p @ replicate pause_end 0)"

section \<open>NMRA format\<close>

definition SPI_BAUDRATE_NMRA_2 :: nat where [code_unfold]: "SPI_BAUDRATE_NMRA_2 = 137932"

definition dcc_bit :: "bool \<Rightarrow> bytes" where
  "dcc_bit b = (if b then [0xFF, 0x00] else [0xFF, 0xFF, 0x00, 0x00])"

text \<open>Packets of the short format: length of the preamble, number of bytes, bytes.\<close>

definition convNMRAPacketToSPIStream :: "bytes \<Rightarrow> bytes" where
  "convNMRAPacketToSPIStream p =
     [0x00] @ concat (replicate (nat (p ! 0)) (dcc_bit True))
     @ concat (map (\<lambda>i. dcc_bit False
         @ concat (map (\<lambda>m. dcc_bit (p ! (i + 2) AND m \<noteq> 0)) [0x80, 0x40, 0x20, 0x10, 0x08, 0x04, 0x02, 0x01]))
         [0..<nat (p ! 1)])
     @ concat (replicate 3 (dcc_bit True))"

text \<open>Packets of the long format: number of bits, bits; the first eight of them are ones.\<close>

definition convertNMRAPacketToSPIStream :: "bytes \<Rightarrow> bytes" where
  "convertNMRAPacketToSPIStream p =
     (if p ! 1 \<noteq> 0xFF then convNMRAPacketToSPIStream p
      else [0x00] @ concat (map (\<lambda>i. dcc_bit (p ! (i div 8 + 1) AND 2 ^ (i mod 8) \<noteq> 0)) [0..<nat (p ! 0)])
           @ dcc_bit True)"

section \<open>mfx format\<close>

definition SPI_BAUDRATE_MFX_2 :: nat where [code_unfold]: "SPI_BAUDRATE_MFX_2 = 160000"
definition MFX_STARTSTOP_0_BYTES :: nat where [code_unfold]: "MFX_STARTSTOP_0_BYTES = 8"
definition MFX_SYNC_COUNT_RDS :: nat where [code_unfold]: "MFX_SYNC_COUNT_RDS = 11"
definition MFX_RDS_SYNC_IMPULS_COUNT :: nat where [code_unfold]: "MFX_RDS_SYNC_IMPULS_COUNT = 23"
definition BITS_PER_RDSSYNC_PER :: nat where [code_unfold]: "BITS_PER_RDSSYNC_PER = 912 * 160000 div 1000000 + 1"
definition BITS_PER_RDSSYNC_IMP :: nat where [code_unfold]: "BITS_PER_RDSSYNC_IMP = 25 * 160000 div 1000000"
definition MFX_RDS_1BIT_BYTES :: nat where [code_unfold]: "MFX_RDS_1BIT_BYTES = 6400 * 160000 div 8000000"

text \<open>The buffer is the list of bytes written so far; its last byte tells the present level.\<close>

fun addMFXhSync :: "nat \<Rightarrow> bytes \<Rightarrow> bytes" where
  "addMFXhSync 0 buf = buf"
| "addMFXhSync (Suc n) buf =
     addMFXhSync n (buf @ (if last buf \<noteq> 0 then [0x00, 0x00, 0xFF, 0x00, 0x00] else [0xFF, 0xFF, 0x00, 0xFF, 0xFF]))"

definition addMFX :: "bool \<Rightarrow> bytes \<Rightarrow> bytes" where
  "addMFX v buf =
     (let a = (if last buf \<noteq> 0 then 0x00 else 0xFF); b = (if v then u8 (NOT a) else a) in buf @ [a, b])"

definition addRDSSync :: "bytes \<Rightarrow> bytes" where
  "addRDSSync buf =
     addMFX True (addMFX True (addMFX False (addMFX False
       (addMFXhSync (if last buf \<noteq> 0 then MFX_SYNC_COUNT_RDS * 2 else MFX_SYNC_COUNT_RDS * 2 + 1) buf))))"

text \<open>The bits of the packet, with a zero inserted after eight ones in a row.\<close>

fun add_payload :: "bool list \<Rightarrow> nat \<Rightarrow> bytes \<Rightarrow> bytes" where
  "add_payload [] count1 buf = buf"
| "add_payload (True # bs) count1 buf =
     (if 8 \<le> Suc count1 then add_payload bs 0 (addMFX False (addMFX True buf))
      else add_payload bs (Suc count1) (addMFX True buf))"
| "add_payload (False # bs) count1 buf = add_payload bs 0 (addMFX False buf)"

definition packet_bits :: "bytes \<Rightarrow> bool list" where
  "packet_bits p = map (\<lambda>i. p ! (i div 8 + 1) AND 2 ^ (i mod 8) \<noteq> 0) [0..<nat (p ! 0)]"

text \<open>The clock pulses for an answer of the decoder, as bits that are sent with the highest first.\<close>

definition rds_bits :: "nat \<Rightarrow> bool list" where
  "rds_bits n =
     concat (replicate MFX_RDS_SYNC_IMPULS_COUNT
       (replicate (BITS_PER_RDSSYNC_PER - BITS_PER_RDSSYNC_IMP) False @ replicate BITS_PER_RDSSYNC_IMP True))
     @ concat (replicate (n * 2)
       (replicate (BITS_PER_RDSSYNC_PER div 2 - BITS_PER_RDSSYNC_IMP) False @ replicate BITS_PER_RDSSYNC_IMP True))"

definition msb_byte :: "bool list \<Rightarrow> nat \<Rightarrow> int" where
  "msb_byte bs k = sum_list (map (\<lambda>j. if 8 * k + j < length bs \<and> bs ! (8 * k + j) then 0x80 div 2 ^ j else 0) [0..<8])"

definition msb_bytes :: "bool list \<Rightarrow> bytes" where
  "msb_bytes bs = map (msb_byte bs) [0..<(length bs + 7) div 8]"

definition convertMFXPacketToSPIStream :: "bytes \<Rightarrow> pkt_type \<Rightarrow> bytes" where
  "convertMFXPacketToSPIStream p ty =
     (let buf = add_payload (packet_bits p) 0 (addMFXhSync 2 (replicate MFX_STARTSTOP_0_BYTES 0));
          pause = (\<lambda>b. b @ replicate MFX_RDS_1BIT_BYTES (u8 (NOT (last b))));
          rds = (\<lambda>n. let b = addRDSSync buf in addMFXhSync 2 (b @ msb_bytes (rds_bits n)))
      in case ty of
           QMFX0PKT \<Rightarrow> addMFXhSync 5 buf @ replicate MFX_STARTSTOP_0_BYTES 0
         | QMFX1PKTD \<Rightarrow> addMFXhSync 4 (pause (addMFXhSync 2 (pause (addRDSSync buf))))
         | QMFX1PKTV \<Rightarrow> addMFXhSync 4 (pause (addMFXhSync 2 (pause (addRDSSync buf))))
         | QMFX8PKT \<Rightarrow> rds (15 + 8)
         | QMFX16PKT \<Rightarrow> rds (15 + 16)
         | QMFX32PKT \<Rightarrow> rds (15 + 32)
         | _ \<Rightarrow> buf)"

section \<open>Feedback of decoders\<close>

fun crc_bytes :: "bytes \<Rightarrow> int \<Rightarrow> int" where
  "crc_bytes [] crcreg = crcreg"
| "crc_bytes (b # bs) crcreg =
     (let c0 = u16 (crcreg XOR (u16 (crcreg * 2) XOR u16 (crcreg * 4) XOR b));
          c1 = (if c0 AND 0x0100 \<noteq> 0 then c0 XOR 0x0107 else c0);
          c2 = (if c1 AND 0x0200 \<noteq> 0 then c1 XOR 0x020E else c1)
      in crc_bytes bs c2)"

definition checkMfxCRC :: "bytes \<Rightarrow> nat \<Rightarrow> bool" where
  "checkMfxCRC buff n \<longleftrightarrow> crc_bytes (take n buff) 0xFF = buff ! n"

definition serialMFXresult :: "bytes \<Rightarrow> ddl_data \<Rightarrow> ddl_data" where
  "serialMFXresult buf d =
     (let fb = (fbData d)\<lparr>serask := buf ! 0\<rparr>; n = fbbytnum fb;
          bs = map (\<lambda>i. u8 (buf ! (2 * i + 2) * 16) OR (buf ! (2 * i + 3) AND 0xF)) [0..<Suc n]
      in if n \<noteq> 0 then
           if 4 + 2 * n \<le> length buf \<and> buf ! 1 = 0xA then
             (let d1 = d\<lparr>fbData := fb\<lparr>serfbdata := (\<lambda>i. if i \<le> n then bs ! i else serfbdata fb i)\<rparr>\<rparr>
              in if checkMfxCRC bs n then d1\<lparr>feedback := feedback d1 @ [0x42]\<rparr> else d1)
           else d\<lparr>fbData := fb\<rparr>
         else d\<lparr>fbData := fb, feedback := feedback d @ [0x43]\<rparr>)"

section \<open>Sending a packet\<close>

definition ioctl :: "nat \<Rightarrow> bytes \<Rightarrow> ddl_data \<Rightarrow> bool \<times> ddl_data" where
  "ioctl hz bs d =
     (let d1 = d\<lparr>ioctls := Suc (ioctls d)\<rparr>
      in if ioctl_ok d (ioctls d) then (True, d1\<lparr>transfers := transfers d1 @ [(hz, bs)]\<rparr>) else (False, d1))"

definition checkACK :: "bytes \<Rightarrow> int" where
  "checkACK rxpacket = 0"

text \<open>
  The loop over the repetitions; \<open>rx\<close> is set for the packets that are acknowledged. The second
  component is false when a transfer has failed, which ends \<open>send_packet\<close> with the result 0.
\<close>

fun spi_xmit :: "nat \<Rightarrow> nat \<Rightarrow> bytes \<Rightarrow> bool \<Rightarrow> nat \<Rightarrow> ddl_data \<Rightarrow> nat \<times> bool \<times> ddl_data" where
  "spi_xmit 0 hz bs rx acks d = (acks, True, d)"
| "spi_xmit (Suc n) hz bs rx acks d =
     (let (ok, d1) = ioctl hz bs d
      in if \<not> ok then (0, False, d1)
         else spi_xmit n hz bs rx (if rx \<and> checkACK (spi_rx d (ioctls d)) \<noteq> 0 then Suc acks else acks) d1)"

definition send_mm :: "bytes \<Rightarrow> pkt_type \<Rightarrow> int \<Rightarrow> ddl_data \<Rightarrow> nat \<times> bool \<times> ddl_data" where
  "send_mm p ty xmits d =
     (let (pause_btw, pause_end, hz) = mm_timing ty; rx = (ty = QMSEARCH20 \<or> ty = QMSEARCH40);
          (ok, d1) = (if \<not> spiLastMM d then ioctl hz (replicate pause_end 0) d else (True, d))
      in if \<not> ok then (0, False, d1)
         else spi_xmit (nat xmits) hz (mm_stream ty p) rx 0 (d1\<lparr>spiLastMM := True\<rparr>))"

definition send_nmra :: "bytes \<Rightarrow> pkt_type \<Rightarrow> int \<Rightarrow> ddl_data \<Rightarrow> nat \<times> bool \<times> ddl_data" where
  "send_nmra p ty xmits d =
     spi_xmit (nat xmits) SPI_BAUDRATE_NMRA_2 (convertNMRAPacketToSPIStream p) (ty = QNPROGPKT) 0
       (d\<lparr>spiLastMM := False\<rparr>)"

text \<open>
  \<open>pkt_code\<close> is the number that stands for the packet type in the feedback pipe.
\<close>

definition pkt_code :: "pkt_type \<Rightarrow> int" where
  "pkt_code ty = (case ty of QMFX1PKTD \<Rightarrow> 19 | QMFX1PKTV \<Rightarrow> 20 | QMFX8PKT \<Rightarrow> 21 | QMFX16PKT \<Rightarrow> 22 | QMFX32PKT \<Rightarrow> 23 | _ \<Rightarrow> 18)"

definition send_mfx :: "bytes \<Rightarrow> pkt_type \<Rightarrow> int \<Rightarrow> ddl_data \<Rightarrow> nat \<times> bool \<times> ddl_data" where
  "send_mfx p ty xmits d =
     (let d1 = (if ty \<noteq> QMFX0PKT then d\<lparr>feedback := feedback d @ [pkt_code ty]\<rparr> else d);
          n = (if ty = QMFX0PKT then nat xmits else 1);
          (acks, ok, d2) = spi_xmit n SPI_BAUDRATE_MFX_2 (convertMFXPacketToSPIStream p ty) False 0
             (d1\<lparr>spiLastMM := False\<rparr>)
      in (acks, ok, if ok \<and> ty \<noteq> QMFX0PKT then d2\<lparr>waitread := 2\<rparr> else d2))"

text \<open>The delayed read of the feedback port.\<close>

definition read_feedback :: "ddl_data \<Rightarrow> ddl_data" where
  "read_feedback d =
     (if waitread d = 0 then d
      else
        (let d1 = d\<lparr>waitread := waitread d - 1\<rparr>
         in if waitread d1 \<noteq> 0 then d1
            else
              (let buf = comport d1 (comreads d1); d2 = d1\<lparr>comreads := Suc (comreads d1)\<rparr>
               in if buf \<noteq> [] then serialMFXresult buf d2 else d2)))"

definition send_packet :: "bytes \<Rightarrow> pkt_type \<Rightarrow> int \<Rightarrow> ddl_data \<Rightarrow> nat \<times> ddl_data" where
  "send_packet p ty xmits d =
     (let (acks, ok, d1) =
           (if ty \<in> {QM1LOCOPKT, QM2LOCOPKT, QM2FXPKT, QM1FUNCPKT, QM1SOLEPKT, QMSEARCH20, QMSEARCH40} then send_mm p ty xmits d
            else if ty \<in> {QNBLOCOPKT, QNBACCPKT, QNPROGPKT} then send_nmra p ty xmits d
            else send_mfx p ty xmits d)
      in if ok then (acks, read_feedback d1) else (0, d1))"

abbreviation send :: "bytes \<Rightarrow> pkt_type \<Rightarrow> int \<Rightarrow> ddl_data \<Rightarrow> ddl_data" where
  "send p ty xmits d \<equiv> snd (send_packet p ty xmits d)"

section \<open>Packet pools\<close>

definition pool_find :: "nat \<Rightarrow> int \<Rightarrow> 'p packet_pool \<Rightarrow> bool" where
  "pool_find n adr pool \<longleftrightarrow> (\<exists>i \<in> set [0..<n]. knownAddresses pool i = adr)"

definition pool_enter :: "bool \<Rightarrow> int \<Rightarrow> 'p packet_pool \<Rightarrow> 'p packet_pool" where
  "pool_enter found adr pool =
     (if found then pool
      else pool\<lparr>knownAddresses := (knownAddresses pool)(NrOfKnownAddresses pool := adr),
                NrOfKnownAddresses := Suc (NrOfKnownAddresses pool)\<rparr>)"

definition MAX_MARKLIN_ADDRESS :: int where [code_unfold]: "MAX_MARKLIN_ADDRESS = 256"
definition MAX_NMRA_ADDRESS :: int where [code_unfold]: "MAX_NMRA_ADDRESS = 10367"
definition MAX_MFX_ADDRESS :: int where [code_unfold]: "MAX_MFX_ADDRESS = 512"

text \<open>The arrays of a pool have \<open>MAX + 1\<close> elements.\<close>

definition outside :: "int \<Rightarrow> int \<Rightarrow> bool" where
  "outside mx adr \<longleftrightarrow> \<not> (0 \<le> adr \<and> adr \<le> mx)"

definition pool_init :: "'p packet_pool" where
  "pool_init = \<lparr>packets = (\<lambda>_. None), knownAddresses = (\<lambda>_. 0), NrOfKnownAddresses = 0\<rparr>"

text \<open>
  Copying \<open>n\<close> bytes over an array; what malloc leaves in a new structure does not matter, because
  the number of bytes that are read stands in front.
\<close>

definition overwrite :: "nat \<Rightarrow> bytes \<Rightarrow> bytes \<Rightarrow> bytes" where
  "overwrite n src dst = take n src @ drop n dst"

definition update_MaerklinPacketPool :: "nat \<Rightarrow> gl_data_t \<Rightarrow> bytes \<Rightarrow> bytes \<Rightarrow> bytes \<Rightarrow> bytes \<Rightarrow> bytes \<Rightarrow> ddl_data \<Rightarrow> ddl_data" where
  "update_MaerklinPacketPool i glp sd_packet f1 f2 f3 f4 d =
     (let adr = gl_id glp; pool = MaerklinPacketPool d; found = pool_find (NrOfKnownAddresses pool) adr pool;
          p = \<lparr>mm_glptr = i, mm_packet = take 4 sd_packet,
               mm_f_packets = (\<lambda>k. [take 4 f1, take 4 f2, take 4 f3, take 4 f4] ! k)\<rparr>
      in d\<lparr>MaerklinPacketPool := pool_enter found adr (pool\<lparr>packets := (packets pool)(nat adr \<mapsto> p)\<rparr>),
           ddl_ub := ddl_ub d \<or> outside MAX_MARKLIN_ADDRESS adr\<rparr>)"

text \<open>These two search one entry further.\<close>

definition update_NMRAPacketPool :: "nat \<Rightarrow> gl_data_t \<Rightarrow> bytes \<Rightarrow> nat \<Rightarrow> bytes \<Rightarrow> nat \<Rightarrow> ddl_data \<Rightarrow> ddl_data" where
  "update_NMRAPacketPool i glp packet len fx_packet fx_len d =
     (let adr = gl_id glp; pool = NMRAPacketPool d; found = pool_find (Suc (NrOfKnownAddresses pool)) adr pool;
          old = (case packets pool (nat adr) of
                   Some q \<Rightarrow> q
                 | None \<Rightarrow> \<lparr>nmra_glptr = 0, nmra_packet = replicate PKTSIZE 0, nmra_fx_packet = replicate PKTSIZE 0\<rparr>);
          p = \<lparr>nmra_glptr = i, nmra_packet = overwrite len packet (nmra_packet old),
               nmra_fx_packet = overwrite fx_len fx_packet (nmra_fx_packet old)\<rparr>
      in d\<lparr>NMRAPacketPool := pool_enter found adr (pool\<lparr>packets := (packets pool)(nat adr \<mapsto> p)\<rparr>),
           ddl_ub := ddl_ub d \<or> outside MAX_NMRA_ADDRESS adr\<rparr>)"

definition update_MFXPacketPool :: "nat \<Rightarrow> gl_data_t \<Rightarrow> bytes \<Rightarrow> nat \<Rightarrow> ddl_data \<Rightarrow> ddl_data" where
  "update_MFXPacketPool i glp packet len d =
     (let adr = gl_id glp; pool = MFXPacketPool d; found = pool_find (Suc (NrOfKnownAddresses pool)) adr pool;
          old = (case packets pool (nat adr) of
                   Some q \<Rightarrow> q
                 | None \<Rightarrow> \<lparr>mfx_glptr = 0, mfx_packet = replicate PKTSIZE 0\<rparr>);
          p = \<lparr>mfx_glptr = i, mfx_packet = overwrite len packet (mfx_packet old)\<rparr>
      in d\<lparr>MFXPacketPool := pool_enter found adr (pool\<lparr>packets := (packets pool)(nat adr \<mapsto> p)\<rparr>),
           ddl_ub := ddl_ub d \<or> outside MAX_MFX_ADDRESS adr\<rparr>)"

definition reset_NMRAPacketPool :: "ddl_data \<Rightarrow> ddl_data" where
  "reset_NMRAPacketPool d =
     (let pool = NMRAPacketPool d
      in d\<lparr>NMRAPacketPool := pool\<lparr>packets := fold (\<lambda>i m. m(nat (knownAddresses pool i) := None))
           [0..<NrOfKnownAddresses pool] (packets pool)\<rparr>\<rparr>)"

section \<open>What a decoder on the track receives\<close>

text \<open>Acknowledgements are never seen: \<open>checkACK\<close> is not implemented.\<close>

lemma spi_xmit_acks: "fst (spi_xmit n hz bs rx 0 d) = 0"
  by (induction n arbitrary: d) (simp_all add: checkACK_def case_prod_unfold Let_def)

lemma send_parts_acks:
  "fst (send_mm p ty xmits d) = 0" "fst (send_nmra p ty xmits d) = 0" "fst (send_mfx p ty xmits d) = 0"
  by (simp_all add: send_mm_def send_nmra_def send_mfx_def Let_def case_prod_unfold spi_xmit_acks)

lemma send_packet_never_acks: "fst (send_packet p ty xmits d) = 0"
  by (simp add: send_packet_def Let_def case_prod_unfold send_parts_acks)

text \<open>When the transfers succeed, a packet is shifted out as often as requested.\<close>

definition spi_works :: "ddl_data \<Rightarrow> bool" where
  "spi_works d \<longleftrightarrow> (\<forall>k. ioctl_ok d k)"

lemma spi_xmit_works:
  "spi_works d \<Longrightarrow> \<exists>k. spi_xmit n hz bs rx 0 d =
     (0, True, d\<lparr>ioctls := k, transfers := transfers d @ replicate n (hz, bs)\<rparr>)"
proof (induction n arbitrary: d)
  case 0
  show ?case by (rule exI [of _ "ioctls d"]) simp
next
  case (Suc n)
  let ?d = "d\<lparr>ioctls := Suc (ioctls d), transfers := transfers d @ [(hz, bs)]\<rparr>"
  have "spi_works ?d" using Suc.prems by (simp add: spi_works_def)
  from Suc.IH [OF this] show ?case
    using Suc.prems by (auto simp: ioctl_def spi_works_def checkACK_def Let_def)
qed

lemma read_feedback_frame [simp]:
  "transfers (read_feedback d) = transfers d" "ioctl_ok (read_feedback d) = ioctl_ok d"
  "NMRAPacketPool (read_feedback d) = NMRAPacketPool d" "MaerklinPacketPool (read_feedback d) = MaerklinPacketPool d"
  "MFXPacketPool (read_feedback d) = MFXPacketPool d" "spiLastMM (read_feedback d) = spiLastMM d"
  by (simp_all add: read_feedback_def serialMFXresult_def Let_def)

lemma spi_works_frame [simp]:
  "spi_works (read_feedback d) = spi_works d" "spi_works (d\<lparr>spiLastMM := b\<rparr>) = spi_works d"
  "spi_works (d\<lparr>feedback := f\<rparr>) = spi_works d"
  by (simp_all add: spi_works_def)

lemma is_nmra_packet:
  "ty \<in> {QNBLOCOPKT, QNBACCPKT, QNPROGPKT} \<Longrightarrow> send_packet p ty n d =
     (let (acks, ok, d1) = send_nmra p ty n d in if ok then (acks, read_feedback d1) else (0, d1))"
  by (auto simp: send_packet_def)

text \<open>An NMRA packet of the driver is shifted out \<open>n\<close> times.\<close>

lemma send_nmra_transfers:
  assumes "spi_works d" "ty \<in> {QNBLOCOPKT, QNBACCPKT, QNPROGPKT}"
  shows "transfers (snd (send_packet p ty n d)) =
      transfers d @ replicate (nat n) (SPI_BAUDRATE_NMRA_2, convertNMRAPacketToSPIStream p)"
    and "spi_works (snd (send_packet p ty n d))"
    and "NMRAPacketPool (snd (send_packet p ty n d)) = NMRAPacketPool d"
proof -
  let ?d = "d\<lparr>spiLastMM := False\<rparr>"
  obtain k where k: "spi_xmit (nat n) SPI_BAUDRATE_NMRA_2 (convertNMRAPacketToSPIStream p) (ty = QNPROGPKT) 0 ?d =
     (0, True, ?d\<lparr>ioctls := k, transfers := transfers ?d @ replicate (nat n) (SPI_BAUDRATE_NMRA_2, convertNMRAPacketToSPIStream p)\<rparr>)"
    using spi_xmit_works [of ?d "nat n" SPI_BAUDRATE_NMRA_2 "convertNMRAPacketToSPIStream p" "ty = QNPROGPKT"] assms(1)
    by (simp only: spi_works_frame) blast
  have eq: "snd (send_packet p ty n d) = read_feedback (?d\<lparr>ioctls := k,
      transfers := transfers ?d @ replicate (nat n) (SPI_BAUDRATE_NMRA_2, convertNMRAPacketToSPIStream p)\<rparr>)"
    unfolding is_nmra_packet [OF assms(2)] send_nmra_def k by simp
  show "transfers (snd (send_packet p ty n d)) =
      transfers d @ replicate (nat n) (SPI_BAUDRATE_NMRA_2, convertNMRAPacketToSPIStream p)"
    "spi_works (snd (send_packet p ty n d))" "NMRAPacketPool (snd (send_packet p ty n d)) = NMRAPacketPool d"
    unfolding eq using assms(1) by (simp_all add: spi_works_def)
qed

lemma send_mm_transfers:
  assumes "spi_works d" "ty \<in> {QM1LOCOPKT, QM2LOCOPKT, QM2FXPKT, QM1FUNCPKT, QM1SOLEPKT, QMSEARCH20, QMSEARCH40}"
  shows "transfers (snd (send_packet p ty n d)) = transfers d
      @ (if spiLastMM d then [] else [(snd (snd (mm_timing ty)), replicate (fst (snd (mm_timing ty))) 0)])
      @ replicate (nat n) (snd (snd (mm_timing ty)), mm_stream ty p)"
    and "spi_works (snd (send_packet p ty n d)) \<and> spiLastMM (snd (send_packet p ty n d))"
    and "MaerklinPacketPool (snd (send_packet p ty n d)) = MaerklinPacketPool d"
proof -
  let ?hz = "snd (snd (mm_timing ty))"
  define d1 where "d1 = (if spiLastMM d then d else d\<lparr>ioctls := Suc (ioctls d),
    transfers := transfers d @ [(?hz, replicate (fst (snd (mm_timing ty))) 0)]\<rparr>)\<lparr>spiLastMM := True\<rparr>"
  have d1: "spi_works d1" using assms(1) by (simp add: d1_def spi_works_def)
  obtain k where k: "spi_xmit (nat n) ?hz (mm_stream ty p) (ty = QMSEARCH20 \<or> ty = QMSEARCH40) 0 d1 =
     (0, True, d1\<lparr>ioctls := k, transfers := transfers d1 @ replicate (nat n) (?hz, mm_stream ty p)\<rparr>)"
    using spi_xmit_works [OF d1, of "nat n" ?hz "mm_stream ty p" "ty = QMSEARCH20 \<or> ty = QMSEARCH40"] by blast
  have "send_mm p ty n d = spi_xmit (nat n) ?hz (mm_stream ty p) (ty = QMSEARCH20 \<or> ty = QMSEARCH40) 0 d1"
    using assms(1) by (simp add: send_mm_def Let_def case_prod_unfold d1_def ioctl_def spi_works_def)
  then have eq: "snd (send_packet p ty n d) =
      read_feedback (d1\<lparr>ioctls := k, transfers := transfers d1 @ replicate (nat n) (?hz, mm_stream ty p)\<rparr>)"
    using assms(2) k by (simp add: send_packet_def)
  show "transfers (snd (send_packet p ty n d)) = transfers d
      @ (if spiLastMM d then [] else [(?hz, replicate (fst (snd (mm_timing ty))) 0)])
      @ replicate (nat n) (?hz, mm_stream ty p)"
    "spi_works (snd (send_packet p ty n d)) \<and> spiLastMM (snd (send_packet p ty n d))"
    "MaerklinPacketPool (snd (send_packet p ty n d)) = MaerklinPacketPool d"
    unfolding eq using d1 by (simp_all add: d1_def spi_works_def)
qed

text \<open>
  A DCC receiver measures the half waves: a pair of equal halves of one byte is a one, of two bytes a
  zero.
\<close>

fun dcc_read :: "bytes \<Rightarrow> bool list" where
  "dcc_read (a # b # r) =
     (if a = 0xFF \<and> b = 0 then True # dcc_read r
      else (case r of c # e # r' \<Rightarrow> if a = 0xFF \<and> b = 0xFF \<and> c = 0 \<and> e = 0 then False # dcc_read r' else [] | _ \<Rightarrow> []))"
| "dcc_read _ = []"

lemma dcc_read_bits: "dcc_read (concat (map dcc_bit bs)) = bs"
  by (induction bs) (auto simp: dcc_bit_def)

lemma long_stream:
  "p ! 1 = 0xFF \<Longrightarrow> convertNMRAPacketToSPIStream p = 0 # concat (map dcc_bit (packet_bits p @ [True]))"
  by (simp add: convertNMRAPacketToSPIStream_def packet_bits_def o_def)

definition byte_bits :: "int \<Rightarrow> bool list" where
  "byte_bits b = map (\<lambda>m. b AND m \<noteq> 0) [0x80, 0x40, 0x20, 0x10, 0x08, 0x04, 0x02, 0x01]"

lemma concat_replicate_bit: "concat (replicate n (dcc_bit b)) = concat (map dcc_bit (replicate n b))"
  by (induction n) simp_all

lemma short_stream:
  "p ! 1 \<noteq> 0xFF \<Longrightarrow> convertNMRAPacketToSPIStream p = 0 # concat (map dcc_bit
     (replicate (nat (p ! 0)) True @ concat (map (\<lambda>i. False # byte_bits (p ! (i + 2))) [0..<nat (p ! 1)])
      @ replicate 3 True))"
proof -
  have "concat (map (\<lambda>i. dcc_bit False @ concat (map (\<lambda>m. dcc_bit (p ! (i + 2) AND m \<noteq> 0))
        [0x80, 0x40, 0x20, 0x10, 0x08, 0x04, 0x02, 0x01])) is) =
      concat (map dcc_bit (concat (map (\<lambda>i. False # byte_bits (p ! (i + 2))) is)))" for "is"
    by (induction "is") (simp_all add: byte_bits_def)
  moreover assume "p ! 1 \<noteq> 0xFF"
  ultimately show ?thesis
    by (simp only: convertNMRAPacketToSPIStream_def convNMRAPacketToSPIStream_def concat_replicate_bit
        map_append concat_append append.simps if_True simp_thms)
qed

text \<open>A receiver on the track reads from an NMRA packet of the driver exactly its bits, and the
  final one: what \<open>send_packet\<close> shifts out is the packet in the waveform of DCC.
\<close>

theorem dcc_signal_received:
  "(p ! 1 = 0xFF \<longrightarrow> dcc_read (tl (convertNMRAPacketToSPIStream p)) = packet_bits p @ [True]) \<and>
   (p ! 1 \<noteq> 0xFF \<longrightarrow> dcc_read (tl (convertNMRAPacketToSPIStream p)) =
      replicate (nat (p ! 0)) True @ concat (map (\<lambda>i. False # byte_bits (p ! (i + 2))) [0..<nat (p ! 1)])
      @ replicate 3 True)"
  using long_stream [of p] short_stream [of p]
  by (cases "p ! 1 = 0xFF") (simp_all only: list.sel dcc_read_bits simp_thms)

text \<open>A Motorola receiver tells a long pulse (one) from a short one by what is left in its second byte.\<close>

definition mm_bits :: "nat \<Rightarrow> bytes \<Rightarrow> bool list" where
  "mm_bits off s = map (\<lambda>i. s ! (off + 2 * i + 1) \<noteq> 0) [0..<18]"

definition mm_fields :: "bool list \<Rightarrow> bytes" where
  "mm_fields b =
     [horner_sum of_bool 2 (take 8 b), horner_sum of_bool 2 (take 2 (drop 8 b)),
      horner_sum of_bool 2 (map (\<lambda>k. b ! (10 + 2 * k)) [0..<4]),
      horner_sum of_bool 2 (map (\<lambda>k. b ! (11 + 2 * k)) [0..<4])]"

lemma and_pow_bit: "(x :: int) AND 2 ^ n \<noteq> 0 \<longleftrightarrow> bit x n"
  by (simp add: bit_iff_and_push_bit_not_eq_0 push_bit_eq_mult)

lemma length_concat_pairs: "(\<And>m. length (f m) = 2) \<Longrightarrow> length (concat (map f ms)) = 2 * length ms"
  by (induction ms) simp_all

lemma length_mm_code [simp]: "length (mm_code ty p) = 36"
proof -
  have "length mmcodetab = 18" by (simp add: mmcodetab_def)
  then show ?thesis unfolding mm_code_def by (subst length_concat_pairs) simp_all
qed

lemma mm_code_symbol:
  "i < 18 \<Longrightarrow> mm_code ty p ! (2 * i + 1) \<noteq> 0 \<longleftrightarrow> mm_word p AND mmcodetab ! i \<noteq> 0"
proof -
  let ?f = "\<lambda>m. if mm_word p AND m \<noteq> 0 then [0xFF, 0xFC]
     else [if ty = QM1FUNCPKT \<or> ty = QM1SOLEPKT then 0xE0 else 0xC0, 0x00 :: int]"
  have *: "concat (map ?f ms) ! (2 * i + 1) \<noteq> 0 \<longleftrightarrow> mm_word p AND ms ! i \<noteq> 0" if "i < length ms" for ms
    using that
  proof (induction ms arbitrary: i)
    case (Cons m ms)
    then show ?case by (cases i) (auto simp: nth_append)
  qed simp
  assume "i < 18"
  then show ?thesis using * [of mmcodetab] by (simp add: mm_code_def mmcodetab_def)
qed

lemma mm_bits_stream:
  "off = 2 \<or> off = 50 \<Longrightarrow> mm_bits off (mm_stream ty p) = map (\<lambda>m. mm_word p AND m \<noteq> 0) mmcodetab"
proof -
  assume off: "off = 2 \<or> off = 50"
  have "fst (mm_timing ty) = 12" by (simp add: mm_timing_def)
  then obtain e hz where t: "mm_timing ty = (12, e, hz)" by (cases "mm_timing ty") simp
  have s: "mm_stream ty p ! (off + 2 * i + 1) = mm_code ty p ! (2 * i + 1)" if "i < 18" for i
    using off that by (auto simp: mm_stream_def t nth_append nth_Cons')
  have l: "length mmcodetab = 18" by (simp add: mmcodetab_def)
  have "mm_bits off (mm_stream ty p) = map (\<lambda>i. mm_word p AND mmcodetab ! i \<noteq> 0) [0..<18]"
    unfolding mm_bits_def by (rule map_cong [OF refl]) (simp only: s mm_code_symbol set_upt atLeastLessThan_iff)
  also have "\<dots> = map (\<lambda>m. mm_word p AND m \<noteq> 0) (map ((!) mmcodetab) [0..<length mmcodetab])"
    by (simp only: map_map comp_def l)
  finally show ?thesis by (simp only: map_nth)
qed

lemma upt4_list: "[0..<4] = [0, 1, 2, 3 :: nat]"
  by (simp add: upt_rec)

lemma mm_word_concat:
  assumes "p = [a, f, d, x]" "0 \<le> a" "a < 256" "0 \<le> f" "f < 256" "0 \<le> d" "d < 256"
  shows "mm_word p = concat_bit 8 a (concat_bit 8 f (concat_bit 8 d x))"
  using assms by (simp add: mm_word_def concat_bit_eq push_bit_eq_mult take_bit_int_eq_self)

lemma mmcodetab_pow:
  "mmcodetab = map ((^) 2) ([0..<10] @ [16, 24, 17, 25, 18, 26, 19, 27])"
  by (simp add: mmcodetab_def upt_rec)

text \<open>A Motorola receiver reads from both copies of a packet the four fields that the driver put
  into it: address, function, data and extra data.
\<close>

theorem mm_signal_received:
  assumes "p = [a, f, d, x]" and "0 \<le> a" "a < 256" "0 \<le> f" "f < 4" "0 \<le> d" "d < 16" "0 \<le> x" "x < 16"
    and "off = 2 \<or> off = 50"
  shows "mm_fields (mm_bits off (mm_stream ty p)) = p"
proof -
  let ?w = "mm_word p"
  have w: "bit ?w n \<longleftrightarrow> (n < 8 \<and> bit a n) \<or> (8 \<le> n \<and> n < 16 \<and> bit f (n - 8)) \<or>
      (16 \<le> n \<and> n < 24 \<and> bit d (n - 16)) \<or> (24 \<le> n \<and> bit x (n - 24))" for n
    using mm_word_concat [OF assms(1)] assms(2-9) by (auto simp: bit_concat_bit_iff)
  have "mm_bits off (mm_stream ty p) = map (bit ?w) ([0..<10] @ [16, 24, 17, 25, 18, 26, 19, 27])"
    unfolding mm_bits_stream [OF assms(10)] mmcodetab_pow by (simp only: map_map comp_def and_pow_bit)
  also have "\<dots> = map (bit a) [0..<8] @ map (bit f) [0..<2] @ [bit d 0, bit x 0, bit d 1, bit x 1, bit d 2, bit x 2, bit d 3, bit x 3]"
    by (simp add: w upt_rec)
  finally have b: "mm_bits off (mm_stream ty p) = \<dots>" .
  have "mm_fields (mm_bits off (mm_stream ty p)) =
      [horner_sum of_bool 2 (map (bit a) [0..<8]), horner_sum of_bool 2 (map (bit f) [0..<2]),
       horner_sum of_bool 2 (map (bit d) [0..<4]), horner_sum of_bool 2 (map (bit x) [0..<4])]"
    unfolding b mm_fields_def by (simp add: upt4_list nth_append)
  then show ?thesis
    using assms by (simp add: horner_sum_bit_eq_take_bit take_bit_int_eq_self)
qed

theorem mm_signal_received_witness: "mm_fields (mm_bits 50 (mm_stream QM2LOCOPKT [3, 3, 7, 10])) = [3, 3, 7, 10]"
  using mm_signal_received [of "[3, 3, 7, 10]" 3 3 7 10 50 QM2LOCOPKT] by simp

text \<open>
  An mfx receiver: every bit begins with a change of level, a one has another change in its middle. A
  bit that does not begin with a change belongs to a sync pattern and ends the packet; the first two
  bits of that pattern still look like a zero and a one. After eight ones a zero is dropped.
\<close>

fun mfx_read :: "int \<Rightarrow> bytes \<Rightarrow> bool list" where
  "mfx_read l (a # b # r) = (if a = l then [] else (a \<noteq> b) # mfx_read b r)"
| "mfx_read l _ = []"

fun unstuff :: "bool list \<Rightarrow> nat \<Rightarrow> bool list" where
  "unstuff [] c = []"
| "unstuff (True # bs) c = True # (if 8 \<le> Suc c then unstuff (tl bs) 0 else unstuff bs (Suc c))"
| "unstuff (False # bs) c = False # unstuff bs 0"

fun stuff :: "bool list \<Rightarrow> nat \<Rightarrow> bool list" where
  "stuff [] c = []"
| "stuff (True # bs) c = (if 8 \<le> Suc c then True # False # stuff bs 0 else True # stuff bs (Suc c))"
| "stuff (False # bs) c = False # stuff bs 0"

lemma unstuff_stuff: "unstuff (stuff bs c) c = bs"
  by (induction bs c rule: stuff.induct) auto

fun mfx_wave :: "int \<Rightarrow> bool list \<Rightarrow> bytes" where
  "mfx_wave l [] = []"
| "mfx_wave l (v # vs) = (let b = (if v then l else 255 - l) in (255 - l) # b # mfx_wave b vs)"

definition level :: "int \<Rightarrow> bool" where
  "level l \<longleftrightarrow> l = 0 \<or> l = 255"

lemma addMFX_wave: "level (last buf) \<Longrightarrow> addMFX v buf = buf @ mfx_wave (last buf) [v]"
  by (auto simp: addMFX_def level_def u8_def)

lemma level_wave [simp]: "level l \<Longrightarrow> buf \<noteq> [] \<Longrightarrow> last buf = l \<Longrightarrow> level (last (buf @ mfx_wave l [v]))"
  by (auto simp: level_def)

lemma add_payload_wave:
  "level (last buf) \<Longrightarrow> buf \<noteq> [] \<Longrightarrow> add_payload bs c buf = buf @ mfx_wave (last buf) (stuff bs c)"
proof (induction bs c arbitrary: buf rule: stuff.induct)
  case (2 bs c)
  let ?b1 = "buf @ mfx_wave (last buf) [True]" and ?b2 = "(buf @ mfx_wave (last buf) [True]) @ mfx_wave (last (buf @ mfx_wave (last buf) [True])) [False]"
  have l1: "level (last ?b1)" using 2(3,4) by (rule level_wave) simp
  then have l2: "level (last ?b2)" by (rule level_wave) simp_all
  show ?case
    using 2(1) [of ?b2] 2(2) [of ?b1] 2(3) l1 l2
    by (simp add: addMFX_wave Let_def)
next
  case (3 bs c)
  let ?b1 = "buf @ mfx_wave (last buf) [False]"
  have "level (last ?b1)" using 3(2,3) by (rule level_wave) simp
  then show ?case using 3(1) [of ?b1] 3(2) by (simp add: addMFX_wave Let_def)
qed simp

lemma mfx_read_wave:
  "level l \<Longrightarrow> mfx_read l (mfx_wave l bs @ r) = bs @ mfx_read (last (l # mfx_wave l bs)) r"
proof (induction bs arbitrary: l)
  case (Cons v vs)
  let ?b = "if v then l else 255 - l"
  have "level ?b" using Cons.prems by (auto simp: level_def)
  moreover have "255 - l \<noteq> l" using Cons.prems by (auto simp: level_def)
  moreover from this have "(255 - l \<noteq> ?b) = v" by simp
  moreover have "mfx_wave l (v # vs) = (255 - l) # ?b # mfx_wave ?b vs" by (simp only: mfx_wave.simps Let_def)
  ultimately show ?case
    using Cons.IH [of ?b] by (simp only: append_Cons mfx_read.simps if_False last.simps list.distinct simp_thms)
qed simp

lemma level_last_wave: "level l \<Longrightarrow> level (last (l # mfx_wave l bs))"
proof (induction bs arbitrary: l)
  case (Cons v vs)
  let ?b = "if v then l else 255 - l"
  have "level ?b" using Cons.prems by (auto simp: level_def)
  from Cons.IH [OF this] show ?case by (simp add: Let_def)
qed simp

text \<open>A sync pattern.\<close>

lemma prefix_append_right: "prefix x buf \<Longrightarrow> prefix x (buf @ r)"
  by (auto simp: prefix_def)

lemma prefix_addMFXhSync: "prefix x buf \<Longrightarrow> prefix x (addMFXhSync n buf)"
proof (induction n arbitrary: buf)
  case (Suc n)
  then show ?case by (simp only: addMFXhSync.simps) (metis Suc.IH prefix_append_right)
qed simp

lemma prefix_addMFX: "prefix x buf \<Longrightarrow> prefix x (addMFX v buf)"
  by (auto simp: prefix_def addMFX_def Let_def)

lemmas prefix_stream = prefix_addMFXhSync prefix_addMFX prefix_append_right

lemma mfx_read_sync:
  assumes "level (last buf)" "2 \<le> n"
  shows "\<exists>r. addMFXhSync n buf = buf @ r \<and> (\<forall>r'. mfx_read (last buf) (r @ r') = [False, True])"
proof -
  obtain m where n: "n = Suc (Suc m)" using assms(2) by (metis add_2_eq_Suc le_Suc_ex)
  let ?s = "\<lambda>b. if last b \<noteq> 0 then [0x00, 0x00, 0xFF, 0x00, 0x00] else [0xFF, 0xFF, 0x00, 0xFF, 0xFF :: int]"
  let ?b1 = "buf @ ?s buf"
  let ?b2 = "?b1 @ ?s ?b1"
  obtain r where "addMFXhSync m ?b2 = ?b2 @ r"
    using prefix_addMFXhSync [of ?b2 ?b2 m] by (auto simp only: prefix_order.refl prefix_def)
  then have "addMFXhSync n buf = buf @ (?s buf @ ?s ?b1 @ r)" by (simp only: n addMFXhSync.simps append_assoc)
  moreover have "mfx_read (last buf) ((?s buf @ ?s ?b1 @ r) @ r') = [False, True]" for r'
    using assms(1) by (auto simp: level_def)
  ultimately show ?thesis by blast
qed

text \<open>From what \<open>send_packet\<close> shifts out for an mfx packet of any kind, a receiver reads, behind the
  start sync, exactly the bits of the packet.
\<close>

theorem mfx_signal_received:
  assumes "ty \<in> {QMFX0PKT, QMFX1PKTD, QMFX1PKTV, QMFX8PKT, QMFX16PKT, QMFX32PKT}"
  shows "unstuff (butlast (butlast (mfx_read 0 (drop 18 (convertMFXPacketToSPIStream p ty))))) 0 = packet_bits p"
proof -
  define start where "start = addMFXhSync 2 (replicate MFX_STARTSTOP_0_BYTES 0)"
  define w where "w = mfx_wave 0 (stuff (packet_bits p) 0)"
  define buf where "buf = add_payload (packet_bits p) 0 start"
  have s: "length start = 18" "last start = 0" "start \<noteq> []"
    by (simp_all add: start_def MFX_STARTSTOP_0_BYTES_def numeral_eq_Suc)
  have b: "buf = start @ w" using add_payload_wave [of start "packet_bits p" 0] s by (simp add: buf_def w_def level_def)
  have lw: "level (last (0 # w))" using level_last_wave [of 0] by (simp add: w_def level_def)
  have last_buf: "last buf = last (0 # w)" using b s by simp
  let ?n = "if last buf \<noteq> 0 then MFX_SYNC_COUNT_RDS * 2 else MFX_SYNC_COUNT_RDS * 2 + 1"
  have rds: "prefix (addMFXhSync ?n buf) (addRDSSync buf)"
    unfolding addRDSSync_def by (intro prefix_addMFX prefix_order.refl)
  have "ty = QMFX0PKT \<Longrightarrow> prefix (addMFXhSync 5 buf) (convertMFXPacketToSPIStream p ty)"
    by (simp add: convertMFXPacketToSPIStream_def Let_def buf_def start_def)
  moreover have "ty \<noteq> QMFX0PKT \<Longrightarrow> prefix (addMFXhSync ?n buf) (convertMFXPacketToSPIStream p ty)"
    using assms rds
    by (elim insertE emptyE) (simp_all only: convertMFXPacketToSPIStream_def Let_def buf_def [symmetric] start_def [symmetric]
        pkt_type.case prefix_stream simp_thms)
  moreover have "2 \<le> ?n" "2 \<le> (5 :: nat)" by (simp_all add: MFX_SYNC_COUNT_RDS_def)
  ultimately have "\<exists>n r'. 2 \<le> n \<and> convertMFXPacketToSPIStream p ty = addMFXhSync n buf @ r'"
    unfolding prefix_def by metis
  then obtain n r' where n: "2 \<le> n" "convertMFXPacketToSPIStream p ty = addMFXhSync n buf @ r'" by blast
  obtain r where r: "addMFXhSync n buf = buf @ r" "\<forall>r'. mfx_read (last buf) (r @ r') = [False, True]"
    using mfx_read_sync [OF _ n(1), of buf] lw last_buf by auto
  have "convertMFXPacketToSPIStream p ty = start @ w @ (r @ r')"
    using n(2) r(1) b by (metis append_assoc)
  then have "drop 18 (convertMFXPacketToSPIStream p ty) = w @ (r @ r')" using s by simp
  moreover have "mfx_read 0 (w @ (r @ r')) = stuff (packet_bits p) 0 @ [False, True]"
    unfolding w_def using mfx_read_wave [of 0] r(2) last_buf by (simp add: level_def w_def)
  ultimately show ?thesis by (simp add: butlast_append unstuff_stuff)
qed

theorem mfx_signal_received_witness:
  "unstuff (butlast (butlast (mfx_read 0 (drop 18 (convertMFXPacketToSPIStream [3, 5] QMFX8PKT))))) 0 = [True, False, True]"
proof -
  have "packet_bits [3, 5] = [True, False, True]" by code_simp
  moreover have "QMFX8PKT \<in> {QMFX0PKT, QMFX1PKTD, QMFX1PKTV, QMFX8PKT, QMFX16PKT, QMFX32PKT}" by simp
  ultimately show ?thesis using mfx_signal_received [of QMFX8PKT "[3, 5]"] by (simp only: simp_thms)
qed

section \<open>The checksum of mfx\<close>

text \<open>
  The reference is division by the polynomial \<open>x^8 + x^2 + x + 1\<close>, one bit at a time: the bit is
  shifted in from the right, and a carry out of the eight bits is reduced.
\<close>

definition crc_step :: "int \<Rightarrow> bool \<Rightarrow> int" where
  "crc_step crc b = (let c = 2 * crc + of_bool b in if c AND 0x0100 \<noteq> 0 then (c AND 0xFF) XOR 0x07 else c)"

definition crc_bits :: "bool list \<Rightarrow> int \<Rightarrow> int" where
  "crc_bits bs crc = foldl crc_step crc bs"

definition poly7 :: "int \<Rightarrow> int" where
  "poly7 c = (if bit c 7 then 0x107 else 0)"

lemma take_bit_8:
  assumes "0 \<le> y" "y < (512 :: int)"
  shows "bit y 8 \<Longrightarrow> y XOR 0x100 = take_bit 8 y" and "\<not> bit y 8 \<Longrightarrow> y < 256"
proof -
  have y: "take_bit 9 y = y" using assms by (simp add: take_bit_int_eq_self)
  show "y XOR 0x100 = take_bit 8 y" if "bit y 8"
  proof (rule bit_eqI)
    fix n
    have "bit y n \<longleftrightarrow> n < 9 \<and> bit y n" using bit_take_bit_iff [of 9 y n] y by simp
    moreover have "bit (0x100 :: int) n \<longleftrightarrow> n = 8" using bit_exp_iff [of 8 n, where 'a = int] by simp
    ultimately show "bit (y XOR 0x100) n = bit (take_bit 8 y) n"
      using that by (cases "n = 8") (auto simp: bit_xor_iff bit_take_bit_iff)
  qed
  show "y < 256" if "\<not> bit y 8"
  proof (rule ccontr)
    assume "\<not> y < 256"
    then have "y div 256 = 1" using assms by simp
    with that show False by (simp add: bit_iff_odd)
  qed
qed

lemma crc_step_cases:
  assumes "0 \<le> c" "c < 256"
  shows "crc_step c b = (2 * c + of_bool b) XOR poly7 c" "0 \<le> crc_step c b" "crc_step c b < 256"
proof -
  let ?y = "2 * c + of_bool b"
  have y: "0 \<le> ?y" "?y < 512" using assms by (cases b; simp)+
  have "?y div 256 = c div 128" by (cases b; simp)
  then have b8: "bit ?y 8 \<longleftrightarrow> bit c 7" by (simp add: bit_iff_odd)
  have t: "?y AND 0x100 \<noteq> 0 \<longleftrightarrow> bit ?y 8" using and_pow_bit [of ?y 8] by simp
  have m: "?y AND 0xFF = take_bit 8 ?y" using take_bit_eq_mask [of 8 ?y] by (simp add: mask_eq_exp_minus_1)
  have k: "?y XOR 0x107 = (?y XOR 0x100) XOR 0x07" by (simp add: xor.assoc)
  have eq: "crc_step c b = (if bit c 7 then take_bit 8 ?y XOR 0x07 else ?y)"
    using t b8 m by (simp add: crc_step_def Let_def)
  show "crc_step c b = ?y XOR poly7 c"
    using eq b8 take_bit_8(1) [OF y] k by (simp add: poly7_def)
  have "take_bit 8 ?y XOR 0x07 < 2 ^ 8" 
    using take_bit_int_less_exp [of 8 ?y] by (intro XOR_upper) simp_all
  then show "0 \<le> crc_step c b" "crc_step c b < 256"
    using eq b8 take_bit_8(2) [OF y] y by (simp_all split: if_splits)
qed

lemma crc_step_xor: "0 \<le> c \<Longrightarrow> c < 256 \<Longrightarrow> crc_step c b = 2 * c XOR of_bool b XOR poly7 c"
proof -
  assume "0 \<le> c" "c < 256"
  moreover have "2 * c + of_bool b = 2 * c XOR of_bool b" by (cases b) (simp_all add: xor_one_eq)
  ultimately show ?thesis by (simp only: crc_step_cases(1) xor.assoc)
qed

lemma crc_step_range: "0 \<le> c \<Longrightarrow> c < 256 \<Longrightarrow> 0 \<le> crc_step c b \<and> crc_step c b < 256"
  using crc_step_cases(2,3) by blast

lemma poly7_xor: "poly7 (c XOR e) = poly7 c XOR poly7 e"
  by (simp add: poly7_def bit_xor_iff)

lemma xor_range: "0 \<le> c \<Longrightarrow> c < 256 \<Longrightarrow> 0 \<le> e \<Longrightarrow> e < 256 \<Longrightarrow> 0 \<le> c XOR e \<and> c XOR e < (256 :: int)"
  using XOR_upper [of c 8 e] by simp

lemma double_xor: "2 * (c XOR e) = (2 * c) XOR (2 * (e :: int))"
  using push_bit_xor [of 1 c e] by (simp add: push_bit_eq_mult mult.commute)

lemma crc_step_linear:
  assumes "0 \<le> c" "c < 256" "0 \<le> e" "e < 256"
  shows "crc_step (c XOR e) b = crc_step c False XOR crc_step e b"
  using assms xor_range [OF assms] by (simp add: crc_step_xor double_xor poly7_xor xor.assoc xor.commute xor.left_commute)

lemma crc_bits_linear:
  "0 \<le> c \<Longrightarrow> c < 256 \<Longrightarrow> 0 \<le> e \<Longrightarrow> e < 256 \<Longrightarrow>
   crc_bits bs (c XOR e) = crc_bits (replicate (length bs) False) c XOR crc_bits bs e"
proof (induction bs arbitrary: c e)
  case (Cons b bs)
  then show ?case
    using crc_step_range [of c False] crc_step_range [of e b]
    by (simp add: crc_bits_def crc_step_linear)
qed (simp add: crc_bits_def)

text \<open>Eight bits shifted into an empty register are the byte itself.\<close>

lemma crc_step_half: "0 \<le> d \<Longrightarrow> d < 256 \<Longrightarrow> crc_step (d div 2) (odd d) = d"
proof -
  assume d: "0 \<le> d" "d < 256"
  have "2 * (d div 2) + of_bool (odd d) = d" by (simp add: odd_two_times_div_two_succ)
  moreover have "\<not> bit d 8" using d by (simp add: bit_iff_odd)
  ultimately show ?thesis using and_pow_bit [of d 8] by (simp add: crc_step_def Let_def)
qed

lemma byte_bits_odd: "byte_bits b = map (\<lambda>n. odd (b div 2 ^ n)) [7, 6, 5, 4, 3, 2, 1, 0]"
proof -
  have "b AND m \<noteq> 0 \<longleftrightarrow> odd (b div m)" if "m = 2 ^ n" for m n
    using and_pow_bit [of b n] that by (simp add: bit_iff_odd)
  from this [of 128 7] this [of 64 6] this [of 32 5] this [of 16 4] this [of 8 3] this [of 4 2] this [of 2 1] this [of 1 0]
  show ?thesis by (simp add: byte_bits_def)
qed

lemma crc_bits_byte: "0 \<le> b \<Longrightarrow> b < 256 \<Longrightarrow> crc_bits (byte_bits b) 0 = b"
proof -
  assume b: "0 \<le> b" "b < 256"
  have "crc_step (b div 2 ^ Suc n) (odd (b div 2 ^ n)) = b div 2 ^ n" for n
  proof -
    have "0 \<le> b div 2 ^ n" "b div 2 ^ n < 256"
      using b div_le_dividend [of "nat b" "2 ^ n"] by (auto simp: pos_imp_zdiv_nonneg_iff intro: le_less_trans [OF zdiv_mono2 [of b 1]])
    from crc_step_half [OF this] show ?thesis by (simp add: zdiv_zmult2_eq power_Suc2 del: power_Suc)
  qed
  from this [of 7] this [of 6] this [of 5] this [of 4] this [of 3] this [of 2] this [of 1] this [of 0]
  show ?thesis using b by (simp add: crc_bits_def byte_bits_odd)
qed

text \<open>The step of the byte-wise version in closed form, which is linear in the register.\<close>

definition crc_wide :: "int \<Rightarrow> int" where
  "crc_wide c = c XOR c * 2 XOR c * 4"

definition poly_wide :: "int \<Rightarrow> int" where
  "poly_wide y = (if bit y 8 then 0x107 else 0) XOR (if bit y 9 then 0x20E else 0)"

lemma crc_wide_range: "0 \<le> c \<Longrightarrow> c < 256 \<Longrightarrow> 0 \<le> crc_wide c \<and> crc_wide c < 1024"
  using XOR_upper [of c 10 "c * 2 XOR c * 4"] XOR_upper [of "c * 2" 10 "c * 4"] by (simp add: crc_wide_def)

lemma crc_bytes_one:
  assumes "0 \<le> c" "c < 256" "0 \<le> b" "b < 256"
  shows "crc_bytes [b] c = crc_wide c XOR poly_wide (crc_wide c) XOR b"
proof -
  let ?y = "crc_wide c XOR b"
  have u: "u16 (c * 2) = c * 2" "u16 (c * 4) = c * 4" using assms by (simp_all add: u16_id)
  have "?y < 1024" "0 \<le> ?y" using crc_wide_range [OF assms(1,2)] assms XOR_upper [of "crc_wide c" 10 b] by simp_all
  then have y: "u16 ?y = ?y" by (simp add: u16_id)
  have nb: "\<not> bit b 8" "\<not> bit b 9" using assms by (simp_all add: bit_iff_odd)
  have t: "y AND 0x100 \<noteq> 0 \<longleftrightarrow> bit y 8" "y AND 0x200 \<noteq> 0 \<longleftrightarrow> bit y 9" for y :: int
    using and_pow_bit [of y 8] and_pow_bit [of y 9] by simp_all
  have k: "\<not> bit (0x107 :: int) 9" by (simp add: bit_iff_odd)
  have "crc_bytes [b] c = (let c1 = (if bit ?y 8 then ?y XOR 0x107 else ?y) in if bit c1 9 then c1 XOR 0x20E else c1)"
    using y by (simp only: crc_bytes.simps t Let_def u crc_wide_def xor.assoc)
  then show ?thesis
    using nb k by (simp add: Let_def bit_xor_iff poly_wide_def xor.assoc xor.commute xor.left_commute)
qed

lemma crc_wide_linear: "crc_wide (c XOR e) = crc_wide c XOR crc_wide e"
proof -
  have "(c XOR e) * 2 = c * 2 XOR e * 2" "(c XOR e) * 4 = c * 4 XOR e * 4"
    using push_bit_xor [of 1 c e] push_bit_xor [of 2 c e] by (simp_all add: push_bit_eq_mult)
  then show ?thesis by (simp add: crc_wide_def xor.assoc xor.commute xor.left_commute)
qed

lemma poly_wide_linear: "poly_wide (x XOR y) = poly_wide x XOR poly_wide y"
  by (simp add: poly_wide_def bit_xor_iff xor.assoc xor.commute xor.left_commute)

text \<open>So it is enough to compare both versions on the upper and the lower half of the register.\<close>

lemma crc_zero_byte:
  assumes "0 \<le> c" "c < 256"
  shows "crc_bits (replicate 8 False) c = crc_wide c XOR poly_wide (crc_wide c)"
proof -
  define h l where "h = c div 16 * 16" and "l = c mod 16"
  have hl: "h \<in> set (map ((*) 16) [0..15])" "l \<in> set [0..15]"
    using assms by (auto simp: h_def l_def intro!: image_eqI [of _ _ "c div 16"])
  have "c = push_bit 4 (drop_bit 4 c) XOR take_bit 4 c"
    by (rule bit_eqI) (auto simp: bit_simps)
  then have c: "c = h XOR l"
    by (simp add: h_def l_def push_bit_eq_mult drop_bit_eq_div take_bit_eq_mod)
  have base: "\<forall>x \<in> set (map ((*) 16) [0..15] @ [0..15]).
      crc_bits (replicate 8 False) x = crc_wide x XOR poly_wide (crc_wide x)"
    by code_simp
  have r: "0 \<le> h" "h < 256" "0 \<le> l" "l < 256" using hl by auto
  show ?thesis
    unfolding c using crc_bits_linear [OF r, of "replicate 8 False"] base hl
    by (simp add: crc_wide_linear poly_wide_linear xor.assoc xor.commute xor.left_commute)
qed

text \<open>C30. The check of an answer from a decoder, which handles a byte at a time with two shifts,
  computes the remainder of bitwise division: it accepts an answer exactly when the reference
  gives the last byte.
\<close>

theorem checkMfxCRC_reference:
  assumes "\<forall>b \<in> set buff. 0 \<le> b \<and> b < 256" and "n < length buff"
  shows "checkMfxCRC buff n \<longleftrightarrow> crc_bits (concat (map byte_bits (take n buff))) 0xFF = buff ! n"
proof -
  have "crc_bytes bs c = crc_bits (concat (map byte_bits bs)) c"
    if "\<forall>b \<in> set bs. 0 \<le> b \<and> b < 256" "0 \<le> c" "c < 256" for bs c
    using that
  proof (induction bs arbitrary: c)
    case (Cons b bs)
    have b: "0 \<le> b" "b < 256" using Cons.prems by simp_all
    have "length (byte_bits b) = 8" by (simp add: byte_bits_def)
    then have "crc_bits (byte_bits b) c = crc_bits (replicate 8 False) c XOR crc_bits (byte_bits b) 0"
      using crc_bits_linear [OF Cons.prems(2,3), of 0 "byte_bits b"] by (simp only: xor.right_neutral)
    then have "crc_bytes [b] c = crc_bits (byte_bits b) c"
      using crc_zero_byte [OF Cons.prems(2,3)] crc_bits_byte [OF b] crc_bytes_one [OF Cons.prems(2,3) b]
      by (simp only: xor.assoc)
    moreover have "0 \<le> crc_bits xs c \<and> crc_bits xs c < 256" for xs
      using Cons.prems(2,3) crc_step_range by (induction xs arbitrary: c) (auto simp: crc_bits_def)
    ultimately show ?case
      using Cons.IH [of "crc_bits (byte_bits b) c"] Cons.prems by (simp add: crc_bits_def Let_def)
  qed (simp add: crc_bits_def)
  moreover have "\<forall>b \<in> set (take n buff). 0 \<le> b \<and> b < 256" using assms(1) by (auto dest: in_set_takeD)
  ultimately show ?thesis by (simp add: checkMfxCRC_def)
qed

theorem checkMfxCRC_reference_witness:
  "checkMfxCRC [0x12, 0x34] 1 \<longleftrightarrow> crc_bits (concat (map byte_bits (take 1 [0x12, 0x34]))) 0xFF = 0x34"
  using checkMfxCRC_reference [of "[0x12, 0x34]" 1] by simp

text \<open>A bus that has just been started, on hardware that works.\<close>

definition refresh_zero :: tRefreshInfo where
  "refresh_zero = \<lparr>last_refreshed_maerklin_loco = 0, last_refreshed_maerklin_fx = -1, last_refreshed_nmra_loco = 0,
     last_refreshed_mfx_loco = 0, protocol_refresh = 1\<rparr>"

definition ddl_start :: ddl_data where
  "ddl_start = \<lparr>ownbusnr = 1, CHECKSHORT = 0, SHORTCUTDELAY = 0, CHECKCLIENTS = False,
     ENABLED_PROTOCOLS = 7, NMRA_GA_OFFSET = 0, PROGRAM_TRACK = True, BOOSTER_COMM = False, AUTO_MFX_SEARCH = False,
     FWD_M_ACCESSORIES = 1, FWD_N_ACCESSORIES = 1,
     spiLastMM = False, station_uid = 1, short_detected = 0,
     refreshInfo = refresh_zero, refreshInfoFast = refresh_zero, lastRefreshFast = False, allowSM = True, resumeSM = None,
     pgtrkonly = PROTO_NONE, NMRAPacketPool = pool_init, MaerklinPacketPool = pool_init, MFXPacketPool = pool_init,
     fbData = \<lparr>pktcode = 0, fbbytnum = 0, fb_uid = 0, fbcollect = 0, canfbdata = (\<lambda>_. 0), canask = 0, serask = 0, serfbdata = (\<lambda>_. 0)\<rparr>,
     waitread = 0, feedback = [],
     ioctls = 0, ioctl_ok = (\<lambda>_. True), spi_rx = (\<lambda>_. []), comreads = 0, comport = (\<lambda>_. []), transfers = [], ddl_ub = False\<rparr>"

lemma ddl_start_works [simp]: "spi_works ddl_start" "transfers ddl_start = []"
  by (simp_all add: ddl_start_def spi_works_def)

end
