(* ===== verification/Srcp_Error.thy ===== *)
theory Srcp_Error
  imports Srcp_Types
begin

text \<open>
  \<open>srcp-error.c\<close>: the reply line for a result code. \<open>emsg\<close> is the text the \<open>switch\<close> selects,
  \<open>None\<close> its default branch.
\<close>

definition emsg :: "int \<Rightarrow> string option" where
  "emsg errorcode =
     (if errorcode \<in> {100, 101, 102, 110} then Some ''INFO''
      else if errorcode = 200 then Some ''OK''
      else if errorcode = 202 then Some ''OK CONNECTIONMODE''
      else if errorcode = 201 then Some ''OK PROTOCOL SRCP''
      else if errorcode = 400 then Some ''ERROR unsupported protocol''
      else if errorcode = 401 then Some ''ERROR unsupported connection mode''
      else if errorcode = 402 then Some ''ERROR insufficient data''
      else if errorcode = 410 then Some ''ERROR unknown command''
      else if errorcode = 411 then Some ''ERROR unknown value''
      else if errorcode = 412 then Some ''ERROR wrong value''
      else if errorcode = 413 then Some ''ERROR temporarily prohibited''
      else if errorcode = 414 then Some ''ERROR device locked''
      else if errorcode = 415 then Some ''ERROR forbidden''
      else if errorcode = 416 then Some ''ERROR no data''
      else if errorcode = 417 then Some ''ERROR timeout''
      else if errorcode = 418 then Some ''ERROR list too long''
      else if errorcode = 419 then Some ''ERROR list too short''
      else if errorcode = 420 then Some ''ERROR unsupported device protocol''
      else if errorcode = 421 then Some ''ERROR unsupported device''
      else if errorcode = 422 then Some ''ERROR unsupported device group''
      else if errorcode = 423 then Some ''ERROR unsupported operation''
      else if errorcode = 424 then Some ''ERROR device reinitialized''
      else if errorcode = 500 then Some ''ERROR out of resources''
      else None)"

definition srcp_fmt_msg :: "int \<Rightarrow> timeval \<Rightarrow> string" where
  "srcp_fmt_msg errorcode time =
     (case emsg errorcode of
        None \<Rightarrow> stamp time @ '' 600 ERROR internal error '' @ show_int errorcode @ [CHR 0x0A]
      | Some m \<Rightarrow> stamp time @ '' '' @ show_int errorcode @ '' '' @ m @ [CHR 0x0A])"

text \<open>
  What a client does with a reply line: skip the time stamp up to the first blank, read the
  decimal code up to the next one.
\<close>

definition reply_code :: "string \<Rightarrow> nat" where
  "reply_code line =
     read_nat (takeWhile (\<lambda>c. c \<noteq> CHR '' '') (tl (dropWhile (\<lambda>c. c \<noteq> CHR '' '') line)))"

definition srcp_code_table :: "int list" where
  "srcp_code_table = [SRCP_INFO, SRCP_OK, SRCP_OK_PROTOCOL, SRCP_OK_CONNMODE,
     SRCP_HS_WRONGPROTOCOL, SRCP_HS_WRONGCONNMODE, SRCP_HS_NODATA, SRCP_UNKNOWNCOMMAND,
     SRCP_UNKNOWNVALUE, SRCP_WRONGVALUE, SRCP_TEMPORARILYPROHIBITED, SRCP_DEVICELOCKED,
     SRCP_FORBIDDEN, SRCP_NODATA, SRCP_TIMEOUT, SRCP_LISTTOOLONG, SRCP_LISTTOOSHORT,
     SRCP_UNSUPPORTEDDEVICEPROTOCOL, SRCP_UNSUPPORTEDDEVICE, SRCP_UNSUPPORTEDDEVICEGROUP,
     SRCP_UNSUPPORTEDOPERATION, SRCP_DEVICEREINITIALIZED, SRCP_OUTOFRESOURCES]"

lemma show_nat_no_blank: "c \<in> set (show_nat n) \<Longrightarrow> c \<noteq> CHR '' ''"
  using show_nat_digits [of c n] by (auto simp: is_dec_def)

lemma show_int_no_blank: "c \<in> set (show_int i) \<Longrightarrow> c \<noteq> CHR '' ''"
  by (auto simp: show_int_def dest: show_nat_no_blank split: if_splits)

lemma stamp_no_blank: "c \<in> set (stamp t) \<Longrightarrow> c \<noteq> CHR '' ''"
  by (auto simp: stamp_def show_pad3_def Let_def dest: show_nat_no_blank show_int_no_blank
      split: if_splits)

lemma emsg_code_table:
  assumes "c \<in> set srcp_code_table"
  shows "0 \<le> c \<and> (\<exists>m. emsg c = Some m)"
  using assms unfolding srcp_code_table_def by (auto simp: srcp_codes emsg_def)

lemma reply_code_stamp:
  "reply_code (stamp t @ '' '' @ show_nat n @ CHR '' '' # rest) = n"
proof -
  have d: "dropWhile (\<lambda>c. c \<noteq> CHR '' '') (stamp t @ CHR '' '' # r) = CHR '' '' # r" for r
    by (subst dropWhile_append2) (auto dest: stamp_no_blank)
  have "takeWhile (\<lambda>c. c \<noteq> CHR '' '') (show_nat n @ CHR '' '' # rest) = show_nat n"
    by (subst takeWhile_append2) (auto dest: show_nat_no_blank)
  with d show ?thesis by (simp add: reply_code_def)
qed

text \<open>Every result code of \<open>srcp-error.h\<close> survives formatting: the reply line that
  \<open>srcp_fmt_msg\<close> prints for it carries exactly that code, whatever the time stamp, so a client
  that reads the code back sees the value the handler returned and never the internal error
  600.\<close>

theorem srcp_fmt_msg_roundtrip:
  assumes "c \<in> set srcp_code_table"
  shows "int (reply_code (srcp_fmt_msg c t)) = c"
proof -
  from emsg_code_table [OF assms] obtain m where "0 \<le> c" "emsg c = Some m" by auto
  then have "srcp_fmt_msg c t = stamp t @ '' '' @ show_nat (nat c) @ CHR '' '' # m @ [CHR 0x0A]"
    by (simp add: srcp_fmt_msg_def show_int_def)
  with \<open>0 \<le> c\<close> show ?thesis by (simp only: reply_code_stamp)
qed

theorem srcp_fmt_msg_roundtrip_witness:
  "int (reply_code (srcp_fmt_msg SRCP_DEVICELOCKED \<lparr>tv_sec = 1234, tv_usec = 56789\<rparr>)) = 414"
  using srcp_fmt_msg_roundtrip [of SRCP_DEVICELOCKED "\<lparr>tv_sec = 1234, tv_usec = 56789\<rparr>"]
  by (simp add: srcp_code_table_def SRCP_DEVICELOCKED_def)

end
