(* ===== verification/Srcp_Session.thy ===== *)
theory Srcp_Session
  imports Srcp_Error
begin

text \<open>
  \<open>srcp-session.c\<close> and the info message path of \<open>srcp-info.c\<close>: the linked list of client
  sessions, its search functions, registration and destruction of sessions, and the pipes
  through which info sessions receive messages. The interface that the device groups rely on is
  the locale \<open>info_sink\<close>: what is emitted reaches every subscribed info session, in order.
\<close>

section \<open>The session list\<close>

definition list_add :: "session_node_t list \<Rightarrow> int \<Rightarrow> session_node_t list" where
  "list_add p s = \<lparr>session = 0, thread = 0, sock = s, mode = smUndefined, pipefd0 = -1,
     pipefd1 = -1, pipe = [], freed = False\<rparr> # p"

text \<open>\<open>list_remove\<close> unlinks the node that the pointer-to-pointer designates, by position.\<close>

definition list_remove :: "nat \<Rightarrow> session_node_t list \<Rightarrow> session_node_t list" where
  "list_remove i p = take i p @ drop (Suc i) p"

fun list_search_session :: "session_node_t list \<Rightarrow> sessionid_t \<Rightarrow> nat option" where
  "list_search_session [] sid = None"
| "list_search_session (n # ns) sid =
     (if session n = sid then Some 0 else map_option Suc (list_search_session ns sid))"

fun list_search_session_node :: "session_node_t list \<Rightarrow> sessionid_t \<Rightarrow> session_node_t option" where
  "list_search_session_node [] sid = None"
| "list_search_session_node (n # ns) sid =
     (if session n = sid then Some n else list_search_session_node ns sid)"

fun list_search_thread_by_sessionid :: "session_node_t list \<Rightarrow> sessionid_t \<Rightarrow> nat" where
  "list_search_thread_by_sessionid [] sid = 0"
| "list_search_thread_by_sessionid (n # ns) sid =
     (if session n = sid then thread n else list_search_thread_by_sessionid ns sid)"

fun list_has_info_sessionid :: "session_node_t list \<Rightarrow> sessionid_t \<Rightarrow> bool" where
  "list_has_info_sessionid [] sid = False"
| "list_has_info_sessionid (n # ns) sid =
     (if session n = sid \<and> mode n = smInfo then True else list_has_info_sessionid ns sid)"

text \<open>A traversal that starts at the head touches every node up to the one it stops at.\<close>

fun touches_freed :: "session_node_t list \<Rightarrow> (session_node_t \<Rightarrow> bool) \<Rightarrow> bool" where
  "touches_freed [] stop = False"
| "touches_freed (n # ns) stop = (freed n \<or> (\<not> stop n \<and> touches_freed ns stop))"

section \<open>Creating, registering and destroying sessions\<close>

text \<open>\<open>alloc\<close> tells whether \<open>malloc\<close> succeeds. The new node is the head of the list.\<close>

definition create_anonymous_session :: "int \<Rightarrow> bool \<Rightarrow> srcpd \<Rightarrow> srcpd" where
  "create_anonymous_session sk alloc s =
     (if alloc then s\<lparr>session_list := list_add (session_list s) sk,
                      runningsessions := u32 (runningsessions s + 1)\<rparr>
      else s)"

text \<open>
  \<open>destroy_anonymous_session(n)\<close> calls \<open>list_remove(&n)\<close> on its own parameter: the node at
  position \<open>i\<close> is freed, but \<open>session_list\<close> still links to it.
\<close>

definition destroy_anonymous_session :: "nat \<Rightarrow> srcpd \<Rightarrow> srcpd" where
  "destroy_anonymous_session i s =
     (if i < length (session_list s)
      then s\<lparr>session_list := (session_list s)[i := (session_list s ! i)\<lparr>freed := True\<rparr>],
             runningsessions := u32 (runningsessions s - 1),
             ub := ub s \<or> freed (session_list s ! i)\<rparr>
      else s)"

text \<open>
  \<open>destroy_session\<close> passes the result of the search to \<open>list_remove\<close>, which dereferences it:
  an unknown session id is a null pointer access.
\<close>

definition destroy_session :: "sessionid_t \<Rightarrow> srcpd \<Rightarrow> srcpd" where
  "destroy_session sid s =
     (if touches_freed (session_list s) (\<lambda>n. session n = sid) then raise_ub s
      else case list_search_session (session_list s) sid of
        None \<Rightarrow> raise_ub s
      | Some i \<Rightarrow> s\<lparr>session_list := list_remove i (session_list s),
                    runningsessions := u32 (runningsessions s - 1)\<rparr>)"

definition next_session_id :: "nat \<Rightarrow> nat" where
  "next_session_id l = (let l' = nat (u64 (int l + 1)) in if l' = 0 then 1 else l')"

definition register_session :: "nat \<Rightarrow> srcpd \<Rightarrow> srcpd" where
  "register_session i s =
     (if i < length (session_list s) then
        (let sid = next_session_id (lastsession s); n = session_list s ! i
         in s\<lparr>lastsession := sid,
              session_list := (session_list s)[i := n\<lparr>session := sid,
                mode := (if mode n = smUndefined then smCommand else mode n)\<rparr>]\<rparr>)
      else s)"

definition is_valid_info_session :: "sessionid_t \<Rightarrow> srcpd \<Rightarrow> bool" where
  "is_valid_info_session sid s = list_has_info_sessionid (session_list s) sid"

section \<open>Info messages\<close>

definition pipe_write :: "string \<Rightarrow> session_node_t \<Rightarrow> session_node_t" where
  "pipe_write msg n =
     (if mode n = smInfo \<and> pipefd1 n \<noteq> -1 then n\<lparr>pipe := pipe n @ [msg]\<rparr> else n)"

definition session_enqueue_info_message :: "sessionid_t \<Rightarrow> string \<Rightarrow> srcpd \<Rightarrow> srcpd" where
  "session_enqueue_info_message sid msg s =
     (if session_list s = [] then s
      else if sid = 0 then
        s\<lparr>session_list := map (pipe_write msg) (session_list s),
          ub := ub s \<or> touches_freed (session_list s) (\<lambda>n. False)\<rparr>
      else
        (let s1 = s\<lparr>ub := ub s \<or> touches_freed (session_list s) (\<lambda>n. session n = sid)\<rparr>
         in case list_search_session (session_list s) sid of
              None \<Rightarrow> s1
            | Some i \<Rightarrow> s1\<lparr>session_list :=
                (session_list s)[i := pipe_write msg (session_list s ! i)]\<rparr>))"

definition enqueueInfoMessage :: "string \<Rightarrow> srcpd \<Rightarrow> srcpd" where
  "enqueueInfoMessage msg s = session_enqueue_info_message 0 msg s"

definition mode_name :: "session_mode \<Rightarrow> string" where
  "mode_name m = (if m = smCommand then ''COMMAND'' else ''INFO'')"

definition start_session :: "nat \<Rightarrow> srcpd \<Rightarrow> int \<times> srcpd" where
  "start_session i s =
     (SRCP_OK, enqueueInfoMessage (stamp (clock s) @ '' 101 INFO 0 SESSION ''
        @ show_nat (session (session_list s ! i)) @ '' ''
        @ mode_name (mode (session_list s ! i)) @ [CHR 0x0A]) s)"

definition describeSESSION :: "bus_t \<Rightarrow> sessionid_t \<Rightarrow> int" where
  "describeSESSION bus sid = SRCP_UNSUPPORTEDOPERATION"

text \<open>
  \<open>termSESSION\<close> cancels the client thread of the own session; the result code is negated to
  mark it. The thread whose cancellation is requested is returned (\<open>None\<close>: no valid id).
\<close>

definition session_terminate :: "sessionid_t \<Rightarrow> srcpd \<Rightarrow> nat option" where
  "session_terminate sid s =
     (let pc = list_search_thread_by_sessionid (session_list s) sid
      in if pc \<noteq> 0 then Some pc else None)"

definition termSESSION :: "bus_t \<Rightarrow> sessionid_t \<Rightarrow> sessionid_t \<Rightarrow> srcpd \<Rightarrow> int \<times> nat option" where
  "termSESSION bus sid termsid s =
     (if sid = termsid then (- SRCP_OK, session_terminate termsid s)
      else (SRCP_FORBIDDEN, None))"

section \<open>Frame lemmas\<close>

text \<open>Emitting a message changes the pipes and nothing else.\<close>

lemma enqueueInfoMessage_frame [simp]:
  "clock (enqueueInfoMessage m s) = clock s"
  "num_buses (enqueueInfoMessage m s) = num_buses s"
  "buses (enqueueInfoMessage m s) = buses s"
  "lastsession (enqueueInfoMessage m s) = lastsession s"
  "runningsessions (enqueueInfoMessage m s) = runningsessions s"
  "commandsessions (enqueueInfoMessage m s) = commandsessions s"
  "gl (enqueueInfoMessage m s) = gl s"
  "ga (enqueueInfoMessage m s) = ga s"
  "fb (enqueueInfoMessage m s) = fb s"
  "sm_queue (enqueueInfoMessage m s) = sm_queue s"
  "vtime (enqueueInfoMessage m s) = vtime s"
  "distort (enqueueInfoMessage m s) = distort s"
  "server_state (enqueueInfoMessage m s) = server_state s"
  "mcs_bus (enqueueInfoMessage m s) = mcs_bus s"
  "ownuid (enqueueInfoMessage m s) = ownuid s"
  "ownhash (enqueueInfoMessage m s) = ownhash s"
  "pingactive (enqueueInfoMessage m s) = pingactive s"
  "mcs_out (enqueueInfoMessage m s) = mcs_out s"
  by (simp_all add: enqueueInfoMessage_def session_enqueue_info_message_def)

lemma session_list_enqueueInfoMessage:
  "session_list (enqueueInfoMessage m s) = map (pipe_write m) (session_list s)"
  by (simp add: enqueueInfoMessage_def session_enqueue_info_message_def)

lemma pipe_write_frame [simp]:
  "session (pipe_write m n) = session n" "thread (pipe_write m n) = thread n"
  "sock (pipe_write m n) = sock n" "mode (pipe_write m n) = mode n"
  "pipefd0 (pipe_write m n) = pipefd0 n" "pipefd1 (pipe_write m n) = pipefd1 n"
  "freed (pipe_write m n) = freed n"
  by (simp_all add: pipe_write_def)

section \<open>Well-formed session lists\<close>

text \<open>
  No node has been freed, registered ids are pairwise distinct, none exceeds the last one given
  out, and \<open>runningsessions\<close> counts the nodes.
\<close>

definition sessions_ok :: "srcpd \<Rightarrow> bool" where
  "sessions_ok s \<longleftrightarrow>
     (\<forall>n \<in> set (session_list s). \<not> freed n \<and> session n \<le> lastsession s) \<and>
     distinct (filter (\<lambda>x. x \<noteq> 0) (map session (session_list s))) \<and>
     runningsessions s = int (length (session_list s))"

lemma touches_freed_False: "(\<And>n. n \<in> set ns \<Longrightarrow> \<not> freed n) \<Longrightarrow> \<not> touches_freed ns stop"
  by (induction ns) auto

lemma sessions_ok_no_freed: "sessions_ok s \<Longrightarrow> \<not> touches_freed (session_list s) stop"
  by (rule touches_freed_False) (auto simp: sessions_ok_def)

lemma ub_enqueueInfoMessage [simp]:
  "sessions_ok s \<Longrightarrow> ub (enqueueInfoMessage m s) = ub s"
  using sessions_ok_no_freed [of s "\<lambda>n. False"]
  by (simp add: enqueueInfoMessage_def session_enqueue_info_message_def)

lemma sessions_ok_enqueueInfoMessage [simp]:
  "sessions_ok (enqueueInfoMessage m s) \<longleftrightarrow> sessions_ok s"
  by (simp add: sessions_ok_def session_list_enqueueInfoMessage o_def)

lemma list_search_session_Some:
  "list_search_session ns sid = Some i \<Longrightarrow> i < length ns \<and> session (ns ! i) = sid"
  by (induction ns arbitrary: i) (auto split: if_splits)

lemma list_search_session_None:
  "list_search_session ns sid = None \<longleftrightarrow> sid \<notin> session ` set ns"
  by (induction ns) auto

lemma list_search_node_index:
  "list_search_session_node ns sid = map_option ((!) ns) (list_search_session ns sid)"
  by (induction ns) (auto simp: option.map_comp o_def)

lemma list_has_info_iff:
  "list_has_info_sessionid ns sid \<longleftrightarrow> (\<exists>n \<in> set ns. session n = sid \<and> mode n = smInfo)"
  by (induction ns) auto

section \<open>The interface of the info path\<close>

locale info_sink =
  fixes emit :: "'m \<Rightarrow> 's \<Rightarrow> 's"
    and subscribed :: "'s \<Rightarrow> bool"
    and seen :: "'s \<Rightarrow> 'm list"
  assumes seen_emit: "subscribed s \<Longrightarrow> seen (emit m s) = seen s @ [m]"
    and subscribed_emit: "subscribed s \<Longrightarrow> subscribed (emit m s)"
    and unseen_emit: "\<not> subscribed s \<Longrightarrow> seen (emit m s) = seen s"
    and unsubscribed_emit: "\<not> subscribed s \<Longrightarrow> \<not> subscribed (emit m s)"
begin

lemma seen_fold:
  "seen (fold emit ms s) = (if subscribed s then seen s @ ms else seen s) \<and>
   (subscribed (fold emit ms s) \<longleftrightarrow> subscribed s)"
proof (induction ms arbitrary: s)
  case Nil
  show ?case by simp
next
  case (Cons m ms)
  show ?case
    using Cons [of "emit m s"] seen_emit [of s m] subscribed_emit [of s m] unseen_emit [of s m]
      unsubscribed_emit [of s m]
    by (cases "subscribed s") auto
qed

end

definition info_subscribed :: "nat \<Rightarrow> srcpd \<Rightarrow> bool" where
  "info_subscribed i s \<longleftrightarrow> i < length (session_list s) \<and> mode (session_list s ! i) = smInfo \<and>
     pipefd1 (session_list s ! i) \<noteq> -1"

definition info_seen :: "nat \<Rightarrow> srcpd \<Rightarrow> string list" where
  "info_seen i s = (if i < length (session_list s) then pipe (session_list s ! i) else [])"

interpretation info: info_sink enqueueInfoMessage "info_subscribed i" "info_seen i" for i
  by unfold_locales
    (auto simp: info_subscribed_def info_seen_def session_list_enqueueInfoMessage pipe_write_def)

lemma info_emit [simp]:
  "info_seen i (enqueueInfoMessage m s) = info_seen i s @ (if info_subscribed i s then [m] else [])"
  "info_subscribed i (enqueueInfoMessage m s) = info_subscribed i s"
  using info.seen_emit [of i s m] info.unseen_emit [of i s m] info.subscribed_emit [of i s m]
    info.unsubscribed_emit [of i s m]
  by auto

lemma info_session_list_update [simp]:
  "info_seen i (s\<lparr>ub := u\<rparr>) = info_seen i s" "info_subscribed i (s\<lparr>ub := u\<rparr>) = info_subscribed i s"
  "info_seen i (s\<lparr>clock := t\<rparr>) = info_seen i s"
  "info_subscribed i (s\<lparr>clock := t\<rparr>) = info_subscribed i s"
  by (simp_all add: info_seen_def info_subscribed_def)

section \<open>Properties\<close>

text \<open>Info messages are delivered completely and in order: after any sequence of calls of
  \<open>enqueueInfoMessage\<close>, every info session with an open pipe has received exactly these
  messages, in this order, behind what it had before; every other session has received
  nothing.\<close>

theorem info_delivery:
  "info_seen i (fold enqueueInfoMessage ms s) =
     (if info_subscribed i s then info_seen i s @ ms else info_seen i s)"
  using info.seen_fold [of i ms s] by simp

lemma distinct_registered_update:
  assumes "distinct (filter (\<lambda>x. x \<noteq> 0) xs)" "i < length xs" "xs ! i = 0" "y \<notin> set xs"
  shows "distinct (filter (\<lambda>x. x \<noteq> 0) (xs[i := y]))"
proof -
  have split: "xs = take i xs @ 0 # drop (Suc i) xs"
    using assms(2,3) by (metis id_take_nth_drop)
  have upd: "xs[i := y] = take i xs @ y # drop (Suc i) xs"
    using assms(2) by (simp add: upd_conv_take_nth_drop)
  from assms(1) have "distinct (filter (\<lambda>x. x \<noteq> 0) (take i xs @ 0 # drop (Suc i) xs))"
    using split by simp
  then show ?thesis
    unfolding upd using assms(4) in_set_takeD [of y i xs] in_set_dropD [of y "Suc i" xs]
    by (cases "y = 0") auto
qed

text \<open>Registering a session keeps the session list well formed and gives a fresh id: the
  node of an anonymous session gets an id that no other session has, never the reserved id 0,
  and command mode unless the client chose info mode, as long as the 64-bit id counter has not
  wrapped.\<close>

theorem register_session_fresh:
  assumes ok: "sessions_ok s" and i: "i < length (session_list s)"
    and anon: "session (session_list s ! i) = 0"
    and nowrap: "int (lastsession s) + 1 < 18446744073709551616"
  shows "sessions_ok (register_session i s) \<and>
    session (session_list (register_session i s) ! i) = lastsession (register_session i s) \<and>
    lastsession (register_session i s) = lastsession s + 1 \<and>
    lastsession (register_session i s) \<notin> session ` set (session_list s) \<and>
    mode (session_list (register_session i s) ! i) \<noteq> smUndefined"
proof -
  have sid: "next_session_id (lastsession s) = lastsession s + 1"
    using nowrap by (simp add: next_session_id_def Let_def u64_id nat_add_distrib)
  have le: "\<And>n. n \<in> set (session_list s) \<Longrightarrow> session n \<le> lastsession s \<and> \<not> freed n"
    using ok by (auto simp: sessions_ok_def)
  let ?n = "(session_list s ! i)\<lparr>session := lastsession s + 1,
     mode := (if mode (session_list s ! i) = smUndefined then smCommand
              else mode (session_list s ! i))\<rparr>"
  have reg: "register_session i s = s\<lparr>lastsession := lastsession s + 1,
      session_list := (session_list s)[i := ?n]\<rparr>"
    using i by (simp add: register_session_def sid Let_def)
  have fresh: "lastsession s + 1 \<notin> session ` set (session_list s)"
    using le by fastforce
  have "distinct (filter (\<lambda>x. x \<noteq> 0) ((map session (session_list s))[i := lastsession s + 1]))"
    using ok i anon fresh
    by (intro distinct_registered_update) (auto simp: sessions_ok_def)
  moreover have "\<not> freed n \<and> session n \<le> lastsession s + 1"
    if "n \<in> set ((session_list s)[i := ?n])" for n
    using set_update_subset_insert [of "session_list s" i ?n] that le i
    by (fastforce dest: nth_mem)
  ultimately have "sessions_ok (register_session i s)"
    using ok unfolding reg by (simp add: sessions_ok_def map_update)
  then show ?thesis using i fresh by (simp add: reg)
qed

text \<open>A daemon with one anonymous client, and the same client registered.\<close>

definition one_client :: srcpd where
  "one_client = create_anonymous_session 4 True srcpd_init"

definition one_session :: srcpd where
  "one_session = register_session 0 one_client"

lemmas one_client_defs = one_client_def one_session_def create_anonymous_session_def list_add_def
  srcpd_init_def register_session_def next_session_id_def

lemma one_client_simps [simp]:
  "sessions_ok one_client" "session (session_list one_client ! 0) = 0"
  "length (session_list one_client) = Suc 0" "lastsession one_client = 0"
  by (simp_all add: one_client_defs sessions_ok_def u32_id)

theorem register_session_fresh_witness:
  "sessions_ok (register_session 0 one_client) \<and> lastsession (register_session 0 one_client) = 1"
  using register_session_fresh [of one_client 0] by simp

lemma one_session_simps [simp]:
  "sessions_ok one_session" "session ` set (session_list one_session) = {1}"
  "length (session_list one_session) = Suc 0"
  by (simp_all add: one_client_defs sessions_ok_def u32_id u64_id Let_def)

lemma destroy_session_effect:
  assumes ok: "sessions_ok s" and sid: "sid \<noteq> 0" "sid \<in> session ` set (session_list s)"
    and small: "length (session_list s) < 2 ^ 32"
  shows "sessions_ok (destroy_session sid s) \<and> ub (destroy_session sid s) = ub s \<and>
    session_list (destroy_session sid s) = filter (\<lambda>n. session n \<noteq> sid) (session_list s)"
proof -
  from sid(2) obtain i where i: "list_search_session (session_list s) sid = Some i"
    using list_search_session_None [of "session_list s" sid] by auto
  note at = list_search_session_Some [OF i]
  let ?a = "take i (session_list s)" and ?b = "drop (Suc i) (session_list s)"
    and ?n = "session_list s ! i"
  have split: "session_list s = ?a @ ?n # ?b" using at by (metis id_take_nth_drop)
  have dist: "distinct (filter (\<lambda>x. x \<noteq> 0) (map session (?a @ ?n # ?b)))"
    using ok split by (simp add: sessions_ok_def)
  have sidn: "session ?n = sid" using at by simp
  have "sid \<notin> session ` set ?a" "sid \<notin> session ` set ?b"
    using dist sid(1) unfolding sidn [symmetric] by (auto simp: image_iff)
  then have "filter (\<lambda>n. session n \<noteq> sid) ?a = ?a" "filter (\<lambda>n. session n \<noteq> sid) ?b = ?b"
    by (auto intro!: filter_True)
  with sidn have rem: "filter (\<lambda>n. session n \<noteq> sid) (?a @ ?n # ?b) = ?a @ ?b" by simp
  have dest: "destroy_session sid s = s\<lparr>session_list := ?a @ ?b,
      runningsessions := u32 (runningsessions s - 1)\<rparr>"
    using i sessions_ok_no_freed [OF ok] by (simp add: destroy_session_def list_remove_def)
  have cnt: "u32 (runningsessions s - 1) = int (length (?a @ ?b))"
    using ok at small by (subst u32_id) (auto simp: sessions_ok_def)
  have "\<forall>n \<in> set (?a @ ?b). \<not> freed n \<and> session n \<le> lastsession s"
    using ok split by (auto simp: sessions_ok_def dest: in_set_takeD in_set_dropD)
  moreover have "distinct (filter (\<lambda>x. x \<noteq> 0) (map session (?a @ ?b)))"
    using dist by (auto split: if_splits)
  ultimately have "sessions_ok (destroy_session sid s)"
    using cnt by (simp add: dest sessions_ok_def)
  then show ?thesis using rem split by (simp add: dest)
qed

text \<open>Destroying a registered session removes that node and no other: the remaining list is
  the old one without it, in the same order, and \<open>runningsessions\<close> still counts the nodes.\<close>

theorem destroy_session_removes:
  assumes ok: "sessions_ok s" and sid: "sid \<noteq> 0" "sid \<in> session ` set (session_list s)"
    and small: "length (session_list s) < 2 ^ 32"
  shows "sessions_ok (destroy_session sid s) \<and> ub (destroy_session sid s) = ub s \<and>
    session_list (destroy_session sid s) = filter (\<lambda>n. session n \<noteq> sid) (session_list s)"
  by (rule destroy_session_effect) (use assms in auto)

theorem destroy_session_removes_witness:
  "session_list (destroy_session 1 one_session) = []"
proof -
  have "1 \<in> session ` set (session_list one_session)" by simp
  from destroy_session_removes [OF one_session_simps(1) _ this] show ?thesis
    by (auto simp: one_client_defs u64_id Let_def)
qed

text \<open>A second destruction is fatal: destroying an id that is not in the list dereferences
  the null pointer that the search returned.\<close>

theorem destroy_session_unknown:
  assumes "sid \<notin> session ` set (session_list s)"
  shows "ub (destroy_session sid s)"
  using assms list_search_session_None [of "session_list s" sid]
  by (simp add: destroy_session_def raise_ub_def)

theorem destroy_session_unknown_witness: "ub (destroy_session 3 one_session)"
  by (rule destroy_session_unknown) simp

text \<open>After \<open>destroy_anonymous_session\<close> the list still links to the freed node, so the next
  info message that is broadcast reads freed memory.\<close>

theorem destroy_anonymous_dangling:
  assumes "i < length (session_list s)"
  shows "ub (enqueueInfoMessage msg (destroy_anonymous_session i s))"
proof -
  have "touches_freed ns (\<lambda>n. False)" if "n \<in> set ns" "freed n" for ns :: "session_node_t list" and n
    using that by (induction ns) auto
  from this [of "(session_list s ! i)\<lparr>freed := True\<rparr>"
      "(session_list s)[i := (session_list s ! i)\<lparr>freed := True\<rparr>]"]
  have "touches_freed ((session_list s)[i := (session_list s ! i)\<lparr>freed := True\<rparr>]) (\<lambda>n. False)"
    using assms by (simp add: set_update_memI)
  with assms show ?thesis
    by (auto simp: enqueueInfoMessage_def session_enqueue_info_message_def
        destroy_anonymous_session_def)
qed

theorem destroy_anonymous_dangling_witness:
  "ub (enqueueInfoMessage ''x'' (destroy_anonymous_session 0 one_client))"
  by (rule destroy_anonymous_dangling) simp

end
