(* ===== verification/Srcp_Bus.thy ===== *)
theory Srcp_Bus
  imports Srcp_Session
begin

unbundle bit_operations_syntax

text \<open>
  Per-bus services that every device group uses: the device group and protocol tests of
  \<open>config-srcpd.c\<close>, track power (\<open>srcp-power.c\<close>), the bus description (\<open>srcp-descr.c\<close>), and
  the CAN frames that \<open>info_mcs\<close> of \<open>mcs-gateway.c\<close> sends to a Maerklin central station.
\<close>

section \<open>Device groups and protocols\<close>

fun is_prefix_of :: "string \<Rightarrow> string \<Rightarrow> bool" where
  "is_prefix_of [] ys = True"
| "is_prefix_of (x # xs) [] = False"
| "is_prefix_of (x # xs) (y # ys) = (x = y \<and> is_prefix_of xs ys)"

fun strstr :: "string \<Rightarrow> string \<Rightarrow> bool" where
  "strstr [] n = is_prefix_of n []"
| "strstr (x # xs) n = (is_prefix_of n (x # xs) \<or> strstr xs n)"

datatype devicegroup = DG_SESSION | DG_TIME | DG_GA | DG_GL | DG_FB | DG_SM | DG_LOCK
  | DG_DESCRIPTION | DG_SERVER | DG_POWER | DG_GM

fun bus_has_devicegroup :: "bus_t \<Rightarrow> devicegroup \<Rightarrow> srcpd \<Rightarrow> bool" where
  "bus_has_devicegroup bus DG_SESSION s = strstr (bus_description (buses s bus)) ''SESSION''"
| "bus_has_devicegroup bus DG_POWER s = strstr (bus_description (buses s bus)) ''POWER''"
| "bus_has_devicegroup bus DG_GA s = strstr (bus_description (buses s bus)) ''GA''"
| "bus_has_devicegroup bus DG_GL s = strstr (bus_description (buses s bus)) ''GL''"
| "bus_has_devicegroup bus DG_GM s = strstr (bus_description (buses s bus)) ''GM''"
| "bus_has_devicegroup bus DG_FB s = strstr (bus_description (buses s bus)) ''FB''"
| "bus_has_devicegroup bus DG_SM s = strstr (bus_description (buses s bus)) ''SM''"
| "bus_has_devicegroup bus DG_SERVER s = strstr (bus_description (buses s bus)) ''SERVER''"
| "bus_has_devicegroup bus DG_TIME s = strstr (bus_description (buses s bus)) ''TIME''"
| "bus_has_devicegroup bus DG_LOCK s = strstr (bus_description (buses s bus)) ''LOCK''"
| "bus_has_devicegroup bus DG_DESCRIPTION s = (bus_description (buses s bus) \<noteq> [])"

definition bus_supports_protocol :: "bus_t \<Rightarrow> char \<Rightarrow> srcpd \<Rightarrow> int" where
  "bus_supports_protocol bus p s =
     (case bus_protocols (buses s bus) of
        None \<Rightarrow> SRCP_UNSUPPORTEDDEVICEPROTOCOL
      | Some ps \<Rightarrow> if List.member ps p then SRCP_OK else SRCP_UNSUPPORTEDDEVICEPROTOCOL)"

lemma is_prefix_of_iff: "is_prefix_of xs ys \<longleftrightarrow> (\<exists>zs. ys = xs @ zs)"
  by (induction xs ys rule: is_prefix_of.induct) auto

lemma strstr_iff: "strstr hay n \<longleftrightarrow> (\<exists>us vs. hay = us @ n @ vs)"
proof (induction hay)
  case Nil
  show ?case by (simp add: is_prefix_of_iff)
next
  case (Cons x xs)
  have "(\<exists>us vs. x # xs = us @ n @ vs) \<longleftrightarrow>
      (\<exists>vs. x # xs = n @ vs) \<or> (\<exists>us vs. xs = us @ n @ vs)" (is "?l \<longleftrightarrow> ?r")
  proof
    assume ?l
    then obtain us vs where "x # xs = us @ n @ vs" by blast
    then show ?r by (cases us) auto
  next
    assume ?r
    then show ?l by (metis append.left_neutral append_Cons)
  qed
  with Cons show ?case by (simp add: is_prefix_of_iff)
qed

section \<open>Track power\<close>

text \<open>
  \<open>setPower\<close> copies the message with \<open>strcpy\<close> into \<open>char power_msg[100]\<close>.
\<close>

definition setPower :: "bus_t \<Rightarrow> int \<Rightarrow> string \<Rightarrow> srcpd \<Rightarrow> int \<times> srcpd" where
  "setPower bus state msg s =
     (SRCP_OK, (upd_bus bus (\<lambda>b. b\<lparr>power_change_time := clock s,
        power_state := (if state = -1 then 0 else state), power_msg := msg,
        power_changed := (if state = -1 then 0 else 1)\<rparr>) s)
        \<lparr>ub := ub s \<or> 100 \<le> length msg\<rparr>)"

definition getPower :: "bus_t \<Rightarrow> srcpd \<Rightarrow> int" where
  "getPower bus s = power_state (buses s bus)"

definition infoPower :: "bus_t \<Rightarrow> srcpd \<Rightarrow> int \<times> string" where
  "infoPower bus s =
     (SRCP_INFO, stamp (power_change_time (buses s bus)) @ '' 100 INFO '' @ show_nat bus
        @ '' POWER '' @ (if power_state (buses s bus) \<noteq> 0 then ''ON'' else ''OFF'') @ '' ''
        @ power_msg (buses s bus) @ [CHR 0x0A])"

definition initPower :: "bus_t \<Rightarrow> int" where
  "initPower bus = SRCP_OK"

definition termPower :: "bus_t \<Rightarrow> srcpd \<Rightarrow> int \<times> srcpd" where
  "termPower bus s =
     (if 1 = getPower bus s then setPower bus 0 ''Device Termination'' s else (SRCP_OK, s))"

definition describeBus :: "bus_t \<Rightarrow> srcpd \<Rightarrow> int \<times> string" where
  "describeBus bus s =
     (SRCP_INFO, stamp (power_change_time (buses s bus)) @ '' 100 INFO '' @ show_nat bus
        @ '' DESCRIPTION '' @ bus_description (buses s bus) @ [CHR 0x0A])"

section \<open>Synchronisation frames of the central station gateway\<close>

definition be16 :: "int list \<Rightarrow> int" where
  "be16 u = u16 (push_bit 8 (u ! 0) OR u ! 1)"

definition be32 :: "int list \<Rightarrow> int" where
  "be32 u = u32 (push_bit 24 (u ! 0) OR push_bit 16 (u ! 1) OR push_bit 8 (u ! 2) OR u ! 3)"

definition CAN_EFF_FLAG :: int where [code_unfold]: "CAN_EFF_FLAG = 0x80000000"

text \<open>\<open>htonl\<close> and \<open>memcpy\<close> lay the item id out with its most significant byte first.\<close>

definition be32_bytes :: "int \<Rightarrow> int list" where
  "be32_bytes i = [u8 (drop_bit 24 i), u8 (drop_bit 16 i), u8 (drop_bit 8 i), u8 i]"

text \<open>
  \<open>info\<close> is the list of payload bytes \<open>info[1], info[2], \<dots>\<close>; its length is \<open>info[0]\<close>. The
  frame is handed to \<open>write\<close>; a failed write is only logged.
\<close>

definition info_mcs :: "bus_t \<Rightarrow> int \<Rightarrow> int \<Rightarrow> int list \<Rightarrow> srcpd \<Rightarrow> int \<times> srcpd" where
  "info_mcs bus infoid itemid info s =
     (if bus \<noteq> mcs_bus s then (-1, s)
      else (0, s\<lparr>mcs_out := mcs_out s @
        [\<lparr>can_id = u32 (push_bit 16 infoid OR ownhash s OR CAN_EFF_FLAG),
          can_dlc = int (length info) + 4,
          can_data = be32_bytes (u32 itemid) @ map u8 info\<rparr>]\<rparr>))"

text \<open>\<open>send_seek_cmd\<close> reports the state of the mfx decoder search.\<close>

definition send_seek_cmd :: "int \<Rightarrow> int \<Rightarrow> srcpd \<Rightarrow> srcpd" where
  "send_seek_cmd scmd sdat s =
     snd (info_mcs (mcs_bus s) 0 (ownuid s) ([0x30, scmd] @ (if sdat \<noteq> 0 then [sdat] else [])) s)"

lemma info_mcs_frame [simp]:
  "ub (snd (info_mcs b i t d s)) = ub s" "clock (snd (info_mcs b i t d s)) = clock s"
  "num_buses (snd (info_mcs b i t d s)) = num_buses s" "buses (snd (info_mcs b i t d s)) = buses s"
  "session_list (snd (info_mcs b i t d s)) = session_list s"
  "lastsession (snd (info_mcs b i t d s)) = lastsession s"
  "runningsessions (snd (info_mcs b i t d s)) = runningsessions s"
  "commandsessions (snd (info_mcs b i t d s)) = commandsessions s"
  "gl (snd (info_mcs b i t d s)) = gl s" "ga (snd (info_mcs b i t d s)) = ga s"
  "fb (snd (info_mcs b i t d s)) = fb s" "sm_queue (snd (info_mcs b i t d s)) = sm_queue s"
  "vtime (snd (info_mcs b i t d s)) = vtime s" "distort (snd (info_mcs b i t d s)) = distort s"
  "server_state (snd (info_mcs b i t d s)) = server_state s"
  "mcs_bus (snd (info_mcs b i t d s)) = mcs_bus s" "ownuid (snd (info_mcs b i t d s)) = ownuid s"
  "ownhash (snd (info_mcs b i t d s)) = ownhash s"
  "pingactive (snd (info_mcs b i t d s)) = pingactive s"
  by (simp_all add: info_mcs_def)

lemma info_info_mcs [simp]:
  "info_seen j (snd (info_mcs b i t d s)) = info_seen j s"
  "info_subscribed j (snd (info_mcs b i t d s)) = info_subscribed j s"
  by (simp_all add: info_seen_def info_subscribed_def)

lemma length_mcs_out_info_mcs [simp]:
  "length (mcs_out (snd (info_mcs b i t d s))) = length (mcs_out s) + (if b = mcs_bus s then 1 else 0)"
  by (simp add: info_mcs_def)

lemma sessions_ok_info_mcs [simp]: "sessions_ok (snd (info_mcs b i t d s)) \<longleftrightarrow> sessions_ok s"
  by (simp add: sessions_ok_def)

lemma upd_bus_frame [simp]:
  "ub (upd_bus b f s) = ub s" "clock (upd_bus b f s) = clock s"
  "num_buses (upd_bus b f s) = num_buses s" "session_list (upd_bus b f s) = session_list s"
  "gl (upd_bus b f s) = gl s" "ga (upd_bus b f s) = ga s" "fb (upd_bus b f s) = fb s"
  "sm_queue (upd_bus b f s) = sm_queue s" "server_state (upd_bus b f s) = server_state s"
  "buses (upd_bus b f s) = (buses s)(b := f (buses s b))"
  by (simp_all add: upd_bus_def)

section \<open>Bit-level facts of the frame layout\<close>

lemma u8_take_bit: "u8 x = take_bit 8 x"
  by (simp add: u8_def take_bit_eq_mod)

lemma u16_take_bit: "u16 x = take_bit 16 x"
  by (simp add: u16_def take_bit_eq_mod)

lemma u32_take_bit: "u32 x = take_bit 32 x"
  by (simp add: u32_def take_bit_eq_mod)

lemma be32_bytes_bits:
  "take_bit 32 (push_bit 24 (take_bit 8 (drop_bit 24 i)) OR
     push_bit 16 (take_bit 8 (drop_bit 16 i)) OR push_bit 8 (take_bit 8 (drop_bit 8 i)) OR
     take_bit 8 i) = take_bit 32 (i::int)"
proof (rule bit_eqI)
  fix n
  show "bit (take_bit 32 (push_bit 24 (take_bit 8 (drop_bit 24 i)) OR
      push_bit 16 (take_bit 8 (drop_bit 16 i)) OR push_bit 8 (take_bit 8 (drop_bit 8 i)) OR
      take_bit 8 i)) n = bit (take_bit 32 i) n"
    by (cases "n < 8"; cases "n < 16"; cases "n < 24"; auto simp: bit_simps)
qed

lemma be32_be32_bytes: "be32 (be32_bytes i) = u32 i"
  using be32_bytes_bits [of i]
  by (simp add: be32_def be32_bytes_def u8_take_bit u32_take_bit numeral_2_eq_2 numeral_3_eq_3)

lemma bit_CAN_EFF_FLAG: "bit CAN_EFF_FLAG n \<longleftrightarrow> n = 31"
proof -
  have eq: "CAN_EFF_FLAG = 2 ^ 31" by (simp add: CAN_EFF_FLAG_def)
  show ?thesis unfolding eq bit_exp_iff by auto
qed

lemma can_id_command:
  assumes "0 \<le> infoid" "infoid < 512" "0 \<le> h" "h < 65536"
  shows "drop_bit 16 (u32 (push_bit 16 infoid OR h OR CAN_EFF_FLAG) AND 0x01FF0000) = infoid"
proof -
  have i: "take_bit 9 infoid = infoid" and h: "take_bit 16 h = h"
    using assms by (simp_all add: take_bit_int_eq_self)
  have m: "(0x01FF0000::int) = push_bit 16 (mask 9)"
    by (simp add: push_bit_eq_mult mask_eq_exp_minus_1)
  have "drop_bit 16 (u32 (push_bit 16 infoid OR h OR CAN_EFF_FLAG) AND push_bit 16 (mask 9))
      = take_bit 9 infoid"
    unfolding u32_take_bit
    by (subst h [symmetric], rule bit_eqI) (auto simp: bit_simps bit_CAN_EFF_FLAG)
  with i m show ?thesis by simp
qed

section \<open>Properties\<close>

text \<open>The frame that \<open>info_mcs\<close> sends decodes to what it was given: on the gateway's own bus
  exactly one frame is appended, whose command field is \<open>infoid\<close>, whose first four data bytes
  are the 32-bit item id as \<open>be32\<close> reads it, whose remaining bytes are the payload, and whose
  length field is the number of data bytes; on any other bus nothing is sent and the result is
  -1.\<close>

theorem info_mcs_decodes:
  assumes "0 \<le> infoid" "infoid < 512" "0 \<le> ownhash s" "ownhash s < 65536"
    and "\<forall>x \<in> set info. 0 \<le> x \<and> x < 256"
  shows "(bus \<noteq> mcs_bus s \<longrightarrow> info_mcs bus infoid itemid info s = (-1, s)) \<and>
    (bus = mcs_bus s \<longrightarrow> (\<exists>f. mcs_out (snd (info_mcs bus infoid itemid info s)) = mcs_out s @ [f] \<and>
       drop_bit 16 (can_id f AND 0x01FF0000) = infoid \<and> be32 (take 4 (can_data f)) = u32 itemid \<and>
       drop 4 (can_data f) = info \<and> can_dlc f = int (length (can_data f))))"
proof -
  have "length (be32_bytes i) = 4" for i by (simp add: be32_bytes_def)
  moreover have "map u8 info = info"
    using assms(5) by (intro map_idI) (simp add: u8_id)
  moreover have "be32 (be32_bytes (u32 itemid)) = u32 itemid"
    by (simp add: be32_be32_bytes) (simp add: u32_def)
  ultimately show ?thesis
    using can_id_command [OF assms(1-4)] by (simp add: info_mcs_def)
qed

theorem info_mcs_decodes_witness:
  "mcs_out (snd (info_mcs 0 5 16385 [1] srcpd_init)) \<noteq> []"
  using info_mcs_decodes [of 5 srcpd_init "[1]" 0 16385] by (auto simp: srcpd_init_def)

text \<open>\<open>setPower\<close> is safe and its effect is what \<open>getPower\<close> and \<open>infoPower\<close> report for every
  message of less than 100 characters, and writes beyond \<open>power_msg\<close> for every longer one.\<close>

theorem setPower_reported:
  "fst (setPower bus st msg s) = SRCP_OK \<and>
   (ub (snd (setPower bus st msg s)) \<longleftrightarrow> ub s \<or> \<not> length msg < 100) \<and>
   getPower bus (snd (setPower bus st msg s)) = (if st = -1 then 0 else st) \<and>
   infoPower bus (snd (setPower bus st msg s)) = (SRCP_INFO, stamp (clock s) @ '' 100 INFO '' @
     show_nat bus @ '' POWER '' @ (if st = -1 \<or> st = 0 then ''OFF'' else ''ON'') @ '' '' @ msg @ [CHR 0x0A])"
  by (auto simp: setPower_def getPower_def infoPower_def)

end
