(* ===== verification/Device_Lock.thy ===== *)
theory Device_Lock
  imports Srcp_Types
begin

text \<open>
  The locking discipline that the device groups GA and GL share: a device is owned by at most
  one session, \<open>lock\<close> succeeds on a free device or for its owner, \<open>unlock\<close> likewise, every other
  session is answered with \<open>SRCP_DEVICELOCKED\<close>. A request names a device by an address;
  \<open>target\<close> resolves it to the slot that is locked, \<open>None\<close> for an address that is refused.
\<close>

datatype 'r lock_req = Lock 'r int sessionid_t | Unlock 'r sessionid_t

fun lock_req_by :: "'r lock_req \<Rightarrow> sessionid_t" where
  "lock_req_by (Lock r d sid) = sid"
| "lock_req_by (Unlock r sid) = sid"

fun lock_req_dev :: "'r lock_req \<Rightarrow> 'r" where
  "lock_req_dev (Lock r d sid) = r"
| "lock_req_dev (Unlock r sid) = r"

fun lock_step :: "('r \<Rightarrow> int \<Rightarrow> sessionid_t \<Rightarrow> 's \<Rightarrow> int \<times> 's) \<Rightarrow> ('r \<Rightarrow> sessionid_t \<Rightarrow> 's \<Rightarrow> int \<times> 's) \<Rightarrow>
    'r lock_req \<Rightarrow> 's \<Rightarrow> int \<times> 's" where
  "lock_step lock unlock (Lock r d sid) s = lock r d sid s"
| "lock_step lock unlock (Unlock r sid) s = unlock r sid s"

fun lock_run :: "('r \<Rightarrow> int \<Rightarrow> sessionid_t \<Rightarrow> 's \<Rightarrow> int \<times> 's) \<Rightarrow> ('r \<Rightarrow> sessionid_t \<Rightarrow> 's \<Rightarrow> int \<times> 's) \<Rightarrow>
    'r lock_req list \<Rightarrow> 's \<Rightarrow> int list \<times> 's" where
  "lock_run lock unlock [] s = ([], s)"
| "lock_run lock unlock (r # rs) s =
     (case lock_step lock unlock r s of (c, s1) \<Rightarrow>
        case lock_run lock unlock rs s1 of (cs, s2) \<Rightarrow> (c # cs, s2))"

locale device_lock =
  fixes target :: "'r \<Rightarrow> 's \<Rightarrow> 'd option"
    and owner :: "'d \<Rightarrow> 's \<Rightarrow> sessionid_t"
    and lock :: "'r \<Rightarrow> int \<Rightarrow> sessionid_t \<Rightarrow> 's \<Rightarrow> int \<times> 's"
    and unlock :: "'r \<Rightarrow> sessionid_t \<Rightarrow> 's \<Rightarrow> int \<times> 's"
  assumes lock_code: "fst (lock r t sid s) =
      (case target r s of None \<Rightarrow> SRCP_WRONGVALUE
       | Some d \<Rightarrow> if owner d s = 0 \<or> owner d s = sid then SRCP_OK else SRCP_DEVICELOCKED)"
    and lock_owner: "owner d (snd (lock r t sid s)) =
      (if target r s = Some d \<and> fst (lock r t sid s) = SRCP_OK then sid else owner d s)"
    and lock_target: "target r' (snd (lock r t sid s)) = target r' s"
    and unlock_code: "fst (unlock r sid s) =
      (case target r s of None \<Rightarrow> SRCP_WRONGVALUE
       | Some d \<Rightarrow> if owner d s = 0 \<or> owner d s = sid then SRCP_OK else SRCP_DEVICELOCKED)"
    and unlock_owner: "owner d (snd (unlock r sid s)) =
      (if target r s = Some d \<and> fst (unlock r sid s) = SRCP_OK then 0 else owner d s)"
    and unlock_target: "target r' (snd (unlock r sid s)) = target r' s"
begin

lemma step_code: "fst (lock_step lock unlock q s) =
    (case target (lock_req_dev q) s of None \<Rightarrow> SRCP_WRONGVALUE
     | Some d \<Rightarrow> if owner d s = 0 \<or> owner d s = lock_req_by q then SRCP_OK else SRCP_DEVICELOCKED)"
  by (cases q) (simp_all add: lock_code unlock_code split: option.split)

lemma step_target: "target r (snd (lock_step lock unlock q s)) = target r s"
  by (cases q) (simp_all add: lock_target unlock_target)

lemma step_owner_foreign:
  assumes "owner d s \<noteq> 0" "lock_req_by q \<noteq> owner d s"
  shows "owner d (snd (lock_step lock unlock q s)) = owner d s"
  using assms by (cases q) (auto simp: lock_owner unlock_owner lock_code unlock_code srcp_codes)

lemma run_target: "target r (snd (lock_run lock unlock qs s)) = target r s"
proof (induction qs arbitrary: s)
  case (Cons q qs)
  show ?case
    using Cons [of "snd (lock_step lock unlock q s)"] step_target [of r q s]
    by (auto split: prod.splits)
qed simp

text \<open>Mutual exclusion: the lock survives every sequence of requests of other sessions.\<close>

lemma run_excludes:
  assumes "owner d s = sid" "sid \<noteq> 0" "\<And>q. q \<in> set qs \<Longrightarrow> lock_req_by q \<noteq> sid"
  shows "owner d (snd (lock_run lock unlock qs s)) = sid \<and>
    (\<forall>i < length qs. target (lock_req_dev (qs ! i)) s = Some d \<longrightarrow>
       fst (lock_run lock unlock qs s) ! i = SRCP_DEVICELOCKED)"
  using assms
proof (induction qs arbitrary: s)
  case (Cons q qs)
  obtain c s1 where st: "lock_step lock unlock q s = (c, s1)" by fastforce
  have own: "owner d s1 = sid"
    using step_owner_foreign [of d s q] Cons.prems st by (metis list.set_intros(1) snd_conv)
  have tgt: "target r s1 = target r s" for r using step_target [of r q s] st by simp
  have code: "c = SRCP_DEVICELOCKED" if "target (lock_req_dev q) s = Some d"
    using step_code [of q s] st that Cons.prems(1,2) Cons.prems(3) [of q] by simp
  have IH: "owner d (snd (lock_run lock unlock qs s1)) = sid \<and>
    (\<forall>i < length qs. target (lock_req_dev (qs ! i)) s1 = Some d \<longrightarrow>
       fst (lock_run lock unlock qs s1) ! i = SRCP_DEVICELOCKED)"
    using Cons.prems own by (intro Cons.IH) auto
  show ?case
    using IH code tgt st by (auto simp: nth_Cons split: prod.splits nat.splits)
qed simp

end

end
