(* ===== verification/Srcp_GL.thy ===== *)
theory Srcp_GL
  imports Srcp_Bus Device_Lock
begin

unbundle bit_operations_syntax

text \<open>
  \<open>srcp-gl.c\<close>: the generic locomotives. Per bus a table \<open>glstate[0..numberOfGl]\<close> of decoder
  records (entry 0 is not used), three directories that map a decoder address of the protocols
  mfx, NMRA DCC and Maerklin to a table index, the protocol \<open>proto\<close> last used for an SRCP
  address below 256, and a queue of table indices between the client threads and the bus
  thread. A locomotive is named by a \<open>locid\<close>: bits 0-13 are the decoder address, the bits above
  select the address space (0 SRCP, 1 mfx, 3 DCC; with \<open>MCSADDRINDICATOR\<close> 4 Maerklin, 5 mfx,
  7 DCC).
\<close>

definition QUEUELEN_GL :: nat where [simp, code_unfold]: "QUEUELEN_GL = 200"
definition MCSADDRINDICATOR :: nat where [code_unfold]: "MCSADDRINDICATOR = 0x10000"

abbreviation gl_at :: "bus_t \<Rightarrow> nat \<Rightarrow> srcpd \<Rightarrow> gl_data_t" where
  "gl_at b i s \<equiv> glstate (gl s b) i"

definition upd_glstate :: "bus_t \<Rightarrow> nat \<Rightarrow> (gl_data_t \<Rightarrow> gl_data_t) \<Rightarrow> srcpd \<Rightarrow> srcpd" where
  "upd_glstate b i f s = upd_gl b (\<lambda>g. g\<lparr>glstate := (glstate g)(i := f (glstate g i))\<rparr>) s"

text \<open>The order of the enumeration \<open>gl_state_t\<close>: \<open>state >= glsInit\<close>.\<close>

definition gl_alive :: "gl_state_t \<Rightarrow> bool" where
  "gl_alive st \<longleftrightarrow> st = glsInit \<or> st = glsActive"

definition getMaxAddrGL :: "bus_t \<Rightarrow> srcpd \<Rightarrow> int" where
  "getMaxAddrGL b s = (if b \<le> num_buses s then numberOfGl (gl s b) else 0)"

section \<open>Speed steps\<close>

text \<open>
  The arithmetic of \<open>calcspeed\<close> is that of C \<open>int\<close>; \<open>calcspeed_fits\<close> says that no intermediate
  value leaves its range and no negative value is shifted, which the standard leaves undefined.
\<close>

definition clip_speed :: "int \<Rightarrow> int \<Rightarrow> int" where
  "clip_speed vs vmax = (let vs = (if vs < 0 then 0 else vs) in if vs > vmax then vmax else vs)"

definition calcspeed :: "int \<Rightarrow> int \<Rightarrow> int \<Rightarrow> int" where
  "calcspeed vs vmax n_fs =
     (if vmax = 0 then vs
      else
        (let vs = clip_speed vs vmax;
             rs = vs * n_fs;
             rs = rs * 2;
             rs = rs + vmax;
             rs = tdiv rs vmax;
             rs = drop_bit 1 rs
         in if rs = 0 \<and> vs \<noteq> 0 then 1 else rs))"

definition calcspeed_fits :: "int \<Rightarrow> int \<Rightarrow> int \<Rightarrow> bool" where
  "calcspeed_fits vs vmax n_fs \<longleftrightarrow>
     vmax = 0 \<or> (0 \<le> clip_speed vs vmax * n_fs \<and>
       clip_speed vs vmax * n_fs * 2 + vmax < 2147483648 \<and> clip_speed vs vmax * n_fs * 2 < 2147483648)"

definition getglid :: "gl_data_t \<Rightarrow> nat" where
  "getglid p =
     (if gl_protocol p = CHR ''M'' then nat (gl_id p)
      else if gl_protocol p = CHR ''X'' then nat (gl_id p) + 0x4000
      else if gl_protocol p = CHR ''N'' then nat (gl_id p) + 0xC000
      else 0)"

section \<open>The directories\<close>

text \<open>The result of \<open>getGLIndex\<close> is a pointer into one of the three directories.\<close>

datatype glref = Mfx nat | Nmra nat | Mm nat

fun gli_read :: "glref \<Rightarrow> gl_dir_t \<Rightarrow> nat" where
  "gli_read (Mfx i) d = mfxdir d i"
| "gli_read (Nmra i) d = nmradir d i"
| "gli_read (Mm i) d = mmdir d i"

fun gli_write :: "glref \<Rightarrow> nat \<Rightarrow> gl_dir_t \<Rightarrow> gl_dir_t" where
  "gli_write (Mfx i) v d = d\<lparr>mfxdir := (mfxdir d)(i := v)\<rparr>"
| "gli_write (Nmra i) v d = d\<lparr>nmradir := (nmradir d)(i := v)\<rparr>"
| "gli_write (Mm i) v d = d\<lparr>mmdir := (mmdir d)(i := v)\<rparr>"

text \<open>The two fall-through chains of the \<open>switch\<close>.\<close>

definition ref_nmra :: "nat \<Rightarrow> glref option" where
  "ref_nmra i = (if int i < MAXNMRAGL then Some (Nmra i) else None)"

definition ref_mfx :: "nat \<Rightarrow> glref option" where
  "ref_mfx i = (if int i < MAXMFXGL then Some (Mfx i) else None)"

definition gl_ref :: "gl_dir_t \<Rightarrow> nat \<Rightarrow> char \<Rightarrow> glref option" where
  "gl_ref d locid prot =
     (let i = take_bit 14 locid; space = drop_bit 14 locid
      in if i = 0 then None
         else if space = 0 then
           if int locid < MAXSRCPGL \<and> proto d locid = CHR ''M'' then Some (Mm i)
           else if int locid < MAXSRCPGL \<and> proto d locid = CHR ''N'' then Some (Nmra i)
           else if int locid < MAXSRCPGL \<and> proto d locid = CHR ''X'' then Some (Mfx i)
           else if prot \<noteq> nul \<and> prot \<noteq> CHR ''N'' then None
           else ref_nmra i
         else if space = 3 \<or> space = 7 then ref_nmra i
         else if space = 4 then (if int i < MAXMMGL then Some (Mm i) else None)
         else if space = 1 then
           if prot \<noteq> nul \<and> prot \<noteq> CHR ''X'' then None else ref_mfx i
         else if space = 5 then ref_mfx i
         else None)"

definition getGLIndex :: "bus_t \<Rightarrow> nat \<Rightarrow> char \<Rightarrow> srcpd \<Rightarrow> glref option \<times> srcpd" where
  "getGLIndex b locid prot s =
     (case gldir (gl s b) of
        None \<Rightarrow> (None, s)
      | Some d \<Rightarrow>
          if \<not> b \<le> num_buses s then (None, s)
          else
            (let d1 = (if int locid < MAXSRCPGL \<and> prot \<noteq> nul
                       then d\<lparr>proto := (proto d)(locid := prot)\<rparr> else d)
             in (gl_ref d1 locid prot, upd_gl b (\<lambda>g. g\<lparr>gldir := Some d1\<rparr>) s)))"

definition gli_get :: "bus_t \<Rightarrow> glref \<Rightarrow> srcpd \<Rightarrow> nat" where
  "gli_get b r s = (case gldir (gl s b) of None \<Rightarrow> 0 | Some d \<Rightarrow> gli_read r d)"

definition gli_set :: "bus_t \<Rightarrow> glref \<Rightarrow> nat \<Rightarrow> srcpd \<Rightarrow> srcpd" where
  "gli_set b r v s = upd_gl b (\<lambda>g. g\<lparr>gldir := map_option (gli_write r v) (gldir g)\<rparr>) s"

text \<open>The table index of \<open>gli ? *gli : 0\<close> after a lookup without protocol.\<close>

definition gl_lookup :: "bus_t \<Rightarrow> nat \<Rightarrow> srcpd \<Rightarrow> nat" where
  "gl_lookup b locid s = (case fst (getGLIndex b locid nul s) of None \<Rightarrow> 0 | Some r \<Rightarrow> gli_get b r s)"

text \<open>
  The 16-bit counter of \<open>addGLEntry\<close> runs up to \<open>numberOfGl\<close>; in a larger table it wraps to entry
  0, which is never in use, and 0 is returned.
\<close>

definition addGLEntry :: "bus_t \<Rightarrow> srcpd \<Rightarrow> nat" where
  "addGLEntry b s =
     (case find (\<lambda>e. gl_state (gl_at b e s) = glsNone)
             [1..<Suc (nat (min (numberOfGl (gl s b)) 65535))] of
        None \<Rightarrow> 0 | Some e \<Rightarrow> e)"

definition isInitializedGL :: "bus_t \<Rightarrow> int \<Rightarrow> srcpd \<Rightarrow> nat" where
  "isInitializedGL b index s =
     (if b \<le> num_buses s \<and> 0 < numberOfGl (gl s b) \<and> 0 < index \<and> index \<le> numberOfGl (gl s b) \<and>
         gl_state (gl_at b (nat index) s) \<noteq> glsNone then
        (let p = gl_at b (nat index) s; i = nat (gl_id p)
         in if (MAXSRCPGL \<le> int i \<or> (case gldir (gl s b) of None \<Rightarrow> True
                  | Some d \<Rightarrow> proto d i \<noteq> gl_protocol p)) \<and> gl_protocol p = CHR ''X''
            then nat (u16 (int i + 0x4000)) else i)
      else 0)"

section \<open>Command queue\<close>

definition queue_GL_isempty :: "bus_t \<Rightarrow> srcpd \<Rightarrow> bool" where
  "queue_GL_isempty b s = ring_isempty (gl_queue (gl s b))"

definition queue_len_gl :: "bus_t \<Rightarrow> srcpd \<Rightarrow> nat" where
  "queue_len_gl b s = ring_len QUEUELEN_GL (gl_queue (gl s b))"

definition queue_isfull_gl :: "bus_t \<Rightarrow> srcpd \<Rightarrow> bool" where
  "queue_isfull_gl b s \<longleftrightarrow> queue_len_gl b s \<ge> QUEUELEN_GL - 1"

text \<open>
  The second half of \<open>gl_enqueue\<close>: nothing when the queue is full or the locomotive is already
  waiting.
\<close>

definition gl_push :: "bus_t \<Rightarrow> nat \<Rightarrow> srcpd \<Rightarrow> srcpd" where
  "gl_push b i s =
     (let q = gl_queue (gl s b)
      in if queue_isfull_gl b s then s
         else if i \<in> set (ring_list QUEUELEN_GL q) then s
         else upd_gl b (\<lambda>g. g\<lparr>gl_queue := ring_put QUEUELEN_GL i q\<rparr>) s)"

definition dequeueNextGL :: "bus_t \<Rightarrow> srcpd \<Rightarrow> nat option \<times> srcpd" where
  "dequeueNextGL b s =
     (if ring_isempty (gl_queue (gl s b)) then (None, s)
      else (Some (ring_peek (gl_queue (gl s b))),
            upd_gl b (\<lambda>g. g\<lparr>gl_queue := ring_drop QUEUELEN_GL (gl_queue (gl s b))\<rparr>) s))"

section \<open>Descriptions\<close>

definition cacheDescribeGL :: "bus_t \<Rightarrow> nat \<Rightarrow> srcpd \<Rightarrow> int \<times> string" where
  "cacheDescribeGL b locid s =
     (let i = gl_lookup b locid s; p = gl_at b i s
      in if i \<noteq> 0 \<and> gl_alive (gl_state p) then
           (let msg = stamp (gl_inittime p) @ '' 101 INFO '' @ show_nat b @ '' GL '' @ show_nat locid
                  @ '' '' @ [gl_protocol p] @ '' '' @ show_int (gl_protocolversion p) @ '' ''
                  @ show_int (gl_n_fs p) @ '' '' @ show_int (gl_n_func p);
                msg = (case describe_gl_func (buses s b) of None \<Rightarrow> msg | Some f \<Rightarrow> f p msg)
            in (SRCP_INFO, msg @ [CHR 0x0A]))
         else (SRCP_NODATA, []))"

definition func_bit :: "int \<Rightarrow> nat \<Rightarrow> int" where
  "func_bit funcs f = (if bit funcs f then 1 else 0)"

definition show_funcs :: "gl_data_t \<Rightarrow> string" where
  "show_funcs p = concat (map (\<lambda>f. '' '' @ show_int (func_bit (gl_funcs p) f)) [1..<nat (gl_n_func p)])"

definition cacheInfoGL :: "bus_t \<Rightarrow> nat \<Rightarrow> srcpd \<Rightarrow> int \<times> string" where
  "cacheInfoGL b locid s =
     (let i = gl_lookup b locid s; p = gl_at b i s
      in if i \<noteq> 0 \<and> gl_state p = glsActive then
           (SRCP_INFO, stamp (gl_updatime p) @ '' 100 INFO '' @ show_nat b @ '' GL '' @ show_nat locid
              @ '' '' @ show_int (gl_direction p) @ '' '' @ show_int (gl_speed p) @ '' ''
              @ show_int (gl_n_fs p) @ '' '' @ show_int (func_bit (gl_funcs p) 0)
              @ show_funcs p @ [CHR 0x0A])
         else (SRCP_NODATA, []))"

text \<open>\<open>funcs >> f\<close> is defined for \<open>f < 32\<close> only.\<close>

definition cacheInfoGL_shift_ub :: "bus_t \<Rightarrow> nat \<Rightarrow> srcpd \<Rightarrow> bool" where
  "cacheInfoGL_shift_ub b locid s \<longleftrightarrow>
     gl_lookup b locid s \<noteq> 0 \<and> gl_state (gl_at b (gl_lookup b locid s) s) = glsActive \<and>
     32 < gl_n_func (gl_at b (gl_lookup b locid s) s)"

section \<open>Initialisation\<close>

text \<open>
  \<open>cacheInitGL\<close> puts the record into state \<open>glsInit\<close> before it calls \<open>gl_enqueue\<close>, so that call
  does not take the branch for an uninitialised record and is \<open>gl_push\<close>.
\<close>

text \<open>\<open>if (*gli == 0) *gli = addGLEntry(\<dots>)\<close>.\<close>

definition gl_enter :: "bus_t \<Rightarrow> glref \<Rightarrow> srcpd \<Rightarrow> srcpd" where
  "gl_enter b r s = (if gli_get b r s = 0 then gli_set b r (addGLEntry b s) s else s)"

definition gl_announce :: "bus_t \<Rightarrow> nat \<Rightarrow> srcpd \<Rightarrow> srcpd" where
  "gl_announce b i s =
     (let d = cacheDescribeGL b (nat (gl_id (gl_at b i s))) s
      in if fst d = SRCP_INFO then enqueueInfoMessage (snd d) s else s)"

definition gl_init_entry ::
    "bus_t \<Rightarrow> nat \<Rightarrow> nat \<Rightarrow> char \<Rightarrow> int \<Rightarrow> int \<Rightarrow> int \<Rightarrow> string option \<Rightarrow> srcpd \<Rightarrow> int \<times> srcpd" where
  "gl_init_entry b i locid protocol protoversion n_fs n_func optData s =
     (let s1 = upd_glstate b i (\<lambda>p. p\<lparr>gl_inittime := clock s, gl_updatime := clock s,
              gl_n_fs := u8 (if n_fs \<noteq> 0 then n_fs else 14), gl_n_func := u8 n_func,
              gl_protocolversion := s8 protoversion, gl_protocol := protocol,
              gl_id := int (take_bit 14 locid)\<rparr>) s;
          (rc, s2) = (case init_gl_func (buses s b) of
              None \<Rightarrow> (SRCP_OK, s1)
            | Some f \<Rightarrow> (case f (gl_at b i s1) optData of
                (rc, p) \<Rightarrow> (rc, upd_glstate b i (\<lambda>_. p) s1)))
      in (rc, if rc = SRCP_OK
              then gl_push b i (upd_glstate b i (\<lambda>p. p\<lparr>gl_state := glsInit\<rparr>) s2) else s2))"

definition cacheInitGL ::
    "bus_t \<Rightarrow> nat \<Rightarrow> char \<Rightarrow> int \<Rightarrow> int \<Rightarrow> int \<Rightarrow> string option \<Rightarrow> srcpd \<Rightarrow> int \<times> srcpd" where
  "cacheInitGL b locid protocol protoversion n_fs n_func optData s =
     (case getGLIndex b locid protocol s of
        (None, s1) \<Rightarrow> (SRCP_WRONGVALUE, s1)
      | (Some r, s1) \<Rightarrow>
          (let s2 = gl_enter b r s1; i = gli_get b r s2
           in if i = 0 then (SRCP_WRONGVALUE, s2)
              else if gl_state (gl_at b i s2) \<noteq> glsNone then
                (SRCP_DEVICEREINITIALIZED, gl_announce b i s2)
              else
                (let rc = bus_supports_protocol b protocol s2
                 in if rc \<noteq> SRCP_OK then (rc, s2)
                    else (case gl_init_entry b i locid protocol protoversion n_fs n_func optData s2 of
                            (rc, s3) \<Rightarrow> (rc, gl_announce b i s3)))))"

definition gl_enqueue :: "bus_t \<Rightarrow> nat \<Rightarrow> srcpd \<Rightarrow> srcpd" where
  "gl_enqueue b i s =
     (let s1 = (if gl_state (gl_at b i s) = glsNone then
                  (let s' = snd (cacheInitGL b (nat (gl_id (gl_at b i s))) (CHR ''P'') 1 14 1 None s)
                   in if gl_state (gl_at b i s') = glsInit
                      then upd_glstate b i (\<lambda>p. p\<lparr>gl_state := glsActive\<rparr>) s' else s')
                else s)
      in gl_push b i s1)"

text \<open>
  The record a client or the gateway addresses, entered into the directory and initialised from
  the address space when it is new; \<open>None\<close> when there is none or its initialisation fails.
\<close>

definition default_gl :: "nat \<Rightarrow> timeval \<Rightarrow> gl_data_t" where
  "default_gl locid t =
     (let p = gl_zero\<lparr>gl_id := int (take_bit 14 locid), gl_inittime := t, gl_updatime := t\<rparr>
      in if drop_bit 14 locid = 4 then
           p\<lparr>gl_protocol := CHR ''M'', gl_protocolversion := 2, gl_n_fs := 14, gl_n_func := 5\<rparr>
         else if drop_bit 14 locid = 5 then
           p\<lparr>gl_protocol := CHR ''X'', gl_protocolversion := 1, gl_n_fs := 128, gl_n_func := 16\<rparr>
         else if drop_bit 14 locid = 7 then
           p\<lparr>gl_protocol := CHR ''N'', gl_protocolversion := (if 127 < gl_id p then 2 else 1),
             gl_n_fs := 28, gl_n_func := 16\<rparr>
         else p)"

definition gl_default_init :: "bus_t \<Rightarrow> nat \<Rightarrow> nat \<Rightarrow> srcpd \<Rightarrow> srcpd" where
  "gl_default_init b i locid s =
     (let s1 = upd_glstate b i (\<lambda>_. default_gl locid (clock s)) s
      in if bus_supports_protocol b (gl_protocol (gl_at b i s1)) s1 = SRCP_OK then
           (case init_gl_func (buses s b) of
              None \<Rightarrow> s1
            | Some f \<Rightarrow> (case f (gl_at b i s1) (Some []) of (rc, p) \<Rightarrow>
                upd_glstate b i (\<lambda>_. if rc = SRCP_OK
                  then p\<lparr>gl_cacheddirection := gl_direction p, gl_state := glsActive\<rparr> else p) s1))
         else s1)"

definition get_gldata_ptr :: "bus_t \<Rightarrow> nat \<Rightarrow> srcpd \<Rightarrow> nat option \<times> srcpd" where
  "get_gldata_ptr b locid s =
     (case getGLIndex b locid nul s of
        (None, s1) \<Rightarrow> (None, s1)
      | (Some r, s1) \<Rightarrow>
          (let s2 = gl_enter b r s1; i = gli_get b r s2
           in if i = 0 then (None, s2)
              else if gl_state (gl_at b i s2) \<noteq> glsNone then (Some i, s2)
              else
                (let s3 = gl_default_init b i locid s2
                 in (if gl_state (gl_at b i s3) = glsNone then None else Some i, s3))))"

section \<open>SRCP operations\<close>

text \<open>
  Setting direction, speed and functions, followed by the synchronisation frames for a central
  station on the same bus. A division by \<open>n_fs = 0\<close> and a shift by 32 or more have no defined
  result.
\<close>

definition gl_speed_permille :: "gl_data_t \<Rightarrow> int" where
  "gl_speed_permille p = tdiv (gl_speed p * 1000) (gl_n_fs p)"

definition gl_command :: "int \<Rightarrow> int \<Rightarrow> int \<Rightarrow> int \<Rightarrow> gl_data_t \<Rightarrow> gl_data_t" where
  "gl_command dir speed maxspeed f p =
     (let p1 = (if gl_direction p \<noteq> dir
                then p\<lparr>gl_direction := s8 dir,
                   gl_speedchange := gl_speedchange p OR SCDIREC OR (if dir = 2 then SCEMERG else 0)\<rparr>
                else p);
          v = u8 (calcspeed speed maxspeed (gl_n_fs p));
          p2 = p1\<lparr>gl_speed := v, gl_speedchange :=
                 (if v \<noteq> gl_speed p then gl_speedchange p1 OR SCSPEED else gl_speedchange p1)\<rparr>;
          p3 = p2\<lparr>gl_funcs := u32 f,
                 gl_funcschange := u32 (gl_funcschange p OR u32 (gl_funcs p XOR f))\<rparr>
      in if gl_state p3 = glsInit
         then p3\<lparr>gl_cacheddirection := gl_direction p3, gl_state := glsActive\<rparr> else p3)"

definition gl_sync :: "bus_t \<Rightarrow> gl_data_t \<Rightarrow> int \<Rightarrow> int \<Rightarrow> srcpd \<Rightarrow> srcpd" where
  "gl_sync b p changed f s =
     (let itemid = int (getglid p);
          (rc, s1) = (if bit (gl_speedchange p) 2 then info_mcs b 0x01 itemid [3] s
                      else if bit (gl_speedchange p) 1 then info_mcs b 0x0B itemid [2 - gl_direction p] s
                      else (0, s))
      in if rc < 0 then s1
         else if gl_n_fs p = 0 then raise_ub s1
         else
           (let i = gl_speed_permille p;
                (rc, s2) = info_mcs b 0x09 itemid [drop_bit 8 i, i AND 0xFF] s1
            in if rc < 0 then s2
               else
                 (let s3 = (if 32 < gl_n_func p then raise_ub s2 else s2)
                  in fold (\<lambda>k s. if bit changed k
                        then snd (info_mcs b 0x0D itemid [int k, func_bit f k] s) else s)
                       [0..<nat (gl_n_func p)] s3)))"

definition enqueueGL :: "bus_t \<Rightarrow> nat \<Rightarrow> int \<Rightarrow> int \<Rightarrow> int \<Rightarrow> int \<Rightarrow> srcpd \<Rightarrow> int \<times> srcpd" where
  "enqueueGL b locid dir speed maxspeed f s =
     (case get_gldata_ptr b locid s of
        (None, s1) \<Rightarrow> (SRCP_WRONGVALUE, s1)
      | (Some i, s1) \<Rightarrow>
          (let p = gl_at b i s1;
               s2 = upd_glstate b i (gl_command dir speed maxspeed f) s1;
               s3 = (if calcspeed_fits speed maxspeed (gl_n_fs p) then s2 else raise_ub s2);
               s4 = gl_enqueue b i s3
           in (SRCP_OK, gl_sync b (gl_at b i s4) (u32 (gl_funcs p XOR f)) f s4)))"

definition cacheGetGL :: "bus_t \<Rightarrow> int \<Rightarrow> srcpd \<Rightarrow> int \<times> gl_data_t option" where
  "cacheGetGL b addr s =
     (if isInitializedGL b addr s \<noteq> 0 then (SRCP_OK, Some (gl_at b (nat addr) s))
      else (SRCP_NODATA, None))"

text \<open>
  The bus thread reports the direction and speed it has sent (the record \<open>l\<close>) for table entry
  \<open>i\<close>; a terminating entry is deleted here.
\<close>

definition cacheSetGL :: "bus_t \<Rightarrow> nat \<Rightarrow> gl_data_t \<Rightarrow> srcpd \<Rightarrow> srcpd" where
  "cacheSetGL b i l s =
     (case gldir (gl s b) of
        None \<Rightarrow> raise_ub s
      | Some d \<Rightarrow>
          (let glp = gl_at b i s;
               addr = (if MAXSRCPGL \<le> gl_id glp \<or> proto d (nat (gl_id glp)) = nul then getglid glp
                       else nat (gl_id glp));
               s1 = upd_glstate b i (\<lambda>p. p\<lparr>gl_cacheddirection := gl_direction l,
                      gl_cachedspeed := gl_speed l, gl_updatime := clock s\<rparr>) s
           in if gl_state glp = glsTerm then
                (let msg = stamp (clock s) @ '' 102 INFO '' @ show_nat b @ '' GL '' @ show_nat addr
                       @ [CHR 0x0A]
                 in case getGLIndex b (getglid glp OR MCSADDRINDICATOR) nul s1 of
                      (None, s2) \<Rightarrow> raise_ub s2
                    | (Some r, s2) \<Rightarrow>
                        (let s3 = upd_glstate b i (\<lambda>_. gl_zero) (gli_set b r 0 s2);
                             s4 = (if int addr < MAXSRCPGL
                                   then upd_gl b (\<lambda>g. g\<lparr>gldir := map_option
                                          (\<lambda>d. d\<lparr>proto := (proto d)(addr := nul)\<rparr>) (gldir g)\<rparr>) s3
                                   else s3)
                         in enqueueInfoMessage msg s4))
              else
                (let r = cacheInfoGL b addr s1;
                     s2 = (if cacheInfoGL_shift_ub b addr s1 then raise_ub s1 else s1);
                     s3 = (if gl_speedchange glp \<noteq> 0 then gl_enqueue b i s2 else s2)
                 in if fst r = SRCP_INFO then enqueueInfoMessage (snd r) s3 else s3)))"

definition cacheTermGL :: "bus_t \<Rightarrow> nat \<Rightarrow> srcpd \<Rightarrow> int \<times> srcpd" where
  "cacheTermGL b locid s =
     (let i = gl_lookup b locid s
      in if i \<noteq> 0 \<and> gl_alive (gl_state (gl_at b i s)) then
           (let s1 = upd_glstate b i (\<lambda>p. p\<lparr>gl_state := glsTerm\<rparr>) s
            in (SRCP_OK, snd (enqueueGL b locid
                  (if gl_protocol (gl_at b i s) = CHR ''X'' then -1 else 2) 0 1 0 s1)))
         else (SRCP_NODATA, s))"

definition resetGL :: "bus_t \<Rightarrow> int \<Rightarrow> srcpd \<Rightarrow> int \<times> srcpd" where
  "resetGL b addr s =
     (if isInitializedGL b addr s \<noteq> 0 then (SRCP_OK, snd (enqueueGL b (nat addr) 0 0 1 0 s))
      else (SRCP_NODATA, s))"

text \<open>\<open>init_func\<close> is the start-up function of the bus driver, \<open>None\<close> for the null pointer.\<close>

definition cacheCleanGL :: "(bus_t \<Rightarrow> srcpd \<Rightarrow> srcpd) option \<Rightarrow> bus_t \<Rightarrow> srcpd \<Rightarrow> srcpd" where
  "cacheCleanGL init_func b s =
     (let s1 = fold (\<lambda>i. upd_glstate b i (\<lambda>_. gl_zero)) [1..<Suc (nat (numberOfGl (gl s b)))] s;
          s2 = upd_gl b (\<lambda>g. g\<lparr>gldir := map_option (\<lambda>_. gldir_zero) (gldir g)\<rparr>) s1
      in case init_func of None \<Rightarrow> s2 | Some f \<Rightarrow> f b s2)"

section \<open>Locks\<close>

definition describeLOCKGL :: "bus_t \<Rightarrow> nat \<Rightarrow> srcpd \<Rightarrow> int \<times> string" where
  "describeLOCKGL b locid s =
     (let i = gl_lookup b locid s; p = gl_at b i s
      in if i \<noteq> 0 \<and> gl_state p \<noteq> glsNone then
           (SRCP_OK, stamp (gl_locktime p) @ '' 100 INFO '' @ show_nat b @ '' LOCK GL ''
              @ show_nat locid @ '' '' @ show_int (gl_lockduration p) @ '' ''
              @ show_nat (gl_locked_by p) @ [CHR 0x0A])
         else (SRCP_WRONGVALUE, []))"

definition cacheLockGL :: "bus_t \<Rightarrow> nat \<Rightarrow> int \<Rightarrow> sessionid_t \<Rightarrow> srcpd \<Rightarrow> int \<times> srcpd" where
  "cacheLockGL b locid duration sid s =
     (let i = gl_lookup b locid s; p = gl_at b i s
      in if i \<noteq> 0 \<and> gl_state p \<noteq> glsNone then
           if gl_locked_by p = sid \<or> gl_locked_by p = 0 then
             (let s1 = upd_glstate b i (\<lambda>p. p\<lparr>gl_locked_by := sid, gl_lockduration := duration,
                     gl_locktime := clock s\<rparr>) s
              in (SRCP_OK, enqueueInfoMessage (snd (describeLOCKGL b locid s1)) s1))
           else (SRCP_DEVICELOCKED, s)
         else (SRCP_WRONGVALUE, s))"

text \<open>On an error the session id of the caller is not written (\<open>None\<close>).\<close>

definition cacheGetLockGL :: "bus_t \<Rightarrow> nat \<Rightarrow> srcpd \<Rightarrow> int \<times> sessionid_t option" where
  "cacheGetLockGL b locid s =
     (let i = gl_lookup b locid s; p = gl_at b i s
      in if i \<noteq> 0 \<and> gl_alive (gl_state p) then (SRCP_OK, Some (gl_locked_by p))
         else (SRCP_WRONGVALUE, None))"

definition cacheUnlockGL :: "bus_t \<Rightarrow> nat \<Rightarrow> sessionid_t \<Rightarrow> srcpd \<Rightarrow> int \<times> srcpd" where
  "cacheUnlockGL b locid sid s =
     (let i = gl_lookup b locid s; p = gl_at b i s
      in if i \<noteq> 0 \<and> gl_state p \<noteq> glsNone then
           if gl_locked_by p = sid \<or> gl_locked_by p = 0 then
             (SRCP_OK, enqueueInfoMessage (stamp (clock s) @ '' 102 INFO '' @ show_nat b
                 @ '' LOCK GL '' @ show_nat locid @ '' '' @ show_nat sid @ [CHR 0x0A])
               (upd_glstate b i (\<lambda>p. p\<lparr>gl_locked_by := 0, gl_locktime := clock s\<rparr>) s))
           else (SRCP_DEVICELOCKED, s)
         else (SRCP_WRONGVALUE, s))"

definition release_gl :: "sessionid_t \<Rightarrow> bus_t \<Rightarrow> nat \<Rightarrow> srcpd \<Rightarrow> srcpd" where
  "release_gl sid b j s =
     (if gl_locked_by (gl_at b j s) = sid then
        (let i = isInitializedGL b (int j) s
         in if 0 < i then snd (cacheUnlockGL b i sid s) else s)
      else s)"

definition unlock_gl_bysessionid :: "sessionid_t \<Rightarrow> srcpd \<Rightarrow> srcpd" where
  "unlock_gl_bysessionid sid s =
     fold (\<lambda>b s. fold (release_gl sid b) [1..<Suc (nat (getMaxAddrGL b s))] s)
       [0..<Suc (num_buses s)] s"

definition tick_lock_gl :: "bus_t \<Rightarrow> nat \<Rightarrow> srcpd \<Rightarrow> srcpd" where
  "tick_lock_gl b j s =
     (let d = gl_lockduration (gl_at b j s)
      in if 0 < d then
           (let s1 = upd_glstate b j (\<lambda>p. p\<lparr>gl_lockduration := d - 1\<rparr>) s
            in if d = 1 then
                 (let i = isInitializedGL b (int j) s1
                  in if 0 < i then snd (cacheUnlockGL b i (gl_locked_by (gl_at b j s1)) s1) else s1)
               else s1)
         else s)"

definition unlock_gl_bytime :: "srcpd \<Rightarrow> srcpd" where
  "unlock_gl_bytime s =
     fold (\<lambda>b s. fold (tick_lock_gl b) [1..<Suc (nat (getMaxAddrGL b s))] s)
       [0..<Suc (num_buses s)] s"

section \<open>Start-up\<close>

definition startup_GL :: "srcpd \<Rightarrow> srcpd" where
  "startup_GL s = fold (\<lambda>i. upd_gl i (\<lambda>g. g\<lparr>numberOfGl := 0, gldir := None,
     gl_queue := (gl_queue g)\<lparr>inp := 0, outp := 0\<rparr>\<rparr>)) [0..<MAX_BUSES] s"

text \<open>\<open>mem\<close> and \<open>mem'\<close> say whether the two calls of \<open>malloc\<close> succeed; \<open>count\<close> is unsigned.\<close>

definition init_GL :: "bool \<Rightarrow> bool \<Rightarrow> bus_t \<Rightarrow> nat \<Rightarrow> srcpd \<Rightarrow> int \<times> srcpd" where
  "init_GL mem mem' b count s =
     (if b \<ge> MAX_BUSES then (1, s)
      else if count > 0 then
        if \<not> mem then (1, s)
        else
          (let s1 = upd_gl b (\<lambda>g. g\<lparr>numberOfGl := int count, glstate := (\<lambda>_. gl_zero)\<rparr>) s
           in if \<not> mem' then (1, upd_gl b (\<lambda>g. g\<lparr>gldir := None\<rparr>) s1)
              else (0, upd_gl b (\<lambda>g. g\<lparr>gldir := Some gldir_zero\<rparr>) s1))
      else (0, s))"

section \<open>The central station gateway\<close>

definition handle_mcs_prot :: "bus_t \<Rightarrow> nat \<Rightarrow> int \<Rightarrow> srcpd \<Rightarrow> int \<times> srcpd" where
  "handle_mcs_prot b locid val s =
     (case get_gldata_ptr b (locid OR MCSADDRINDICATOR) s of
        (None, s1) \<Rightarrow> (-1, s1)
      | (Some i, s1) \<Rightarrow>
          if gl_protocol (gl_at b i s1) = CHR ''N'' then
            (let put = (\<lambda>v n. (val, upd_glstate b i (\<lambda>p. p\<lparr>gl_protocolversion := v, gl_n_fs := n\<rparr>) s1))
             in if val = 0 then put 1 28
                else if val = 1 then put 1 14
                else if val = 2 then put 1 126
                else if val = 3 then put 2 28
                else if val = 4 then put 2 126
                else (-2, s1))
          else (-2, s1))"

definition handle_mcs_speed :: "bus_t \<Rightarrow> nat \<Rightarrow> int \<Rightarrow> srcpd \<Rightarrow> int \<times> srcpd" where
  "handle_mcs_speed b locid val s =
     (case get_gldata_ptr b (locid OR MCSADDRINDICATOR) s of
        (None, s1) \<Rightarrow> (-1, s1)
      | (Some i, s1) \<Rightarrow>
          (let p = gl_at b i s1
           in if val \<ge> 0 then
                (let v = u8 (calcspeed val 1000 (gl_n_fs p));
                     s2 = upd_glstate b i (\<lambda>p. p\<lparr>gl_speed := v\<rparr>) s1;
                     s3 = (if v \<noteq> gl_speed p
                           then gl_enqueue b i (upd_glstate b i
                                  (\<lambda>p. p\<lparr>gl_speedchange := gl_speedchange p OR SCSPEED\<rparr>) s2)
                           else s2)
                 in (val, s3))
              else if gl_n_fs p = 0 then (0, raise_ub s1)
              else (gl_speed_permille p, s1)))"

definition handle_mcs_dir :: "bus_t \<Rightarrow> nat \<Rightarrow> int \<Rightarrow> srcpd \<Rightarrow> int \<times> srcpd" where
  "handle_mcs_dir b locid val s =
     (case get_gldata_ptr b (locid OR MCSADDRINDICATOR) s of
        (None, s1) \<Rightarrow> (-1, s1)
      | (Some i, s1) \<Rightarrow>
          (let turn = (\<lambda>p. if val = 1 then p\<lparr>gl_direction := 1\<rparr>
                   else if val = 2 then p\<lparr>gl_direction := 0\<rparr>
                   else if val = 3 then p\<lparr>gl_direction := gl_direction p XOR 1\<rparr>
                   else if val = 4 then p\<lparr>gl_direction := 2, gl_speedchange := gl_speedchange p OR SCEMERG\<rparr>
                   else p);
               stop = (\<lambda>p. if gl_direction p \<noteq> gl_cacheddirection p
                   then p\<lparr>gl_speed := 0, gl_speedchange := gl_speedchange p OR SCDIREC\<rparr> else p);
               s2 = (if val \<ge> 0 then gl_enqueue b i (upd_glstate b i (stop \<circ> turn) s1) else s1)
           in (2 - gl_direction (gl_at b i s2), s2)))"

definition handle_mcs_func :: "bus_t \<Rightarrow> nat \<Rightarrow> nat \<Rightarrow> int \<Rightarrow> srcpd \<Rightarrow> int \<times> srcpd" where
  "handle_mcs_func b locid funr val s =
     (case get_gldata_ptr b (locid OR MCSADDRINDICATOR) s of
        (None, s1) \<Rightarrow> (-1, s1)
      | (Some i, s1) \<Rightarrow>
          if funr > 31 then (-1, s1)
          else
            (let s2 = upd_glstate b i (\<lambda>p. if int funr + 1 > gl_n_func p
                   then p\<lparr>gl_n_func := int funr + 1\<rparr> else p) s1;
                 oldval = func_bit (gl_funcs (gl_at b i s2)) funr
             in if val \<ge> 0 then
                  (let s3 = upd_glstate b i (\<lambda>p. p\<lparr>gl_funcs :=
                              (if val \<noteq> 0 then set_bit funr (gl_funcs p) else unset_bit funr (gl_funcs p))\<rparr>) s2
                   in (val, if val \<noteq> oldval
                            then gl_enqueue b i (upd_glstate b i
                                   (\<lambda>p. p\<lparr>gl_funcschange := set_bit funr (gl_funcschange p)\<rparr>) s3)
                            else s3))
                else (oldval, s2)))"

section \<open>Frame lemmas\<close>

lemma raise_ub_frame [simp]:
  "ub (raise_ub s) = True" "clock (raise_ub s) = clock s" "num_buses (raise_ub s) = num_buses s"
  "buses (raise_ub s) = buses s" "session_list (raise_ub s) = session_list s"
  "gl (raise_ub s) = gl s" "ga (raise_ub s) = ga s" "fb (raise_ub s) = fb s"
  "mcs_bus (raise_ub s) = mcs_bus s" "mcs_out (raise_ub s) = mcs_out s"
  by (simp_all add: raise_ub_def)

lemma upd_gl_frame [simp]:
  "ub (upd_gl b f s) = ub s" "clock (upd_gl b f s) = clock s"
  "num_buses (upd_gl b f s) = num_buses s" "buses (upd_gl b f s) = buses s"
  "session_list (upd_gl b f s) = session_list s" "ga (upd_gl b f s) = ga s"
  "fb (upd_gl b f s) = fb s" "sm_queue (upd_gl b f s) = sm_queue s"
  "mcs_bus (upd_gl b f s) = mcs_bus s" "mcs_out (upd_gl b f s) = mcs_out s"
  "gl (upd_gl b f s) = (gl s)(b := f (gl s b))"
  "sessions_ok (upd_gl b f s) = sessions_ok s"
  by (simp_all add: upd_gl_def sessions_ok_def)

lemma upd_glstate_frame [simp]:
  "ub (upd_glstate b i f s) = ub s" "clock (upd_glstate b i f s) = clock s"
  "num_buses (upd_glstate b i f s) = num_buses s" "buses (upd_glstate b i f s) = buses s"
  "session_list (upd_glstate b i f s) = session_list s" "ga (upd_glstate b i f s) = ga s"
  "fb (upd_glstate b i f s) = fb s"
  "mcs_bus (upd_glstate b i f s) = mcs_bus s" "mcs_out (upd_glstate b i f s) = mcs_out s"
  "numberOfGl (gl (upd_glstate b i f s) b') = numberOfGl (gl s b')"
  "gldir (gl (upd_glstate b i f s) b') = gldir (gl s b')"
  "gl_queue (gl (upd_glstate b i f s) b') = gl_queue (gl s b')"
  "sessions_ok (upd_glstate b i f s) = sessions_ok s"
  "info_seen k (upd_glstate b i f s) = info_seen k s"
  "info_subscribed k (upd_glstate b i f s) = info_subscribed k s"
  by (simp_all add: upd_glstate_def info_seen_def info_subscribed_def)

lemma glstate_upd_glstate [simp]:
  "glstate (gl (upd_glstate b i f s) b') n =
     (if b' = b \<and> n = i then f (glstate (gl s b) n) else glstate (gl s b') n)"
  by (simp add: upd_glstate_def)

lemma gl_lookup_cong:
  "gldir (gl t b) = gldir (gl s b) \<Longrightarrow> num_buses t = num_buses s \<Longrightarrow> gl_lookup b l t = gl_lookup b l s"
  by (auto simp: gl_lookup_def getGLIndex_def gli_get_def Let_def split: option.splits)

lemma gl_lookup_frame [simp]:
  "gl_lookup b l (upd_glstate b' i f s) = gl_lookup b l s"
  "gl_lookup b l (enqueueInfoMessage m s) = gl_lookup b l s"
  "gl_lookup b l (raise_ub s) = gl_lookup b l s"
  "gl_lookup b l (s\<lparr>clock := t\<rparr>) = gl_lookup b l s"
  by (rule gl_lookup_cong; simp)+

lemma gl_sync_gl [simp]: "gl (gl_sync b p c f s) = gl s"
proof -
  have "gl (fold (\<lambda>k s. if bit c k then snd (info_mcs b 0x0D it [int k, func_bit f k] s) else s) ks s) = gl s"
    for ks it s by (induction ks arbitrary: s) auto
  then show ?thesis
    by (auto simp: gl_sync_def Let_def split: prod.splits if_splits)
      (metis info_mcs_frame(9) raise_ub_frame(6) snd_conv)+
qed

section \<open>Table, directory and queue stay consistent\<close>

text \<open>
  Every waiting entry and every directory entry is an index of the table, and no locomotive
  waits twice.
\<close>

definition gl_inv :: "gl_bus \<Rightarrow> bool" where
  "gl_inv g \<longleftrightarrow> 0 \<le> numberOfGl g \<and> ring_ok QUEUELEN_GL (gl_queue g) \<and>
     distinct (ring_list QUEUELEN_GL (gl_queue g)) \<and>
     (\<forall>i \<in> set (ring_list QUEUELEN_GL (gl_queue g)). 1 \<le> i \<and> int i \<le> numberOfGl g) \<and>
     (\<forall>d r. gldir g = Some d \<longrightarrow> int (gli_read r d) \<le> numberOfGl g)"

definition gl_keeps :: "bus_t \<Rightarrow> srcpd \<Rightarrow> srcpd \<Rightarrow> bool" where
  "gl_keeps b s t \<longleftrightarrow> numberOfGl (gl t b) = numberOfGl (gl s b) \<and>
     (gl_inv (gl s b) \<longrightarrow> gl_inv (gl t b))"

lemma gl_keeps_refl [intro, simp]: "gl_keeps b s s"
  by (simp add: gl_keeps_def)

lemma gl_keeps_trans [trans]: "gl_keeps b s t \<Longrightarrow> gl_keeps b t u \<Longrightarrow> gl_keeps b s u"
  by (simp add: gl_keeps_def)

interpretation glring: bounded_fifo 199 "ring_ok 200" "ring_list 200" ring_isempty "ring_isfull 200"
    "ring_put 200" ring_peek "ring_drop 200"
  using ring_bounded_fifo [of 200] by simp

lemma queue_isfull_gl_ring: "queue_isfull_gl b s \<longleftrightarrow> ring_isfull 200 (gl_queue (gl s b))"
  by (simp add: queue_isfull_gl_def queue_len_gl_def ring_isfull_def)

abbreviation gl_pending :: "bus_t \<Rightarrow> srcpd \<Rightarrow> nat list" where
  "gl_pending b s \<equiv> ring_list QUEUELEN_GL (gl_queue (gl s b))"

lemma gl_push_contents:
  assumes "ring_ok 200 (gl_queue (gl s b))"
  shows "gl_pending b (gl_push b i s) = (if queue_isfull_gl b s \<or> i \<in> set (gl_pending b s)
     then gl_pending b s else gl_pending b s @ [i])"
  using assms glring.put_law [of "gl_queue (gl s b)"]
  by (auto simp: gl_push_def Let_def queue_isfull_gl_ring)

lemma gl_push_frame [simp]:
  "glstate (gl (gl_push b i s) b') = glstate (gl s b')"
  "gldir (gl (gl_push b i s) b') = gldir (gl s b')"
  "numberOfGl (gl (gl_push b i s) b') = numberOfGl (gl s b')"
  "clock (gl_push b i s) = clock s" "buses (gl_push b i s) = buses s"
  "num_buses (gl_push b i s) = num_buses s" "session_list (gl_push b i s) = session_list s"
  "mcs_bus (gl_push b i s) = mcs_bus s" "ub (gl_push b i s) = ub s"
  by (simp_all add: gl_push_def Let_def)

lemma gl_push_ring_ok:
  "ring_ok 200 (gl_queue (gl s b)) \<Longrightarrow> ring_ok 200 (gl_queue (gl (gl_push b i s) b))"
  by (simp add: gl_push_def Let_def glring.put_inv)

definition gl_valid :: "bus_t \<Rightarrow> nat \<Rightarrow> srcpd \<Rightarrow> bool" where
  "gl_valid b i s \<longleftrightarrow> 1 \<le> i \<and> int i \<le> numberOfGl (gl s b)"

lemma gl_push_keeps: "(gl_inv (gl s b) \<Longrightarrow> gl_valid b i s) \<Longrightarrow> gl_keeps b s (gl_push b i s)"
  using gl_push_contents [of s b i] gl_push_ring_ok [of s b i]
  by (auto simp: gl_keeps_def gl_inv_def gl_valid_def)

lemma gl_valid_keeps: "gl_keeps b s t \<Longrightarrow> gl_valid b i t \<longleftrightarrow> gl_valid b i s"
  by (simp add: gl_keeps_def gl_valid_def)

lemma gl_valid_frame [simp]:
  "gl_valid b i (upd_glstate b' j f s) = gl_valid b i s"
  "gl_valid b i (enqueueInfoMessage m s) = gl_valid b i s"
  "gl_valid b i (raise_ub s) = gl_valid b i s"
  by (simp_all add: gl_valid_def)

lemma gl_inv_upd_glstate [simp]: "gl_inv (gl (upd_glstate b' i f s) b) = gl_inv (gl s b)"
  by (simp add: gl_inv_def)

lemma gl_keeps_transparent [simp]:
  "gl_keeps b s (upd_glstate b' i f t) = gl_keeps b s t"
  "gl_keeps b s (enqueueInfoMessage m t) = gl_keeps b s t"
  "gl_keeps b s (raise_ub t) = gl_keeps b s t"
  "gl_keeps b s (gl_sync b' p c fs t) = gl_keeps b s t"
  "gl_keeps b s (snd (info_mcs b' k it d t)) = gl_keeps b s t"
  "gl_keeps b s (t\<lparr>clock := c'\<rparr>) = gl_keeps b s t"
  by (simp_all add: gl_keeps_def)

lemma getGLIndex_frame [simp]:
  "clock (snd (getGLIndex b l p s)) = clock s" "buses (snd (getGLIndex b l p s)) = buses s"
  "num_buses (snd (getGLIndex b l p s)) = num_buses s"
  "session_list (snd (getGLIndex b l p s)) = session_list s"
  "glstate (gl (snd (getGLIndex b l p s)) b') = glstate (gl s b')"
  "gl_queue (gl (snd (getGLIndex b l p s)) b') = gl_queue (gl s b')"
  "numberOfGl (gl (snd (getGLIndex b l p s)) b') = numberOfGl (gl s b')"
  by (simp_all add: getGLIndex_def Let_def split: option.splits)

lemma gli_read_proto [simp]: "gli_read r (d\<lparr>proto := f\<rparr>) = gli_read r d"
  by (cases r) simp_all

lemma getGLIndex_keeps [intro, simp]: "gl_keeps b s (snd (getGLIndex b l p s))"
  by (auto simp: gl_keeps_def gl_inv_def getGLIndex_def Let_def split: option.splits)

lemma gli_read_write: "gli_read r (gli_write r' v d) = (if r = r' then v else gli_read r d)"
  by (cases r; cases r') auto

lemma gli_set_frame [simp]:
  "clock (gli_set b r v s) = clock s" "buses (gli_set b r v s) = buses s"
  "num_buses (gli_set b r v s) = num_buses s" "session_list (gli_set b r v s) = session_list s"
  "glstate (gl (gli_set b r v s) b') = glstate (gl s b')"
  "gl_queue (gl (gli_set b r v s) b') = gl_queue (gl s b')"
  "numberOfGl (gl (gli_set b r v s) b') = numberOfGl (gl s b')"
  by (simp_all add: gli_set_def)

lemma gli_set_keeps: "(gl_inv (gl s b) \<Longrightarrow> int v \<le> numberOfGl (gl s b)) \<Longrightarrow> gl_keeps b s (gli_set b r v s)"
  by (auto simp: gl_keeps_def gl_inv_def gli_set_def gli_read_write)

lemma addGLEntry_le: "0 \<le> numberOfGl (gl s b) \<Longrightarrow> int (addGLEntry b s) \<le> numberOfGl (gl s b)"
  by (auto simp: addGLEntry_def find_Some_iff nth_append simp del: upt_Suc split: option.splits)

lemma gli_get_le: "gl_inv (gl s b) \<Longrightarrow> int (gli_get b r s) \<le> numberOfGl (gl s b)"
  by (auto simp: gl_inv_def gli_get_def split: option.splits)

lemma gl_enter_keeps [intro, simp]: "gl_keeps b s (gl_enter b r s)"
  unfolding gl_enter_def by (auto intro!: gli_set_keeps addGLEntry_le simp: gl_inv_def)

lemma gl_enter_frame [simp]:
  "clock (gl_enter b r s) = clock s" "buses (gl_enter b r s) = buses s"
  "num_buses (gl_enter b r s) = num_buses s" "session_list (gl_enter b r s) = session_list s"
  "glstate (gl (gl_enter b r s) b') = glstate (gl s b')"
  "gl_queue (gl (gl_enter b r s) b') = gl_queue (gl s b')"
  "numberOfGl (gl (gl_enter b r s) b') = numberOfGl (gl s b')"
  by (simp_all add: gl_enter_def)

lemma gli_get_valid:
  "gl_inv (gl s b) \<Longrightarrow> gli_get b r s \<noteq> 0 \<Longrightarrow> gl_valid b (gli_get b r s) s"
  using gli_get_le [of s b r] by (simp add: gl_valid_def)

lemma gl_announce_gl [simp]: "gl (gl_announce b i s) = gl s"
  by (simp add: gl_announce_def Let_def)

lemma gl_announce_keeps [simp]: "gl_keeps b s (gl_announce b' i t) = gl_keeps b s t"
  by (simp add: gl_keeps_def)

lemma gl_push_keeps_from:
  assumes "gl_keeps b s t" "gl_inv (gl s b) \<Longrightarrow> gl_valid b i s"
  shows "gl_keeps b s (gl_push b i t)"
  using gl_push_keeps [of t b i] gl_valid_keeps [OF assms(1)] assms
  by (simp add: gl_keeps_def)

lemma gl_init_entry_keeps:
  assumes "gl_inv (gl s b) \<Longrightarrow> gl_valid b i s"
  shows "gl_keeps b s (snd (gl_init_entry b i locid p v n_fs n_func opt s))"
  using assms
  by (auto simp: gl_init_entry_def Let_def intro: gl_push_keeps_from split: option.splits prod.splits)

lemma cacheInitGL_keeps [intro, simp]:
  "gl_keeps b s (snd (cacheInitGL b locid protocol v n_fs n_func opt s))"
proof (cases "getGLIndex b locid protocol s")
  case (Pair ro s1)
  have k1: "gl_keeps b s s1" using getGLIndex_keeps [of b s locid protocol] Pair by simp
  show ?thesis
  proof (cases ro)
    case None
    with Pair k1 show ?thesis by (simp add: cacheInitGL_def)
  next
    case (Some r)
    let ?s2 = "gl_enter b r s1"
    let ?i = "gli_get b r ?s2"
    have k2: "gl_keeps b s ?s2" using k1 gl_enter_keeps gl_keeps_trans by blast
    have "gl_keeps b s (snd (gl_init_entry b ?i locid protocol v n_fs n_func opt ?s2))" if "?i \<noteq> 0"
      using gl_init_entry_keeps [of ?s2 b ?i] gli_get_valid that k2 gl_keeps_trans by blast
    with Pair Some k2 show ?thesis
      by (cases "gl_init_entry b ?i locid protocol v n_fs n_func opt ?s2")
        (simp add: cacheInitGL_def Let_def)
  qed
qed

lemma gl_enqueue_keeps:
  assumes "gl_keeps b s t" "gl_inv (gl s b) \<Longrightarrow> gl_valid b i s"
  shows "gl_keeps b s (gl_enqueue b i t)"
  unfolding gl_enqueue_def Let_def
  by (rule gl_push_keeps_from [OF _ assms(2)])
    (auto intro: gl_keeps_trans [OF assms(1)] gl_keeps_trans [OF cacheInitGL_keeps])

lemma gl_default_init_keeps [intro, simp]: "gl_keeps b s (gl_default_init b i locid s)"
  by (auto simp: gl_default_init_def Let_def gl_keeps_def gl_inv_def split: option.split prod.split)

lemma get_gldata_ptr_keeps: "gl_keeps b s (snd (get_gldata_ptr b locid s))"
  and get_gldata_ptr_valid: "fst (get_gldata_ptr b locid s) = Some i \<Longrightarrow> gl_inv (gl s b) \<Longrightarrow> gl_valid b i s"
  and get_gldata_ptr_state: "fst (get_gldata_ptr b locid s) = Some i \<Longrightarrow>
        gl_state (gl_at b i (snd (get_gldata_ptr b locid s))) \<noteq> glsNone"
proof -
  obtain ro s1 where g: "getGLIndex b locid nul s = (ro, s1)" by fastforce
  have k1: "gl_keeps b s s1" using getGLIndex_keeps [of b s locid nul] unfolding g by simp
  have k2: "gl_keeps b s (gl_enter b r s1)" for r
    using k1 gl_enter_keeps gl_keeps_trans by blast
  have k3: "gl_keeps b s (gl_default_init b i locid (gl_enter b r s1))" for r i
    using k2 gl_default_init_keeps gl_keeps_trans by blast
  have v: "gl_inv (gl s b) \<Longrightarrow> gli_get b r (gl_enter b r s1) \<noteq> 0 \<Longrightarrow>
      gl_valid b (gli_get b r (gl_enter b r s1)) s" for r
    using gli_get_valid [of "gl_enter b r s1" b r] k2 [of r]
    by (simp add: gl_keeps_def gl_valid_def)
  show "gl_keeps b s (snd (get_gldata_ptr b locid s))"
    using g k1 k2 k3 by (auto simp: get_gldata_ptr_def Let_def split: option.split)
  show "fst (get_gldata_ptr b locid s) = Some i \<Longrightarrow> gl_inv (gl s b) \<Longrightarrow> gl_valid b i s"
    using g v by (auto simp: get_gldata_ptr_def Let_def split: option.splits if_splits)
  show "fst (get_gldata_ptr b locid s) = Some i \<Longrightarrow>
      gl_state (gl_at b i (snd (get_gldata_ptr b locid s))) \<noteq> glsNone"
    using g by (auto simp: get_gldata_ptr_def Let_def split: option.splits if_splits)
qed

lemma enqueueGL_keeps: "gl_keeps b s (snd (enqueueGL b locid dir v m f s))"
proof -
  obtain io s1 where g: "get_gldata_ptr b locid s = (io, s1)" by fastforce
  have k: "gl_keeps b s s1" using get_gldata_ptr_keeps [of b s locid] g by simp
  have "gl_keeps b s (gl_enqueue b i (upd_glstate b i c s1))"
       "gl_keeps b s (gl_enqueue b i (raise_ub (upd_glstate b i c s1)))" if "io = Some i" for i c
    using get_gldata_ptr_valid [of b locid s i] g that k
    by (auto intro!: gl_enqueue_keeps intro: gl_keeps_trans)
  then show ?thesis
    using g k by (auto simp: enqueueGL_def Let_def gl_keeps_def split: option.split)
qed

lemma cacheTermGL_keeps [simp]: "gl_keeps b s (snd (cacheTermGL b locid s))"
proof -
  have "gl_keeps b s (snd (enqueueGL b locid d 0 1 0 (upd_glstate b i f s)))" for d i f
    using enqueueGL_keeps [of b "upd_glstate b i f s"] by (simp add: gl_keeps_def)
  then show ?thesis by (simp add: cacheTermGL_def Let_def)
qed

lemma dequeueNextGL_keeps [simp]: "gl_keeps b s (snd (dequeueNextGL b s))"
  using glring.drop_law [of "gl_queue (gl s b)"] glring.drop_inv [of "gl_queue (gl s b)"]
  by (auto simp: dequeueNextGL_def gl_keeps_def gl_inv_def)

lemma cacheSetGL_keeps:
  assumes "gl_valid b i s"
  shows "gl_keeps b s (cacheSetGL b i l s)"
proof -
  have dir: "gl_keeps b s (upd_gl b (\<lambda>g. g\<lparr>gldir := map_option (\<lambda>d. d\<lparr>proto := f d\<rparr>) (gldir g)\<rparr>) t)
      = gl_keeps b s t" for f t
    by (auto simp: gl_keeps_def gl_inv_def)
  have zero: "gl_keeps b s t \<Longrightarrow> gl_keeps b s (gli_set b r 0 t)" for r t
    by (erule gl_keeps_trans, rule gli_set_keeps) (simp add: gl_inv_def)
  have get: "gl_keeps b s t \<Longrightarrow> getGLIndex b k p t = (r, u) \<Longrightarrow> gl_keeps b s u" for k p t r u
    using gl_keeps_trans getGLIndex_keeps by (metis snd_conv)
  have enq: "gl_keeps b s (gl_enqueue b i t)" if "gl_keeps b s t" for t
    using that assms by (rule gl_enqueue_keeps)
  show ?thesis
    unfolding cacheSetGL_def Let_def
    by (auto simp: dir enq intro!: zero split: option.split prod.split elim!: get [rotated])
qed

lemma lock_gl_keeps [simp]:
  "gl_keeps b s (snd (cacheLockGL b' locid d sid t)) = gl_keeps b s t"
  "gl_keeps b s (snd (cacheUnlockGL b' locid sid t)) = gl_keeps b s t"
  "gl_keeps b s (release_gl sid b' j t) = gl_keeps b s t"
  "gl_keeps b s (tick_lock_gl b' j t) = gl_keeps b s t"
  by (simp_all add: cacheLockGL_def cacheUnlockGL_def release_gl_def tick_lock_gl_def Let_def)

lemma fold_gl_keeps:
  assumes "\<And>x t. gl_keeps b s t \<Longrightarrow> gl_keeps b s (f x t)" "gl_keeps b s t"
  shows "gl_keeps b s (fold f xs t)"
  using assms(2) by (induction xs arbitrary: t) (auto intro: assms(1))

lemma unlock_gl_all_keeps [simp]:
  "gl_keeps b s (unlock_gl_bysessionid sid s)" "gl_keeps b s (unlock_gl_bytime s)"
  unfolding unlock_gl_bysessionid_def unlock_gl_bytime_def
  by (rule fold_gl_keeps; simp add: fold_gl_keeps del: upt_Suc)+

text \<open>The common shape of the gateway handlers: resolve the locomotive, update it, enqueue it.\<close>

lemma mcs_gl_keeps:
  assumes "get_gldata_ptr b locid s = (io, s1)"
  shows "gl_keeps b s s1" "io = Some i \<Longrightarrow> gl_keeps b s t \<Longrightarrow> gl_keeps b s (gl_enqueue b i t)"
  using get_gldata_ptr_keeps [of b s locid] get_gldata_ptr_valid [of b locid s i] assms
  by (auto intro: gl_enqueue_keeps)

lemma handle_mcs_keeps [simp]:
  "gl_keeps b s (snd (handle_mcs_prot b locid val s))"
  "gl_keeps b s (snd (handle_mcs_speed b locid val s))"
  "gl_keeps b s (snd (handle_mcs_dir b locid val s))"
  "gl_keeps b s (snd (handle_mcs_func b locid funr val s))"
  by (cases "get_gldata_ptr b (locid OR MCSADDRINDICATOR) s"; 
      auto simp: handle_mcs_prot_def handle_mcs_speed_def handle_mcs_dir_def handle_mcs_func_def
        Let_def mcs_gl_keeps split: option.split)+

section \<open>The life of a bus of locomotives\<close>

text \<open>
  One step of any thread that touches the locomotives of bus \<open>b\<close>: a client command, the bus
  thread taking a command or reporting what it sent, the gateway, the lock timer, the end of a
  session, and the passing of time.
\<close>

inductive gl_step :: "bus_t \<Rightarrow> srcpd \<Rightarrow> srcpd \<Rightarrow> bool" for b where
  st_init: "gl_step b s (snd (cacheInitGL b locid p v n_fs n_func opt s))"
| st_set: "gl_step b s (snd (enqueueGL b locid dir speed maxspeed f s))"
| st_term: "gl_step b s (snd (cacheTermGL b locid s))"
| st_take: "gl_step b s (snd (dequeueNextGL b s))"
| st_report: "gl_valid b i s \<Longrightarrow> gl_step b s (cacheSetGL b i l s)"
| st_lock: "gl_step b s (snd (cacheLockGL b locid d sid s))"
| st_unlock: "gl_step b s (snd (cacheUnlockGL b locid sid s))"
| st_logout: "gl_step b s (unlock_gl_bysessionid sid s)"
| st_second: "gl_step b s (unlock_gl_bytime s)"
| st_mcs_prot: "gl_step b s (snd (handle_mcs_prot b locid val s))"
| st_mcs_speed: "gl_step b s (snd (handle_mcs_speed b locid val s))"
| st_mcs_dir: "gl_step b s (snd (handle_mcs_dir b locid val s))"
| st_mcs_func: "gl_step b s (snd (handle_mcs_func b locid funr val s))"
| st_time: "gl_step b s (s\<lparr>clock := t\<rparr>)"

inductive gl_reach :: "bus_t \<Rightarrow> srcpd \<Rightarrow> srcpd \<Rightarrow> bool" for b s0 where
  start: "gl_reach b s0 s0"
| step: "gl_reach b s0 s \<Longrightarrow> gl_step b s t \<Longrightarrow> gl_reach b s0 t"

lemma gl_step_keeps: "gl_step b s t \<Longrightarrow> gl_keeps b s t"
  by (induction rule: gl_step.induct) (simp_all add: cacheSetGL_keeps enqueueGL_keeps)

lemma gl_reach_keeps: "gl_reach b s0 t \<Longrightarrow> gl_keeps b s0 t"
  by (induction rule: gl_reach.induct) (auto intro: gl_keeps_trans gl_step_keeps)

lemma distinct_bounded_length:
  assumes "distinct xs" "\<And>x. x \<in> set xs \<Longrightarrow> 1 \<le> x \<and> int x \<le> n"
  shows "int (length xs) \<le> max n 0"
proof -
  have "set xs \<subseteq> {1..nat n}" using assms(2) by force
  then have "card (set xs) \<le> nat n" using card_mono [of "{1..nat n}" "set xs"] by simp
  with assms(1) show ?thesis by (simp add: distinct_card)
qed

lemma gl_inv_not_full:
  assumes "gl_inv (gl s b)" "numberOfGl (gl s b) \<le> 198"
  shows "\<not> queue_isfull_gl b s"
  using assms distinct_bounded_length [of "gl_pending b s" "numberOfGl (gl s b)"]
  by (auto simp: gl_inv_def queue_isfull_gl_def queue_len_gl_def)

lemma gl_enqueue_contents:
  assumes "gl_state (gl_at b i s) \<noteq> glsNone"
  shows "gl_enqueue b i s = gl_push b i s"
  using assms by (simp add: gl_enqueue_def)

section \<open>Speed steps\<close>

lemma calcspeed_rounds:
  assumes "0 < vmax" "0 \<le> n"
  shows "calcspeed vs vmax n =
    (let c = clip_speed vs vmax; r = (2 * c * n + vmax) div (2 * vmax) in if r = 0 \<and> c \<noteq> 0 then 1 else r)"
proof -
  have c: "0 \<le> clip_speed vs vmax" using assms by (simp add: clip_speed_def Let_def)
  then have "tdiv (clip_speed vs vmax * n * 2 + vmax) vmax = (clip_speed vs vmax * n * 2 + vmax) div vmax"
    using assms by (intro tdiv_nonneg) auto
  moreover have "drop_bit 1 (x div vmax) = x div (2 * vmax)" for x
    using assms by (simp add: drop_bit_eq_div zdiv_zmult2_eq mult.commute)
  ultimately show ?thesis
    using assms by (simp add: calcspeed_def Let_def mult.commute mult.left_commute)
qed

lemma calcspeed_mono_step:
  assumes "0 < vmax" "0 \<le> n" "v \<le> w"
  shows "calcspeed v vmax n \<le> calcspeed w vmax n"
proof -
  let ?r = "\<lambda>v. (2 * clip_speed v vmax * n + vmax) div (2 * vmax)"
  have c: "clip_speed v vmax \<le> clip_speed w vmax" "0 \<le> clip_speed v vmax"
    using assms by (simp_all add: clip_speed_def Let_def)
  have "2 * clip_speed v vmax * n + vmax \<le> 2 * clip_speed w vmax * n + vmax"
    using c assms by (simp add: mult_right_mono)
  then have le: "?r v \<le> ?r w" using assms by (intro zdiv_mono1) auto
  have nn: "0 \<le> ?r v" using c assms by (intro pos_imp_zdiv_nonneg_iff [THEN iffD2]) auto
  show ?thesis
    using le nn c unfolding calcspeed_rounds [OF assms(1,2)] Let_def by auto
qed

lemma calcspeed_range:
  assumes "0 < vmax" "1 \<le> n"
  shows "0 \<le> calcspeed v vmax n" "calcspeed v vmax n \<le> n"
proof -
  have lo: "calcspeed 0 vmax n = 0" and hi: "calcspeed vmax vmax n = n"
    using assms by (simp_all add: calcspeed_rounds clip_speed_def Let_def)
  have "calcspeed v vmax n = calcspeed (clip_speed v vmax) vmax n"
    using assms by (simp add: calcspeed_rounds clip_speed_def Let_def)
  moreover have "0 \<le> clip_speed v vmax" "clip_speed v vmax \<le> vmax"
    using assms by (simp_all add: clip_speed_def Let_def)
  ultimately show "0 \<le> calcspeed v vmax n" "calcspeed v vmax n \<le> n"
    using calcspeed_mono_step [of vmax n 0 "clip_speed v vmax"]
      calcspeed_mono_step [of vmax n "clip_speed v vmax" vmax] lo hi assms by simp_all
qed

section \<open>Locks\<close>

fun gl_target :: "bus_t \<times> nat \<Rightarrow> srcpd \<Rightarrow> (bus_t \<times> nat) option" where
  "gl_target (b, locid) s =
     (let i = gl_lookup b locid s
      in if i \<noteq> 0 \<and> gl_state (gl_at b i s) \<noteq> glsNone then Some (b, i) else None)"

fun gl_owner :: "bus_t \<times> nat \<Rightarrow> srcpd \<Rightarrow> sessionid_t" where
  "gl_owner (b, i) s = gl_locked_by (gl_at b i s)"

fun cacheLockGL_req :: "bus_t \<times> nat \<Rightarrow> int \<Rightarrow> sessionid_t \<Rightarrow> srcpd \<Rightarrow> int \<times> srcpd" where
  "cacheLockGL_req (b, locid) d sid s = cacheLockGL b locid d sid s"

fun cacheUnlockGL_req :: "bus_t \<times> nat \<Rightarrow> sessionid_t \<Rightarrow> srcpd \<Rightarrow> int \<times> srcpd" where
  "cacheUnlockGL_req (b, locid) sid s = cacheUnlockGL b locid sid s"

interpretation gllock: device_lock gl_target gl_owner cacheLockGL_req cacheUnlockGL_req
proof
  fix r r' d :: "bus_t \<times> nat" and t sid s
  obtain b l where r: "r = (b, l)" by (cases r)
  obtain b' l' where r': "r' = (b', l')" by (cases r')
  obtain bd i where d: "d = (bd, i)" by (cases d)
  show "fst (cacheLockGL_req r t sid s) = (case gl_target r s of None \<Rightarrow> SRCP_WRONGVALUE
     | Some d \<Rightarrow> if gl_owner d s = 0 \<or> gl_owner d s = sid then SRCP_OK else SRCP_DEVICELOCKED)"
    by (auto simp: r cacheLockGL_def Let_def)
  show "gl_owner d (snd (cacheLockGL_req r t sid s)) = (if gl_target r s = Some d \<and>
      fst (cacheLockGL_req r t sid s) = SRCP_OK then sid else gl_owner d s)"
    by (auto simp: r d cacheLockGL_def Let_def srcp_codes)
  show "gl_target r' (snd (cacheLockGL_req r t sid s)) = gl_target r' s"
    by (simp add: r r' cacheLockGL_def Let_def)
  show "fst (cacheUnlockGL_req r sid s) = (case gl_target r s of None \<Rightarrow> SRCP_WRONGVALUE
     | Some d \<Rightarrow> if gl_owner d s = 0 \<or> gl_owner d s = sid then SRCP_OK else SRCP_DEVICELOCKED)"
    by (auto simp: r cacheUnlockGL_def Let_def)
  show "gl_owner d (snd (cacheUnlockGL_req r sid s)) = (if gl_target r s = Some d \<and>
      fst (cacheUnlockGL_req r sid s) = SRCP_OK then 0 else gl_owner d s)"
    by (auto simp: r d cacheUnlockGL_def Let_def srcp_codes)
  show "gl_target r' (snd (cacheUnlockGL_req r sid s)) = gl_target r' s"
    by (simp add: r r' cacheUnlockGL_def Let_def)
qed

section \<open>Properties\<close>

text \<open>A daemon with one bus of four locomotives.\<close>

definition gl_demo :: "string \<Rightarrow> srcpd" where
  "gl_demo protos = snd (init_GL True True 1 4 (srcpd_init\<lparr>num_buses := 2,
     clock := \<lparr>tv_sec = 7, tv_usec = 0\<rparr>, buses := (\<lambda>_. bus_zero\<lparr>bus_protocols := Some protos\<rparr>)\<rparr>))"

text \<open>C36. \<open>calcspeed\<close> scales a speed to the steps of the decoder without error: for a positive
  maximum and at least one step the result lies between 0 and the number of steps, grows with
  the speed, is 0 exactly for speeds that are not positive, and is the top step from the maximum
  upwards; for a maximum up to 4000000 no intermediate value overflows.\<close>

theorem calcspeed_scales:
  assumes "0 < vmax" "1 \<le> n_fs" "n_fs \<le> 255"
  shows "0 \<le> calcspeed v vmax n_fs \<and> calcspeed v vmax n_fs \<le> n_fs \<and>
    (v \<le> w \<longrightarrow> calcspeed v vmax n_fs \<le> calcspeed w vmax n_fs) \<and>
    (calcspeed v vmax n_fs = 0 \<longleftrightarrow> v \<le> 0) \<and> (vmax \<le> v \<longrightarrow> calcspeed v vmax n_fs = n_fs) \<and>
    (vmax \<le> 4000000 \<longrightarrow> calcspeed_fits v vmax n_fs)"
proof -
  have zero: "calcspeed v vmax n_fs = 0 \<longleftrightarrow> v \<le> 0"
  proof
    assume "calcspeed v vmax n_fs = 0"
    then have "clip_speed v vmax = 0"
      using assms by (simp add: calcspeed_rounds Let_def split: if_splits)
    then show "v \<le> 0" using assms by (simp add: clip_speed_def Let_def split: if_splits)
  qed (use assms in \<open>simp add: calcspeed_rounds clip_speed_def Let_def\<close>)
  have top: "calcspeed v vmax n_fs = n_fs" if "vmax \<le> v"
    using that assms by (cases "v = vmax") (simp_all add: calcspeed_rounds clip_speed_def Let_def)
  have fits: "calcspeed_fits v vmax n_fs" if "vmax \<le> 4000000"
  proof -
    have c: "0 \<le> clip_speed v vmax" "clip_speed v vmax \<le> 4000000"
      using assms that by (simp_all add: clip_speed_def Let_def)
    then have "clip_speed v vmax * n_fs \<le> 4000000 * 255"
      using assms by (intro mult_mono) auto
    with c assms that show ?thesis by (simp add: calcspeed_fits_def mult.commute [of n_fs])
  qed
  show ?thesis
    using calcspeed_range [of vmax n_fs v] calcspeed_mono_step [of vmax n_fs v w] zero top fits assms
    by simp
qed

theorem calcspeed_scales_witness: "calcspeed 64 127 28 \<le> 28 \<and> calcspeed 127 127 28 = 28"
  using calcspeed_scales [of 127 28 64 64] calcspeed_scales [of 127 28 127 127] by simp

text \<open>C4. A locked locomotive stays with its session: while one session holds the lock of a table
  entry, no sequence of lock and unlock requests of other sessions takes it away, under whatever
  address they name it, and each such request that reaches the entry is answered with
  \<open>SRCP_DEVICELOCKED\<close>.\<close>

theorem lock_GL_exclusive:
  assumes "gl_locked_by (gl_at b i s) = sid" "sid \<noteq> 0" "\<forall>q \<in> set qs. lock_req_by q \<noteq> sid"
  shows "gl_locked_by (gl_at b i (snd (lock_run cacheLockGL_req cacheUnlockGL_req qs s))) = sid \<and>
    (\<forall>k < length qs. gl_target (lock_req_dev (qs ! k)) s = Some (b, i) \<longrightarrow>
       fst (lock_run cacheLockGL_req cacheUnlockGL_req qs s) ! k = SRCP_DEVICELOCKED)"
  using gllock.run_excludes [of "(b, i)" s sid qs] assms by auto

lemma gl_demo_simps [simp]:
  "num_buses (gl_demo ps) = 2" "numberOfGl (gl (gl_demo ps) (Suc 0)) = 4"
  "gldir (gl (gl_demo ps) (Suc 0)) = Some gldir_zero" "glstate (gl (gl_demo ps) (Suc 0)) = (\<lambda>_. gl_zero)"
  "gl_queue (gl (gl_demo ps) (Suc 0)) = ring_empty 0"
  "clock (gl_demo ps) = \<lparr>tv_sec = 7, tv_usec = 0\<rparr>" "ub (gl_demo ps) = False"
  "bus_protocols (buses (gl_demo ps) b) = Some ps" "init_gl_func (buses (gl_demo ps) b) = None"
  "describe_gl_func (buses (gl_demo ps) b) = None" "session_list (gl_demo ps) = []"
  "mcs_bus (gl_demo ps) = 0"
  by (simp_all add: gl_demo_def init_GL_def srcpd_init_def gl_bus_zero_def bus_zero_def)

lemmas gl_eval = cacheInitGL_def getGLIndex_def gl_ref_def Let_def gl_enter_def gli_get_def gli_set_def
  gldir_zero_def addGLEntry_def bus_supports_protocol_def gl_init_entry_def ref_nmra_def ref_mfx_def
  gl_consts srcp_codes gl_zero_def gl_lookup_def gl_announce_def take_bit_eq_mod drop_bit_eq_div
  ring_empty_def

text \<open>An INIT that the bus refuses, and the INIT of another locomotive after it.\<close>

definition refused_state :: srcpd where
  "refused_state = snd (cacheInitGL 1 300 (CHR ''N'') 1 28 5 None (gl_demo ''M''))"

definition alias_state :: srcpd where
  "alias_state = snd (cacheInitGL 1 5 (CHR ''M'') 2 14 5 None refused_state)"

lemma refused_state_simps [simp]:
  "num_buses refused_state = 2" "numberOfGl (gl refused_state (Suc 0)) = 4"
  "gldir (gl refused_state (Suc 0)) = Some (gldir_zero\<lparr>nmradir := (\<lambda>_. 0)(300 := 1)\<rparr>)"
  "glstate (gl refused_state (Suc 0)) = (\<lambda>_. gl_zero)" "buses refused_state = buses (gl_demo ''M'')"
  "gl_queue (gl refused_state (Suc 0)) = ring_empty 0" "session_list refused_state = []"
  "mcs_bus refused_state = 0"
  by (simp_all add: refused_state_def gl_eval upt_rec)

lemma alias_state_simps [simp]:
  "num_buses alias_state = 2" "gldir (gl alias_state (Suc 0)) = Some (gldir_zero
     \<lparr>nmradir := (\<lambda>_. 0)(300 := 1), mmdir := (\<lambda>_. 0)(5 := 1), proto := (\<lambda>_. nul)(5 := CHR ''M'')\<rparr>)"
  "gl_state (glstate (gl alias_state (Suc 0)) (Suc 0)) = glsInit"
  "gl_n_fs (glstate (gl alias_state (Suc 0)) (Suc 0)) = 14"
  by (simp_all add: alias_state_def gl_eval upt_rec gl_push_def queue_isfull_gl_def queue_len_gl_def
      ring_len_def ring_list_def u8_def)

lemma alias_lookup [simp]: "gl_lookup (Suc 0) 300 alias_state = Suc 0" "gl_lookup (Suc 0) 5 alias_state = Suc 0"
  by (simp_all add: gl_eval)

lemma alias_lock_free [simp]: "gl_locked_by (glstate (gl alias_state (Suc 0)) (Suc 0)) = 0"
  by (simp add: alias_state_def gl_eval upt_rec)

theorem lock_GL_exclusive_witness:
  "gl_locked_by (gl_at 1 1 (snd (lock_run cacheLockGL_req cacheUnlockGL_req
      [Lock (1, 5) 10 6, Unlock (1, 5) 6] (snd (cacheLockGL 1 5 0 4 alias_state))))) = 4"
  using lock_GL_exclusive [of "snd (cacheLockGL 1 5 0 4 alias_state)" 1 1 4
      "[Lock (1, 5) 10 6, Unlock (1, 5) 6]"]
  by (simp add: cacheLockGL_def Let_def)

text \<open>A failed INIT makes two addresses share one decoder record: after an INIT of an
  address whose protocol the bus refuses, the directory keeps the index of the still unused
  record; the INIT of another locomotive takes the same record, and a SET of the refused address
  is then accepted and moves that locomotive.\<close>

theorem failed_init_aliases:
  "fst (cacheInitGL 1 300 (CHR ''N'') 1 28 5 None (gl_demo ''M'')) = SRCP_UNSUPPORTEDDEVICEPROTOCOL \<and>
   gl_lookup 1 300 alias_state = gl_lookup 1 5 alias_state \<and> gl_lookup 1 5 alias_state \<noteq> 0 \<and>
   fst (enqueueGL 1 300 1 7 14 0 alias_state) = SRCP_OK \<and>
   gl_speed (gl_at 1 (gl_lookup 1 5 alias_state) (snd (enqueueGL 1 300 1 7 14 0 alias_state))) = 7"
proof -
  have p: "get_gldata_ptr 1 300 alias_state = (Some 1, snd (getGLIndex 1 300 nul alias_state))"
    by (simp add: get_gldata_ptr_def gl_eval)
  have "calcspeed 7 14 14 = 7" by (simp add: calcspeed_def clip_speed_def Let_def tdiv_def drop_bit_eq_div)
  then show ?thesis
    using p by (simp add: enqueueGL_def Let_def gl_enqueue_def gl_command_def u8_def)
      (simp add: gl_eval upt_rec)
qed

lemma gl_command_simps [simp]:
  "gl_state (gl_command dir v m f p) = (if gl_state p = glsInit then glsActive else gl_state p)"
  "gl_n_fs (gl_command dir v m f p) = gl_n_fs p"
  "gl_speed (gl_command dir v m f p) = u8 (calcspeed v m (gl_n_fs p))"
  "gl_funcs (gl_command dir v m f p) = u32 f" "gl_locked_by (gl_command dir v m f p) = gl_locked_by p"
  "-128 \<le> dir \<Longrightarrow> dir < 128 \<Longrightarrow> gl_direction (gl_command dir v m f p) = dir"
  by (simp_all add: gl_command_def Let_def s8_id)

lemma enqueueGL_queued:
  assumes inv: "gl_inv (gl s b)" and few: "numberOfGl (gl s b) \<le> 198"
    and ok: "fst (enqueueGL b locid dir v m f s) = SRCP_OK" and dir: "-128 \<le> dir" "dir < 128"
  shows "\<exists>i. i \<in> set (gl_pending b (snd (enqueueGL b locid dir v m f s))) \<and>
    gl_direction (gl_at b i (snd (enqueueGL b locid dir v m f s))) = dir \<and>
    gl_speed (gl_at b i (snd (enqueueGL b locid dir v m f s))) =
      u8 (calcspeed v m (gl_n_fs (gl_at b i (snd (enqueueGL b locid dir v m f s))))) \<and>
    gl_funcs (gl_at b i (snd (enqueueGL b locid dir v m f s))) = u32 f"
proof -
  obtain io s1 where g: "get_gldata_ptr b locid s = (io, s1)" by fastforce
  then obtain i where io: "io = Some i"
    using ok by (cases io) (auto simp: enqueueGL_def srcp_codes)
  have st: "gl_state (gl_at b i s1) \<noteq> glsNone" using get_gldata_ptr_state [of b locid s i] g io by simp
  have k: "gl_keeps b s s1" using get_gldata_ptr_keeps [of b s locid] g by simp
  define s2 where "s2 = upd_glstate b i (gl_command dir v m f) s1"
  define s3 where "s3 = (if calcspeed_fits v m (gl_n_fs (gl_at b i s1)) then s2 else raise_ub s2)"
  have s3: "gl s3 = gl (upd_glstate b i (gl_command dir v m f) s1)"
    by (simp add: s3_def s2_def)
  then have "gl_state (gl_at b i s3) \<noteq> glsNone" using st by simp
  then have e: "gl (snd (enqueueGL b locid dir v m f s)) = gl (gl_push b i s3)"
    using g io gl_enqueue_contents [where b = b and i = i and s = s3]
    by (simp add: enqueueGL_def Let_def s2_def [symmetric]) (simp add: s3_def split: if_splits)
  have inv3: "gl_inv (gl s3 b)" and "numberOfGl (gl s3 b) \<le> 198"
    using k inv few by (simp_all add: s3 gl_keeps_def)
  then have "\<not> queue_isfull_gl b s3" by (rule gl_inv_not_full)
  then have "i \<in> set (gl_pending b (gl_push b i s3))"
    using gl_push_contents [of s3 b i] inv3 by (simp add: gl_inv_def)
  then show ?thesis using dir by (intro exI [of _ i]) (simp add: e s3)
qed

text \<open>C2. No command to a locomotive is lost: on a bus with at most 198 locomotives, after any
  history of client commands, gateway commands, reports of the bus thread, lock time-outs and
  session ends, a SET that is answered with \<open>SRCP_OK\<close> leaves a waiting queue entry whose record
  holds exactly the commanded direction, speed step and functions, every waiting entry is a
  valid table index, and no locomotive waits twice.\<close>

theorem gl_commands_not_lost:
  assumes "gl_reach b s0 s" "gl_inv (gl s0 b)" "numberOfGl (gl s0 b) \<le> 198"
    and "fst (enqueueGL b locid dir v m f s) = SRCP_OK" "-128 \<le> dir" "dir < 128"
  shows "let s' = snd (enqueueGL b locid dir v m f s)
    in gl_inv (gl s' b) \<and> (\<exists>i. i \<in> set (gl_pending b s') \<and> gl_direction (gl_at b i s') = dir \<and>
         gl_speed (gl_at b i s') = u8 (calcspeed v m (gl_n_fs (gl_at b i s'))) \<and>
         gl_funcs (gl_at b i s') = u32 f)"
proof -
  have "gl_keeps b s0 s" using assms(1) by (rule gl_reach_keeps)
  with assms(2,3) have inv: "gl_inv (gl s b)" and "numberOfGl (gl s b) \<le> 198"
    by (simp_all add: gl_keeps_def)
  moreover have "gl_inv (gl (snd (enqueueGL b locid dir v m f s)) b)"
    using enqueueGL_keeps [of b s locid dir v m f] inv by (simp add: gl_keeps_def)
  ultimately show ?thesis
    using enqueueGL_queued [of s b locid dir v m f] assms(4-6) by simp
qed

lemma gl_inv_demo [simp]: "gl_inv (gl (gl_demo ps) (Suc 0))"
proof -
  have "gli_read r gldir_zero = 0" for r by (cases r) (simp_all add: gldir_zero_def)
  then show ?thesis by (simp add: gl_inv_def)
qed

theorem gl_commands_not_lost_witness:
  "gl_inv (gl (snd (enqueueGL 1 5 1 7 14 0 alias_state)) 1)"
proof -
  have "gl_reach 1 (gl_demo ''M'') refused_state"
    unfolding refused_state_def by (rule gl_reach.step [OF gl_reach.start st_init])
  then have "gl_reach 1 (gl_demo ''M'') alias_state"
    unfolding alias_state_def by (rule gl_reach.step [OF _ st_init])
  moreover have "fst (enqueueGL 1 5 1 7 14 0 alias_state) = SRCP_OK"
    by (simp add: enqueueGL_def get_gldata_ptr_def gl_eval)
  ultimately show ?thesis
    using gl_commands_not_lost [of 1 "gl_demo ''M''" alias_state 5 1 7 14 0] by (simp add: Let_def)
qed

lemma gl_enter_dir:
  assumes "gldir (gl s b) = Some d"
  obtains d2 where "gldir (gl (gl_enter b r s) b) = Some d2" "proto d2 = proto d"
proof -
  have "proto (gli_write r v d) = proto d" for v by (cases r) simp_all
  with assms have "\<exists>d2. gldir (gl (gl_enter b r s) b) = Some d2 \<and> proto d2 = proto d"
    by (auto simp: gl_enter_def gli_set_def)
  with that show thesis by blast
qed

lemma gl_ref_proto: "proto d2 = proto d1 \<Longrightarrow> gl_ref d2 = gl_ref d1"
  by (intro ext) (simp only: gl_ref_def)

lemma gl_ref_after_init:
  assumes "gl_ref d locid p = Some r" "int locid < MAXSRCPGL \<Longrightarrow> proto d locid = p" "p \<noteq> nul"
  shows "gl_ref d locid nul = Some r"
  using assms by (auto simp: gl_ref_def Let_def split: if_splits)



section \<open>The end of a session\<close>

text \<open>What releasing locks may change: locks disappear, everything else that addresses depend on
  stays.\<close>

definition gl_released :: "srcpd \<Rightarrow> srcpd \<Rightarrow> bool" where
  "gl_released s t \<longleftrightarrow> num_buses t = num_buses s \<and>
     (\<forall>b. numberOfGl (gl t b) = numberOfGl (gl s b) \<and> gldir (gl t b) = gldir (gl s b)) \<and>
     (\<forall>b i. gl_state (gl_at b i t) = gl_state (gl_at b i s) \<and> gl_id (gl_at b i t) = gl_id (gl_at b i s) \<and>
        gl_protocol (gl_at b i t) = gl_protocol (gl_at b i s) \<and>
        (gl_locked_by (gl_at b i t) = gl_locked_by (gl_at b i s) \<or> gl_locked_by (gl_at b i t) = 0))"

lemma gl_released_refl [simp]: "gl_released s s"
  by (simp add: gl_released_def)

lemma gl_released_trans: "gl_released s t \<Longrightarrow> gl_released t u \<Longrightarrow> gl_released s u"
  unfolding gl_released_def by metis

lemma gl_released_locked:
  "gl_released s t \<Longrightarrow> gl_locked_by (gl_at b i t) = sid \<Longrightarrow> sid \<noteq> 0 \<Longrightarrow> gl_locked_by (gl_at b i s) = sid"
  unfolding gl_released_def by metis

lemma gl_released_resolve:
  assumes "gl_released s t"
  shows "isInitializedGL b j t = isInitializedGL b j s" "gl_lookup b l t = gl_lookup b l s"
  using assms by (simp_all add: gl_released_def isInitializedGL_def cong: gl_lookup_cong)
    (metis gl_lookup_cong)

lemma gl_released_unlock [simp]: "gl_released s (snd (cacheUnlockGL b l sid s))"
  by (simp add: gl_released_def cacheUnlockGL_def Let_def)

lemma gl_released_release [simp]: "gl_released s (release_gl sid b j s)"
  by (simp add: release_gl_def Let_def)

text \<open>The entry can be reached again through the address \<open>isInitializedGL\<close> gives for it.\<close>

definition gl_resolves :: "bus_t \<Rightarrow> nat \<Rightarrow> srcpd \<Rightarrow> bool" where
  "gl_resolves b j s \<longleftrightarrow> 0 < j \<and> 0 < isInitializedGL b (int j) s \<and>
     gl_lookup b (isInitializedGL b (int j) s) s = j"

lemma release_gl_hits:
  assumes "gl_resolves b j s" "sid \<noteq> 0"
  shows "gl_locked_by (gl_at b j (release_gl sid b j s)) \<noteq> sid"
proof (cases "gl_locked_by (gl_at b j s) = sid")
  case True
  have "gl_state (gl_at b j s) \<noteq> glsNone"
    using assms(1) by (auto simp: gl_resolves_def isInitializedGL_def split: if_splits)
  with True assms show ?thesis
    by (simp add: release_gl_def gl_resolves_def cacheUnlockGL_def Let_def)
next
  case False
  then show ?thesis by (simp add: release_gl_def)
qed

lemma release_bus:
  assumes "sid \<noteq> 0" "\<And>j. j \<in> set js \<Longrightarrow> gl_locked_by (gl_at b j s) = sid \<Longrightarrow> gl_resolves b j s"
  shows "gl_released s (fold (release_gl sid b) js s) \<and>
    (\<forall>j \<in> set js. gl_locked_by (gl_at b j (fold (release_gl sid b) js s)) \<noteq> sid)"
  using assms(2)
proof (induction js rule: rev_induct)
  case (snoc j js)
  let ?t = "fold (release_gl sid b) js s"
  have IH: "gl_released s ?t" "\<forall>j \<in> set js. gl_locked_by (gl_at b j ?t) \<noteq> sid"
    using snoc by auto
  have rel: "gl_released ?t (release_gl sid b j ?t)" by simp
  have "gl_locked_by (gl_at b j (release_gl sid b j ?t)) \<noteq> sid"
  proof (cases "gl_locked_by (gl_at b j ?t) = sid")
    case True
    then have "gl_locked_by (gl_at b j s) = sid" using gl_released_locked [OF IH(1)] assms(1) by blast
    then have "gl_resolves b j ?t"
      using snoc.prems gl_released_resolve [OF IH(1)] by (simp add: gl_resolves_def)
    then show ?thesis using assms(1) by (rule release_gl_hits)
  qed (simp add: release_gl_def)
  moreover have "gl_locked_by (gl_at b k (release_gl sid b j ?t)) \<noteq> sid" if "k \<in> set js" for k
    using IH(2) gl_released_locked [OF rel] that assms(1) by blast
  ultimately show ?case using IH(1) rel gl_released_trans by auto
qed simp

lemma unlock_gl_bysessionid_all:
  assumes "sid \<noteq> 0" and res: "\<And>b j. b \<le> num_buses s \<Longrightarrow> 1 \<le> j \<Longrightarrow> int j \<le> numberOfGl (gl s b) \<Longrightarrow>
      gl_locked_by (gl_at b j s) = sid \<Longrightarrow> gl_resolves b j s"
  defines "F \<equiv> \<lambda>n. fold (\<lambda>b s. fold (release_gl sid b) [1..<Suc (nat (getMaxAddrGL b s))] s) [0..<n] s"
  shows "n \<le> Suc (num_buses s) \<Longrightarrow> gl_released s (F n) \<and> (\<forall>b < n. \<forall>j. 1 \<le> j \<and>
    int j \<le> numberOfGl (gl s b) \<longrightarrow> gl_locked_by (gl_at b j (F n)) \<noteq> sid)"
proof (induction n)
  case 0
  show ?case by (simp add: F_def)
next
  case (Suc n)
  then have IH: "gl_released s (F n)" "\<forall>b < n. \<forall>j. 1 \<le> j \<and> int j \<le> numberOfGl (gl s b) \<longrightarrow>
      gl_locked_by (gl_at b j (F n)) \<noteq> sid" and n: "n \<le> num_buses s"
    by auto
  let ?js = "[1..<Suc (nat (getMaxAddrGL n (F n)))]"
  have F: "F (Suc n) = fold (release_gl sid n) ?js (F n)" by (simp add: F_def)
  have js: "j \<in> set ?js \<longleftrightarrow> 1 \<le> j \<and> int j \<le> numberOfGl (gl s n)" for j
    using IH(1) n by (auto simp: getMaxAddrGL_def gl_released_def)
  have "gl_resolves n j (F n)" if "j \<in> set ?js" "gl_locked_by (gl_at n j (F n)) = sid" for j
  proof -
    have "gl_locked_by (gl_at n j s) = sid" using gl_released_locked [OF IH(1) that(2)] assms(1) by blast
    then show ?thesis
      using that(1) n res gl_released_resolve [OF IH(1)] unfolding js by (simp add: gl_resolves_def)
  qed
  from release_bus [OF assms(1) this] have
    bus: "gl_released (F n) (F (Suc n))" "\<forall>j \<in> set ?js. gl_locked_by (gl_at n j (F (Suc n))) \<noteq> sid"
    unfolding F by blast+
  have "gl_locked_by (gl_at b j (F (Suc n))) \<noteq> sid" if "b < n" "1 \<le> j" "int j \<le> numberOfGl (gl s b)" for b j
    using IH(2) gl_released_locked [OF bus(1)] that assms(1) by blast
  with bus js gl_released_trans [OF IH(1) bus(1)] show ?case by (auto simp: less_Suc_eq)
qed

text \<open>The end of a session releases its locomotives: if every entry the session has locked is
  the one its own address leads to, then after \<open>unlock_gl_bysessionid\<close> no locomotive of any bus is
  locked by the session.\<close>

theorem unlock_gl_bysessionid_releases:
  assumes "sid \<noteq> 0" "\<forall>b j. b \<le> num_buses s \<and> 1 \<le> j \<and> int j \<le> numberOfGl (gl s b) \<and>
      gl_locked_by (gl_at b j s) = sid \<longrightarrow> gl_resolves b j s"
    and "b \<le> num_buses s" "1 \<le> j" "int j \<le> numberOfGl (gl s b)"
  shows "gl_locked_by (gl_at b j (unlock_gl_bysessionid sid s)) \<noteq> sid"
  using unlock_gl_bysessionid_all [of sid s "Suc (num_buses s)"] assms
  by (simp add: unlock_gl_bysessionid_def less_Suc_eq_le del: upt_Suc)

lemma gl_demo_other [simp]:
  "numberOfGl (gl (gl_demo ps) 0) = 0" "numberOfGl (gl (gl_demo ps) 2) = 0"
  "numberOfGl (gl refused_state 0) = 0" "numberOfGl (gl refused_state 2) = 0"
  by (simp_all add: gl_demo_def init_GL_def srcpd_init_def gl_bus_zero_def)
    (simp_all add: refused_state_def gl_eval upt_rec, simp_all add: gl_demo_def init_GL_def
      srcpd_init_def gl_bus_zero_def)

lemma alias_state_other [simp]:
  "numberOfGl (gl alias_state (Suc 0)) = 4" "numberOfGl (gl alias_state 0) = 0"
  "numberOfGl (gl alias_state 2) = 0" "gl_locked_by (glstate (gl alias_state (Suc 0)) j) = 0"
  "gl_id (glstate (gl alias_state (Suc 0)) (Suc 0)) = 5"
  "gl_protocol (glstate (gl alias_state (Suc 0)) (Suc 0)) = CHR ''M''"
  by (simp_all add: alias_state_def gl_eval upt_rec)

theorem unlock_gl_bysessionid_releases_witness:
  "gl_locked_by (gl_at 1 1 (unlock_gl_bysessionid 4 (snd (cacheLockGL 1 5 0 4 alias_state)))) \<noteq> 4"
proof -
  define s where "s = snd (cacheLockGL 1 5 0 4 alias_state)"
  have f: "num_buses s = 2" "numberOfGl (gl s 1) = 4" "numberOfGl (gl s 0) = 0" "numberOfGl (gl s 2) = 0"
    by (simp_all add: s_def cacheLockGL_def Let_def)
  have l: "gl_locked_by (gl_at 1 j s) = 4 \<longleftrightarrow> j = 1" for j by (simp add: s_def cacheLockGL_def Let_def)
  have r: "gl_resolves 1 1 s"
    by (simp add: s_def gl_resolves_def cacheLockGL_def Let_def isInitializedGL_def)
  have "gl_resolves b j s" if "b \<le> 2" "1 \<le> j" "int j \<le> numberOfGl (gl s b)" "gl_locked_by (gl_at b j s) = 4" for b j
  proof -
    have "b = 1" using that(1-3) f(3,4) by (cases "b = 0"; cases "b = 2") auto
    with that(4) l [of j] have "j = 1" by simp
    with \<open>b = 1\<close> r show ?thesis by simp
  qed
  then have "gl_locked_by (gl_at 1 1 (unlock_gl_bysessionid 4 s)) \<noteq> 4"
    using f by (intro unlock_gl_bysessionid_releases) auto
  then show ?thesis by (simp add: s_def)
qed

text \<open>A session locks Maerklin locomotive 5, then DCC locomotive 5 is initialised on the same bus.\<close>

definition mm_state :: srcpd where
  "mm_state = snd (cacheInitGL 1 5 (CHR ''M'') 2 14 5 None (gl_demo ''MN''))"

definition locked_state :: srcpd where
  "locked_state = snd (cacheLockGL 1 5 0 4 mm_state)"

definition leak_state :: srcpd where
  "leak_state = snd (cacheInitGL 1 5 (CHR ''N'') 1 28 5 None locked_state)"

lemma mm_state_simps [simp]:
  "num_buses mm_state = 2" "numberOfGl (gl mm_state 0) = 0" "numberOfGl (gl mm_state (Suc 0)) = 4"
  "numberOfGl (gl mm_state 2) = 0" "buses mm_state = buses (gl_demo ''MN'')"
  "gldir (gl mm_state (Suc 0)) = Some (gldir_zero\<lparr>mmdir := (\<lambda>_. 0)(5 := 1), proto := (\<lambda>_. nul)(5 := CHR ''M'')\<rparr>)"
  "gl_state (glstate (gl mm_state (Suc 0)) (Suc 0)) = glsInit"
  "gl_id (glstate (gl mm_state (Suc 0)) (Suc 0)) = 5"
  "gl_protocol (glstate (gl mm_state (Suc 0)) (Suc 0)) = CHR ''M''"
  "gl_locked_by (glstate (gl mm_state (Suc 0)) (Suc 0)) = 0"
  "j \<noteq> Suc 0 \<Longrightarrow> glstate (gl mm_state (Suc 0)) j = gl_zero"
  by (simp_all add: mm_state_def gl_eval upt_rec)

lemma locked_state_simps [simp]:
  "num_buses locked_state = 2" "numberOfGl (gl locked_state 0) = 0" "numberOfGl (gl locked_state (Suc 0)) = 4"
  "numberOfGl (gl locked_state 2) = 0" "buses locked_state = buses (gl_demo ''MN'')"
  "gldir (gl locked_state (Suc 0)) = Some (gldir_zero\<lparr>mmdir := (\<lambda>_. 0)(5 := 1), proto := (\<lambda>_. nul)(5 := CHR ''M'')\<rparr>)"
  "gl_state (glstate (gl locked_state (Suc 0)) (Suc 0)) = glsInit"
  "gl_id (glstate (gl locked_state (Suc 0)) (Suc 0)) = 5"
  "gl_protocol (glstate (gl locked_state (Suc 0)) (Suc 0)) = CHR ''M''"
  "gl_locked_by (glstate (gl locked_state (Suc 0)) (Suc 0)) = 4"
  "j \<noteq> Suc 0 \<Longrightarrow> glstate (gl locked_state (Suc 0)) j = gl_zero"
  by (simp_all add: locked_state_def cacheLockGL_def Let_def gl_eval)

lemma upt4: "[Suc 0..<Suc 4] = [1, 2, 3, 4]" "[Suc 0..<5] = [1, 2, 3, 4]" "[0..<3] = [0, 1, 2]"
  by (simp_all add: upt_rec)

lemma leak_state_simps [simp]:
  "num_buses leak_state = 2" "numberOfGl (gl leak_state 0) = 0" "numberOfGl (gl leak_state (Suc 0)) = 4"
  "numberOfGl (gl leak_state 2) = 0"
  "gldir (gl leak_state (Suc 0)) = Some (gldir_zero\<lparr>nmradir := (\<lambda>_. 0)(5 := 2), mmdir := (\<lambda>_. 0)(5 := 1),
     proto := (\<lambda>_. nul)(5 := CHR ''N'')\<rparr>)"
  "glstate (gl leak_state (Suc 0)) (Suc 0) = glstate (gl locked_state (Suc 0)) (Suc 0)"
  "gl_state (glstate (gl leak_state (Suc 0)) 2) = glsInit"
  "gl_locked_by (glstate (gl leak_state (Suc 0)) 2) = 0"
  "gl_locked_by (glstate (gl leak_state (Suc 0)) 3) = 0"
  "gl_locked_by (glstate (gl leak_state (Suc 0)) 4) = 0"
  by (simp_all add: leak_state_def gl_eval upt4)

text \<open>The lock of a session that has ended can stay: when two locomotives of a bus have the
  same number in different protocols, the address of the first leads to the second, so
  \<open>unlock_gl_bysessionid\<close> releases the wrong entry and the first stays locked by the session.\<close>

theorem session_end_leaks_lock:
  "gl_locked_by (gl_at 1 1 leak_state) = 4 \<and> gl_locked_by (gl_at 1 2 leak_state) = 0 \<and>
   gl_locked_by (gl_at 1 1 (unlock_gl_bysessionid 4 leak_state)) = 4"
proof -
  have i: "isInitializedGL 1 1 leak_state = 5" by (simp add: isInitializedGL_def Let_def)
  have l: "gl_lookup 1 5 leak_state = 2" by (simp add: gl_eval)
  have r1: "release_gl 4 1 1 leak_state = snd (cacheUnlockGL 1 5 4 leak_state)"
    using i by (simp add: release_gl_def Let_def)
  let ?t = "snd (cacheUnlockGL 1 5 4 leak_state)"
  have t: "gl_at 1 1 ?t = gl_at 1 1 leak_state" "num_buses ?t = 2" "numberOfGl (gl ?t 0) = 0"
    "numberOfGl (gl ?t 2) = 0"
    "gl_locked_by (gl_at 1 2 ?t) = 0" "gl_locked_by (gl_at 1 3 ?t) = 0" "gl_locked_by (gl_at 1 4 ?t) = 0"
    using l by (simp_all add: cacheUnlockGL_def Let_def)
  have r: "release_gl 4 1 j ?t = ?t" if "gl_locked_by (gl_at 1 j ?t) = 0" for j
    using that by (simp add: release_gl_def)
  have "unlock_gl_bysessionid 4 leak_state = ?t"
    using r1 t r [of 2] r [of 3] r [of 4]
    by (simp add: unlock_gl_bysessionid_def getMaxAddrGL_def upt4 del: upt_Suc)
  then show ?thesis using t by simp
qed

end
