(* ===== verification/Srcp_Text.thy ===== *)
theory Srcp_Text
  imports Prelude
begin

text \<open>
  The text layer of \<open>io.c\<close> (splitting a command line, reading a line from a socket, writing a
  reply) and what the command handlers use of the C library: case-insensitive comparison, \<open>atoi\<close>
  and the conversions of \<open>sscanf\<close>. A C string is the list of its characters before the
  terminating zero.
\<close>

section \<open>Characters and comparison\<close>

definition tolower :: "char \<Rightarrow> char" where
  "tolower c = (if 65 \<le> (of_char c :: nat) \<and> (of_char c :: nat) \<le> 90 then char_of (of_char c + 32 :: nat) else c)"

text \<open>\<open>strncasecmp(s, t, strlen(t)) == 0\<close> and \<open>strcasecmp(s, t) == 0\<close>.\<close>

definition strncasecmp_eq :: "string \<Rightarrow> string \<Rightarrow> bool" where
  "strncasecmp_eq s t \<longleftrightarrow> map tolower (take (length t) s) = map tolower t"

definition strcasecmp_eq :: "string \<Rightarrow> string \<Rightarrow> bool" where
  "strcasecmp_eq s t \<longleftrightarrow> map tolower s = map tolower t"

definition isspace :: "char \<Rightarrow> bool" where
  "isspace c \<longleftrightarrow> of_char c = (32 :: nat) \<or> 9 \<le> (of_char c :: nat) \<and> (of_char c :: nat) \<le> 13"

section \<open>Numbers\<close>

text \<open>
  A decimal subject sequence: white space, an optional sign and digits; \<open>None\<close> when there is no
  digit. \<open>strtol\<close> saturates at the ends of \<open>long\<close>, \<open>strtoul\<close> at the largest \<open>unsigned long\<close>
  and negates modulo its width.
\<close>

definition scan_number :: "string \<Rightarrow> (bool \<times> nat \<times> string) option" where
  "scan_number s =
     (let t = dropWhile isspace s;
          neg = (t \<noteq> [] \<and> hd t = CHR ''-'');
          u = (if t \<noteq> [] \<and> (hd t = CHR ''-'' \<or> hd t = CHR ''+'') then tl t else t);
          ds = takeWhile is_dec u
      in if ds = [] then None else Some (neg, read_nat ds, drop (length ds) u))"

definition to_long :: "bool \<Rightarrow> nat \<Rightarrow> int" where
  "to_long neg n = (if neg then max (- 9223372036854775808) (- int n) else min 9223372036854775807 (int n))"

definition to_ulong :: "bool \<Rightarrow> nat \<Rightarrow> int" where
  "to_ulong neg n = (if 18446744073709551615 < n then 18446744073709551615
     else if neg then u64 (- int n) else int n)"

definition atoi :: "string \<Rightarrow> int" where
  "atoi s = (case scan_number s of None \<Rightarrow> 0 | Some (neg, n, _) \<Rightarrow> s32 (to_long neg n))"

section \<open>\<open>sscanf\<close>\<close>

text \<open>
  The conversions that occur: \<open>%ld\<close>, \<open>%lu\<close>, \<open>%d\<close>, \<open>%10s\<close>, and \<open>%1c\<close> and \<open>%30[^\t\n]\<close>, which the
  format strings precede with white space. The result lists the converted values; its length is the
  number \<open>sscanf\<close> returns (which is \<open>-1\<close> instead of 0 when the input ends before the first
  conversion, a difference that no caller looks at).
\<close>

datatype conv = LD | LU | DI | WORD nat | C1 | UPTO nat

datatype scanned = Num int | Str string

fun scan_one :: "conv \<Rightarrow> string \<Rightarrow> (scanned \<times> string) option" where
  "scan_one LD s = (case scan_number s of None \<Rightarrow> None | Some (neg, n, r) \<Rightarrow> Some (Num (to_long neg n), r))"
| "scan_one LU s = (case scan_number s of None \<Rightarrow> None | Some (neg, n, r) \<Rightarrow> Some (Num (to_ulong neg n), r))"
| "scan_one DI s = (case scan_number s of None \<Rightarrow> None | Some (neg, n, r) \<Rightarrow> Some (Num (s32 (to_long neg n)), r))"
| "scan_one (WORD w) s =
     (let t = dropWhile isspace s; x = take w (takeWhile (\<lambda>c. \<not> isspace c) t)
      in if x = [] then None else Some (Str x, drop (length x) t))"
| "scan_one C1 s =
     (case dropWhile isspace s of [] \<Rightarrow> None | c # r \<Rightarrow> Some (Str [c], r))"
| "scan_one (UPTO w) s =
     (let t = dropWhile isspace s; x = take w (takeWhile (\<lambda>c. c \<noteq> CHR 0x09 \<and> c \<noteq> CHR 0x0A) t)
      in if x = [] then None else Some (Str x, drop (length x) t))"

primrec sscanf :: "conv list \<Rightarrow> string \<Rightarrow> scanned list" where
  "sscanf [] s = []"
| "sscanf (f # fs) s = (case scan_one f s of None \<Rightarrow> [] | Some (v, r) \<Rightarrow> v # sscanf fs r)"

text \<open>
  The \<open>i\<close>th variable after the call; \<open>junk\<close> is the unspecified value of a variable that was not
  assigned.
\<close>

definition num_arg :: "int \<Rightarrow> scanned list \<Rightarrow> nat \<Rightarrow> int" where
  "num_arg junk v i = (if i < length v then case v ! i of Num x \<Rightarrow> x | Str _ \<Rightarrow> junk else junk)"

definition str_arg :: "scanned list \<Rightarrow> nat \<Rightarrow> string" where
  "str_arg v i = (if i < length v then case v ! i of Num _ \<Rightarrow> [] | Str x \<Rightarrow> x else [])"

section \<open>Splitting a line\<close>

text \<open>
  The loop of \<open>ssplitstr\<close> over the buffer: \<open>before\<close> is the part already passed (with separators
  overwritten by zeros), \<open>sep\<close> the flag \<open>s\<close>, \<open>ptrs\<close> the offsets stored so far. It returns the
  buffer, the offset at which it stopped and the stored offsets.
\<close>

definition blank :: "char \<Rightarrow> bool" where
  "blank c \<longleftrightarrow> (of_char c :: nat) \<le> 0x20"

fun ssplit_loop :: "nat \<Rightarrow> string \<Rightarrow> string \<Rightarrow> bool \<Rightarrow> nat list \<Rightarrow> string \<times> nat \<times> nat list" where
  "ssplit_loop n before [] sep ptrs = (before, length before, ptrs)"
| "ssplit_loop n before (c # cs) sep ptrs =
     (if c = CHR 0x00 then (before @ c # cs, length before, ptrs)
      else
        (let ptrs' = (if sep \<and> \<not> blank c then ptrs @ [length before] else ptrs)
         in if sep \<and> \<not> blank c \<and> length ptrs' = n then (before @ c # cs, length before, ptrs')
            else ssplit_loop n (before @ [if blank c then CHR 0x00 else c]) cs (blank c) ptrs'))"

text \<open>The C string that starts at offset \<open>p\<close> of a buffer.\<close>

definition c_string :: "string \<Rightarrow> nat \<Rightarrow> string" where
  "c_string buf p = takeWhile (\<lambda>c. c \<noteq> CHR 0x00) (drop p buf)"

text \<open>The number of tokens and the strings the \<open>n\<close> pointers point to.\<close>

definition ssplitstr :: "nat \<Rightarrow> string \<Rightarrow> nat \<times> string list" where
  "ssplitstr n str =
     (case ssplit_loop n [] str True [] of
        (buf, stop, ptrs) \<Rightarrow>
          (length ptrs, map (c_string buf) (ptrs @ replicate (n - length ptrs) stop)))"

section \<open>Sockets\<close>

definition isvalidchar :: "char \<Rightarrow> bool" where
  "isvalidchar c \<longleftrightarrow> 0x20 \<le> (of_char c :: nat) \<and> (of_char c :: nat) \<le> 127 \<or>
     of_char c = (0x09 :: nat) \<or> c = CHR 0x0A"

text \<open>
  What successive calls of \<open>read(Socket, &c, 1)\<close> deliver: a character, end of file, an
  interruption by a signal or another error. After the end of the list every call reports end of
  file.
\<close>

datatype rd = Byte char | RdEof | RdIntr | RdErr

text \<open>The \<open>while\<close> loop that reads the rest of a line; \<open>line\<close> holds the characters stored so far.\<close>

fun readline_rest :: "nat \<Rightarrow> string \<Rightarrow> rd list \<Rightarrow> string \<times> rd list" where
  "readline_rest len line (Byte c # evs) =
     (let line' = (if isvalidchar c \<and> length line < len - 1 then line @ [c] else line)
      in if c = CHR 0x0A then (line', evs) else readline_rest len line' evs)"
| "readline_rest len line (e # evs) = (line, evs)"
| "readline_rest len line [] = (line, [])"

fun socket_readline :: "nat \<Rightarrow> rd list \<Rightarrow> int \<times> string \<times> rd list" where
  "socket_readline len (Byte c # evs) =
     (case readline_rest len (if isvalidchar c then [c] else []) evs of
        (line, evs') \<Rightarrow> (int (length line), line, evs'))"
| "socket_readline len (RdIntr # evs) = socket_readline len evs"
| "socket_readline len (RdErr # evs) = (-1, [], evs)"
| "socket_readline len (RdEof # evs) = (0, [], evs)"
| "socket_readline len [] = (0, [], [])"

text \<open>
  \<open>write(fd, ptr, nleft)\<close> writes some of the bytes (at least one, at most \<open>nleft\<close>), nothing, or
  fails. \<open>writen\<close> returns its result with the bytes sent; \<open>None\<close>: it is still waiting after the
  given results.
\<close>

datatype wr = Wrote nat | WrIntr | WrErr

fun writen :: "string \<Rightarrow> wr list \<Rightarrow> (int \<times> string) option" where
  "writen [] ws = Some (0, [])"
| "writen (c # cs) [] = None"
| "writen (c # cs) (WrErr # ws) = Some (-1, [])"
| "writen (c # cs) (WrIntr # ws) = writen (c # cs) ws"
| "writen (c # cs) (Wrote k # ws) =
     (if k = 0 then Some (-1, [])
      else (case writen (drop k (c # cs)) ws of
              None \<Rightarrow> None
            | Some (r, sent) \<Rightarrow>
                Some (if r < 0 then r else int (length (c # cs)), take k (c # cs) @ sent)))"

section \<open>Properties\<close>

text \<open>What a caller of \<open>ssplitstr\<close> relies on: the tokens of a line, the last one with its tail.\<close>

fun tokens :: "nat \<Rightarrow> string \<Rightarrow> string list" where
  "tokens 0 str = []"
| "tokens (Suc n) str =
     (case dropWhile blank str of
        [] \<Rightarrow> []
      | c # cs \<Rightarrow> if n = 0 then [c # cs]
          else takeWhile (\<lambda>c. \<not> blank c) (c # cs) # tokens n (dropWhile (\<lambda>c. \<not> blank c) (c # cs)))"

lemma c_string_before [simp]: "p = length before \<Longrightarrow> c_string (before @ rest) p = takeWhile (\<lambda>c. c \<noteq> CHR 0x00) rest"
  by (simp add: c_string_def)

lemma takeWhile_no_nul: "CHR 0x00 \<notin> set s \<Longrightarrow> takeWhile (\<lambda>c. c \<noteq> CHR 0x00) s = s"
  by (induction s) auto

lemma blank_nul [simp]: "blank (CHR 0x00)"
  by (simp add: blank_def)

definition zeroed :: "string \<Rightarrow> string" where
  "zeroed s = map (\<lambda>c. if blank c then CHR 0x00 else c) s"

lemma zeroed_simps [simp]:
  "zeroed [] = []" "zeroed (c # cs) = (if blank c then CHR 0x00 else c) # zeroed cs" "length (zeroed s) = length s"
  "zeroed (xs @ ys) = zeroed xs @ zeroed ys"
  by (simp_all add: zeroed_def)

text \<open>Blanks are passed over; so are the characters of a token once its start has been stored.\<close>

lemma ssplit_loop_blanks:
  assumes "\<forall>c \<in> set ws. blank c \<and> c \<noteq> CHR 0x00" "ws \<noteq> []"
  shows "ssplit_loop n before (ws @ rest) sep ptrs = ssplit_loop n (before @ zeroed ws) rest True ptrs"
  using assms
proof (induction ws arbitrary: before sep)
  case (Cons c ws)
  then have c: "blank c" "c \<noteq> CHR 0x00" by simp_all
  then have step: "ssplit_loop n before ((c # ws) @ rest) sep ptrs =
      ssplit_loop n (before @ [CHR 0x00]) (ws @ rest) True ptrs"
    by simp
  show ?case
  proof (cases "ws = []")
    case False
    then have "ssplit_loop n (before @ [CHR 0x00]) (ws @ rest) True ptrs =
        ssplit_loop n ((before @ [CHR 0x00]) @ zeroed ws) rest True ptrs"
      using Cons.prems by (intro Cons.IH) simp_all
    with step c show ?thesis by simp
  qed (use step c in simp)
qed simp

lemma ssplit_loop_word:
  assumes "\<forall>c \<in> set ws. \<not> blank c"
  shows "ssplit_loop n before (ws @ rest) False ptrs = ssplit_loop n (before @ ws) rest False ptrs"
  using assms
proof (induction ws arbitrary: before)
  case (Cons c ws)
  then have "c \<noteq> CHR 0x00" by auto
  with Cons show ?case by simp
qed simp

lemma ssplit_loop_sep:
  "rest = [] \<or> blank (hd rest) \<Longrightarrow> ssplit_loop n before rest sep ptrs = ssplit_loop n before rest True ptrs"
  by (cases rest) auto

lemma blanks_word_split:
  obtains ws r where "s = ws @ r" "ws = takeWhile blank s" "r = dropWhile blank s"
    "\<forall>c \<in> set ws. blank c" "r \<noteq> [] \<longrightarrow> \<not> blank (hd r)"
  by (metis takeWhile_dropWhile_id set_takeWhileD hd_dropWhile)

definition split_result :: "nat \<Rightarrow> string \<Rightarrow> string \<Rightarrow> nat list \<Rightarrow> string list \<Rightarrow> bool" where
  "split_result n before rest ptrs toks \<longleftrightarrow>
     (\<exists>suf stop qs. ssplit_loop n before rest True ptrs = (before @ suf, stop, ptrs @ qs) \<and>
        map (c_string (before @ suf)) qs = toks \<and>
        (length toks < n - length ptrs \<longrightarrow> c_string (before @ suf) stop = []) \<and>
        (rest = [] \<or> blank (hd rest) \<longrightarrow> suf = [] \<or> hd suf = CHR 0x00))"

lemma split_result_blanks:
  assumes "\<forall>c \<in> set ws. blank c" "CHR 0x00 \<notin> set ws" "split_result n (before @ zeroed ws) r ptrs toks"
    "r = [] \<or> \<not> blank (hd r)"
  shows "split_result n before (ws @ r) ptrs toks"
proof (cases "ws = []")
  case False
  then have h: "hd (zeroed ws @ x) = CHR 0x00" for x
    using assms(1) by (cases ws) auto
  have "ssplit_loop n before (ws @ r) True ptrs = ssplit_loop n (before @ zeroed ws) r True ptrs"
    by (rule ssplit_loop_blanks) (use assms False in auto)
  with assms(3) h show ?thesis
    unfolding split_result_def by (metis append.assoc)
qed (use assms in simp)

lemma split_result_tokens:
  assumes "CHR 0x00 \<notin> set rest" "length ptrs + m = n" "0 < m"
  shows "split_result n before rest ptrs (tokens m rest)"
  using assms
proof (induction m arbitrary: before rest ptrs)
  case (Suc m)
  obtain ws r where r: "rest = ws @ r" "r = dropWhile blank rest" "\<forall>c \<in> set ws. blank c"
      "r \<noteq> [] \<longrightarrow> \<not> blank (hd r)"
    by (rule blanks_word_split)
  have "split_result n (before @ zeroed ws) r ptrs (tokens (Suc m) rest)"
  proof (cases r)
    case Nil
    with r(2) show ?thesis
      by (auto simp: split_result_def c_string_def)
  next
    case (Cons c cs)
    with r(4) have c: "\<not> blank c" by simp
    then have "c \<noteq> CHR 0x00" by auto
    note c = c this
    show ?thesis
    proof (cases "m = 0")
      case True
      have "takeWhile (\<lambda>c. c \<noteq> CHR 0x00) (c # cs) = c # cs"
        by (rule takeWhile_no_nul) (use Suc.prems(1) r(1) Cons in auto)
      moreover have "tokens (Suc m) rest = [c # cs]"
        using True Cons r(2) by simp
      moreover have "ssplit_loop n (before @ zeroed ws) r True ptrs =
          ((before @ zeroed ws) @ c # cs, length (before @ zeroed ws), ptrs @ [length (before @ zeroed ws)])"
        using True Cons c Suc.prems(2) by simp
      ultimately show ?thesis
        unfolding split_result_def using c Cons True Suc.prems(2)
        by (intro exI [of _ "c # cs"] exI [of _ "length (before @ zeroed ws)"]
            exI [of _ "[length (before @ zeroed ws)]"]) (simp add: c_string_def)
    next
      case False
      let ?w = "takeWhile (\<lambda>c. \<not> blank c) cs" and ?t = "dropWhile (\<lambda>c. \<not> blank c) cs"
      let ?b = "before @ zeroed ws @ c # ?w" and ?p = "ptrs @ [length (before @ zeroed ws)]"
      have t: "?t = [] \<or> blank (hd ?t)" using hd_dropWhile by blast
      have w: "\<forall>c \<in> set ?w. \<not> blank c" by (auto dest: set_takeWhileD)
      have "ssplit_loop n (before @ zeroed ws) r True ptrs =
          ssplit_loop n (before @ zeroed ws @ [c]) (?w @ ?t) False ?p"
        using Cons c False Suc.prems(2) by simp
      also have "\<dots> = ssplit_loop n ?b ?t True ?p"
        unfolding ssplit_loop_word [OF w] ssplit_loop_sep [OF t, of _ _ False] by simp
      finally have loop: "ssplit_loop n (before @ zeroed ws) r True ptrs = ssplit_loop n ?b ?t True ?p" .
      have "split_result n ?b ?t ?p (tokens m ?t)"
      proof (rule Suc.IH)
        show "CHR 0x00 \<notin> set ?t"
          using Suc.prems(1) r(1) Cons by (auto dest: set_dropWhileD)
      qed (use Suc.prems False in auto)
      then obtain suf stop qs where s: "ssplit_loop n ?b ?t True ?p = (?b @ suf, stop, ?p @ qs)"
          "map (c_string (?b @ suf)) qs = tokens m ?t"
          "length (tokens m ?t) < n - length ?p \<longrightarrow> c_string (?b @ suf) stop = []"
          "suf = [] \<or> hd suf = CHR 0x00"
        using t unfolding split_result_def by blast
      have word: "takeWhile (\<lambda>c. c \<noteq> CHR 0x00) (c # ?w @ suf) = c # ?w"
        using s(4) c w by (cases suf) (auto simp: takeWhile_append takeWhile_eq_all_conv)
      have tok: "tokens (Suc m) rest = (c # ?w) # tokens m ?t"
        using r(2) [symmetric] Cons c False by simp
      let ?B = "before @ zeroed ws" and ?q = "length (before @ zeroed ws)"
      have 1: "ssplit_loop n ?B r True ptrs = (?B @ (c # ?w @ suf), stop, ptrs @ ?q # qs)"
        using loop s(1) by simp
      have 2: "map (c_string (?B @ (c # ?w @ suf))) (?q # qs) = tokens (Suc m) rest"
        using s(2) word unfolding tok by (simp add: c_string_def)
      have 3: "length (tokens (Suc m) rest) < n - length ptrs \<longrightarrow> c_string (?B @ (c # ?w @ suf)) stop = []"
        using s(3) unfolding tok by simp
      have 4: "\<not> (r = [] \<or> blank (hd r))" using Cons c by simp
      from 1 2 3 4 show ?thesis unfolding split_result_def by blast
    qed
  qed
  moreover have "CHR 0x00 \<notin> set ws" using Suc.prems(1) r(1) by (metis Un_iff set_append)
  ultimately have "split_result n before (ws @ r) ptrs (tokens (Suc m) rest)"
    using r(3,4) by (intro split_result_blanks) blast+
  then show ?case using r(1) by simp
qed simp

lemma ssplitstr_eq_tokens:
  assumes "CHR 0x00 \<notin> set str" and "0 < n"
  shows "ssplitstr n str =
    (length (tokens n str), tokens n str @ replicate (n - length (tokens n str)) [])"
proof -
  have "split_result n [] str [] (tokens n str)"
    by (rule split_result_tokens) (use assms in auto)
  then obtain suf stop qs where "ssplit_loop n [] str True [] = (suf, stop, qs)"
      "map (c_string suf) qs = tokens n str" "length (tokens n str) < n \<longrightarrow> c_string suf stop = []"
    by (auto simp: split_result_def)
  then show ?thesis
    by (auto simp: ssplitstr_def map_replicate_const simp flip: length_map [of "c_string suf" qs])
qed

text \<open>C33. \<open>ssplitstr\<close> on a string without embedded zeros returns the number of its tokens, at most \<open>n\<close>;
  the pointers designate the tokens in order, the last of \<open>n\<close> tokens together with the rest of
  the line, and the pointers that are left over designate the empty string.
\<close>

theorem ssplitstr_tokens:
  assumes "CHR 0x00 \<notin> set str" and "0 < n"
  shows "ssplitstr n str =
    (length (tokens n str), tokens n str @ replicate (n - length (tokens n str)) [])"
  by (rule ssplitstr_eq_tokens) (use assms in auto)

theorem ssplitstr_tokens_witness:
  "ssplitstr 4 ''SET 1 GL  3 1 5'' = (4, [''SET'', ''1'', ''GL'', ''3 1 5'']) \<and>
   ssplitstr 4 ''GET 0'' = (2, [''GET'', ''0'', [], []])"
  using ssplitstr_tokens [of "''SET 1 GL  3 1 5''" 4] ssplitstr_tokens [of "''GET 0''" 4]
  by (simp add: blank_def numeral_eq_Suc)

lemma readline_rest_line:
  assumes "CHR 0x0A \<notin> set l" "length line \<le> len - 1"
  shows "readline_rest len line (map Byte (l @ [CHR 0x0A]) @ evs) =
     (take (len - 1) (line @ filter isvalidchar (l @ [CHR 0x0A])), evs)"
  using assms
proof (induction l arbitrary: line)
  case Nil
  then show ?case by (auto simp: Let_def isvalidchar_def)
next
  case (Cons c l)
  then have c: "c \<noteq> CHR 0x0A" "CHR 0x0A \<notin> set l" by auto
  show ?case
  proof (cases "isvalidchar c \<and> length line < len - 1")
    case True
    with c Cons.IH [of "line @ [c]"] show ?thesis by simp
  next
    case False
    with c Cons.IH [of line] Cons.prems(2) show ?thesis by (cases "isvalidchar c") auto
  qed
qed

text \<open>\<open>socket_readline\<close> returns one line: of the bytes up to the next newline after the first
  byte it stores the printable ones, blanks and the newline, cut to one byte less than the given
  length, and leaves the bytes that follow for the next call. In particular a newline as first
  byte does not end the line.
\<close>

theorem socket_readline_line:
  assumes "CHR 0x0A \<notin> set l" and "2 \<le> len"
  shows "socket_readline len (map Byte (c # l @ [CHR 0x0A]) @ evs) =
    (let line = take (len - 1) (filter isvalidchar (c # l @ [CHR 0x0A])) in (int (length line), line, evs))"
proof -
  obtain k where k: "len = Suc (Suc k)"
    using assms(2) by (metis add_2_eq_Suc nat_le_iff_add)
  have "readline_rest len (if isvalidchar c then [c] else []) (map Byte (l @ [CHR 0x0A]) @ evs) =
      (take (len - 1) (filter isvalidchar (c # l @ [CHR 0x0A])), evs)"
    by (subst readline_rest_line) (use assms(1) k in simp_all)
  then show ?thesis by (simp add: Let_def del: map_append filter_append)
qed

theorem socket_readline_line_witness:
  "socket_readline 1000 (map Byte (CHR 0x0A # ''GO'' @ [CHR 0x0A]) @ [Byte (CHR ''x'')]) =
    (4, CHR 0x0A # ''GO'' @ [CHR 0x0A], [Byte (CHR ''x'')])"
  using socket_readline_line [of "''GO''" 1000 "CHR 0x0A" "[Byte (CHR ''x'')]"]
  by (simp add: Let_def isvalidchar_def)

lemma readline_rest_bound:
  "readline_rest len line evs = (line', evs') \<Longrightarrow> length line \<le> k \<Longrightarrow> len - 1 \<le> k \<Longrightarrow>
     length line' \<le> k \<and> length evs' \<le> length evs"
proof (induction len line evs rule: readline_rest.induct)
  case (1 len line c evs)
  show ?case
  proof (cases "c = CHR 0x0A")
    case False
    with 1 show ?thesis by (simp add: Let_def le_SucI split: if_splits)
  qed (use 1 in \<open>auto simp: Let_def split: if_splits\<close>)
qed auto

lemma readline_rest_valid:
  "readline_rest len line evs = (line', evs') \<Longrightarrow> \<forall>c \<in> set line. isvalidchar c \<Longrightarrow>
     \<forall>c \<in> set line'. isvalidchar c"
proof (induction len line evs rule: readline_rest.induct)
  case (1 len line c evs)
  let ?l = "if isvalidchar c \<and> length line < len - 1 then line @ [c] else line"
  have l: "\<forall>c \<in> set ?l. isvalidchar c" using "1.prems"(2) by simp
  show ?case
  proof (cases "c = CHR 0x0A")
    case False
    with "1.prems" have "readline_rest len ?l evs = (line', evs')" by (simp add: Let_def)
    with "1.IH" [OF refl False] l show ?thesis by blast
  next
    case True
    with "1.prems"(1) have eq: "line' = ?l" by (auto simp: Let_def)
    show ?thesis unfolding eq by (rule l)
  qed
qed auto



lemma writen_cases:
  "writen buf ws = Some (r, sent) \<Longrightarrow>
     (r = int (length buf) \<and> sent = buf) \<or> (r = -1 \<and> (\<exists>rest. rest \<noteq> [] \<and> buf = sent @ rest))"
proof (induction buf ws arbitrary: r sent rule: writen.induct)
  case (5 c cs k ws)
  show ?case
  proof (cases "k = 0")
    case False
    with "5.prems" obtain r' sent' where w: "writen (drop k (c # cs)) ws = Some (r', sent')"
        "r = (if r' < 0 then r' else int (length (c # cs)))" "sent = take k (c # cs) @ sent'"
      by (auto split: option.splits)
    from "5.IH" [OF False w(1)] show ?thesis
    proof (elim disjE conjE exE)
      assume "r' = int (length (drop k (c # cs)))" "sent' = drop k (c # cs)"
      with w show ?thesis by (metis append_take_drop_id of_nat_less_0_iff)
    next
      fix rest assume "r' = -1" "rest \<noteq> []" "drop k (c # cs) = sent' @ rest"
      with w show ?thesis by (metis append.assoc append_take_drop_id neg_less_0_iff_less zero_less_one)
    qed
  qed (use 5 in auto)
qed auto

lemma writen_sends:
  assumes "\<forall>w \<in> set ws. w = WrIntr \<or> (\<exists>k. w = Wrote (Suc k))"
    and "length buf \<le> length (filter (\<lambda>w. w \<noteq> WrIntr) ws)"
  shows "writen buf ws = Some (int (length buf), buf)"
  using assms
proof (induction buf ws rule: writen.induct)
  case (5 c cs k ws)
  then obtain k' where k: "k = Suc k'" by auto
  with 5 have "writen (drop k (c # cs)) ws = Some (int (length (drop k (c # cs))), drop k (c # cs))"
    by simp
  with k show ?case by simp
qed auto

text \<open>\<open>writen\<close> reports success only when the whole buffer was sent, and failure only when a proper
  prefix was; when \<open>write\<close> never fails it returns as soon as it made progress once per byte.
\<close>

theorem writen_all_or_error:
  "(\<forall>r sent. writen buf ws = Some (r, sent) \<longrightarrow>
      (r = int (length buf) \<and> sent = buf) \<or> (r = -1 \<and> (\<exists>rest. rest \<noteq> [] \<and> buf = sent @ rest))) \<and>
   ((\<forall>w \<in> set ws. w = WrIntr \<or> (\<exists>k. w = Wrote (Suc k))) \<and>
      length buf \<le> length (filter (\<lambda>w. w \<noteq> WrIntr) ws) \<longrightarrow>
      writen buf ws = Some (int (length buf), buf))"
  using writen_cases writen_sends by blast

theorem writen_all_or_error_witness:
  "writen ''ok'' [WrIntr, Wrote (Suc 0), Wrote (Suc 0)] = Some (2, ''ok'')"
  using writen_all_or_error [of "''ok''" "[WrIntr, Wrote (Suc 0), Wrote (Suc 0)]"] by simp

section \<open>Numbers in commands\<close>

lemma isspace_not_dec: "is_dec c \<Longrightarrow> \<not> isspace c"
  by (auto simp: is_dec_def isspace_def)

lemma sign_not_dec: "is_dec c \<Longrightarrow> c \<noteq> CHR ''-'' \<and> c \<noteq> CHR ''+''"
  by (auto simp: is_dec_def)

lemma takeWhile_show_nat:
  "rest = [] \<or> \<not> is_dec (hd rest) \<Longrightarrow> takeWhile is_dec (show_nat n @ rest) = show_nat n"
  by (cases rest) (simp_all add: takeWhile_append show_nat_digits takeWhile_eq_all_conv)

lemma scan_number_show:
  assumes "rest = [] \<or> \<not> is_dec (hd rest)"
  shows "scan_number (show_int i @ rest) = Some (i < 0, nat \<bar>i\<bar>, rest)"
proof -
  obtain c cs where c: "show_nat (nat i) = c # cs" "is_dec c"
    using show_nat_digits [of _ "nat i"] by (cases "show_nat (nat i)") auto
  have t: "takeWhile is_dec (show_nat n @ rest) = show_nat n" for n
    by (rule takeWhile_show_nat [OF assms])
  show ?thesis
  proof (cases "i < 0")
    case True
    with t show ?thesis by (simp add: scan_number_def show_int_def isspace_def Let_def)
  next
    case False
    with c isspace_not_dec [OF c(2)] sign_not_dec [OF c(2)]
    have "dropWhile isspace (show_nat (nat i) @ rest) = show_nat (nat i) @ rest"
      "hd (show_nat (nat i) @ rest) \<noteq> CHR ''-''" "hd (show_nat (nat i) @ rest) \<noteq> CHR ''+''"
      by simp_all
    with t False show ?thesis by (simp add: scan_number_def show_int_def Let_def)
  qed
qed

lemma scan_number_blank [simp]: "scan_number (CHR '' '' # s) = scan_number s"
  by (simp add: scan_number_def isspace_def)

definition long_range :: "int \<Rightarrow> bool" where
  "long_range i \<longleftrightarrow> -9223372036854775808 \<le> i \<and> i \<le> 9223372036854775807"

lemma scan_LD_show:
  "long_range i \<Longrightarrow> rest = [] \<or> \<not> is_dec (hd rest) \<Longrightarrow> scan_one LD (show_int i @ rest) = Some (Num i, rest)"
  by (auto simp: scan_number_show to_long_def long_range_def)

definition show_params :: "int list \<Rightarrow> string" where
  "show_params is = concat (map (\<lambda>i. CHR '' '' # show_int i) is)"

text \<open>Reading with \<open>sscanf("%ld %ld ...")\<close> a parameter list that holds \<open>long\<close> values separated by
  single blanks gives exactly these values, so that the command handlers see what the client wrote.
\<close>

lemma sscanf_show_params:
  assumes "\<forall>i \<in> set is. long_range i"
  shows "sscanf (replicate (length is) LD) (show_params is) = map Num is"
  using assms
proof (induction "is")
  case (Cons i "is")
  have "show_params is = [] \<or> \<not> is_dec (hd (show_params is))"
    by (cases "is") (simp_all add: show_params_def is_dec_def)
  then have "scan_one LD (show_int i @ show_params is) = Some (Num i, show_params is)"
    using Cons.prems by (intro scan_LD_show) auto
  moreover have "show_params (i # is) = CHR '' '' # show_int i @ show_params is"
    by (simp add: show_params_def)
  moreover have "scan_one LD (CHR '' '' # t) = scan_one LD t" for t by simp
  ultimately show ?case using Cons by (simp del: scan_one.simps)
qed simp

end
