(* ===== verification/Ddl_Mfx.thy ===== *)
theory Ddl_Mfx
  imports Ddl_Signal Srcp_GL Srcp_Text
begin

unbundle bit_operations_syntax

text \<open>
  \<open>ddl_mfx.c\<close> and the feedback thread of \<open>ddl.c\<close>: packets of the mfx protocol, the search for decoders
  that are not registered, registration, and reading and writing of configuration variables.
  The static variables of \<open>ddl_mfx.c\<close> are \<open>mfx_data\<close>; \<open>drv\<close> is the state of the driver: the daemon, the
  data of the bus and the mfx variables. \<open>regfile\<close> is the content of the file that keeps the
  registration counter. Code that is compiled out with \<open>#if 0\<close> is left out.
\<close>

section \<open>State\<close>

record tMFXRead =
  rd_decuid :: int
  rd_addr :: int
  rd_cvline :: int
  rd_cvindex :: int
  rd_cvnmbr :: int
  rd_repcount :: int

record mfx_data =
  decoderUId :: int
  registrationCounter :: int
  searchstep :: int
  autosearch :: bool
  mfx_bus :: nat
  mfxread :: tMFXRead
  mfx_sm :: bool
  regfile :: "string option"
  regfile_writable :: bool

record drv =
  srv :: srcpd
  ddl :: ddl_data
  mfx :: mfx_data

definition MAX_RDS_TRIALS :: int where [code_unfold]: "MAX_RDS_TRIALS = 3"
definition MFX_FX_COUNT :: nat where [code_unfold]: "MFX_FX_COUNT = 16"
definition CV_SIZE :: int where [code_unfold]: "CV_SIZE = 1024"
definition CVINDEX_SIZE :: int where [code_unfold]: "CVINDEX_SIZE = 64"
definition CRC_LEN :: nat where [code_unfold]: "CRC_LEN = 8"

abbreviation on_ddl :: "(ddl_data \<Rightarrow> ddl_data) \<Rightarrow> drv \<Rightarrow> drv" where
  "on_ddl f v \<equiv> v\<lparr>ddl := f (ddl v)\<rparr>"

abbreviation on_mfx :: "(mfx_data \<Rightarrow> mfx_data) \<Rightarrow> drv \<Rightarrow> drv" where
  "on_mfx f v \<equiv> v\<lparr>mfx := f (mfx v)\<rparr>"

abbreviation on_srv :: "(srcpd \<Rightarrow> srcpd) \<Rightarrow> drv \<Rightarrow> drv" where
  "on_srv f v \<equiv> v\<lparr>srv := f (srv v)\<rparr>"

section \<open>Building packets\<close>

text \<open>A packet under construction: the stream and the position.\<close>

type_synonym mfx_stream = "bytes \<times> nat"

fun addBits :: "int \<Rightarrow> nat \<Rightarrow> mfx_stream \<Rightarrow> mfx_stream" where
  "addBits bs 0 sp = sp"
| "addBits bs (Suc n) (stream, pos) =
     addBits bs n
       (if bs AND 2 ^ n \<noteq> 0 then stream[1 + pos div 8 := stream ! (1 + pos div 8) OR 2 ^ (pos mod 8)] else stream, pos + 1)"

definition addAdrBits :: "int \<Rightarrow> mfx_stream \<Rightarrow> mfx_stream" where
  "addAdrBits address sp =
     (if address < 128 then addBits address 7 (addBits 0b10 2 sp)
      else if address < 512 then addBits address 9 (addBits 0b110 3 sp)
      else if address < 2048 then addBits address 11 (addBits 0b1110 4 sp)
      else addBits address 14 (addBits 0b1111 4 sp))"

fun crc_loop :: "nat \<Rightarrow> nat \<Rightarrow> bytes \<Rightarrow> int \<Rightarrow> int" where
  "crc_loop i 0 stream crc = crc"
| "crc_loop i (Suc n) stream crc =
     (let c = u16 (crc * 2 + (if stream ! (1 + i div 8) AND 2 ^ (i mod 8) \<noteq> 0 then 1 else 0))
      in crc_loop (Suc i) n stream (if c AND 0x0100 > 0 then (c AND 0x00FF) XOR 0x07 else c))"

definition addCRCBits :: "mfx_stream \<Rightarrow> mfx_stream" where
  "addCRCBits sp =
     (let crc = crc_loop 0 (snd sp + CRC_LEN) (fst sp) 0x007F; (stream, pos) = addBits crc CRC_LEN sp
      in (stream[0 := u8 (int pos)], pos))"

definition packetstream0 :: mfx_stream where
  "packetstream0 = (replicate PKTSIZE 0, 0)"

definition sendMFXPaket :: "int \<Rightarrow> bytes \<Rightarrow> pkt_type \<Rightarrow> int \<Rightarrow> ddl_data \<Rightarrow> nat \<times> ddl_data" where
  "sendMFXPaket address stream packetTyp xmits d =
     (nat ((stream ! 0 + 7) div 8 + 1), send stream packetTyp xmits d)"

definition send_LocoFx16_32 :: "int \<Rightarrow> int \<Rightarrow> bool \<Rightarrow> int \<Rightarrow> ddl_data \<Rightarrow> ddl_data" where
  "send_LocoFx16_32 address func val xmits d =
     (let (packetstream, pos) = addCRCBits (addBits (of_bool val) 1 (addBits 0 1 (addBits func 7 (addBits 0b100 3
            (addAdrBits address packetstream0)))))
      in snd (sendMFXPaket address packetstream QMFX0PKT xmits d))"

text \<open>The speed and direction that are sent.\<close>

definition mfx_speed :: "gl_data_t \<Rightarrow> int \<times> int" where
  "mfx_speed glp =
     (let (speed, direction) =
        (if gl_speedchange glp AND SCEMERG \<noteq> 0 then (1, gl_cacheddirection glp)
         else (if gl_speed glp \<noteq> 0 then gl_speed glp + 1 else gl_speed glp, gl_direction glp))
      in (if speed > 127 then 127 else speed, if direction = -1 then 0 else direction))"

definition mfx_loco_packet :: "int \<Rightarrow> int \<Rightarrow> int \<Rightarrow> int \<Rightarrow> int \<Rightarrow> bytes" where
  "mfx_loco_packet address speed direction funcs nfuncs =
     (let sp1 = addAdrBits address packetstream0;
          sp2 = (if speed AND 15 = 0 then addBits (speed div 16) 3 (addBits (NOT direction) 1 (addBits 0b000 3 sp1))
                 else addBits speed 7 (addBits (NOT direction) 1 (addBits 0b001 3 sp1)));
          sp3 = (if nfuncs \<le> 4 then addBits funcs 4 (addBits 0b010 3 sp2)
                 else if nfuncs \<le> 8 then addBits funcs 8 (addBits 0b0110 4 sp2)
                 else addBits funcs MFX_FX_COUNT (addBits 0b0111 4 sp2))
      in fst (addCRCBits sp3))"

fun send_changed_fx :: "nat list \<Rightarrow> int \<Rightarrow> int \<Rightarrow> int \<Rightarrow> ddl_data \<Rightarrow> ddl_data" where
  "send_changed_fx [] address fxChange funcs d = d"
| "send_changed_fx (i # is) address fxChange funcs d =
     send_changed_fx is address fxChange funcs
       (if fxChange AND 2 ^ i \<noteq> 0 then send_LocoFx16_32 address (int i) ((funcs div 2 ^ i) AND 1 \<noteq> 0) 2 d else d)"

definition comp_mfx_loco :: "nat \<Rightarrow> gl_data_t \<Rightarrow> ddl_data \<Rightarrow> gl_data_t \<times> ddl_data" where
  "comp_mfx_loco i glp d =
     (let address = gl_id glp; (speed, direction) = mfx_speed glp; funcs = gl_funcs glp; nfuncs = gl_n_func glp;
          sc = (if gl_speedchange glp AND SCEMERG \<noteq> 0 then gl_speedchange glp AND NOT SCEMERG else gl_speedchange glp);
          glp1 = glp\<lparr>gl_speedchange := sc AND NOT (SCSPEED OR SCDIREC)\<rparr>;
          packetstream = mfx_loco_packet address speed direction funcs nfuncs;
          (sizeStream, d1) = sendMFXPaket address packetstream QMFX0PKT 2 d;
          d2 = update_MFXPacketPool i glp1 packetstream sizeStream d1
      in if nfuncs > 16 then
           (let fxChange = gl_funcschange glp1 AND 0xFFFF0000
            in (glp1\<lparr>gl_funcschange := gl_funcschange glp1 AND NOT fxChange\<rparr>,
                send_changed_fx [16..<32] address fxChange funcs d2))
         else (glp1, d2))"

section \<open>The registration counter\<close>

definition loadRegistrationCounter :: "mfx_data \<Rightarrow> int" where
  "loadRegistrationCounter m = (case regfile m of None \<Rightarrow> 0 | Some text \<Rightarrow> u16 (atoi (take 9 text)))"

definition saveRegistrationCounter :: "int \<Rightarrow> mfx_data \<Rightarrow> mfx_data" where
  "saveRegistrationCounter regCounter m =
     (if regfile_writable m then m\<lparr>regfile := Some (show_int (u16 regCounter))\<rparr> else m)"

section \<open>Management packets\<close>

definition sendUIDandRegCounter :: "int \<Rightarrow> int \<Rightarrow> ddl_data \<Rightarrow> ddl_data" where
  "sendUIDandRegCounter u regCounter d =
     (let sp = addCRCBits (addBits regCounter 16 (addBits u 32 (addBits 0b111101 6 (addAdrBits 0 packetstream0))))
      in snd (sendMFXPaket 0 (fst sp) QMFX0PKT 1 d))"

definition sendDekoderExist :: "int \<Rightarrow> int \<Rightarrow> bool \<Rightarrow> ddl_data \<Rightarrow> ddl_data" where
  "sendDekoderExist adresse dekoderUID noverify d =
     (let sp = addCRCBits (addBits dekoderUID 32 (addBits 0b111100 6 (addAdrBits adresse packetstream0)))
      in snd (sendMFXPaket 0 (fst sp) (if noverify then QMFX0PKT else QMFX1PKTV) 1 d))"

definition search_packet :: "int \<Rightarrow> int \<Rightarrow> bytes" where
  "search_packet dekoderUID countUIDBits =
     fst (addCRCBits (addBits dekoderUID 32 (addBits countUIDBits 6 (addBits 0b111010 6 (addAdrBits 0 packetstream0)))))"

definition sendSearchNewDecoder :: "int \<Rightarrow> int \<Rightarrow> ddl_data \<Rightarrow> ddl_data" where
  "sendSearchNewDecoder dekoderUID countUIDBits d =
     snd (sendMFXPaket 0 (search_packet dekoderUID countUIDBits) QMFX1PKTD 1 d)"

definition assignSID :: "int \<Rightarrow> int \<Rightarrow> drv \<Rightarrow> drv" where
  "assignSID dekoderUID sid v =
     (let sp = addCRCBits (addBits dekoderUID 32 (addBits sid 14 (addBits 0b111011 6 (addAdrBits 0 packetstream0))));
          v1 = on_ddl (\<lambda>d. snd (sendMFXPaket 0 (fst sp) QMFX0PKT 2 d)) v
      in if searchstep (mfx v1) = 1 \<and> autosearch (mfx v1) then on_mfx (\<lambda>m. m\<lparr>searchstep := 0\<rparr>) v1 else v1)"

definition readCV :: "int \<Rightarrow> int \<Rightarrow> int \<Rightarrow> int \<Rightarrow> ddl_data \<Rightarrow> bool \<times> ddl_data" where
  "readCV adresse cv0 index0 nbytes d =
     (let cv = u16 cv0; ix = u16 index0
      in if cv \<ge> CV_SIZE \<or> ix \<ge> CVINDEX_SIZE then (False, d)
         else
           (let sp = addBits ix 6 (addBits cv 10 (addBits 0b111000 6 (addAdrBits adresse packetstream0)));
                (sp1, packetTyp) = (if nbytes = 1 then (addBits 0b00 2 sp, QMFX8PKT)
                                    else if nbytes = 2 then (addBits 0b01 2 sp, QMFX16PKT)
                                    else (addBits 0b10 2 sp, QMFX32PKT))
            in (True, snd (sendMFXPaket 0 (fst (addCRCBits sp1)) packetTyp 1 d))))"

section \<open>Search for decoders\<close>

text \<open>
  \<open>1 << (32 - bitnum)\<close> is undefined for more than 32 bits; for one bit it is the sign bit, which the
  assignment to \<open>uint32_t\<close> keeps.
\<close>

definition mfxManagement :: "drv \<Rightarrow> int \<times> drv" where
  "mfxManagement v =
     (let st = searchstep (mfx v);
          v1 = (if st < 2 \<or> st = 32 then on_ddl (sendUIDandRegCounter (station_uid (ddl v)) (registrationCounter (mfx v))) v else v);
          v2 = (if st \<noteq> 1 then
                  (let bitnum = st div 2;
                       v' = (if st AND 1 \<noteq> 0 then
                               if bitnum > 32 then on_srv raise_ub v1
                               else on_mfx (\<lambda>m. m\<lparr>decoderUId := decoderUId m OR 2 ^ nat (32 - bitnum)\<rparr>) v1
                             else if st = 0 then on_mfx (\<lambda>m. m\<lparr>decoderUId := 0\<rparr>) v1 else v1)
                   in on_ddl (sendSearchNewDecoder (decoderUId (mfx v')) bitnum) v')
                else v1)
      in (if st < 2 then 1000000 else 300000, v2))"

definition startMFXManagement :: "bus_t \<Rightarrow> bool \<Rightarrow> mfx_data \<Rightarrow> int \<times> mfx_data" where
  "startMFXManagement bus search m =
     (if mfx_bus m \<noteq> 0 then (2, m)
      else (0, m\<lparr>mfx_bus := bus, registrationCounter := loadRegistrationCounter m, autosearch := search,
                 searchstep := (if search then 0 else 1)\<rparr>))"

definition stopMFXSearch :: "mfx_data \<Rightarrow> mfx_data" where
  "stopMFXSearch m = m\<lparr>searchstep := 1\<rparr>"

definition sendDekoderTerm :: "int \<Rightarrow> ddl_data \<Rightarrow> ddl_data" where
  "sendDekoderTerm sid d = sendDekoderExist sid 0 True d"

definition mfx_info :: "string \<Rightarrow> drv \<Rightarrow> drv" where
  "mfx_info text v =
     on_srv (\<lambda>s. enqueueInfoMessage (stamp (clock s) @ '' 100 INFO '' @ show_nat (mfx_bus (mfx v)) @ '' SM '' @ text @ [CHR 0x0A]) s) v"

abbreviation mfx_mcs :: "int \<Rightarrow> int \<Rightarrow> int list \<Rightarrow> drv \<Rightarrow> drv" where
  "mfx_mcs infoid itemid info v \<equiv> on_srv (\<lambda>s. snd (info_mcs (mfx_bus (mfx v)) infoid itemid info s)) v"

definition discoveryReport :: "int \<Rightarrow> drv \<Rightarrow> bool \<times> drv" where
  "discoveryReport askval v =
     (let bitnum = u8 (searchstep (mfx v) div 2); u = decoderUId (mfx v); v1 = mfx_mcs 0x03 u [bitnum, askval] v
      in if bitnum = 32 \<and> askval \<noteq> 0 then
           (True, mfx_info (show_int u @ '' MFXDISCOVERY'') (mfx_mcs 0x03 u [bitnum] v1))
         else (False, v1))"

section \<open>Answers of decoders\<close>

definition handleMFXacknowledge :: "int \<Rightarrow> drv \<Rightarrow> drv" where
  "handleMFXacknowledge askval v =
     (let code = pktcode (fbData (ddl v)); rd = mfxread (mfx v)
      in if code = pkt_code QMFX1PKTD then
           (let (complete, v1) = discoveryReport askval v
            in on_mfx (\<lambda>m. m\<lparr>searchstep := (if complete then 1 else if searchstep m AND 1 \<noteq> 0 then searchstep m + 1 else searchstep m + 2)\<rparr>) v1)
         else if code = pkt_code QMFX1PKTV then
           mfx_info (show_int (rd_addr rd) @ '' BIND '' @ show_int (rd_decuid rd))
             (mfx_mcs 7 (rd_decuid rd) [rd_addr rd div 256, rd_addr rd AND 0xFF, askval] v)
         else v)"

definition handleMFXtimeout :: "drv \<Rightarrow> drv" where
  "handleMFXtimeout v =
     (let code = pktcode (fbData (ddl v)); rd = mfxread (mfx v); st = searchstep (mfx v)
      in if code = pkt_code QMFX1PKTD then
           (let v1 = (if st \<noteq> 0 then snd (discoveryReport 0 v) else v)
            in if st AND 1 \<noteq> 0 then on_mfx (\<lambda>m. m\<lparr>searchstep := 0\<rparr>) v1
               else if st \<noteq> 0 then on_mfx (\<lambda>m. m\<lparr>searchstep := st + 1\<rparr>) v1 else v1)
         else if code = pkt_code QMFX1PKTV then mfx_mcs 7 (rd_decuid rd) [0, 0] v
         else
           (let rd1 = rd\<lparr>rd_repcount := rd_repcount rd + 1\<rparr>; v1 = on_mfx (\<lambda>m. m\<lparr>mfxread := rd1\<rparr>) v
            in if rd_repcount rd1 < MAX_RDS_TRIALS then on_ddl (\<lambda>d. d\<lparr>resumeSM := Some PROTO_MFX\<rparr>) v1
               else mfx_mcs 0x0F (rd_addr rd OR 0x4000) [(rd_cvline rd div 256) OR (rd_cvindex rd * 4), rd_cvline rd AND 0xFF] v1))"

definition sendMFXreadCVresult :: "(nat \<Rightarrow> int) \<Rightarrow> drv \<Rightarrow> drv" where
  "sendMFXreadCVresult bs v =
     (let rd = mfxread (mfx v); n = fbbytnum (fbData (ddl v));
          v1 = fold (\<lambda>i. mfx_mcs 0x0F (rd_addr rd OR 0x4000)
                 [(rd_cvline rd div 256) OR ((rd_cvindex rd + int i) * 4), rd_cvline rd AND 0xFF, bs i]) [0..<n] v;
          v2 = mfx_info (show_int (rd_addr rd) @ '' CVMFX '' @ show_int (rd_cvline rd) @ '' '' @ show_int (rd_cvindex rd)
                 @ concat (map (\<lambda>i. '' '' @ show_int (bs i)) [0..<n])) v1;
          rd1 = rd\<lparr>rd_cvnmbr := rd_cvnmbr rd - 4\<rparr>
      in if rd_cvnmbr rd1 > 0 then
           on_ddl (\<lambda>d. d\<lparr>resumeSM := Some PROTO_MFX\<rparr>)
             (on_mfx (\<lambda>m. m\<lparr>mfxread := rd1\<lparr>rd_cvindex := rd_cvindex rd + 4, rd_repcount := 0\<rparr>\<rparr>) v2)
         else on_mfx (\<lambda>m. m\<lparr>mfxread := rd1\<rparr>) v2)"

definition resumeMfxGetCV :: "drv \<Rightarrow> drv" where
  "resumeMfxGetCV v =
     (let rd = mfxread (mfx v) in on_ddl (\<lambda>d. snd (readCV (rd_addr rd) (rd_cvline rd) (rd_cvindex rd) (rd_cvnmbr rd) d)) v)"

section \<open>Service mode\<close>

definition setMfxSM :: "bool \<Rightarrow> mfx_data \<Rightarrow> mfx_data" where
  "setMfxSM smOn m = m\<lparr>mfx_sm := smOn\<rparr>"

definition mfx_power :: "drv \<Rightarrow> bool" where
  "mfx_power v \<longleftrightarrow> power_state (buses (srv v) (mfx_bus (mfx v))) \<noteq> 0"

definition smMfxSetCV :: "int \<Rightarrow> int \<Rightarrow> int \<Rightarrow> int \<Rightarrow> drv \<Rightarrow> int \<times> drv" where
  "smMfxSetCV address cv ix val v =
     (if cv \<ge> CV_SIZE \<or> ix \<ge> CVINDEX_SIZE then (-1, v)
      else if \<not> mfx_power v then (-2, v)
      else
        (let sp = addCRCBits (addBits val 8 (addBits 0b00 2 (addBits ix 6 (addBits cv 10 (addBits 0b111001 6
               (addAdrBits address packetstream0))))))
         in (0, on_ddl (\<lambda>d. snd (sendMFXPaket address (fst sp) QMFX0PKT 2 d)) v)))"

definition smMfxGetCV :: "int \<Rightarrow> int \<Rightarrow> int \<Rightarrow> int \<Rightarrow> drv \<Rightarrow> int \<times> drv" where
  "smMfxGetCV address cv ix nmbr v =
     (if \<not> mfx_power v then (-2, v)
      else
        (let v1 = on_mfx (\<lambda>m. m\<lparr>mfxread := (mfxread m)\<lparr>rd_addr := address, rd_cvline := cv, rd_cvindex := ix,
               rd_cvnmbr := nmbr, rd_repcount := 0\<rparr>\<rparr>) v;
             (ok, d1) = readCV address cv ix nmbr (ddl v1)
         in (if ok then 0 else -1, v1\<lparr>ddl := d1\<rparr>)))"

definition set_decuid :: "int \<Rightarrow> int \<Rightarrow> drv \<Rightarrow> drv" where
  "set_decuid address u v =
     (case get_gldata_ptr (mfx_bus (mfx v)) (nat (address OR 0x4000)) (srv v) of
        (None, s) \<Rightarrow> v\<lparr>srv := s\<rparr>
      | (Some i, s) \<Rightarrow> v\<lparr>srv := upd_glstate (mfx_bus (mfx v)) i (\<lambda>p. p\<lparr>gl_decuid := u\<rparr>) s\<rparr>)"

definition smMfxSetBind :: "int \<Rightarrow> int \<Rightarrow> drv \<Rightarrow> int \<times> drv" where
  "smMfxSetBind address u v =
     (if address = 0 then
        (let m1 = (if registrationCounter (mfx v) \<noteq> u then saveRegistrationCounter u (mfx v) else mfx v)
         in (u16 u, v\<lparr>mfx := m1\<lparr>registrationCounter := u16 u\<rparr>\<rparr>))
      else if \<not> mfx_power v then (-2, v)
      else (0, set_decuid address u (assignSID u address v)))"

definition smMfxVerBind :: "int \<Rightarrow> int \<Rightarrow> drv \<Rightarrow> int \<times> drv" where
  "smMfxVerBind address u v =
     (if address = 0 then (registrationCounter (mfx v), v)
      else if \<not> mfx_power v then (-2, v)
      else
        (let v1 = on_mfx (\<lambda>m. m\<lparr>mfxread := (mfxread m)\<lparr>rd_decuid := u, rd_addr := address\<rparr>\<rparr>) v
         in (0, set_decuid address u (on_ddl (sendDekoderExist address u False) v1))))"

section \<open>The feedback thread\<close>

text \<open>
  One pass of the loop of \<open>thr_feedbackThread\<close>. \<open>feedback\<close> holds what was written to the pipe; \<open>env\<close> is what
  the other threads do while \<open>select\<close> waits for the answer. The pass blocks in \<open>read\<close> on an empty pipe.
\<close>

datatype fb_result = Blocked drv | Ended drv | Continues drv

abbreviation on_fb :: "(tFbData \<Rightarrow> tFbData) \<Rightarrow> drv \<Rightarrow> drv" where
  "on_fb f v \<equiv> on_ddl (\<lambda>d. d\<lparr>fbData := f (fbData d)\<rparr>) v"

definition fb_seek :: "int \<Rightarrow> int \<Rightarrow> drv \<Rightarrow> drv" where
  "fb_seek scmd sdat v = (if BOOSTER_COMM (ddl v) then on_srv (send_seek_cmd scmd sdat) v else v)"

definition feedback_command :: "int \<Rightarrow> drv \<Rightarrow> int \<times> drv" where
  "feedback_command event v =
     (let n = (if event = pkt_code QMFX8PKT then 1 else if event = pkt_code QMFX16PKT then 2 else if event = pkt_code QMFX32PKT then 4 else 0 :: nat);
          usec = (if event = pkt_code QMFX1PKTD \<or> event = pkt_code QMFX1PKTV \<or> event = pkt_code QMFX8PKT then 200000
                  else if event = pkt_code QMFX16PKT then 208000 else if event = pkt_code QMFX32PKT then 220000 else 0);
          v1 = on_fb (\<lambda>f. f\<lparr>fbbytnum := n, pktcode := event\<rparr>) (on_ddl (\<lambda>d. d\<lparr>allowSM := False\<rparr>) v);
          v2 = (if event = pkt_code QMFX1PKTD \<or> event = pkt_code QMFX1PKTV then fb_seek 1 0 v1 else v1);
          v3 = on_fb (\<lambda>f. f\<lparr>fbcollect := 0\<rparr>) v2
      in (usec, if n \<noteq> 0 then fb_seek 2 (int n) v3 else v3))"

definition feedback_answer :: "drv \<Rightarrow> drv" where
  "feedback_answer v =
     (case feedback (ddl v) of
        [] \<Rightarrow> (let v1 = fb_seek 0 0 v in if pktcode (fbData (ddl v1)) > pkt_code QMFX0PKT then handleMFXtimeout v1 else v1)
      | event # r \<Rightarrow>
          (let v1 = fb_seek 0 0 (on_ddl (\<lambda>d. d\<lparr>feedback := r\<rparr>) v); f = fbData (ddl v1)
           in if event = 0x42 then sendMFXreadCVresult (serfbdata f) v1
              else if event = 0x43 then handleMFXacknowledge (serask f) v1
              else if event = 0x82 then sendMFXreadCVresult (canfbdata f) v1
              else if event = 0x83 then handleMFXacknowledge (canask f) v1
              else v1))"

definition feedback_pass :: "(drv \<Rightarrow> drv) \<Rightarrow> drv \<Rightarrow> fb_result" where
  "feedback_pass env v =
     (let v1 = (if resumeSM (ddl v) = None then on_ddl (\<lambda>d. d\<lparr>allowSM := True\<rparr>) v else v)
      in case feedback (ddl v1) of
           [] \<Rightarrow> Blocked v1
         | event # r \<Rightarrow>
             (let (usec, v2) = feedback_command event (on_ddl (\<lambda>d. d\<lparr>feedback := r\<rparr>) v1)
              in if event = 0 then Ended (on_fb (\<lambda>f. f\<lparr>fbbytnum := 0, pktcode := 0\<rparr>) (on_ddl (\<lambda>d. d\<lparr>feedback := r, allowSM := False\<rparr>) v1))
                 else Continues (if usec = 0 then v2 else feedback_answer (env v2))))"

text \<open>An answer that a booster sends over CAN.\<close>

definition handle_seek :: "int list \<Rightarrow> int \<Rightarrow> ddl_data \<Rightarrow> ddl_data" where
  "handle_seek bs u d =
     (let f = fbData d
      in if \<not> BOOSTER_COMM d then d
         else if bs ! 0 = 0x82 then
           if bs ! 1 < 6 then
             (let f1 = f\<lparr>canfbdata := (canfbdata f)(nat (bs ! 1) := bs ! 2), fbcollect := fbcollect f OR 2 ^ nat (bs ! 1)\<rparr>
              in if fbcollect f1 = 2 * 2 ^ fbbytnum f1 - 1 \<and> checkMfxCRC (map (canfbdata f1) [0..<6]) (fbbytnum f1)
                 then d\<lparr>fbData := f1\<lparr>fb_uid := u\<rparr>, feedback := feedback d @ [0x82]\<rparr>
                 else d\<lparr>fbData := f1\<rparr>)
           else d
         else if bs ! 0 = 0x83 then d\<lparr>fbData := f\<lparr>canask := bs ! 1, fb_uid := u\<rparr>, feedback := feedback d @ [0x83]\<rparr>
         else d)"

section \<open>A packet as a list of bits\<close>

definition msb :: "nat \<Rightarrow> int \<Rightarrow> bool list" where
  "msb n v = map (bit v) (rev [0..<n])"

lemma msb_simps [simp]: "msb 0 v = []" "msb (Suc n) v = bit v n # msb n v" "length (msb n v) = n"
  by (simp_all add: msb_def)

definition num :: "bool list \<Rightarrow> int" where
  "num bs = horner_sum of_bool 2 (rev bs)"

lemma num_msb [simp]: "num (msb n v) = take_bit n v"
  by (simp add: num_def msb_def rev_map horner_sum_bit_eq_take_bit)

definition stream_bit :: "bytes \<Rightarrow> nat \<Rightarrow> bool" where
  "stream_bit stream i = bit (stream ! (1 + i div 8)) (i mod 8)"

text \<open>The stream holds the bits \<open>bs\<close>, and zeros behind them.\<close>

definition holds :: "mfx_stream \<Rightarrow> bool list \<Rightarrow> bool" where
  "holds sp bs \<longleftrightarrow> length (fst sp) = PKTSIZE \<and> snd sp = length bs \<and>
     (\<forall>i < 632. stream_bit (fst sp) i \<longleftrightarrow> i < length bs \<and> bs ! i)"

lemma holds_start: "holds packetstream0 []"
  by (auto simp: holds_def packetstream0_def PKTSIZE_def stream_bit_def)

lemma stream_bit_set:
  assumes "length stream = PKTSIZE" "pos < 632" "i < 632"
  shows "stream_bit (stream[1 + pos div 8 := stream ! (1 + pos div 8) OR 2 ^ (pos mod 8)]) i \<longleftrightarrow> stream_bit stream i \<or> i = pos"
proof -
  have l: "1 + pos div 8 < length stream" "1 + i div 8 < length stream" using assms by (auto simp: PKTSIZE_def)
  have "i = pos \<longleftrightarrow> i div 8 = pos div 8 \<and> i mod 8 = pos mod 8" by (metis div_mult_mod_eq)
  then show ?thesis using l
    by (cases "i div 8 = pos div 8") (auto simp: stream_bit_def nth_list_update bit_or_iff bit_exp_iff)
qed

lemma addBits_holds:
  "holds sp bs \<Longrightarrow> length bs + n \<le> 632 \<Longrightarrow> holds (addBits v n sp) (bs @ msb n v)"
proof (induction n arbitrary: sp bs)
  case (Suc n)
  obtain stream pos where sp: "sp = (stream, pos)" by force
  let ?s = "if v AND 2 ^ n \<noteq> 0 then stream[1 + pos div 8 := stream ! (1 + pos div 8) OR 2 ^ (pos mod 8)] else stream"
  have h: "length stream = PKTSIZE" "pos = length bs" "\<And>i. i < 632 \<Longrightarrow> stream_bit stream i \<longleftrightarrow> i < length bs \<and> bs ! i"
    using Suc.prems(1) by (auto simp: holds_def sp)
  have "stream_bit ?s i \<longleftrightarrow> i < length (bs @ [bit v n]) \<and> (bs @ [bit v n]) ! i" if "i < 632" for i
    using h(3) [OF that] stream_bit_set [OF h(1) _ that, of pos] Suc.prems(2) h(2) by (auto simp: and_pow_bit nth_append less_Suc_eq)
  then have "holds (?s, pos + 1) (bs @ [bit v n])"
    using h(1,2) by (auto simp: holds_def)
  from Suc.IH [OF this] show ?case using Suc.prems(2) by (simp add: sp)
qed simp

definition adr_bits :: "int \<Rightarrow> bool list" where
  "adr_bits address =
     (if address < 128 then msb 2 0b10 @ msb 7 address
      else if address < 512 then msb 3 0b110 @ msb 9 address
      else if address < 2048 then msb 4 0b1110 @ msb 11 address
      else msb 4 0b1111 @ msb 14 address)"

lemma length_adr_bits: "length (adr_bits address) \<le> 18"
  by (simp add: adr_bits_def)

lemma addAdrBits_holds: "holds (addAdrBits address packetstream0) (adr_bits address)"
proof -
  have two: "holds (addBits v n (addBits w m packetstream0)) (msb m w @ msb n v)" if "m + n \<le> 632" for v n w m
    using addBits_holds [OF addBits_holds [OF holds_start, of m w], of n v] that by simp
  show ?thesis unfolding addAdrBits_def adr_bits_def by (simp only: two split: if_split) simp
qed

section \<open>The checksum of a packet\<close>

lemma crc_loop_bits:
  "0 \<le> c \<Longrightarrow> c < 256 \<Longrightarrow> crc_loop i n stream c = crc_bits (map (stream_bit stream) [i..<i + n]) c"
proof (induction n arbitrary: i c)
  case (Suc n)
  let ?b = "stream_bit stream i"
  have b: "(if stream ! (1 + i div 8) AND 2 ^ (i mod 8) \<noteq> 0 then 1 else 0) = (of_bool ?b :: int)"
    by (simp add: stream_bit_def and_pow_bit)
  have u: "u16 (c * 2 + of_bool ?b) = 2 * c + of_bool ?b" using Suc.prems by (auto simp: u16_def)
  have "(2 * c + of_bool ?b) AND 0x0100 > 0 \<longleftrightarrow> (2 * c + of_bool ?b) AND 0x0100 \<noteq> 0"
    using and_nonnegative_int_iff [of "2 * c + of_bool ?b" "0x0100"] by (simp only: less_le) simp
  then have "crc_loop i (Suc n) stream c = crc_loop (Suc i) n stream (crc_step c ?b)"
    by (simp only: crc_loop.simps b u Let_def crc_step_def)
  also have "\<dots> = crc_bits (map (stream_bit stream) [Suc i..<Suc i + n]) (crc_step c ?b)"
    using crc_step_range [OF Suc.prems] by (intro Suc.IH) auto
  moreover have "[i..<i + Suc n] = i # [Suc i..<Suc i + n]" by (simp add: upt_conv_Cons del: upt_Suc)
  ultimately show ?case by (simp only: crc_bits_def list.map foldl.simps)
qed (simp add: crc_bits_def)

lemma crc_bits_range: "0 \<le> c \<Longrightarrow> c < 256 \<Longrightarrow> 0 \<le> crc_bits bs c \<and> crc_bits bs c < 256"
  by (induction bs arbitrary: c) (simp_all add: crc_bits_def crc_step_range)

lemma byte_bits_msb: "byte_bits v = msb 8 v"
proof -
  have "rev [0..<8] = [7, 6, 5, 4, 3, 2, 1, 0 :: nat]" by (simp add: upt_rec)
  then show ?thesis by (simp add: byte_bits_odd msb_def bit_iff_odd)
qed

definition mfx_crc :: "bool list \<Rightarrow> int" where
  "mfx_crc bs = crc_bits (bs @ replicate 8 False) 0x7F"

text \<open>A packet with its checksum leaves the remainder zero.\<close>

lemma crc_appended: "crc_bits (bs @ msb 8 (mfx_crc bs)) 0x7F = 0"
proof -
  let ?c = "crc_bits bs 0x7F"
  have r: "0 \<le> ?c \<and> ?c < 256" "0 \<le> mfx_crc bs \<and> mfx_crc bs < 256" unfolding mfx_crc_def by (intro crc_bits_range; simp)+
  have app: "crc_bits (xs @ ys) c = crc_bits ys (crc_bits xs c)" for xs ys c by (simp add: crc_bits_def)
  have "crc_bits (msb 8 (mfx_crc bs)) ?c = crc_bits (replicate 8 False) ?c XOR crc_bits (msb 8 (mfx_crc bs)) 0"
    using crc_bits_linear [of ?c 0 "msb 8 (mfx_crc bs)"] r by simp
  also have "crc_bits (replicate 8 False) ?c = mfx_crc bs" by (simp add: mfx_crc_def app)
  also have "crc_bits (msb 8 (mfx_crc bs)) 0 = mfx_crc bs" using crc_bits_byte [of "mfx_crc bs"] r by (simp add: byte_bits_msb)
  finally show ?thesis by (simp add: app)
qed

lemma packet_bits_holds:
  assumes "holds sp bs" "length bs \<le> 247"
  shows "packet_bits (fst (addCRCBits sp)) = bs @ msb 8 (mfx_crc bs)"
proof -
  obtain stream pos where sp: "sp = (stream, pos)" by force
  have h: "length stream = PKTSIZE" "pos = length bs" "\<And>i. i < 632 \<Longrightarrow> stream_bit stream i \<longleftrightarrow> i < length bs \<and> bs ! i"
    using assms(1) by (auto simp: holds_def sp)
  have "map (stream_bit stream) [0..<0 + (pos + 8)] = bs @ replicate 8 False"
    using h(2,3) assms(2) by (intro nth_equalityI) (auto simp: nth_append)
  then have crc: "crc_loop 0 (snd sp + CRC_LEN) (fst sp) 0x007F = mfx_crc bs"
    using crc_loop_bits [of "0x7F" 0 "pos + 8" stream] by (simp add: sp CRC_LEN_def mfx_crc_def)
  obtain st ps where st: "addBits (mfx_crc bs) 8 sp = (st, ps)" by force
  have "holds (st, ps) (bs @ msb 8 (mfx_crc bs))"
    using addBits_holds [OF assms(1), of 8 "mfx_crc bs"] assms(2) st by simp
  then have k: "length st = PKTSIZE" "ps = length bs + 8"
    "\<And>i. i < 632 \<Longrightarrow> stream_bit st i \<longleftrightarrow> i < length bs + 8 \<and> (bs @ msb 8 (mfx_crc bs)) ! i"
    by (auto simp: holds_def)
  have p: "fst (addCRCBits sp) = st[0 := int ps]"
    using k(2) assms(2) by (simp add: addCRCBits_def Let_def crc, simp add: CRC_LEN_def st u8_def)
  have "packet_bits (st[0 := int ps]) = map (stream_bit st) [0..<ps]"
    using k(1) by (simp add: packet_bits_def PKTSIZE_def stream_bit_def and_pow_bit)
  also have "\<dots> = bs @ msb 8 (mfx_crc bs)"
    using k(2,3) assms(2) by (intro nth_equalityI) auto
  finally show ?thesis by (simp only: p)
qed

section \<open>What a decoder understands\<close>

text \<open>The bits of a packet on the track, without the stuffing, and with a correct checksum only.\<close>

definition mfx_received :: "bytes \<Rightarrow> bool list option" where
  "mfx_received bs =
     (let ws = unstuff (butlast (butlast (mfx_read 0 (drop 18 bs)))) 0
      in if 8 \<le> length ws \<and> crc_bits ws 0x7F = 0 then Some (take (length ws - 8) ws) else None)"

fun mfx_address :: "bool list \<Rightarrow> int \<times> bool list" where
  "mfx_address (True # False # r) = (num (take 7 r), drop 7 r)"
| "mfx_address (True # True # False # r) = (num (take 9 r), drop 9 r)"
| "mfx_address (True # True # True # False # r) = (num (take 11 r), drop 11 r)"
| "mfx_address (True # True # True # True # r) = (num (take 14 r), drop 14 r)"
| "mfx_address r = (-1, r)"

fun mfx_drive :: "bool list \<Rightarrow> (bool \<times> int) option \<times> bool list" where
  "mfx_drive (False # False # False # back # r) = (Some (\<not> back, 16 * num (take 3 r)), drop 3 r)"
| "mfx_drive (False # False # True # back # r) = (Some (\<not> back, num (take 7 r)), drop 7 r)"
| "mfx_drive r = (None, r)"

definition fx_list :: "nat \<Rightarrow> int \<Rightarrow> (nat \<times> bool) list" where
  "fx_list n v = map (\<lambda>k. (k, bit v k)) [0..<n]"

fun mfx_functions :: "bool list \<Rightarrow> (nat \<times> bool) list" where
  "mfx_functions (False # True # False # r) = fx_list 4 (num (take 4 r))"
| "mfx_functions (False # True # True # False # r) = fx_list 8 (num (take 8 r))"
| "mfx_functions (False # True # True # True # r) = fx_list 16 (num (take 16 r))"
| "mfx_functions (True # False # False # r) = [(nat (num (take 7 r)), r ! 8)]"
| "mfx_functions r = []"

definition mfx_command :: "bytes \<Rightarrow> (int \<times> (bool \<times> int) option \<times> (nat \<times> bool) list) option" where
  "mfx_command bs =
     (case mfx_received bs of
        None \<Rightarrow> None
      | Some ws \<Rightarrow> (let (adr, r) = mfx_address ws; (drive, r1) = mfx_drive r in Some (adr, drive, mfx_functions r1)))"

lemma msb_consts:
  "msb 2 0b10 = [True, False]" "msb 3 0b110 = [True, True, False]" "msb 4 0b1110 = [True, True, True, False]"
  "msb 4 0b1111 = [True, True, True, True]" "msb 3 0b000 = [False, False, False]" "msb 3 0b001 = [False, False, True]"
  "msb 3 0b010 = [False, True, False]" "msb 4 0b0110 = [False, True, True, False]" "msb 4 0b0111 = [False, True, True, True]"
  "msb 3 0b100 = [True, False, False]" "msb 1 v = [bit v 0]" "msb 6 0b111010 = [True, True, True, False, True, False]"
  by (simp_all add: numeral_eq_Suc bit_0 odd_iff_mod_2_eq_one) (code_simp+)?

lemma adr_bits_decodes:
  assumes "0 \<le> address" "address < 16384"
  shows "mfx_address (adr_bits address @ r) = (address, r)"
  using assms by (simp add: adr_bits_def msb_consts take_bit_int_eq_self)

lemma packet_received:
  assumes "holds sp bs" "length bs \<le> 247" "ty \<in> {QMFX0PKT, QMFX1PKTD, QMFX1PKTV, QMFX8PKT, QMFX16PKT, QMFX32PKT}"
  shows "mfx_received (convertMFXPacketToSPIStream (fst (addCRCBits sp)) ty) = Some bs"
  unfolding mfx_received_def mfx_signal_received [OF assms(3)] packet_bits_holds [OF assms(1,2)]
  by (simp add: crc_appended)

section \<open>Packets of a locomotive\<close>

lemma send_mfx_transfers:
  assumes "spi_works d"
  shows "transfers (send p QMFX0PKT n d) = transfers d @ replicate (nat n) (SPI_BAUDRATE_MFX_2, convertMFXPacketToSPIStream p QMFX0PKT)"
    and "spi_works (send p QMFX0PKT n d)"
    and "MFXPacketPool (send p QMFX0PKT n d) = MFXPacketPool d"
proof -
  let ?d = "d\<lparr>spiLastMM := False\<rparr>" and ?bs = "convertMFXPacketToSPIStream p QMFX0PKT"
  obtain k where k: "spi_xmit (nat n) SPI_BAUDRATE_MFX_2 ?bs False 0 ?d =
     (0, True, ?d\<lparr>ioctls := k, transfers := transfers ?d @ replicate (nat n) (SPI_BAUDRATE_MFX_2, ?bs)\<rparr>)"
    using spi_xmit_works [of ?d "nat n" SPI_BAUDRATE_MFX_2 ?bs False] assms(1)
    by (simp only: spi_works_frame) blast
  have eq: "send p QMFX0PKT n d = read_feedback (?d\<lparr>ioctls := k, transfers := transfers ?d @ replicate (nat n) (SPI_BAUDRATE_MFX_2, ?bs)\<rparr>)"
    using k by (simp add: send_packet_def send_mfx_def)
  show "transfers (send p QMFX0PKT n d) = transfers d @ replicate (nat n) (SPI_BAUDRATE_MFX_2, ?bs)"
    "spi_works (send p QMFX0PKT n d)" "MFXPacketPool (send p QMFX0PKT n d) = MFXPacketPool d"
    unfolding eq using assms(1) by (simp_all add: spi_works_def)
qed

definition drive_bits :: "int \<Rightarrow> int \<Rightarrow> bool list" where
  "drive_bits speed direction =
     (if speed AND 15 = 0 then msb 3 0b000 @ msb 1 (NOT direction) @ msb 3 (speed div 16)
      else msb 3 0b001 @ msb 1 (NOT direction) @ msb 7 speed)"

definition function_bits :: "int \<Rightarrow> int \<Rightarrow> bool list" where
  "function_bits funcs nfuncs =
     (if nfuncs \<le> 4 then msb 3 0b010 @ msb 4 funcs
      else if nfuncs \<le> 8 then msb 4 0b0110 @ msb 8 funcs
      else msb 4 0b0111 @ msb 16 funcs)"

lemma drive_bits_decodes:
  assumes "0 \<le> speed" "speed \<le> 127"
  shows "mfx_drive (drive_bits speed direction @ r) = (Some (odd direction, speed), r)"
proof (cases "speed AND 15 = 0")
  case True
  have "speed AND 15 = take_bit 4 speed" using take_bit_eq_mask [of 4 speed] by (simp add: mask_eq_exp_minus_1)
  then have "16 * (speed div 16) = speed" using True by (simp add: take_bit_eq_mod) (metis add.right_neutral mult_div_mod_eq)
  moreover have "take_bit 3 (speed div 16) = speed div 16" using assms by (intro take_bit_int_eq_self) auto
  ultimately show ?thesis using True by (simp add: drive_bits_def msb_consts bit_0)
next
  case False
  have "take_bit 7 speed = speed" using assms by (intro take_bit_int_eq_self) auto
  then show ?thesis using False by (simp add: drive_bits_def msb_consts bit_0)
qed

lemma fx_list_take [simp]: "fx_list n (take_bit n v) = fx_list n v"
  by (simp add: fx_list_def bit_take_bit_iff)

lemma function_bits_decodes:
  "mfx_functions (function_bits funcs nfuncs) = fx_list (if nfuncs \<le> 4 then 4 else if nfuncs \<le> 8 then 8 else 16) funcs"
  by (simp add: function_bits_def msb_consts)

lemma length_loco_bits: "length (adr_bits a @ drive_bits s r @ function_bits f n) \<le> 60"
  using length_adr_bits [of a] by (auto simp: drive_bits_def function_bits_def)

lemma mfx_loco_packet_received:
  "mfx_received (convertMFXPacketToSPIStream (mfx_loco_packet address speed direction funcs nfuncs) QMFX0PKT) =
     Some (adr_bits address @ drive_bits speed direction @ function_bits funcs nfuncs)"
proof -
  let ?sp1 = "addAdrBits address packetstream0"
  let ?sp2 = "if speed AND 15 = 0 then addBits (speed div 16) 3 (addBits (NOT direction) 1 (addBits 0b000 3 ?sp1))
                 else addBits speed 7 (addBits (NOT direction) 1 (addBits 0b001 3 ?sp1))"
  let ?sp3 = "if nfuncs \<le> 4 then addBits funcs 4 (addBits 0b010 3 ?sp2)
                 else if nfuncs \<le> 8 then addBits funcs 8 (addBits 0b0110 4 ?sp2)
                 else addBits funcs MFX_FX_COUNT (addBits 0b0111 4 ?sp2)"
  have two: "holds (addBits v n (addBits w m sp)) (bs @ msb m w @ msb n v)" if "holds sp bs" "length bs + m + n \<le> 632" for v n w m sp bs
    using addBits_holds [OF addBits_holds [OF that(1), of m w], of n v] that(2) by simp
  have three: "holds (addBits u l (addBits v n (addBits w m sp))) (bs @ msb m w @ msb n v @ msb l u)"
    if "holds sp bs" "length bs + m + n + l \<le> 632" for u l v n w m sp bs
    using addBits_holds [OF two [OF that(1), of m n v w], of l u] that(2) by simp
  have l: "length (adr_bits address) \<le> 18" by (rule length_adr_bits)
  have a: "holds (addBits x n (addBits (NOT direction) 1 (addBits w 3 ?sp1))) (adr_bits address @ msb 3 w @ msb 1 (NOT direction) @ msb n x)"
    if "n \<le> 7" for x n w
    using that l by (intro three [OF addAdrBits_holds]) simp
  have 2: "holds ?sp2 (adr_bits address @ drive_bits speed direction)"
    unfolding drive_bits_def using a [of 3] a [of 7] by (cases "speed AND 15 = 0") (simp_all only: if_True if_False simp_thms numeral_le_iff semiring_norm)
  have l2: "length (adr_bits address @ drive_bits speed direction) \<le> 40" using l by (simp add: drive_bits_def)
  have 3: "holds ?sp3 ((adr_bits address @ drive_bits speed direction) @ function_bits funcs nfuncs)"
    unfolding function_bits_def MFX_FX_COUNT_def using two [OF 2] l2 by simp
  show ?thesis
    unfolding mfx_loco_packet_def Let_def
    using packet_received [OF 3, of QMFX0PKT] length_loco_bits [of address speed direction funcs nfuncs] by simp
qed

lemma fields_holds:
  "holds sp bs \<Longrightarrow> length bs + sum_list (map snd fs) \<le> 632 \<Longrightarrow>
   holds (fold (\<lambda>(v, n). addBits v n) fs sp) (bs @ concat (map (\<lambda>(v, n). msb n v) fs))"
proof (induction fs arbitrary: sp bs)
  case (Cons f fs)
  obtain v n where f: "f = (v, n)" by force
  show ?case using Cons.IH [OF addBits_holds [OF Cons.prems(1), of n v]] Cons.prems(2) by (simp add: f)
qed simp

lemma mfx_loco_command:
  assumes "0 \<le> address" "address < 16384" "0 \<le> speed" "speed \<le> 127"
  shows "mfx_command (convertMFXPacketToSPIStream (mfx_loco_packet address speed direction funcs nfuncs) QMFX0PKT) =
    Some (address, Some (odd direction, speed), fx_list (if nfuncs \<le> 4 then 4 else if nfuncs \<le> 8 then 8 else 16) funcs)"
  by (simp only: mfx_command_def mfx_loco_packet_received option.case adr_bits_decodes [OF assms(1,2)] drive_bits_decodes [OF assms(3,4)]
      Let_def prod.case function_bits_decodes)

lemma update_mfx_frame [simp]:
  "transfers (update_MFXPacketPool i glp p j d) = transfers d"
  "spi_works (update_MFXPacketPool i glp p j d) = spi_works d"
  by (simp_all add: update_MFXPacketPool_def Let_def spi_works_def)

text \<open>The packet for a single function.\<close>

definition fx_packet :: "int \<Rightarrow> int \<Rightarrow> bool \<Rightarrow> bytes" where
  "fx_packet address func val = fst (addCRCBits (addBits (of_bool val) 1 (addBits 0 1 (addBits func 7 (addBits 0b100 3
            (addAdrBits address packetstream0))))))"

lemma send_fx: "send_LocoFx16_32 address func val xmits d = send (fx_packet address func val) QMFX0PKT xmits d"
  by (simp add: send_LocoFx16_32_def fx_packet_def sendMFXPaket_def case_prod_unfold Let_def)

lemma fx_packet_command:
  assumes "0 \<le> address" "address < 16384" "0 \<le> func" "func < 128"
  shows "mfx_command (convertMFXPacketToSPIStream (fx_packet address func val) QMFX0PKT) = Some (address, None, [(nat func, val)])"
proof -
  let ?ws = "adr_bits address @ msb 3 0b100 @ msb 7 func @ msb 1 0 @ msb 1 (of_bool val)"
  have "holds (addBits (of_bool val) 1 (addBits 0 1 (addBits func 7 (addBits 0b100 3 (addAdrBits address packetstream0))))) ?ws"
    using fields_holds [OF addAdrBits_holds, of address "[(0b100, 3), (func, 7), (0, 1), (of_bool val, 1)]"]
      length_adr_bits [of address] by simp
  then have r: "mfx_received (convertMFXPacketToSPIStream (fx_packet address func val) QMFX0PKT) = Some ?ws"
    unfolding fx_packet_def using length_adr_bits [of address] by (intro packet_received) auto
  have "take_bit 7 func = func" using assms by (intro take_bit_int_eq_self) auto
  then show ?thesis
    by (simp add: mfx_command_def r adr_bits_decodes [OF assms(1,2)] msb_consts nth_append bit_0)
qed

lemma send_changed_works:
  assumes "spi_works d"
  shows "\<exists>post. transfers (send_changed_fx is address ch funcs d) = transfers d @ post \<and>
    (\<forall>k \<in> set is. bit ch k \<longrightarrow> (SPI_BAUDRATE_MFX_2, convertMFXPacketToSPIStream (fx_packet address (int k) (bit funcs k)) QMFX0PKT) \<in> set post)"
  using assms
proof (induction "is" arbitrary: d)
  case (Cons k "is")
  define p where "p = fx_packet address (int k) (bit funcs k)"
  have b: "((funcs div 2 ^ k) AND 1 \<noteq> 0) = bit funcs k" by (simp add: and_one_eq bit_iff_odd odd_iff_mod_2_eq_one)
  define d1 where "d1 = (if bit ch k then send p QMFX0PKT 2 d else d)"
  have d1: "spi_works d1" using Cons.prems by (simp add: d1_def send_mfx_transfers)
  obtain x where x: "transfers d1 = transfers d @ x" "bit ch k \<longrightarrow> (SPI_BAUDRATE_MFX_2, convertMFXPacketToSPIStream p QMFX0PKT) \<in> set x"
    using send_mfx_transfers(1) [OF Cons.prems, of p 2] by (cases "bit ch k") (auto simp: d1_def)
  have "send_changed_fx (k # is) address ch funcs d = send_changed_fx is address ch funcs d1"
    by (simp only: send_changed_fx.simps b send_fx d1_def p_def and_pow_bit)
  with Cons.IH [OF d1] x show ?case by (auto simp: p_def)
qed simp

text \<open>C10. An mfx locomotive is controlled as commanded: the packet that is shifted out twice has a correct
  checksum, and the decoder with that address reads from it the direction, the speed and the
  functions it has up to F15; each changed function from F16 on follows in a packet of its own.
\<close>

theorem mfx_loco_received:
  assumes "spi_works d" and "0 \<le> gl_id glp" and "gl_id glp < 16384" and "0 \<le> gl_speed glp"
  shows "\<exists>hz bs post. transfers (snd (comp_mfx_loco i glp d)) = transfers d @ [(hz, bs), (hz, bs)] @ post \<and>
    mfx_command bs = Some (gl_id glp, Some (odd (snd (mfx_speed glp)), fst (mfx_speed glp)),
      fx_list (if gl_n_func glp \<le> 4 then 4 else if gl_n_func glp \<le> 8 then 8 else 16) (gl_funcs glp)) \<and>
    (\<forall>k \<in> {16..<32}. gl_n_func glp > 16 \<and> bit (gl_funcschange glp) k \<longrightarrow>
      (\<exists>bs'. (hz, bs') \<in> set post \<and> mfx_command bs' = Some (gl_id glp, None, [(k, bit (gl_funcs glp) k)])))"
proof -
  obtain speed direction where sd: "mfx_speed glp = (speed, direction)" by force
  have s: "0 \<le> speed" "speed \<le> 127"
    using sd assms(4) by (auto simp: mfx_speed_def Let_def split: if_splits prod.splits)
  define p where "p = mfx_loco_packet (gl_id glp) speed direction (gl_funcs glp) (gl_n_func glp)"
  define bs where "bs = convertMFXPacketToSPIStream p QMFX0PKT"
  define d1 where "d1 = send p QMFX0PKT 2 d"
  define glp1 where "glp1 = glp\<lparr>gl_speedchange := (if gl_speedchange glp AND SCEMERG \<noteq> 0 then gl_speedchange glp AND NOT SCEMERG
     else gl_speedchange glp) AND NOT (SCSPEED OR SCDIREC)\<rparr>"
  define d2 where "d2 = update_MFXPacketPool i glp1 p (nat ((p ! 0 + 7) div 8 + 1)) d1"
  have t: "transfers d2 = transfers d @ [(SPI_BAUDRATE_MFX_2, bs), (SPI_BAUDRATE_MFX_2, bs)]" "spi_works d2"
    using send_mfx_transfers [OF assms(1), of p 2] by (simp_all add: d2_def d1_def bs_def numeral_eq_Suc)
  have g: "gl_funcschange glp1 = gl_funcschange glp" by (simp add: glp1_def)
  let ?ch = "gl_funcschange glp AND 0xFFFF0000"
  have c: "snd (comp_mfx_loco i glp d) = (if gl_n_func glp > 16 then send_changed_fx [16..<32] (gl_id glp) ?ch (gl_funcs glp) d2 else d2)"
    unfolding comp_mfx_loco_def sd Let_def prod.case sendMFXPaket_def p_def [symmetric] d1_def [symmetric] glp1_def [symmetric] d2_def [symmetric] g
    by (simp only: if_distrib [of snd] snd_conv)
  have high: "bit ?ch k \<longleftrightarrow> bit (gl_funcschange glp) k" if "k \<in> {16..<32}" for k
  proof -
    have "0xFFFF0000 = push_bit 16 (mask 16 :: int)" by code_simp
    then show ?thesis using that by (simp only: bit_and_iff bit_push_bit_iff bit_mask_iff) auto
  qed
  obtain post where post: "transfers (snd (comp_mfx_loco i glp d)) = transfers d2 @ post"
    "\<forall>k \<in> {16..<32}. gl_n_func glp > 16 \<and> bit (gl_funcschange glp) k \<longrightarrow>
      (SPI_BAUDRATE_MFX_2, convertMFXPacketToSPIStream (fx_packet (gl_id glp) (int k) (bit (gl_funcs glp) k)) QMFX0PKT) \<in> set post"
  proof (cases "gl_n_func glp > 16")
    case True
    then show ?thesis
      using that send_changed_works [OF t(2), of "[16..<32]" "gl_id glp" ?ch "gl_funcs glp", unfolded set_upt] high
      unfolding c if_P [OF True] by blast
  next
    case False
    then show ?thesis by (intro that [of "[]"]) (simp_all add: c)
  qed
  have "mfx_command bs = Some (gl_id glp, Some (odd (snd (mfx_speed glp)), fst (mfx_speed glp)),
      fx_list (if gl_n_func glp \<le> 4 then 4 else if gl_n_func glp \<le> 8 then 8 else 16) (gl_funcs glp))"
    unfolding bs_def p_def mfx_loco_command [OF assms(2,3) s] by (simp add: sd)
  moreover have "mfx_command (convertMFXPacketToSPIStream (fx_packet (gl_id glp) (int k) (bit (gl_funcs glp) k)) QMFX0PKT) =
      Some (gl_id glp, None, [(k, bit (gl_funcs glp) k)])" if "k \<in> {16..<32}" for k
    using fx_packet_command [OF assms(2,3), of "int k"] that by simp
  moreover have "transfers (snd (comp_mfx_loco i glp d)) = transfers d @ [(SPI_BAUDRATE_MFX_2, bs), (SPI_BAUDRATE_MFX_2, bs)] @ post"
    by (simp only: post(1) t(1) append_assoc)
  ultimately show ?thesis using post(2) by blast
qed

theorem mfx_loco_received_witness:
  "\<exists>hz bs post. transfers (snd (comp_mfx_loco 1 (gl_zero\<lparr>gl_id := 300, gl_n_func := 20, gl_funcschange := 0x20000\<rparr>) ddl_start)) =
      transfers ddl_start @ [(hz, bs), (hz, bs)] @ post \<and>
    mfx_command bs = Some (gl_id (gl_zero\<lparr>gl_id := 300, gl_n_func := 20, gl_funcschange := 0x20000\<rparr>),
      Some (odd (snd (mfx_speed (gl_zero\<lparr>gl_id := 300, gl_n_func := 20, gl_funcschange := 0x20000\<rparr>))),
        fst (mfx_speed (gl_zero\<lparr>gl_id := 300, gl_n_func := 20, gl_funcschange := 0x20000\<rparr>))),
      fx_list (if gl_n_func (gl_zero\<lparr>gl_id := 300, gl_n_func := 20, gl_funcschange := 0x20000\<rparr>) \<le> 4 then 4
        else if gl_n_func (gl_zero\<lparr>gl_id := 300, gl_n_func := 20, gl_funcschange := 0x20000\<rparr>) \<le> 8 then 8 else 16)
        (gl_funcs (gl_zero\<lparr>gl_id := 300, gl_n_func := 20, gl_funcschange := 0x20000\<rparr>))) \<and>
    (\<forall>k \<in> {16..<32}. gl_n_func (gl_zero\<lparr>gl_id := 300, gl_n_func := 20, gl_funcschange := 0x20000\<rparr>) > 16 \<and>
       bit (gl_funcschange (gl_zero\<lparr>gl_id := 300, gl_n_func := 20, gl_funcschange := 0x20000\<rparr>)) k \<longrightarrow>
      (\<exists>bs'. (hz, bs') \<in> set post \<and> mfx_command bs' = Some (gl_id (gl_zero\<lparr>gl_id := 300, gl_n_func := 20, gl_funcschange := 0x20000\<rparr>), None,
        [(k, bit (gl_funcs (gl_zero\<lparr>gl_id := 300, gl_n_func := 20, gl_funcschange := 0x20000\<rparr>)) k)])))"
  by (rule mfx_loco_received) (simp_all add: gl_zero_def)

section \<open>Decoders on the track\<close>

text \<open>
  The decoders that are not registered, with the ids \<open>us\<close>: those whose upper bits agree with a search
  packet answer it, and a booster that detects the answer reports it over CAN while the feedback
  thread waits. \<open>poll\<close> is one round of the search: a packet of the bus thread and a pass of the
  feedback thread.
\<close>

definition search_query :: "bytes \<Rightarrow> (nat \<times> int) option" where
  "search_query bs =
     (case mfx_received bs of
        None \<Rightarrow> None
      | Some ws \<Rightarrow> (if length ws = 53 \<and> take 15 ws = adr_bits 0 @ msb 6 0b111010
                    then Some (nat (num (take 6 (drop 15 ws))), num (drop 21 ws)) else None))"

definition agrees :: "nat \<Rightarrow> int \<Rightarrow> int \<Rightarrow> bool" where
  "agrees n u x \<longleftrightarrow> u div 2 ^ (32 - n) = x div 2 ^ (32 - n)"

definition answered :: "int list \<Rightarrow> bytes \<Rightarrow> bool" where
  "answered us bs = (case search_query bs of None \<Rightarrow> False | Some (n, u) \<Rightarrow> list_ex (agrees n u) us)"

definition track :: "int list \<Rightarrow> drv \<Rightarrow> drv" where
  "track us v = (if transfers (ddl v) \<noteq> [] \<and> answered us (snd (last (transfers (ddl v)))) then on_ddl (handle_seek [0x83, 1] 0) v else v)"

definition poll :: "int list \<Rightarrow> drv \<Rightarrow> drv" where
  "poll us v = (case feedback_pass (track us) (snd (mfxManagement v)) of Continues v' \<Rightarrow> v' | Blocked v' \<Rightarrow> v' | Ended v' \<Rightarrow> v')"

text \<open>The hardware works, boosters report answers, and no serial port is attached.\<close>

definition quiet :: "ddl_data \<Rightarrow> bool" where
  "quiet d \<longleftrightarrow> spi_works d \<and> (\<forall>k. comport d k = []) \<and> BOOSTER_COMM d"

lemma read_feedback_quiet:
  assumes "\<And>k. comport d k = []"
  shows "\<exists>w r. read_feedback d = d\<lparr>waitread := w, comreads := r\<rparr>"
proof -
  consider "waitread d = 0" | "waitread d = 1" | n where "waitread d = Suc (Suc n)"
    by (metis One_nat_def not0_implies_Suc)
  then show ?thesis
  proof cases
    case 1
    then have "read_feedback d = d\<lparr>waitread := 0, comreads := comreads d\<rparr>" by (cases d) (simp add: read_feedback_def)
    then show ?thesis by blast
  next
    case 2
    then have "read_feedback d = d\<lparr>waitread := 0, comreads := Suc (comreads d)\<rparr>" by (simp add: read_feedback_def Let_def assms)
    then show ?thesis by blast
  next
    case (3 n)
    then have "read_feedback d = d\<lparr>waitread := Suc n, comreads := comreads d\<rparr>" by (cases d) (simp add: read_feedback_def Let_def)
    then show ?thesis by blast
  qed
qed

lemma send_quiet:
  assumes "quiet d" "ty \<in> {QMFX0PKT, QMFX1PKTD}"
  shows "\<exists>k w r. send p ty 1 d = d\<lparr>spiLastMM := False, ioctls := k, waitread := w, comreads := r,
    transfers := transfers d @ [(SPI_BAUDRATE_MFX_2, convertMFXPacketToSPIStream p ty)],
    feedback := feedback d @ (if ty = QMFX0PKT then [] else [pkt_code ty])\<rparr>"
proof -
  let ?bs = "convertMFXPacketToSPIStream p ty"
  let ?d = "d\<lparr>feedback := feedback d @ (if ty = QMFX0PKT then [] else [pkt_code ty]), spiLastMM := False\<rparr>"
  have ok: "spi_works ?d" using assms(1) by (simp add: quiet_def spi_works_def)
  obtain k where k: "spi_xmit 1 SPI_BAUDRATE_MFX_2 ?bs False 0 ?d =
     (0, True, ?d\<lparr>ioctls := k, transfers := transfers ?d @ replicate 1 (SPI_BAUDRATE_MFX_2, ?bs)\<rparr>)"
    using spi_xmit_works [OF ok, of 1 SPI_BAUDRATE_MFX_2 ?bs False] by blast
  define d1 where "d1 = ?d\<lparr>ioctls := k, transfers := transfers ?d @ replicate 1 (SPI_BAUDRATE_MFX_2, ?bs)\<rparr>"
  define d2 where "d2 = (if ty = QMFX0PKT then d1 else d1\<lparr>waitread := 2\<rparr>)"
  have xm: "(if ty = QMFX0PKT then nat 1 else 1) = 1" by simp
  have d0: "(if ty \<noteq> QMFX0PKT then d\<lparr>feedback := feedback d @ [pkt_code ty]\<rparr> else d)\<lparr>spiLastMM := False\<rparr> = ?d" by simp
  have "send_mfx p ty 1 d = (0, True, d2)"
    unfolding send_mfx_def Let_def xm d0 k d1_def [symmetric] prod.case by (simp add: d2_def)
  moreover have "send_packet p ty 1 d = (let (acks, ok, d1) = send_mfx p ty 1 d in if ok then (acks, read_feedback d1) else (0, d1))"
    using assms(2) by (auto simp: send_packet_def)
  ultimately have s: "send p ty 1 d = read_feedback d2" by simp
  have "comport d2 j = []" for j using assms(1) by (simp add: d2_def d1_def quiet_def)
  then have "\<exists>w r. read_feedback d2 = d2\<lparr>waitread := w, comreads := r\<rparr>" using read_feedback_quiet by blast
  then obtain w r where "read_feedback d2 = d2\<lparr>waitread := w, comreads := r\<rparr>" by blast
  then show ?thesis unfolding s by (intro exI [of _ k] exI [of _ w] exI [of _ r]) (simp add: d2_def d1_def)
qed

lemma search_packet_query:
  assumes "0 \<le> n" "n < 64" "0 \<le> u" "u < 2 ^ 32"
  shows "search_query (convertMFXPacketToSPIStream (search_packet u n) QMFX1PKTD) = Some (nat n, u)"
proof -
  let ?ws = "adr_bits 0 @ msb 6 0b111010 @ msb 6 n @ msb 32 u"
  have "holds (addBits u 32 (addBits n 6 (addBits 0b111010 6 (addAdrBits 0 packetstream0)))) ?ws"
    using fields_holds [OF addAdrBits_holds, of 0 "[(0b111010, 6), (n, 6), (u, 32)]"] length_adr_bits [of 0] by simp
  then have r: "mfx_received (convertMFXPacketToSPIStream (search_packet u n) QMFX1PKTD) = Some ?ws"
    unfolding search_packet_def using length_adr_bits [of 0] by (intro packet_received) auto
  have l: "length (adr_bits 0) = 9" by (simp add: adr_bits_def)
  have t: "take_bit 6 n = n" "take_bit 32 u = u" using assms by (simp_all add: take_bit_int_eq_self)
  show ?thesis
    by (simp add: search_query_def r l t)
qed

section \<open>The search as a state machine\<close>

text \<open>The step and the id, without packets and threads.\<close>

definition search_next :: "int list \<Rightarrow> int \<times> int \<Rightarrow> int \<times> int" where
  "search_next us su =
     (let (st, u) = su; b = st div 2;
          u' = (if odd st then u OR 2 ^ nat (32 - b) else if st = 0 then 0 else u)
      in (if list_ex (agrees (nat b) u') us then if b = 32 then 1 else if odd st then st + 1 else st + 2
          else if odd st \<or> st = 0 then 0 else st + 1, u'))"

lemma quiet_send:
  assumes "quiet d" "ty \<in> {QMFX0PKT, QMFX1PKTD}"
  shows "quiet (send p ty 1 d)"
    "feedback (send p ty 1 d) = feedback d @ (if ty = QMFX0PKT then [] else [pkt_code ty])"
    "last (transfers (send p ty 1 d)) = (SPI_BAUDRATE_MFX_2, convertMFXPacketToSPIStream p ty)" "transfers (send p ty 1 d) \<noteq> []"
  using send_quiet [OF assms, of p] assms(1) by (auto simp: quiet_def spi_works_def)

lemma and_one_odd: "x AND 1 \<noteq> 0 \<longleftrightarrow> odd (x :: int)"
  by (simp add: and_one_eq odd_iff_mod_2_eq_one)

lemma or_pow_range:
  assumes "0 \<le> u" "u < 2 ^ n" "m < n"
  shows "0 \<le> u OR 2 ^ m \<and> u OR 2 ^ m < (2 ^ n :: int)"
proof -
  have "take_bit n (u OR 2 ^ m) = u OR 2 ^ m"
    using assms by (simp add: take_bit_or take_bit_int_eq_self)
  then show ?thesis using take_bit_nonnegative [of n "u OR 2 ^ m"] take_bit_int_less_exp [of n "u OR 2 ^ m"] by simp
qed

lemma search_next_range:
  assumes "0 \<le> st" "st \<le> 65" "st \<noteq> 1" "0 \<le> u" "u < 2 ^ 32"
  shows "0 \<le> snd (search_next us (st, u)) \<and> snd (search_next us (st, u)) < 2 ^ 32"
proof -
  have "0 \<le> u OR 2 ^ nat (32 - st div 2) \<and> u OR 2 ^ nat (32 - st div 2) < 2 ^ 32" if "odd st"
  proof (rule or_pow_range [OF assms(4,5)])
    have "1 \<le> st div 2" using assms(1,3) that by presburger
    then show "nat (32 - st div 2) < 32" by simp
  qed
  then show ?thesis using assms by (auto simp: search_next_def Let_def)
qed

lemma management_effect:
  assumes "quiet (ddl v)" "feedback (ddl v) = []" "searchstep (mfx v) \<noteq> 1" "0 \<le> searchstep (mfx v)" "searchstep (mfx v) \<le> 65"
    "u' = snd (search_next us (searchstep (mfx v), decoderUId (mfx v)))"
  shows "quiet (ddl (snd (mfxManagement v)))" "feedback (ddl (snd (mfxManagement v))) = [pkt_code QMFX1PKTD]"
    "transfers (ddl (snd (mfxManagement v))) \<noteq> []"
    "snd (last (transfers (ddl (snd (mfxManagement v))))) = convertMFXPacketToSPIStream (search_packet u' (searchstep (mfx v) div 2)) QMFX1PKTD"
    "mfx (snd (mfxManagement v)) = (mfx v)\<lparr>decoderUId := u'\<rparr>" "srv (snd (mfxManagement v)) = srv v"
proof -
  let ?st = "searchstep (mfx v)"
  define v1 where "v1 = (if ?st < 2 \<or> ?st = 32 then on_ddl (sendUIDandRegCounter (station_uid (ddl v)) (registrationCounter (mfx v))) v else v)"
  have v1: "quiet (ddl v1)" "feedback (ddl v1) = []" "mfx v1 = mfx v" "srv v1 = srv v"
    using assms(1,2) quiet_send [OF assms(1), of QMFX0PKT]
    by (simp_all add: v1_def sendUIDandRegCounter_def sendMFXPaket_def)
  define v2 where "v2 = on_mfx (\<lambda>m. m\<lparr>decoderUId := u'\<rparr>) v1"
  have u: "u' = (if odd ?st then decoderUId (mfx v) OR 2 ^ nat (32 - ?st div 2) else if ?st = 0 then 0 else decoderUId (mfx v))"
    unfolding assms(6) by (simp add: search_next_def Let_def)
  have b: "\<not> ?st div 2 > 32" using assms(5) by simp
  have id: "x = x\<lparr>mfx := mfx x\<lparr>decoderUId := decoderUId (mfx x)\<rparr>\<rparr>" for x :: drv by simp
  have v2': "(if ?st AND 1 \<noteq> 0 then if ?st div 2 > 32 then on_srv raise_ub v1
       else on_mfx (\<lambda>m. m\<lparr>decoderUId := decoderUId m OR 2 ^ nat (32 - ?st div 2)\<rparr>) v1
     else if ?st = 0 then on_mfx (\<lambda>m. m\<lparr>decoderUId := 0\<rparr>) v1 else v1) = v2"
    unfolding v2_def and_one_odd if_not_P [OF b] u using v1(3) by auto
  have eq: "snd (mfxManagement v) = on_ddl (sendSearchNewDecoder u' (?st div 2)) v2"
    unfolding mfxManagement_def Let_def v1_def [symmetric] v2' using assms(3) by (simp add: v2_def)
  show "quiet (ddl (snd (mfxManagement v)))" "feedback (ddl (snd (mfxManagement v))) = [pkt_code QMFX1PKTD]"
    "transfers (ddl (snd (mfxManagement v))) \<noteq> []"
    "snd (last (transfers (ddl (snd (mfxManagement v))))) = convertMFXPacketToSPIStream (search_packet u' (?st div 2)) QMFX1PKTD"
    "mfx (snd (mfxManagement v)) = (mfx v)\<lparr>decoderUId := u'\<rparr>" "srv (snd (mfxManagement v)) = srv v"
    unfolding eq using v1 quiet_send [OF v1(1), of QMFX1PKTD]
    by (simp_all add: v2_def sendSearchNewDecoder_def sendMFXPaket_def)
qed

lemma pass_effect:
  assumes "quiet (ddl w)" "feedback (ddl w) = [pkt_code QMFX1PKTD]" "transfers (ddl w) \<noteq> []"
  shows "\<exists>x. feedback_pass (track us) w =
      Continues (if answered us (snd (last (transfers (ddl w)))) then handleMFXacknowledge 1 x else handleMFXtimeout x) \<and>
    mfx x = mfx w \<and> quiet (ddl x) \<and> feedback (ddl x) = [] \<and> pktcode (fbData (ddl x)) = pkt_code QMFX1PKTD"
proof -
  define w1 where "w1 = on_ddl (\<lambda>d. d\<lparr>feedback := []\<rparr>) (if resumeSM (ddl w) = None then on_ddl (\<lambda>d. d\<lparr>allowSM := True\<rparr>) w else w)"
  define w2 where "w2 = snd (feedback_command (pkt_code QMFX1PKTD) w1)"
  have c: "feedback_command (pkt_code QMFX1PKTD) w1 = (200000, w2)"
    by (simp add: w2_def feedback_command_def Let_def pkt_code_def)
  have p: "feedback_pass (track us) w = Continues (feedback_answer (track us w2))"
    using assms(2) c by (auto simp: feedback_pass_def Let_def w1_def pkt_code_def)
  have w2: "mfx w2 = mfx w" "quiet (ddl w2)" "feedback (ddl w2) = []" "pktcode (fbData (ddl w2)) = pkt_code QMFX1PKTD"
    "transfers (ddl w2) = transfers (ddl w)"
    using assms(1) by (auto simp: w2_def w1_def feedback_command_def fb_seek_def Let_def pkt_code_def quiet_def spi_works_def)
  show ?thesis
  proof (cases "answered us (snd (last (transfers (ddl w))))")
    case True
    let ?x = "fb_seek 0 0 (on_ddl (\<lambda>d. d\<lparr>feedback := []\<rparr>) (on_ddl (handle_seek [0x83, 1] 0) w2))"
    have "feedback_answer (track us w2) = handleMFXacknowledge 1 ?x"
      using True assms(3) w2 by (simp add: feedback_answer_def track_def handle_seek_def Let_def quiet_def fb_seek_def)
    moreover have "mfx ?x = mfx w" "quiet (ddl ?x)" "feedback (ddl ?x) = []" "pktcode (fbData (ddl ?x)) = pkt_code QMFX1PKTD"
      using w2 by (simp_all add: handle_seek_def fb_seek_def Let_def quiet_def spi_works_def)
    ultimately show ?thesis using True p by (intro exI [of _ ?x]) simp
  next
    case False
    let ?x = "fb_seek 0 0 w2"
    have "feedback_answer (track us w2) = handleMFXtimeout ?x"
      using False w2 by (simp add: feedback_answer_def track_def Let_def fb_seek_def pkt_code_def)
    moreover have "mfx ?x = mfx w" "quiet (ddl ?x)" "feedback (ddl ?x) = []" "pktcode (fbData (ddl ?x)) = pkt_code QMFX1PKTD"
      using w2 by (simp_all add: fb_seek_def)
    ultimately show ?thesis using False p by (intro exI [of _ ?x]) simp
  qed
qed

lemma report_frame [simp]:
  "mfx (snd (discoveryReport a x)) = mfx x" "ddl (snd (discoveryReport a x)) = ddl x"
  by (simp_all add: discoveryReport_def mfx_info_def Let_def)

lemma report_complete: "fst (discoveryReport a x) \<longleftrightarrow> u8 (searchstep (mfx x) div 2) = 32 \<and> a \<noteq> 0"
  by (simp add: discoveryReport_def Let_def)

definition discovery_message :: "nat \<Rightarrow> int \<Rightarrow> srcpd \<Rightarrow> string" where
  "discovery_message b u s = stamp (clock s) @ '' 100 INFO '' @ show_nat b @ '' SM '' @ show_int u @ '' MFXDISCOVERY'' @ [CHR 0x0A]"

lemma report_message:
  assumes "fst (discoveryReport a x)"
  shows "\<exists>s. srv (snd (discoveryReport a x)) = enqueueInfoMessage (discovery_message (mfx_bus (mfx x)) (decoderUId (mfx x)) s) s"
proof -
  let ?b = "mfx_bus (mfx x)" and ?u = "decoderUId (mfx x)"
  let ?s = "snd (info_mcs ?b 3 ?u [32] (snd (info_mcs ?b 3 ?u [32, a] (srv x))))"
  have "srv (snd (discoveryReport a x)) = enqueueInfoMessage (discovery_message ?b ?u ?s) ?s"
    using assms by (simp add: report_complete) (simp add: discoveryReport_def mfx_info_def discovery_message_def Let_def)
  then show ?thesis by blast
qed

lemma poll_refines:
  assumes "quiet (ddl v)" "feedback (ddl v) = []" "searchstep (mfx v) \<noteq> 1" "0 \<le> searchstep (mfx v)" "searchstep (mfx v) \<le> 65"
    "0 \<le> decoderUId (mfx v)" "decoderUId (mfx v) < 2 ^ 32"
  shows "quiet (ddl (poll us v))" "feedback (ddl (poll us v)) = []"
    "(searchstep (mfx (poll us v)), decoderUId (mfx (poll us v))) = search_next us (searchstep (mfx v), decoderUId (mfx v))"
    "mfx_bus (mfx (poll us v)) = mfx_bus (mfx v)"
    "searchstep (mfx (poll us v)) = 1 \<Longrightarrow>
      \<exists>s. srv (poll us v) = enqueueInfoMessage (discovery_message (mfx_bus (mfx v)) (decoderUId (mfx (poll us v))) s) s"
proof -
  let ?st = "searchstep (mfx v)"
  define u' where "u' = snd (search_next us (?st, decoderUId (mfx v)))"
  define w where "w = snd (mfxManagement v)"
  note m = management_effect [OF assms(1-5) u'_def, folded w_def]
  have b: "0 \<le> ?st div 2" "?st div 2 < 64" using assms(4,5) by auto
  have u: "0 \<le> u'" "u' < 2 ^ 32" using search_next_range [OF assms(4,5,3,6,7)] by (simp_all add: u'_def)
  define a where "a = list_ex (agrees (nat (?st div 2)) u') us"
  have ans: "answered us (snd (last (transfers (ddl w)))) = a"
    by (simp only: m(4) answered_def search_packet_query [OF b u] option.case prod.case a_def)
  obtain x where p: "feedback_pass (track us) w = Continues (if a then handleMFXacknowledge 1 x else handleMFXtimeout x)"
    and x: "mfx x = (mfx v)\<lparr>decoderUId := u'\<rparr>" "quiet (ddl x)" "feedback (ddl x) = []" "pktcode (fbData (ddl x)) = pkt_code QMFX1PKTD"
    using pass_effect [OF m(1-3), of us] unfolding ans m(5) by blast
  have poll: "poll us v = (if a then handleMFXacknowledge 1 x else handleMFXtimeout x)"
    by (simp only: poll_def w_def [symmetric] p fb_result.case)
  have bn: "u8 (?st div 2) = ?st div 2" using b by (simp add: u8_def)
  let ?next = "if a then if ?st div 2 = 32 then 1 else if odd ?st then ?st + 1 else ?st + 2
          else if odd ?st \<or> ?st = 0 then 0 else ?st + 1"
  have n: "search_next us (?st, decoderUId (mfx v)) = (?next, u')"
    unfolding a_def u'_def by (simp only: search_next_def Let_def prod.case snd_conv)
  have ack: "handleMFXacknowledge 1 x = on_mfx (\<lambda>m. m\<lparr>searchstep := (if ?st div 2 = 32 then 1 else if odd ?st then ?st + 1 else ?st + 2)\<rparr>)
      (snd (discoveryReport 1 x))"
    using x bn report_complete [of 1 x] by (simp add: handleMFXacknowledge_def Let_def case_prod_unfold and_one_odd)
  have tmo: "\<exists>y. handleMFXtimeout x = on_mfx (\<lambda>m. m\<lparr>searchstep := (if odd ?st \<or> ?st = 0 then 0 else ?st + 1)\<rparr>) y \<and> mfx y = mfx x \<and> ddl y = ddl x"
  proof (cases "?st = 0")
    case True
    then have "handleMFXtimeout x = x" "mfx x = mfx x\<lparr>searchstep := 0\<rparr>"
      using x by (simp_all add: handleMFXtimeout_def Let_def)
    then show ?thesis using True by (intro exI [of _ x]) simp
  next
    case False
    then show ?thesis using x by (intro exI [of _ "snd (discoveryReport 0 x)"]) (simp add: handleMFXtimeout_def Let_def and_one_odd)
  qed
  have r: "mfx (poll us v) = (mfx x)\<lparr>searchstep := ?next\<rparr>" "ddl (poll us v) = ddl x"
    unfolding poll using ack tmo by (cases a; auto)+
  show "quiet (ddl (poll us v))" "feedback (ddl (poll us v)) = []" "mfx_bus (mfx (poll us v)) = mfx_bus (mfx v)"
    "(searchstep (mfx (poll us v)), decoderUId (mfx (poll us v))) = search_next us (?st, decoderUId (mfx v))"
    unfolding r n using x by simp_all
  assume "searchstep (mfx (poll us v)) = 1"
  then have one: "?next = 1" by (simp add: r)
  have "a \<and> ?st div 2 = 32"
  proof (rule ccontr)
    assume "\<not> (a \<and> ?st div 2 = 32)"
    then show False using one assms(3,4) by (auto split: if_splits)
  qed
  then have "fst (discoveryReport 1 x)" "poll us v = on_mfx (\<lambda>m. m\<lparr>searchstep := 1\<rparr>) (snd (discoveryReport 1 x))"
    using report_complete [of 1 x] x(1) bn ack poll by simp_all
  from report_message [OF this(1)] this(2)
  show "\<exists>s. srv (poll us v) = enqueueInfoMessage (discovery_message (mfx_bus (mfx v)) (decoderUId (mfx (poll us v))) s) s"
    by (simp add: x(1))
qed

text \<open>The id with its lower \<open>t\<close> bits cleared.\<close>

definition high :: "nat \<Rightarrow> int \<Rightarrow> int" where
  "high t m = (m div 2 ^ t) * 2 ^ t"

lemma high_suc: "high (Suc t) m = 2 * (m div 2 ^ t div 2) * 2 ^ t"
proof -
  have "m div 2 ^ Suc t = m div 2 ^ t div 2" using zdiv_zmult2_eq [of 2 m "2 ^ t"] by (simp add: mult.commute)
  then show ?thesis by (simp add: high_def)
qed

lemma high_div: "high (Suc t) m div 2 ^ t = 2 * (m div 2 ^ t div 2)"
  unfolding high_suc by simp

lemma high_or: "odd (m div 2 ^ t) \<Longrightarrow> high (Suc t) m OR 2 ^ t = high t m"
proof -
  assume o: "odd (m div 2 ^ t)"
  let ?c = "2 * (m div 2 ^ t div 2)"
  have "?c * 2 ^ t OR 2 ^ t = push_bit t (?c OR 1)" unfolding push_bit_or by (simp add: push_bit_eq_mult)
  also have "?c OR 1 = ?c + 1" by (simp add: or_one_eq)
  also have "?c + 1 = m div 2 ^ t" using o by simp
  finally show ?thesis by (simp add: high_suc) (simp add: high_def push_bit_eq_mult)
qed

text \<open>The number of lower bits that are still open in the even step \<open>st\<close>.\<close>

lemma search_round:
  assumes m: "m \<in> set us" "\<forall>x \<in> set us. m \<le> x" and b: "1 \<le> b" "b \<le> 32" and t: "t = 32 - b"
  defines "fin \<equiv> (if b = 32 then 1 else 2 * int b + 2, high t m)"
  shows "even (m div 2 ^ t) \<Longrightarrow> search_next us (2 * int b, high (Suc t) m) = fin"
    and "odd (m div 2 ^ t) \<Longrightarrow> search_next us (2 * int b, high (Suc t) m) = (2 * int b + 1, high (Suc t) m)"
    and "odd (m div 2 ^ t) \<Longrightarrow> search_next us (2 * int b + 1, high (Suc t) m) = fin"
proof -
  have d: "(2 * int b) div 2 = int b" "(2 * int b + 1) div 2 = int b" "nat (int b) = b" "nat (32 - int b) = t"
    "2 * int b \<noteq> 0" "even (2 * int b)" "odd (2 * int b + 1)" "int b = 32 \<longleftrightarrow> b = 32" "2 * int b + 1 + 1 = 2 * int b + 2"
    using b t by auto
  have self: "high t m div 2 ^ t = m div 2 ^ t" by (simp add: high_def)
  have hit: "list_ex (agrees b (high t m)) us" using m(1) self t by (auto simp: list_ex_iff agrees_def)
  show "search_next us (2 * int b, high (Suc t) m) = fin" if "even (m div 2 ^ t)"
  proof -
    have "high (Suc t) m = high t m" using that unfolding high_suc by (simp add: high_def)
    then show ?thesis using hit d by (simp add: search_next_def Let_def fin_def)
  qed
  show "search_next us (2 * int b, high (Suc t) m) = (2 * int b + 1, high (Suc t) m)" if "odd (m div 2 ^ t)"
  proof -
    have "\<not> agrees b (high (Suc t) m) x" if "x \<in> set us" for x
    proof
      assume "agrees b (high (Suc t) m) x"
      then have "x div 2 ^ t = 2 * (m div 2 ^ t div 2)" by (simp only: agrees_def t [symmetric] high_div)
      moreover have "m div 2 ^ t \<le> x div 2 ^ t" using m(2) \<open>x \<in> set us\<close> by (simp add: zdiv_mono1)
      ultimately show False using odd_two_times_div_two_succ [OF \<open>odd (m div 2 ^ t)\<close>] by linarith
    qed
    then have "\<not> list_ex (agrees b (high (Suc t) m)) us" by (auto simp: list_ex_iff)
    then show ?thesis using d by (simp add: search_next_def Let_def)
  qed
  show "search_next us (2 * int b + 1, high (Suc t) m) = fin" if "odd (m div 2 ^ t)"
    unfolding search_next_def Let_def prod.case d if_P [OF d(7)] high_or [OF that] if_P [OF hit] fin_def
    using d by simp
qed

lemma search_first:
  assumes "us \<noteq> []" "\<forall>x \<in> set us. 0 \<le> x \<and> x < 2 ^ 32"
  shows "search_next us (0, u) = (2, 0)"
proof -
  have "agrees 0 0 x" if "x \<in> set us" for x using assms(2) that by (simp add: agrees_def)
  then show ?thesis using assms(1) by (cases us) (auto simp: search_next_def)
qed

section \<open>The search ends\<close>

definition searching :: "drv \<Rightarrow> int \<Rightarrow> int \<Rightarrow> nat \<Rightarrow> bool" where
  "searching v st u b \<longleftrightarrow> quiet (ddl v) \<and> feedback (ddl v) = [] \<and> searchstep (mfx v) = st \<and> decoderUId (mfx v) = u \<and> mfx_bus (mfx v) = b"

lemma poll_searching:
  assumes "searching v st u b" "st \<noteq> 1" "0 \<le> st" "st \<le> 65" "0 \<le> u" "u < 2 ^ 32" "search_next us (st, u) = (st', u')"
  shows "searching (poll us v) st' u' b"
    and "st' = 1 \<Longrightarrow> \<exists>s. srv (poll us v) = enqueueInfoMessage (discovery_message b u' s) s"
  using poll_refines [of v us] assms by (auto simp: searching_def)

lemma high_range: "0 \<le> m \<Longrightarrow> m < 2 ^ 32 \<Longrightarrow> 0 \<le> high t m \<and> high t m < 2 ^ 32"
proof -
  assume m: "0 \<le> m" "m < 2 ^ 32"
  have "high t m + m mod 2 ^ t = m" unfolding high_def by (rule div_mult_mod_eq)
  moreover have "0 \<le> m mod 2 ^ t" by simp
  ultimately have "high t m \<le> m" by linarith
  moreover have "0 \<le> high t m" using m by (simp add: high_def pos_imp_zdiv_nonneg_iff)
  ultimately show ?thesis using m by simp
qed

text \<open>One bit of the id costs at most two polls.\<close>

lemma search_bit:
  assumes "m \<in> set us" "\<forall>x \<in> set us. m \<le> x" "0 \<le> m" "m < 2 ^ 32" "1 \<le> b" "b \<le> 32"
    "searching v (2 * int b) (high (Suc (32 - b)) m) bus"
  shows "\<exists>n \<le> 2. searching ((poll us ^^ n) v) (if b = 32 then 1 else 2 * int b + 2) (high (32 - b) m) bus \<and>
    (b = 32 \<longrightarrow> (\<exists>s. srv ((poll us ^^ n) v) = enqueueInfoMessage (discovery_message bus (high (32 - b) m) s) s))"
proof -
  define t where "t = 32 - b"
  note round = search_round [OF assms(1,2,5,6) t_def]
  note poll = poll_searching [OF assms(7) [folded t_def]]
  have r: "0 \<le> high (Suc t) m" "high (Suc t) m < 2 ^ 32" using high_range [OF assms(3,4)] by simp_all
  have st: "2 * int b \<noteq> 1" "0 \<le> 2 * int b" "2 * int b \<le> 65" using assms(6) by (presburger, simp_all)
  show ?thesis
  proof (cases "even (m div 2 ^ t)")
    case True
    from poll [OF st r round(1) [OF True]] show ?thesis
      unfolding t_def [symmetric] by (intro exI [of _ 1]) auto
  next
    case False
    have st': "2 * int b + 1 \<noteq> 1" "0 \<le> 2 * int b + 1" "2 * int b + 1 \<le> 65" using assms(5,6) by auto
    from poll_searching [OF poll(1) [OF st r round(2) [OF False]] st' r round(3) [OF False]]
    show ?thesis unfolding t_def [symmetric] by (intro exI [of _ 2]) (auto simp: numeral_2_eq_2)
  qed
qed

lemma search_bits:
  assumes "m \<in> set us" "\<forall>x \<in> set us. m \<le> x" "0 \<le> m" "m < 2 ^ 32" "searching v (2 * int b) (high (Suc (32 - b)) m) bus" "1 \<le> b" "b \<le> 32"
  shows "\<exists>n \<le> 2 * (33 - b). searching ((poll us ^^ n) v) 1 m bus \<and>
    (\<exists>s. srv ((poll us ^^ n) v) = enqueueInfoMessage (discovery_message bus m s) s)"
  using assms(5-7)
proof (induction "33 - b" arbitrary: b v)
  case (Suc k)
  from search_bit [OF assms(1-4) Suc.prems(2,3,1)] obtain n where n: "n \<le> 2"
    "searching ((poll us ^^ n) v) (if b = 32 then 1 else 2 * int b + 2) (high (32 - b) m) bus"
    "b = 32 \<longrightarrow> (\<exists>s. srv ((poll us ^^ n) v) = enqueueInfoMessage (discovery_message bus (high (32 - b) m) s) s)"
    by blast
  show ?case
  proof (cases "b = 32")
    case True
    then show ?thesis using n by (intro exI [of _ n]) (auto simp: high_def)
  next
    case False
    then have b: "k = 33 - Suc b" "1 \<le> Suc b" "Suc b \<le> 32" "Suc (32 - Suc b) = 32 - b" using Suc.hyps(2) Suc.prems by auto
    have "2 * int b + 2 = 2 * int (Suc b)" by simp
    then have "searching ((poll us ^^ n) v) (2 * int (Suc b)) (high (Suc (32 - Suc b)) m) bus" using n(2) False b(4) by (simp only: if_False)
    from Suc.hyps(1) [OF b(1) this b(2,3)] obtain l where l: "l \<le> 2 * (33 - Suc b)"
      "searching ((poll us ^^ l) ((poll us ^^ n) v)) 1 m bus"
      "\<exists>s. srv ((poll us ^^ l) ((poll us ^^ n) v)) = enqueueInfoMessage (discovery_message bus m s) s" by blast
    moreover have "(poll us ^^ l) ((poll us ^^ n) v) = (poll us ^^ (l + n)) v" by (simp add: funpow_add)
    moreover have "l + n \<le> 2 * (33 - b)" using l(1) n(1) b by simp
    ultimately show ?thesis by metis
  qed
qed simp

text \<open>C6. The search for new mfx decoders succeeds: when the hardware works and decoders that are not
  registered are on the track, then after at most 65 polls, each a search packet and the answer or
  timeout of the feedback thread, the search has found the least of their ids, has announced it to
  the info sessions and is suspended.
\<close>

theorem mfx_search_finds:
  assumes "quiet (ddl v)" and "feedback (ddl v) = []" and "searchstep (mfx v) = 0"
    and "0 \<le> decoderUId (mfx v)" and "decoderUId (mfx v) < 2 ^ 32"
    and "us \<noteq> []" and "\<forall>x \<in> set us. 0 \<le> x \<and> x < 2 ^ 32"
  shows "\<exists>n \<le> 65. searchstep (mfx ((poll us ^^ n) v)) = 1 \<and> decoderUId (mfx ((poll us ^^ n) v)) = Min (set us) \<and>
    (\<exists>s. srv ((poll us ^^ n) v) = enqueueInfoMessage (discovery_message (mfx_bus (mfx v)) (Min (set us)) s) s)"
proof -
  let ?m = "Min (set us)"
  have m: "?m \<in> set us" "\<forall>x \<in> set us. ?m \<le> x" using assms(6) by simp_all
  then have r: "0 \<le> ?m" "?m < 2 ^ 32" using assms(7) by blast+
  have "searching v 0 (decoderUId (mfx v)) (mfx_bus (mfx v))" using assms(1-3) by (simp add: searching_def)
  from poll_searching(1) [OF this _ _ _ assms(4,5) search_first [OF assms(6,7)]]
  have "searching (poll us v) 2 0 (mfx_bus (mfx v))" by simp
  moreover have "high (Suc (32 - 1)) ?m = 0" using r by (simp add: high_def)
  ultimately have "searching (poll us v) (2 * int 1) (high (Suc (32 - 1)) ?m) (mfx_bus (mfx v))" by simp
  from search_bits [OF m r this] obtain n where "n \<le> 2 * (33 - 1)" "searching ((poll us ^^ n) (poll us v)) 1 ?m (mfx_bus (mfx v))"
    "\<exists>s. srv ((poll us ^^ n) (poll us v)) = enqueueInfoMessage (discovery_message (mfx_bus (mfx v)) ?m s) s" by auto
  moreover have "(poll us ^^ n) (poll us v) = (poll us ^^ Suc n) v" by (simp only: funpow_Suc_right o_apply)
  ultimately show ?thesis by (intro exI [of _ "Suc n"]) (auto simp: searching_def)
qed

text \<open>A driver just after its start, with the automatic search and a booster that reports answers.\<close>

definition mfx_start :: mfx_data where
  "mfx_start = \<lparr>decoderUId = 0, registrationCounter = 0, searchstep = 0, autosearch = True, mfx_bus = 1,
     mfxread = \<lparr>rd_decuid = 0, rd_addr = 0, rd_cvline = 0, rd_cvindex = 0, rd_cvnmbr = 0, rd_repcount = 0\<rparr>,
     mfx_sm = False, regfile = None, regfile_writable = True\<rparr>"

definition drv_start :: "srcpd \<Rightarrow> drv" where
  "drv_start s = \<lparr>srv = s, ddl = ddl_start\<lparr>BOOSTER_COMM := True\<rparr>, mfx = mfx_start\<rparr>"

theorem mfx_search_finds_witness:
  "\<exists>n \<le> 65. searchstep (mfx ((poll [7, 5] ^^ n) (drv_start srcpd_init))) = 1 \<and>
    decoderUId (mfx ((poll [7, 5] ^^ n) (drv_start srcpd_init))) = Min (set [7, 5]) \<and>
    (\<exists>s. srv ((poll [7, 5] ^^ n) (drv_start srcpd_init)) =
      enqueueInfoMessage (discovery_message (mfx_bus (mfx (drv_start srcpd_init))) (Min (set [7, 5])) s) s)"
  by (rule mfx_search_finds) (simp_all add: drv_start_def mfx_start_def ddl_start_def quiet_def spi_works_def)

section \<open>The registration counter\<close>

lemma length_show_nat: "n < 10 ^ Suc k \<Longrightarrow> length (show_nat n) \<le> Suc k"
proof (induction k arbitrary: n)
  case (Suc k)
  then have "n div 10 < 10 ^ Suc k" by (simp add: div_less_iff_less_mult)
  from Suc.IH [OF this] show ?case by (subst show_nat.simps) simp
qed (simp add: show_nat.simps)

lemma stored_counter: "0 \<le> u \<Longrightarrow> u < 65536 \<Longrightarrow> u16 (atoi (take 9 (show_int u))) = u"
proof -
  assume u: "0 \<le> u" "u < 65536"
  then have "length (show_int u) \<le> 5" using length_show_nat [of "nat u" 4] by (simp add: show_int_def)
  moreover have "atoi (show_int u) = u" using scan_number_show [of "[]" u] u by (simp add: atoi_def to_long_def s32_id)
  ultimately show ?thesis using u by (simp add: u16_def)
qed

text \<open>The registration counter survives a restart of the daemon: after it has been set with a file that
  can be written, the mfx management of a new process loads the value again.
\<close>

theorem registration_counter_kept:
  assumes "regfile_writable (mfx v)" and "registrationCounter (mfx v) = loadRegistrationCounter (mfx v)"
    and "0 \<le> u" and "u < 65536"
  shows "\<exists>v1 m. smMfxSetBind 0 u v = (u, v1) \<and>
    startMFXManagement b search (mfx_start\<lparr>mfx_bus := 0, regfile := regfile (mfx v1)\<rparr>) = (0, m) \<and>
    registrationCounter (mfx v1) = u \<and> registrationCounter m = u"
proof -
  have u: "u16 u = u" using assms(3,4) by (simp add: u16_def)
  have "loadRegistrationCounter (mfx (snd (smMfxSetBind 0 u v))) = u"
  proof (cases "registrationCounter (mfx v) = u")
    case True
    then show ?thesis using assms(2) u by (simp add: smMfxSetBind_def Let_def loadRegistrationCounter_def split: option.splits)
  next
    case False
    then show ?thesis using assms(1) u stored_counter [OF assms(3,4)]
      by (simp add: smMfxSetBind_def Let_def loadRegistrationCounter_def saveRegistrationCounter_def)
  qed
  moreover have "loadRegistrationCounter (m\<lparr>mfx_bus := 0, regfile := regfile m'\<rparr>) = loadRegistrationCounter m'" for m m'
    by (simp add: loadRegistrationCounter_def)
  ultimately show ?thesis using u by (simp add: smMfxSetBind_def startMFXManagement_def Let_def)
qed

theorem registration_counter_kept_witness:
  "\<exists>v1 m. smMfxSetBind 0 513 (drv_start srcpd_init) = (513, v1) \<and>
    startMFXManagement 1 True (mfx_start\<lparr>mfx_bus := 0, regfile := regfile (mfx v1)\<rparr>) = (0, m) \<and>
    registrationCounter (mfx v1) = 513 \<and> registrationCounter m = 513"
  by (rule registration_counter_kept) (simp_all add: drv_start_def mfx_start_def loadRegistrationCounter_def)

section \<open>Beyond the last bit\<close>

text \<open>An answer without a value at the last bit leads the search astray: the step goes on to 66, the next
  packet asks for 33 bits, and after its timeout the poll shifts by a negative number, which is
  undefined.
\<close>

theorem mfx_search_overrun:
  assumes "pktcode (fbData (ddl v)) = pkt_code QMFX1PKTD" and "searchstep (mfx v) = 64"
  shows "searchstep (mfx (handleMFXacknowledge 0 v)) = 66 \<and>
    searchstep (mfx (handleMFXtimeout (handleMFXacknowledge 0 v))) = 67 \<and>
    ub (srv (snd (mfxManagement (handleMFXtimeout (handleMFXacknowledge 0 v)))))"
proof -
  let ?v1 = "handleMFXacknowledge 0 v" and ?v2 = "handleMFXtimeout (handleMFXacknowledge 0 v)"
  have 1: "searchstep (mfx ?v1) = 66" "pktcode (fbData (ddl ?v1)) = pkt_code QMFX1PKTD"
    using assms report_complete [of 0 v] by (simp_all add: handleMFXacknowledge_def Let_def case_prod_unfold and_one_odd)
  then have 2: "searchstep (mfx ?v2) = 67"
    by (simp only: handleMFXtimeout_def [of ?v1]) (simp add: Let_def and_one_odd)
  have "ub (srv (snd (mfxManagement ?v2)))"
    unfolding mfxManagement_def [of ?v2] 2 by (simp add: Let_def and_one_odd raise_ub_def)
  with 1 2 show ?thesis by blast
qed

theorem mfx_search_overrun_witness:
  "searchstep (mfx (handleMFXacknowledge 0 ((drv_start srcpd_init)\<lparr>mfx := mfx_start\<lparr>searchstep := 64\<rparr>,
      ddl := ddl_start\<lparr>fbData := (fbData ddl_start)\<lparr>pktcode := pkt_code QMFX1PKTD\<rparr>\<rparr>\<rparr>))) = 66 \<and>
    searchstep (mfx (handleMFXtimeout (handleMFXacknowledge 0 ((drv_start srcpd_init)\<lparr>mfx := mfx_start\<lparr>searchstep := 64\<rparr>,
      ddl := ddl_start\<lparr>fbData := (fbData ddl_start)\<lparr>pktcode := pkt_code QMFX1PKTD\<rparr>\<rparr>\<rparr>)))) = 67 \<and>
    ub (srv (snd (mfxManagement (handleMFXtimeout (handleMFXacknowledge 0 ((drv_start srcpd_init)\<lparr>mfx := mfx_start\<lparr>searchstep := 64\<rparr>,
      ddl := ddl_start\<lparr>fbData := (fbData ddl_start)\<lparr>pktcode := pkt_code QMFX1PKTD\<rparr>\<rparr>\<rparr>))))))"
  by (rule mfx_search_overrun) simp_all

end
