(* ===== verification/Ddl_Maerklin.thy ===== *)
theory Ddl_Maerklin
  imports Ddl_Signal
begin

unbundle bit_operations_syntax

text \<open>
  \<open>ddl_maerklin.c\<close>: packets of the Motorola protocol. A packet has four bytes: address, function,
  data (speed or output) and extra data (direction or one function). The functions take the
  locomotive as a record together with its index in the table, to which the packet pool points.
\<close>

section \<open>Packets\<close>

text \<open>The table of address codes: four ternary digits of two bits each.\<close>

definition mmadr_cod :: "int list" where
  "mmadr_cod = [
     85,  3,  1, 12, 15, 13,  4,  7,  5, 48, 51, 49, 60, 63, 61, 52,
     55, 53, 16, 19, 17, 28, 31, 29, 20, 23, 21,192,195,193,204,207,
    205,196,199,197,240,243,241,252,255,253,244,247,245,208,211,209,
    220,223,221,212,215,213, 64, 67, 65, 76, 79, 77, 68, 71, 69,112,
    115,113,124,127,125,116,119,117, 80, 83, 81, 92, 95, 93, 84, 87,
      0,  2,  6,233, 14, 18, 22, 26, 30, 34, 38, 42, 46, 50, 54, 58,
     62, 66, 70, 74, 78, 82, 86, 90, 94, 98,102,106,110,114,118,122,
    126,130,134,138,142,146,150,154,158,162,166,249,174,178,182,186,
    190,194,198,202,206,210,214,218,222,226,230,234,238,242,246,250,
    254,  8, 24, 40, 56, 72, 88,104,120,136,152,168,184,200,216,232,
    248, 11, 27, 43, 59, 75, 91,107,123,139,155,171,187,203,219,235,
    251,  9, 25, 41, 57, 73, 89,105,121,137,153,169,185,201,217, 10,
    170, 32, 96,160,224, 35, 99,163,227, 33, 97,161,225, 44,108,172,
    236, 47,111,175,239, 45,109,173,237, 36,100,164,228, 39,103,167,
    231, 37,101,165,229,128,131,129,140,143,141,132,135,133,176,179,
    177,188,191,189,180,183,181,144,147,145,156,159,157,148,151,149]"

definition mm_dir_code :: "int \<Rightarrow> int \<Rightarrow> int" where
  "mm_dir_code data direction =
     (if data AND 8 \<noteq> 0 then if direction \<noteq> 0 then 2 else 5 else if direction \<noteq> 0 then 10 else 13)"

text \<open>The extra data of the five packets of a locomotive: direction and four functions.\<close>

definition mm2_xdat :: "int \<Rightarrow> int \<Rightarrow> int \<Rightarrow> nat \<Rightarrow> int" where
  "mm2_xdat data direction funcs f =
     (let x = (if f = 0 then mm_dir_code data direction
               else if f = 1 then if funcs AND 2 \<noteq> 0 then 11 else 3
               else if f = 2 then if funcs AND 4 \<noteq> 0 then 12 else 4
               else if f = 3 then if funcs AND 8 \<noteq> 0 then 14 else 6
               else if funcs AND 16 \<noteq> 0 then 15 else 7)
      in if x = data then if data AND 8 \<noteq> 0 then 10 else 5 else x)"

text \<open>
  Function byte and speed for the packets of protocol version 2; \<open>None\<close> for a number of speed steps
  that it does not have. With 27 steps a first packet with another speed precedes.
\<close>

definition mm2_speed :: "int \<Rightarrow> int \<Rightarrow> int \<Rightarrow> (int option \<times> int \<times> int) option" where
  "mm2_speed n_fs func speed =
     (if n_fs = 14 then Some (None, func, speed)
      else if n_fs = 27 then
        if speed > 1 then
          (let sFS2 = speed div 2 + 1;
               sFS1 = (if odd speed then sFS2 + 1 else if sFS2 - 1 = 1 then 0 else sFS2 - 1)
           in Some (Some sFS1, func, sFS2))
        else Some (None, func, speed)
      else if n_fs = 28 then
        if speed > 1 then Some (None, if odd speed then func XOR 2 else func, speed div 2 + 1)
        else Some (None, func, speed)
      else None)"

definition comp_MM2 :: "nat \<Rightarrow> gl_data_t \<Rightarrow> int \<Rightarrow> int \<Rightarrow> ddl_data \<Rightarrow> ddl_data" where
  "comp_MM2 i glp direction speed d =
     (let addr = mmadr_cod ! nat (gl_id glp); func = (if gl_funcs glp AND 1 \<noteq> 0 then 3 else 0)
      in case mm2_speed (gl_n_fs glp) func speed of
           None \<Rightarrow> d
         | Some (first, func, data) \<Rightarrow>
             (let d1 = (case first of
                          None \<Rightarrow> d
                        | Some data1 \<Rightarrow> send [addr, func, data1, mm_dir_code data1 direction] QM2LOCOPKT 3 d);
                  p = (\<lambda>f. [addr, func, data, mm2_xdat data direction (gl_funcs glp) f]);
                  d2 = send (p 0) QM2LOCOPKT 2 (update_MaerklinPacketPool i glp (p 0) (p 1) (p 2) (p 3) (p 4) d1)
              in case find (\<lambda>f. gl_funcschange glp AND 2 ^ f \<noteq> 0) [1, 2, 3, 4] of
                   None \<Rightarrow> d2
                 | Some f \<Rightarrow> send (p f) QM2FXPKT 1 d2))"

definition comp_MM1 :: "nat \<Rightarrow> gl_data_t \<Rightarrow> int \<Rightarrow> ddl_data \<Rightarrow> ddl_data" where
  "comp_MM1 i glp speed d =
     (if gl_id glp > 80 then d
      else
        (let addr = mmadr_cod ! nat (gl_id glp);
             p = [addr, if gl_funcs glp AND 1 \<noteq> 0 then 3 else 0, u8 speed, u8 speed];
             d1 = send p QM1LOCOPKT 2 (update_MaerklinPacketPool i glp p p p p p d);
             x = gl_funcs glp div 2 AND 0xF
         in if gl_n_func glp > 1 then send [addr, 3, x, x] QM1FUNCPKT 2 d1 else d1))"

definition comp_MM :: "nat \<Rightarrow> gl_data_t \<Rightarrow> int \<Rightarrow> int \<Rightarrow> ddl_data \<Rightarrow> ddl_data" where
  "comp_MM i glp direction speed d =
     (if gl_id glp > 255 \<or> speed < 0 \<or> speed > gl_n_fs glp + 1 then d
      else if gl_protocolversion glp = 1 then comp_MM1 i glp speed d
      else comp_MM2 i glp direction speed d)"

definition comp_maerklin_ms :: "int \<Rightarrow> int \<Rightarrow> int \<Rightarrow> ddl_data \<Rightarrow> int \<times> ddl_data" where
  "comp_maerklin_ms address port action d =
     (if address < 1 \<or> address > 324 \<or> action < 0 \<or> action > 1 \<or> port < 0 \<or> port > 1 then (1, d)
      else
        (let id0 = (address - 1) div 4; id = (if id0 = 0 then 80 else id0);
             subid = ((address - 1) AND 3) * 2 + port;
             x = subid + (if action \<noteq> 0 then 8 else 0)
         in (0, send [mmadr_cod ! nat id, 0, x, x] QM1SOLEPKT 2 d)))"

definition comp_maerklin_loco :: "nat \<Rightarrow> gl_data_t \<Rightarrow> ddl_data \<Rightarrow> gl_data_t \<times> ddl_data" where
  "comp_maerklin_loco i glp d =
     (let speed = gl_speed glp; direction = gl_direction glp;
          (speed1, direction1, glp1) =
            (if gl_speedchange glp AND SCEMERG \<noteq> 0 then
               (0, gl_cacheddirection glp, glp\<lparr>gl_speedchange := gl_speedchange glp AND NOT SCEMERG\<rparr>)
             else if gl_speedchange glp AND SCDIREC \<noteq> 0 then
               (1, direction, glp\<lparr>gl_speedchange := gl_speedchange glp AND NOT SCDIREC\<rparr>)
             else (if speed \<noteq> 0 then speed + 1 else speed, direction, glp))
      in (glp1\<lparr>gl_speedchange := gl_speedchange glp1 AND NOT SCSPEED, gl_funcschange := 0\<rparr>,
          comp_MM i glp1 direction1 speed1 d))"

section \<open>Programming\<close>

definition progstep :: "int \<Rightarrow> int \<Rightarrow> int \<Rightarrow> int \<Rightarrow> ddl_data \<Rightarrow> ddl_data" where
  "progstep addr npre nact npast d =
     (let a = mmadr_cod ! nat addr; d1 = (if npre \<noteq> 0 then send [a, 0, 0, 0] QM1LOCOPKT npre d else d)
      in send [a, 0, 0, 0] QM1LOCOPKT npast (send [a, 0, 1, 1] QM1LOCOPKT nact d1))"

definition mm_reg_prog :: "bool \<Rightarrow> int \<Rightarrow> int \<Rightarrow> int \<Rightarrow> ddl_data \<Rightarrow> int \<times> ddl_data" where
  "mm_reg_prog ubmode addr0 regnr regval d =
     (let addr = (if addr0 \<le> 0 then 80 else addr0)
      in if addr > 255 \<or> regnr < 0 \<or> regnr > 255 \<or> regval < 0 \<or> regval > 255 then (1, d)
         else (0, progstep regval 10 60 50 (progstep regnr 10 60 50
                    (progstep addr 0 (if ubmode then 400 else 100) 20 d))))"

definition mm_search_loco :: "int \<Rightarrow> int" where
  "mm_search_loco prot = prot"

section \<open>What the decoders understand\<close>

text \<open>
  An address is four digits to the base 3: equal bits stand for 0 and 1, a one followed by a zero for
  2; all digits 0 is address 80.
\<close>

definition mm_digit :: "int \<Rightarrow> nat \<Rightarrow> int" where
  "mm_digit code k =
     (if bit code (2 * k) then if bit code (2 * k + 1) then 1 else 2 else if bit code (2 * k + 1) then 3 else 0)"

definition mm_address :: "int \<Rightarrow> int" where
  "mm_address code =
     (let a = mm_digit code 0 + 3 * mm_digit code 1 + 9 * mm_digit code 2 + 27 * mm_digit code 3
      in if a = 0 then 80 else a)"

lemma mmadr_cod_sorted: "sort mmadr_cod = [0..255]"
  by code_simp

lemma mmadr_cod_decodes: "\<forall>a \<in> set [1..80]. mm_address (mmadr_cod ! nat a) = a"
  by code_simp

text \<open>The table gives each of the 256 addresses a code of its own, and to the addresses 1 to 80 the
  code that the decoders of the Motorola protocol read as this address.
\<close>

theorem mm_address_codes:
  "distinct mmadr_cod \<and> set mmadr_cod = {0..255} \<and> (\<forall>a \<in> {1..80}. mm_address (mmadr_cod ! nat a) = a)"
proof -
  have "distinct mmadr_cod" by (metis mmadr_cod_sorted distinct_sort distinct_upto)
  moreover have "set mmadr_cod = {0..255}" by (metis mmadr_cod_sorted set_sort set_upto)
  ultimately show ?thesis using mmadr_cod_decodes by simp
qed

theorem mm_address_codes_witness: "mm_address (mmadr_cod ! nat 33) = 33"
  using mm_address_codes by (elim conjE) (drule bspec [of _ _ 33]; simp)

lemma mmadr_cod_range: "0 \<le> a \<Longrightarrow> a \<le> 255 \<Longrightarrow> 0 \<le> mmadr_cod ! nat a \<and> mmadr_cod ! nat a < 256"
proof -
  have l: "length mmadr_cod = 256" by code_simp
  assume "0 \<le> a" "a \<le> 255"
  then have "mmadr_cod ! nat a \<in> set (sort mmadr_cod)" using l by (simp add: set_sort)
  then show ?thesis unfolding mmadr_cod_sorted by auto
qed

text \<open>
  The extra data of protocol version 2: direction codes, function codes, and the two codes that stand
  for a function whose code would equal the speed.
\<close>

datatype mm2_cmd = Direction bool | Fn nat bool

definition mm2_functions :: "(int \<times> mm2_cmd) list" where
  "mm2_functions = [(3, Fn 1 False), (11, Fn 1 True), (4, Fn 2 False), (12, Fn 2 True),
     (6, Fn 3 False), (14, Fn 3 True), (7, Fn 4 False), (15, Fn 4 True)]"

definition mm2_decode :: "int \<Rightarrow> int \<Rightarrow> mm2_cmd option" where
  "mm2_decode data xdat =
     (if xdat = (if data AND 8 \<noteq> 0 then 2 else 10) then Some (Direction True)
      else if xdat = (if data AND 8 \<noteq> 0 then 5 else 13) then Some (Direction False)
      else if xdat = (if data AND 8 \<noteq> 0 then 10 else 5) then map_of mm2_functions data
      else map_of mm2_functions xdat)"

lemma mm2_xdat_flags:
  "f \<in> {1, 2, 3, 4} \<Longrightarrow> mm2_xdat data direction funcs f = mm2_xdat data 0 (if bit funcs f then 2 ^ f else 0) f"
proof -
  have "mm2_xdat data direction funcs 1 = mm2_xdat data 0 (if bit funcs 1 then 2 ^ 1 else 0) 1"
    using and_pow_bit [of funcs 1] by (simp add: mm2_xdat_def)
  moreover have "mm2_xdat data direction funcs 2 = mm2_xdat data 0 (if bit funcs 2 then 2 ^ 2 else 0) 2"
    using and_pow_bit [of funcs 2] by (simp add: mm2_xdat_def)
  moreover have "mm2_xdat data direction funcs 3 = mm2_xdat data 0 (if bit funcs 3 then 2 ^ 3 else 0) 3"
    using and_pow_bit [of funcs 3] by (simp add: mm2_xdat_def)
  moreover have "mm2_xdat data direction funcs 4 = mm2_xdat data 0 (if bit funcs 4 then 2 ^ 4 else 0) 4"
    using and_pow_bit [of funcs 4] by (simp add: mm2_xdat_def)
  moreover assume "f \<in> {1, 2, 3, 4}"
  ultimately show ?thesis by blast
qed

lemma mm2_table:
  "\<forall>data \<in> set [0..15]. (\<forall>dir \<in> set [0, 1]. mm2_decode data (mm2_xdat data dir 0 0) = Some (Direction (dir \<noteq> 0))) \<and>
     (\<forall>f \<in> set [1, 2, 3, 4]. mm2_decode data (mm2_xdat data 0 0 f) = Some (Fn f False) \<and>
        mm2_decode data (mm2_xdat data 0 (2 ^ f) f) = Some (Fn f True))"
  by code_simp

lemma mm2_xdat_decodes:
  assumes "0 \<le> data" "data \<le> 15"
  shows "mm2_decode data (mm2_xdat data direction funcs 0) = Some (Direction (direction \<noteq> 0))"
    and "f \<in> {1, 2, 3, 4} \<Longrightarrow> mm2_decode data (mm2_xdat data direction funcs f) = Some (Fn f (bit funcs f))"
proof -
  have d: "data \<in> set [0..15]" using assms by simp
  have "mm2_xdat data direction funcs 0 = mm2_xdat data (if direction \<noteq> 0 then 1 else 0) 0 0"
    by (simp add: mm2_xdat_def mm_dir_code_def)
  then show "mm2_decode data (mm2_xdat data direction funcs 0) = Some (Direction (direction \<noteq> 0))"
    using bspec [OF mm2_table d] by simp
  show "mm2_decode data (mm2_xdat data direction funcs f) = Some (Fn f (bit funcs f))" if "f \<in> {1, 2, 3, 4}"
  proof -
    have "f \<in> set [1, 2, 3, 4]" using that by simp
    with bspec [OF mm2_table d] have "mm2_decode data (mm2_xdat data 0 0 f) = Some (Fn f False)"
      "mm2_decode data (mm2_xdat data 0 (2 ^ f) f) = Some (Fn f True)" by blast+
    then show ?thesis by (subst mm2_xdat_flags [OF that]) simp
  qed
qed

lemma mm2_xdat_range: "0 \<le> mm2_xdat data direction funcs f" "mm2_xdat data direction funcs f < 16"
  by (simp_all add: mm2_xdat_def mm_dir_code_def Let_def)

text \<open>The speed of a decoder with 14 and with 28 steps: with 28, unequal function bits are a half step.\<close>

definition mm_speed :: "int \<Rightarrow> int \<Rightarrow> int \<Rightarrow> int" where
  "mm_speed n_fs func data =
     (if n_fs = 28 \<and> data > 1 then 2 * (data - 1) + (if bit func 0 \<noteq> bit func 1 then 1 else 0) else data)"

lemma mm2_speed_decodes:
  assumes "n_fs = 14 \<or> n_fs = 28" "0 \<le> speed" "speed \<le> n_fs + 1"
  shows "\<exists>func data. mm2_speed n_fs (if light then 3 else 0) speed = Some (None, func, data) \<and>
    0 \<le> func \<and> func < 4 \<and> 0 \<le> data \<and> data \<le> 15 \<and> (bit func 0 \<longleftrightarrow> light) \<and> mm_speed n_fs func data = speed"
proof -
  have "bit (1 :: int) 0" "\<not> bit (1 :: int) 1" "\<not> bit (2 :: int) 0" "bit (2 :: int) 1" "bit (3 :: int) 0" "bit (3 :: int) 1"
    by (simp_all add: bit_iff_odd)
  moreover have "2 * (speed div 2) = (if odd speed then speed - 1 else speed)" by (simp add: minus_mod_eq_mult_div [symmetric] odd_iff_mod_2_eq_one)
  ultimately show ?thesis
    using assms by (cases light) (auto simp: mm2_speed_def mm_speed_def)
qed

lemma update_mm_frame [simp]:
  "transfers (update_MaerklinPacketPool i glp p f1 f2 f3 f4 d) = transfers d"
  "spi_works (update_MaerklinPacketPool i glp p f1 f2 f3 f4 d) = spi_works d"
  "spiLastMM (update_MaerklinPacketPool i glp p f1 f2 f3 f4 d) = spiLastMM d"
  by (simp_all add: update_MaerklinPacketPool_def Let_def spi_works_def)

lemma mm_sent_twice:
  assumes "spi_works d" "ty \<in> {QM1LOCOPKT, QM2LOCOPKT, QM1FUNCPKT, QM1SOLEPKT}"
  shows "\<exists>pre hz. transfers (send p ty 2 d) = transfers d @ pre @ [(hz, mm_stream ty p), (hz, mm_stream ty p)] \<and>
    spi_works (send p ty 2 d)"
  using send_mm_transfers [of d ty p 2] assms by (auto simp: numeral_eq_Suc)

lemma send_mm_extends:
  assumes "spi_works d" "ty \<in> {QM2FXPKT, QM2LOCOPKT, QM1LOCOPKT, QM1FUNCPKT}"
  shows "\<exists>post. transfers (send p ty n d) = transfers d @ post"
  using send_mm_transfers(1) [of d ty p n] assms by auto

text \<open>C9. The signal of a locomotive reaches its decoder: with protocol version 2 and 14 or 28 speed steps,
  both copies in each of two transfers carry the code of the address, the light, the commanded
  speed and the direction.
\<close>

theorem mm_loco_received:
  assumes "spi_works d" and "gl_protocolversion glp \<noteq> 1" and "gl_n_fs glp = 14 \<or> gl_n_fs glp = 28"
    and "0 \<le> speed" and "speed \<le> gl_n_fs glp + 1" and "0 \<le> gl_id glp" and "gl_id glp \<le> 255"
    and "off = 2 \<or> off = 50"
  shows "\<exists>pre hz bs post func data xdat.
    transfers (comp_MM i glp direction speed d) = transfers d @ pre @ [(hz, bs), (hz, bs)] @ post \<and>
    mm_fields (mm_bits off bs) = [mmadr_cod ! nat (gl_id glp), func, data, xdat] \<and>
    (bit func 0 \<longleftrightarrow> bit (gl_funcs glp) 0) \<and> mm_speed (gl_n_fs glp) func data = speed \<and>
    mm2_decode data xdat = Some (Direction (direction \<noteq> 0))"
proof -
  let ?light = "gl_funcs glp AND 1 \<noteq> 0" and ?a = "mmadr_cod ! nat (gl_id glp)"
  obtain func data where s: "mm2_speed (gl_n_fs glp) (if ?light then 3 else 0) speed = Some (None, func, data)"
    and r: "0 \<le> func" "func < 4" "0 \<le> data" "data \<le> 15"
    and f: "bit func 0 \<longleftrightarrow> ?light" "mm_speed (gl_n_fs glp) func data = speed"
    using mm2_speed_decodes [OF assms(3-5), of ?light] by blast
  define p where "p = (\<lambda>f. [?a, func, data, mm2_xdat data direction (gl_funcs glp) f])"
  define d1 where "d1 = update_MaerklinPacketPool i glp (p 0) (p 1) (p 2) (p 3) (p 4) d"
  define d2 where "d2 = send (p 0) QM2LOCOPKT 2 d1"
  have d1: "spi_works d1" "transfers d1 = transfers d" using assms(1) by (simp_all add: d1_def)
  from mm_sent_twice [OF d1(1), of QM2LOCOPKT "p 0"] obtain pre hz
    where d2: "transfers d2 = transfers d @ pre @ [(hz, mm_stream QM2LOCOPKT (p 0)), (hz, mm_stream QM2LOCOPKT (p 0))]"
      "spi_works d2"
    using d1(2) by (auto simp: d2_def)
  have "comp_MM i glp direction speed d =
      (case find (\<lambda>f. gl_funcschange glp AND 2 ^ f \<noteq> 0) [1, 2, 3, 4] of None \<Rightarrow> d2 | Some f \<Rightarrow> send (p f) QM2FXPKT 1 d2)"
    using assms s by (simp add: comp_MM_def comp_MM2_def d2_def d1_def p_def Let_def)
  then obtain post where t: "transfers (comp_MM i glp direction speed d) = transfers d2 @ post"
    using send_mm_extends [OF d2(2), of QM2FXPKT] by (cases "find (\<lambda>f. gl_funcschange glp AND 2 ^ f \<noteq> 0) [1, 2, 3, 4]") auto
  have "mm_fields (mm_bits off (mm_stream QM2LOCOPKT (p 0))) = p 0"
    using mm_signal_received [of "p 0" ?a func data "mm2_xdat data direction (gl_funcs glp) 0" off QM2LOCOPKT]
      mmadr_cod_range [of "gl_id glp"] r assms mm2_xdat_range by (simp add: p_def)
  moreover have "bit (gl_funcs glp) 0 \<longleftrightarrow> ?light" using and_pow_bit [of "gl_funcs glp" 0] by simp
  ultimately show ?thesis
    using t d2 f mm2_xdat_decodes(1) [OF r(3,4)]
    by (intro exI [of _ pre] exI [of _ hz] exI [of _ "mm_stream QM2LOCOPKT (p 0)"] exI [of _ post]
        exI [of _ func] exI [of _ data] exI [of _ "mm2_xdat data direction (gl_funcs glp) 0"]) (simp add: p_def)
qed

text \<open>The signal of an accessory reaches its decoder: for the addresses 1 to 320 both copies in each of
  two transfers name the decoder, the pair of outputs, the output and whether it is switched on.
\<close>

theorem mm_accessory_received:
  assumes "spi_works d" and "1 \<le> address" "address \<le> 320" and "0 \<le> port" "port \<le> 1" and "0 \<le> action" "action \<le> 1"
    and "off = 2 \<or> off = 50"
  shows "\<exists>pre hz bs code x.
    fst (comp_maerklin_ms address port action d) = 0 \<and>
    transfers (snd (comp_maerklin_ms address port action d)) = transfers d @ pre @ [(hz, bs), (hz, bs)] \<and>
    mm_fields (mm_bits off bs) = [code, 0, x, x] \<and>
    4 * (mm_address code mod 80) + x mod 8 div 2 + 1 = address \<and> x mod 2 = port \<and> (8 \<le> x \<longleftrightarrow> action = 1)"
proof -
  define id0 where "id0 = (address - 1) div 4"
  define k where "k = (if id0 = 0 then 80 else id0)"
  define r where "r = (address - 1) mod 4"
  define x where "x = r * 2 + port + (if action \<noteq> 0 then 8 else 0)"
  have id0: "0 \<le> id0" "id0 < 80" "address - 1 = 4 * id0 + r" using assms by (auto simp: id0_def r_def)
  have r: "0 \<le> r" "r < 4" by (simp_all add: r_def)
  have "x = port + 2 * (r + (if action \<noteq> 0 then 4 else 0))" by (simp add: x_def)
  then have "x mod 2 = port mod 2" by (simp only: mod_mult_self2)
  then have x: "0 \<le> x" "x < 16" "x mod 8 div 2 = r" "x mod 2 = port" "8 \<le> x \<longleftrightarrow> action = 1"
    using r assms(4-7) by (auto simp: x_def)
  have k: "1 \<le> k" "k \<le> 80" "k mod 80 = id0" using id0 by (auto simp: k_def)
  let ?p = "[mmadr_cod ! nat k, 0, x, x]"
  have c: "mm_address (mmadr_cod ! nat k) = k" using mmadr_cod_decodes k by simp
  have a3: "(address - 1) AND 3 = r" using take_bit_eq_mask [of 2 "address - 1"] by (simp add: r_def take_bit_eq_mod mask_eq_exp_minus_1)
  have eq: "comp_maerklin_ms address port action d = (0, send ?p QM1SOLEPKT 2 d)"
    using assms by (simp add: comp_maerklin_ms_def Let_def a3 x_def k_def id0_def)
  from mm_sent_twice [OF assms(1), of QM1SOLEPKT ?p] obtain pre hz
    where t: "transfers (send ?p QM1SOLEPKT 2 d) = transfers d @ pre @ [(hz, mm_stream QM1SOLEPKT ?p), (hz, mm_stream QM1SOLEPKT ?p)]"
    by auto
  have "mm_fields (mm_bits off (mm_stream QM1SOLEPKT ?p)) = ?p"
    using mm_signal_received [of ?p "mmadr_cod ! nat k" 0 x x off QM1SOLEPKT] mmadr_cod_range [of k] k x assms(8) by simp
  then show ?thesis
    using t eq c k x id0 by (intro exI [of _ pre] exI [of _ hz] exI [of _ "mm_stream QM1SOLEPKT ?p"]
        exI [of _ "mmadr_cod ! nat k"] exI [of _ x]) simp
qed

text \<open>The addresses 321 to 324, which \<open>comp_maerklin_ms\<close> accepts as well, are those of the first decoder again.\<close>

theorem mm_accessory_alias:
  assumes "1 \<le> a" "a \<le> 4"
  shows "comp_maerklin_ms (320 + a) port action d = comp_maerklin_ms a port action d"
proof -
  have "(320 + a - 1) div 4 = 80" "(a - 1) div 4 = 0" using assms by auto
  moreover have "(320 + a - 1) AND 3 = (a - 1) AND 3"
    using take_bit_eq_mask [of 2 "320 + a - 1"] take_bit_eq_mask [of 2 "a - 1"]
    by (simp add: take_bit_eq_mod mask_eq_exp_minus_1) presburger
  ultimately show ?thesis using assms by (simp add: comp_maerklin_ms_def Let_def)
qed

theorem mm_loco_received_witness:
  "\<exists>pre hz bs post func data xdat.
    transfers (comp_MM 1 (gl_zero\<lparr>gl_id := 33, gl_protocolversion := 2, gl_n_fs := 28\<rparr>) 1 17 ddl_start) =
      transfers ddl_start @ pre @ [(hz, bs), (hz, bs)] @ post \<and>
    mm_fields (mm_bits 2 bs) = [mmadr_cod ! nat (gl_id (gl_zero\<lparr>gl_id := 33, gl_protocolversion := 2, gl_n_fs := 28\<rparr>)),
      func, data, xdat] \<and>
    (bit func 0 \<longleftrightarrow> bit (gl_funcs (gl_zero\<lparr>gl_id := 33, gl_protocolversion := 2, gl_n_fs := 28\<rparr>)) 0) \<and>
    mm_speed (gl_n_fs (gl_zero\<lparr>gl_id := 33, gl_protocolversion := 2, gl_n_fs := 28\<rparr>)) func data = 17 \<and>
    mm2_decode data xdat = Some (Direction ((1 :: int) \<noteq> 0))"
  by (rule mm_loco_received) simp_all

theorem mm_accessory_received_witness:
  "\<exists>pre hz bs code x. fst (comp_maerklin_ms 7 1 1 ddl_start) = 0 \<and>
    transfers (snd (comp_maerklin_ms 7 1 1 ddl_start)) = transfers ddl_start @ pre @ [(hz, bs), (hz, bs)] \<and>
    mm_fields (mm_bits 50 bs) = [code, 0, x, x] \<and>
    4 * (mm_address code mod 80) + x mod 8 div 2 + 1 = 7 \<and> x mod 2 = 1 \<and> (8 \<le> x \<longleftrightarrow> (1 :: int) = 1)"
  by (rule mm_accessory_received) simp_all

theorem mm_accessory_alias_witness:
  "comp_maerklin_ms (320 + 1) 0 1 ddl_start = comp_maerklin_ms 1 0 1 ddl_start"
  by (rule mm_accessory_alias) simp_all

end
