(* ===== verification/Ddl_Nmra.thy ===== *)
theory Ddl_Nmra
  imports Ddl_Signal
begin

unbundle bit_operations_syntax

text \<open>
  \<open>ddl_nmra.c\<close>: packets of the NMRA (DCC) protocol. The code assembles a packet as a string of the
  characters 0 and 1 and packs it into bytes; service mode packets are written as bytes in the
  short format. The code for UARTs that is compiled out with \<open>#if 0\<close> is left out.
\<close>

section \<open>Bit strings\<close>

definition BUFFERSIZE :: nat where [code_unfold]: "BUFFERSIZE = 256"

definition preamble :: string where
  "preamble = replicate 15 (CHR ''1'')"

text \<open>
  The number of bytes and the packet stream, or \<open>None\<close> when the bit string is too long, where the C
  function returns 0.
\<close>

definition packed_byte :: "string \<Rightarrow> nat \<Rightarrow> int" where
  "packed_byte bits k =
     sum_list (map (\<lambda>j. if 8 * k + j < length bits \<and> bits ! (8 * k + j) = CHR ''1'' then 2 ^ j else 0) [0..<8])"

definition translateBitstream2Packetstream :: "string \<Rightarrow> (nat \<times> bytes) option" where
  "translateBitstream2Packetstream bits =
     (if length bits > 255 then None
      else Some (length bits div 8 + 2, int (length bits) # map (packed_byte bits) [0..<PKTSIZE - 1]))"

definition calc_single_byte :: "int \<Rightarrow> string" where
  "calc_single_byte v = map (\<lambda>n. if v AND 2 ^ n \<noteq> 0 then CHR ''1'' else CHR ''0'') [7, 6, 5, 4, 3, 2, 1, 0]"

definition calc_14bit_address_byte :: "int \<Rightarrow> string \<times> string" where
  "calc_14bit_address_byte address = (calc_single_byte (0xC0 OR (address div 256)), calc_single_byte address)"

definition calc_baseline_speed_byte :: "int \<Rightarrow> int \<Rightarrow> int \<Rightarrow> string" where
  "calc_baseline_speed_byte direction speed func =
     (let b = calc_single_byte (0x40 OR (direction * 32) OR speed)
      in if func AND 1 \<noteq> 0 then b[3 := CHR ''1''] else b)"

definition calc_28spst_speed_byte :: "int \<Rightarrow> int \<Rightarrow> string" where
  "calc_28spst_speed_byte direction speed =
     (if speed > 1 then
        (let s = speed + 2; b = calc_single_byte (0x40 OR (direction * 32) OR (s div 2))
         in if s AND 1 \<noteq> 0 then b[3 := CHR ''1''] else b)
      else calc_single_byte (0x40 OR (direction * 32) OR speed))"

definition calc_function_group_one_byte :: "int \<Rightarrow> string" where
  "calc_function_group_one_byte func0 =
     (let func = func0 AND 0x1F; b = calc_single_byte (0x80 OR (func div 2))
      in if func AND 1 \<noteq> 0 then b[3 := CHR ''1''] else b)"

definition calc_function_group_two_byte :: "int \<Rightarrow> bool \<Rightarrow> string" where
  "calc_function_group_two_byte func lower =
     (if lower then calc_single_byte (((func div 32) AND 0xF) OR 0xB0)
      else calc_single_byte (((func div 512) AND 0xF) OR 0xA0))"

definition calc_128spst_adv_op_bytes :: "int \<Rightarrow> int \<Rightarrow> string \<times> string" where
  "calc_128spst_adv_op_bytes direction speed =
     (''00111111'', let b = calc_single_byte speed in if direction = 1 then b[0 := CHR ''1''] else b)"

definition xor_two_bytes :: "string \<Rightarrow> string \<Rightarrow> string" where
  "xor_two_bytes a b = map2 (\<lambda>x y. if x = y then CHR ''0'' else CHR ''1'') a b"

section \<open>Accessories\<close>

definition comp_nmra_accessory :: "int \<Rightarrow> int \<Rightarrow> int \<Rightarrow> int \<Rightarrow> ddl_data \<Rightarrow> int \<times> ddl_data" where
  "comp_nmra_accessory nr output activate offset d =
     (if nr < 1 \<or> nr > 2044 \<or> output < 0 \<or> output > 1 \<or> activate < 0 \<or> activate > 1 then (1, d)
      else
        (let address = (nr - 1) div 4 + offset; pairnr = (nr - 1) mod 4;
             byte1 = calc_single_byte (0x80 OR (address AND 0x3F));
             byte2 = calc_single_byte (0x80 OR (((NOT address) AND 0x1C0) div 4) OR (activate * 8) OR (pairnr * 2) OR output);
             byte3 = xor_two_bytes byte2 byte1;
             bitstream = preamble @ ''0'' @ byte1 @ ''0'' @ byte2 @ ''0'' @ byte3 @ ''1''
         in case translateBitstream2Packetstream bitstream of
              None \<Rightarrow> (1, d)
            | Some (j, packetstream) \<Rightarrow> (0, send packetstream QNBACCPKT 2 d)))"

section \<open>Locomotives\<close>

definition wait_bits :: string where
  "wait_bits = replicate 35 (CHR ''1'')"

text \<open>Appends to the first bit string and writes the second one.\<close>

definition calc_function_stream :: "string \<Rightarrow> string \<Rightarrow> string \<Rightarrow> int \<Rightarrow> int \<Rightarrow> string \<times> string" where
  "calc_function_stream bitstream addrerrbyte addrstream func nfuncs =
     (let f1 = calc_function_group_one_byte func;
          f5 = calc_function_group_two_byte func True;
          f9 = calc_function_group_two_byte func False;
          f13 = calc_single_byte (func div 8192);
          f21 = calc_single_byte (func div 2097152);
          c13 = ''11011110''; c21 = c13[7 := CHR ''1''];
          part = (\<lambda>f. addrstream @ f @ ''0'' @ xor_two_bytes addrerrbyte f @ ''1'');
          part2 = (\<lambda>c f. addrstream @ c @ ''0'' @ f @ ''0'' @ xor_two_bytes (xor_two_bytes addrerrbyte c) f @ ''1'')
      in (bitstream @ (if nfuncs > 5 then wait_bits @ part f5 else [])
            @ (if nfuncs > 12 then wait_bits @ part2 c13 f13 else []),
          part f1 @ (if nfuncs > 8 then wait_bits @ part f9 else [])
            @ (if nfuncs > 20 then wait_bits @ part2 c21 f21 else [])))"

definition calc_address_stream :: "int \<Rightarrow> int \<Rightarrow> string \<times> string" where
  "calc_address_stream address md =
     (let (addrbyte, addrbyte2, addrerrbyte) =
        (if md = 1 then (let a = calc_single_byte (address AND 0x7F) in (a, [], a))
         else (let (a, a2) = calc_14bit_address_byte address in (a, a2, xor_two_bytes a a2)))
      in (preamble @ ''0'' @ addrbyte @ ''0'' @ (if md = 2 then addrbyte2 @ ''0'' else []), addrerrbyte))"

definition nmra_speed_stream :: "int \<Rightarrow> int \<Rightarrow> int \<Rightarrow> int \<Rightarrow> string \<Rightarrow> string \<Rightarrow> string" where
  "nmra_speed_stream nspeed direction speed func addrstream addrerrbyte =
     (let (spdrbyte, spdrbyte2) =
        (if speed < 2 \<or> nspeed < 15 then (calc_baseline_speed_byte direction speed func, [])
         else if nspeed > 29 then calc_128spst_adv_op_bytes direction speed
         else (calc_28spst_speed_byte direction speed, []));
          errdbyte = xor_two_bytes addrerrbyte spdrbyte
      in addrstream @ spdrbyte @ ''0''
         @ (if nspeed > 29 \<and> speed > 1 then spdrbyte2 @ ''0'' @ xor_two_bytes errdbyte spdrbyte2 else errdbyte) @ ''1'')"

text \<open>The speed and direction that are sent.\<close>

definition nmra_speed :: "gl_data_t \<Rightarrow> int \<times> int" where
  "nmra_speed glp =
     (let (speed, direction) =
        (if gl_speedchange glp AND SCEMERG \<noteq> 0 then (1, gl_cacheddirection glp)
         else (if gl_speed glp \<noteq> 0 then gl_speed glp + 1 else gl_speed glp, gl_direction glp))
      in (if speed > 127 then 127 else speed, direction))"

definition comp_nmra_multi_func :: "nat \<Rightarrow> gl_data_t \<Rightarrow> ddl_data \<Rightarrow> gl_data_t \<times> ddl_data" where
  "comp_nmra_multi_func i glp d =
     (let md = gl_protocolversion glp; address = gl_id glp; (speed, direction) = nmra_speed glp;
          func = gl_funcs glp; nspeed = gl_n_fs glp; nfuncs = gl_n_func glp;
          sc = (if gl_speedchange glp AND SCEMERG \<noteq> 0 then gl_speedchange glp AND NOT SCEMERG else gl_speedchange glp);
          glp1 = glp\<lparr>gl_speedchange := sc AND NOT (SCSPEED OR SCDIREC)\<rparr>
      in if address < 1 \<or> address > 10239 \<or> direction < 0 \<or> direction > 1 \<or> speed < 0 \<or> speed > nspeed + 1
            \<or> (address > 127 \<and> md = 1) then (glp1, d)
         else
           (let (addrstream, addrerrbyte) = calc_address_stream address md;
                speedstream = nmra_speed_stream nspeed direction speed func addrstream addrerrbyte;
                fx = (nfuncs \<noteq> 0 \<and> nspeed > 14);
                (bitstream, bitstream2) = (if fx then calc_function_stream speedstream addrerrbyte addrstream (s32 func) nfuncs
                                           else (speedstream, speedstream))
            in case (translateBitstream2Packetstream bitstream, translateBitstream2Packetstream bitstream2) of
                 (Some (j, packetstream), Some (jj, packetstream2)) \<Rightarrow>
                   (let d1 = send packetstream QNBLOCOPKT 2 (update_NMRAPacketPool i glp1 packetstream j packetstream2 jj d)
                    in (glp1, if fx then send packetstream QNBLOCOPKT 2 d1 else d1))
               | _ \<Rightarrow> (glp1, d)))"

section \<open>Programming on the main track\<close>

definition calc_byte_program_stream :: "string \<Rightarrow> int \<Rightarrow> int \<Rightarrow> bool \<Rightarrow> string" where
  "calc_byte_program_stream addrerrbyte cv val verify =
     (let byte3 = calc_single_byte cv;
          b2 = calc_single_byte (0xEC OR (cv div 256)); byte2 = (if verify then b2[4 := CHR ''0''] else b2);
          byte4 = calc_single_byte val;
          byte5 = xor_two_bytes (xor_two_bytes (xor_two_bytes addrerrbyte byte2) byte3) byte4
      in byte2 @ ''0'' @ byte3 @ ''0'' @ byte4 @ ''0'' @ byte5 @ ''1'')"

definition calc_bit_program_stream :: "string \<Rightarrow> int \<Rightarrow> int \<Rightarrow> int \<Rightarrow> bool \<Rightarrow> string" where
  "calc_bit_program_stream addrerrbyte cv bitnr val verify =
     (let byte3 = calc_single_byte cv; byte2 = calc_single_byte (0xE8 OR (cv div 256));
          b4 = calc_single_byte (0xF0 OR (val * 8) OR bitnr); byte4 = (if verify then b4[3 := CHR ''0''] else b4);
          byte5 = xor_two_bytes (xor_two_bytes (xor_two_bytes addrerrbyte byte2) byte3) byte4
      in byte2 @ ''0'' @ byte3 @ ''0'' @ byte4 @ ''0'' @ byte5 @ ''1'')"

definition protocol_nmra_sm_write_cvbyte_pom :: "int \<Rightarrow> int \<Rightarrow> int \<Rightarrow> int \<Rightarrow> ddl_data \<Rightarrow> int \<times> ddl_data" where
  "protocol_nmra_sm_write_cvbyte_pom address cv0 val md d =
     (let cv = cv0 - 1
      in if address < 1 \<or> address > 10239 \<or> cv < 1 \<or> cv > 1023 \<or> val < 0 \<or> val > 255 \<or> (address > 127 \<and> md = 1)
         then (-1, d)
         else
           (let (addrstream, addrerrbyte) = calc_address_stream address md
            in case translateBitstream2Packetstream (addrstream @ calc_byte_program_stream addrerrbyte cv val False) of
                 None \<Rightarrow> (-1, d)
               | Some (j, packetstream) \<Rightarrow> (val, send packetstream QNBLOCOPKT 3 d)))"

definition protocol_nmra_sm_write_cvbit_pom :: "int \<Rightarrow> int \<Rightarrow> int \<Rightarrow> int \<Rightarrow> int \<Rightarrow> ddl_data \<Rightarrow> int \<times> ddl_data" where
  "protocol_nmra_sm_write_cvbit_pom address cv0 bitnr val md d =
     (let cv = cv0 - 1
      in if address < 1 \<or> address > 10239 \<or> cv < 1 \<or> cv > 1023 \<or> bitnr < 0 \<or> bitnr > 7 \<or> val < 0 \<or> val > 1
            \<or> (address > 127 \<and> md = 1) then (-1, d)
         else
           (let (addrstream, addrerrbyte) = calc_address_stream address md
            in case translateBitstream2Packetstream (addrstream @ calc_bit_program_stream addrerrbyte cv bitnr val False) of
                 None \<Rightarrow> (-1, d)
               | Some (j, packetstream) \<Rightarrow> (val, send packetstream QNBLOCOPKT 3 d)))"

section \<open>Service mode\<close>

definition idlepacket :: bytes where "idlepacket = [18, 3, 0xFF, 0x00, 0xFF]"
definition resetpacket :: bytes where "resetpacket = [30, 3, 0x00, 0x00, 0x00]"

definition nmra_idle :: "int \<Rightarrow> ddl_data \<Rightarrow> ddl_data" where
  "nmra_idle nmbr d = send idlepacket QNBLOCOPKT nmbr d"

definition prog_packet :: "int \<Rightarrow> int \<Rightarrow> int \<Rightarrow> bytes" where
  "prog_packet b2 b3 b4 = [30, 4, u8 b2, u8 b3, u8 b4, u8 b2 XOR u8 b3 XOR u8 b4]"

text \<open>A reset packet, the instruction and another reset packet; the result tells the acknowledgement.\<close>

definition sm_direct :: "bytes \<Rightarrow> bool \<Rightarrow> ddl_data \<Rightarrow> int \<times> ddl_data" where
  "sm_direct progpacket verify d =
     (let (acks0, d1) = send_packet resetpacket QNPROGPKT 10 d
      in if acks0 > 5 then (-2, d1)
         else
           (let (acks, d2) = send_packet progpacket QNPROGPKT (if verify then 6 else 10) d1
            in (if acks > 1 then 1 else 0, send resetpacket QNBLOCOPKT 2 d2)))"

definition protocol_nmra_sm_direct_cvbyte :: "int \<Rightarrow> int \<Rightarrow> bool \<Rightarrow> ddl_data \<Rightarrow> int \<times> ddl_data" where
  "protocol_nmra_sm_direct_cvbyte cv0 val verify d =
     (let cv = cv0 - 1
      in if cv < 0 \<or> cv > 1023 \<or> val < 0 \<or> val > 255 then (-1, d)
         else sm_direct (prog_packet ((if verify then 0x74 else 0x7C) OR (cv div 256)) cv val) verify d)"

definition protocol_nmra_sm_direct_cvbit :: "int \<Rightarrow> int \<Rightarrow> int \<Rightarrow> bool \<Rightarrow> ddl_data \<Rightarrow> int \<times> ddl_data" where
  "protocol_nmra_sm_direct_cvbit cv0 bitnr val verify d =
     (let cv = cv0 - 1
      in if cv < 0 \<or> cv > 1023 \<or> bitnr < 0 \<or> bitnr > 7 \<or> val < 0 \<or> val > 1 then (-1, d)
         else sm_direct (prog_packet (0x78 OR (cv div 256)) cv ((if verify then 0xE0 else 0xF0) OR (val * 8) OR bitnr)) verify d)"

fun get_cvbyte_loop :: "int \<Rightarrow> nat \<Rightarrow> int \<Rightarrow> ddl_data \<Rightarrow> int \<times> ddl_data" where
  "get_cvbyte_loop cv 0 rc d = (rc, d)"
| "get_cvbyte_loop cv (Suc bitnr) rc d =
     (let (r, d1) = protocol_nmra_sm_direct_cvbit cv (int bitnr) 1 True d in get_cvbyte_loop cv bitnr (rc * 2 + r) d1)"

definition protocol_nmra_sm_get_cvbyte :: "int \<Rightarrow> ddl_data \<Rightarrow> int \<times> ddl_data" where
  "protocol_nmra_sm_get_cvbyte cv d = get_cvbyte_loop cv 8 0 d"

text \<open>Registers and pages are checked but not programmed.\<close>

definition protocol_nmra_sm_phregister :: "int \<Rightarrow> int \<Rightarrow> bool \<Rightarrow> int" where
  "protocol_nmra_sm_phregister reg val verify = -1"

definition protocol_nmra_sm_page :: "int \<Rightarrow> int \<Rightarrow> int \<Rightarrow> bool \<Rightarrow> int" where
  "protocol_nmra_sm_page page reg val verify = -1"

definition protocol_nmra_sm_get_phregister :: "int \<Rightarrow> int" where
  "protocol_nmra_sm_get_phregister reg =
     (case find (\<lambda>i. protocol_nmra_sm_phregister reg i True \<noteq> 0) [0..255] of None \<Rightarrow> 256 | Some i \<Rightarrow> i)"

definition calc_page :: "int \<Rightarrow> int" where
  "calc_page cv = tdiv (cv - 1) 4 + 1"

definition protocol_nmra_sm_get_page :: "int \<Rightarrow> int" where
  "protocol_nmra_sm_get_page cv =
     (case find (\<lambda>i. protocol_nmra_sm_page (calc_page cv) ((cv - 1) AND 3) i True \<noteq> 0) [0..255] of None \<Rightarrow> 256 | Some i \<Rightarrow> i)"

section \<open>Bit strings and bytes\<close>

definition bits :: "string \<Rightarrow> bool list" where
  "bits s = map (\<lambda>c. c = CHR ''1'') s"

lemma bits_simps [simp]:
  "bits [] = []" "bits (c # s) = (c = CHR ''1'') # bits s" "bits (s @ t) = bits s @ bits t" "length (bits s) = length s"
  "bits (replicate n c) = replicate n (c = CHR ''1'')"
  by (simp_all add: bits_def)

text \<open>Every byte string of the code is that of a number.\<close>

abbreviation cs :: "int \<Rightarrow> string" where
  "cs \<equiv> calc_single_byte"

lemma length_cs [simp]: "length (cs v) = 8"
  by (simp add: calc_single_byte_def)

lemma bits_cs: "bits (cs v) = map (bit v) [7, 6, 5, 4, 3, 2, 1, 0]"
  by (simp add: bits_def calc_single_byte_def and_pow_bit [of _ 0, simplified] and_pow_bit [of _ 1, simplified]
      and_pow_bit [of _ 2, simplified] and_pow_bit [of _ 3, simplified] and_pow_bit [of _ 4, simplified]
      and_pow_bit [of _ 5, simplified] and_pow_bit [of _ 6, simplified] and_pow_bit [of _ 7, simplified])

lemma cs_bits: "cs v = map (\<lambda>n. if bit v n then CHR ''1'' else CHR ''0'') [7, 6, 5, 4, 3, 2, 1, 0]"
  unfolding calc_single_byte_def by (simp only: and_pow_bit)

lemma xor_cs: "xor_two_bytes (cs a) (cs b) = cs (a XOR b)"
proof -
  have "xor_two_bytes (map f ns) (map g ns) = map (\<lambda>n. if f n = g n then CHR ''0'' else CHR ''1'') ns"
    for f g and ns :: "nat list"
    by (induction ns) (simp_all add: xor_two_bytes_def)
  moreover have "(if (if bit a n then CHR ''1'' else CHR ''0'') = (if bit b n then CHR ''1'' else CHR ''0'')
      then CHR ''0'' else CHR ''1'') = (if bit (a XOR b) n then CHR ''1'' else CHR ''0'')" for n
    by (simp add: bit_xor_iff)
  ultimately show ?thesis by (simp only: cs_bits)
qed

lemma cs_set:
  "(cs v)[3 := CHR ''1''] = cs (v OR 16)" "(cs v)[0 := CHR ''1''] = cs (v OR 128)"
proof -
  have b: "bit (16 :: int) n \<longleftrightarrow> n = 4" "bit (128 :: int) n \<longleftrightarrow> n = 7" for n
    using bit_exp_iff [of 4 n, where 'a = int] bit_exp_iff [of 7 n, where 'a = int] by simp_all
  show "(cs v)[3 := CHR ''1''] = cs (v OR 16)" "(cs v)[0 := CHR ''1''] = cs (v OR 128)"
    by (simp_all add: cs_bits bit_or_iff b numeral_eq_Suc)
qed

lemma cs_consts: "''00111111'' = cs 0x3F" "''11011110'' = cs 0xDE"
  by code_simp+

lemma cs_value: "horner_sum of_bool 2 (rev (bits (cs v))) = take_bit 8 v"
proof -
  have "[0..<8] = [0, 1, 2, 3, 4, 5, 6, 7 :: nat]" by (simp add: upt_rec)
  then have "rev (bits (cs v)) = map (bit v) [0..<8]" by (simp add: bits_cs)
  then show ?thesis by (simp add: horner_sum_bit_eq_take_bit)
qed

section \<open>A DCC receiver\<close>

text \<open>
  At least ten ones, then bytes each after a zero, then a one. \<open>dcc_bytes\<close> reads bytes, \<open>dcc_parse\<close> the
  packets of a signal, \<open>n\<close> is the number of ones seen.
\<close>

fun dcc_bytes :: "bool list \<Rightarrow> bytes \<times> bool list" where
  "dcc_bytes (b0 # b1 # b2 # b3 # b4 # b5 # b6 # b7 # e # r) =
     (let v = horner_sum of_bool 2 [b7, b6, b5, b4, b3, b2, b1, b0]
      in if e then ([v], r) else (case dcc_bytes r of (vs, r') \<Rightarrow> (v # vs, r')))"
| "dcc_bytes _ = ([], [])"

lemma dcc_bytes_shorter: "length (snd (dcc_bytes r)) \<le> length r"
  by (induction r rule: dcc_bytes.induct) (auto simp: Let_def split: prod.splits)

function dcc_parse :: "nat \<Rightarrow> bool list \<Rightarrow> bytes list" where
  "dcc_parse n [] = []"
| "dcc_parse n (True # r) = dcc_parse (Suc n) r"
| "dcc_parse n (False # r) =
     (if 10 \<le> n then fst (dcc_bytes r) # dcc_parse 1 (snd (dcc_bytes r)) else dcc_parse 0 r)"
  by pat_completeness auto

termination
  by (relation "measure (\<lambda>(n, r). length r)") (auto simp: le_imp_less_Suc dcc_bytes_shorter)

definition dcc_frame :: "bytes \<Rightarrow> string" where
  "dcc_frame vs = concat (map (\<lambda>v. CHR ''0'' # cs v) vs) @ ''1''"

lemma dcc_bytes_frame:
  "vs \<noteq> [] \<Longrightarrow> dcc_bytes (tl (bits (dcc_frame vs)) @ r) = (map (take_bit 8) vs, r)"
proof (induction vs)
  case (Cons v vs)
  have v: "horner_sum of_bool 2 [bit v 0, bit v 1, bit v 2, bit v 3, bit v 4, bit v 5, bit v 6, bit v 7] = take_bit 8 v"
    using cs_value [of v] by (simp add: bits_cs)
  show ?case
  proof (cases vs)
    case Nil
    then show ?thesis using v by (simp add: dcc_frame_def bits_cs Let_def)
  next
    case (Cons w ws)
    with Cons.IH have "dcc_bytes (tl (bits (dcc_frame vs)) @ r) = (map (take_bit 8) vs, r)" by simp
    then show ?thesis using v Cons by (simp add: dcc_frame_def bits_cs Let_def)
  qed
qed simp

lemma dcc_parse_ones: "dcc_parse n (replicate k True @ r) = dcc_parse (n + k) r"
  by (induction k arbitrary: n) simp_all

lemma dcc_parse_frame:
  assumes "10 \<le> n" "vs \<noteq> []"
  shows "dcc_parse n (bits (dcc_frame vs) @ r) = map (take_bit 8) vs # dcc_parse 1 r"
proof -
  obtain x where "bits (dcc_frame vs) = False # x"
    using assms(2) by (cases vs) (simp_all add: dcc_frame_def)
  with dcc_bytes_frame [OF assms(2), of r] show ?thesis using assms(1) by simp
qed

text \<open>A signal of several packets, with at least 15 ones before each.\<close>

lemma dcc_parse_packet:
  assumes "15 \<le> k" "vs \<noteq> []"
  shows "dcc_parse n (replicate k True @ bits (dcc_frame vs) @ r) = map (take_bit 8) vs # dcc_parse 1 r"
  using assms by (simp add: dcc_parse_ones dcc_parse_frame)

section \<open>From the bit string to the track\<close>

lemma packed_byte_bit: "j < 8 \<Longrightarrow> bit (packed_byte s k) j \<longleftrightarrow> 8 * k + j < length s \<and> s ! (8 * k + j) = CHR ''1''"
proof -
  let ?c = "\<lambda>j. 8 * k + j < length s \<and> s ! (8 * k + j) = CHR ''1''"
  have "packed_byte s k = (\<Sum>j = 0..<8. of_bool (?c j) * 2 ^ j)"
    unfolding packed_byte_def interv_sum_list_conv_sum_set_nat by (rule sum.cong) simp_all
  also have "\<dots> = horner_sum of_bool 2 (map ?c [0..<8])"
    by (simp add: horner_sum_eq_sum atLeast0LessThan)
  finally show "j < 8 \<Longrightarrow> ?thesis" by (simp add: bit_horner_sum_bit_iff)
qed

lemma packed_byte_ones: "take 8 s = replicate 8 (CHR ''1'') \<Longrightarrow> packed_byte s 0 = 255"
proof -
  assume s: "take 8 s = replicate 8 (CHR ''1'')"
  then have "length s \<ge> 8" by (metis length_replicate length_take min.cobounded1)
  moreover have "s ! j = CHR ''1''" if "j < 8" for j using s that by (metis nth_replicate nth_take)
  ultimately have "packed_byte s 0 = sum_list (map (\<lambda>j. 2 ^ j) [0..<8])"
    unfolding packed_byte_def by (intro arg_cong [of _ _ sum_list] map_cong) auto
  then show ?thesis by (simp add: upt_rec)
qed

lemma packet_bits_translate:
  assumes "translateBitstream2Packetstream s = Some (j, p)"
  shows "packet_bits p = bits s" "p ! 1 = packed_byte s 0"
proof -
  have l: "length s \<le> 255" and p: "p = int (length s) # map (packed_byte s) [0..<PKTSIZE - 1]"
    using assms by (auto simp: translateBitstream2Packetstream_def split: if_splits)
  have nth: "p ! (k + 1) = packed_byte s k" if "k < 79" for k
    using that by (simp add: p PKTSIZE_def)
  show "p ! 1 = packed_byte s 0" using nth [of 0] by simp
  have "p ! (i div 8 + 1) AND 2 ^ (i mod 8) \<noteq> 0 \<longleftrightarrow> s ! i = CHR ''1''" if "i < length s" for i
    using that l nth [of "i div 8"] packed_byte_bit [of "i mod 8" s "i div 8"] by (simp add: and_pow_bit)
  then show "packet_bits p = bits s"
    by (intro nth_equalityI) (simp_all add: packet_bits_def p bits_def)
qed

text \<open>What a receiver reads from a packet stream that begins with a preamble.\<close>

lemma stream_received:
  assumes "translateBitstream2Packetstream (preamble @ s) = Some (j, p)"
  shows "dcc_read (tl (convertNMRAPacketToSPIStream p)) = bits (preamble @ s) @ [True]"
proof -
  have "p ! 1 = 0xFF"
    using packet_bits_translate(2) [OF assms] packed_byte_ones [of "preamble @ s"] by (simp add: preamble_def)
  then show ?thesis by (simp only: long_stream list.sel dcc_read_bits packet_bits_translate(1) [OF assms])
qed

fun dcc_stream :: "bytes list \<Rightarrow> string" where
  "dcc_stream [] = []"
| "dcc_stream [vs] = preamble @ dcc_frame vs"
| "dcc_stream (vs # ps) = preamble @ dcc_frame vs @ wait_bits @ dcc_stream ps"

lemma dcc_parse_stream:
  "\<forall>vs \<in> set ps. vs \<noteq> [] \<Longrightarrow> dcc_parse n (replicate k True @ bits (dcc_stream ps) @ [True]) = map (map (take_bit 8)) ps"
proof (induction ps arbitrary: n k rule: dcc_stream.induct)
  case 1
  then show ?case by (simp add: dcc_parse_ones)
next
  case (2 vs)
  have eq: "replicate k True @ bits (dcc_stream [vs]) @ [True] = replicate (k + 15) True @ bits (dcc_frame vs) @ [True]"
    by (simp add: preamble_def replicate_add)
  show ?case unfolding eq using 2 dcc_parse_packet [of "k + 15" vs n "[True]"] by simp
next
  case (3 vs w ws)
  let ?r = "replicate 35 True @ bits (dcc_stream (w # ws)) @ [True]"
  have eq: "replicate k True @ bits (dcc_stream (vs # w # ws)) @ [True] = replicate (k + 15) True @ bits (dcc_frame vs) @ ?r"
    by (simp add: preamble_def wait_bits_def replicate_add)
  show ?case unfolding eq using 3 dcc_parse_packet [of "k + 15" vs n ?r] by simp
qed

definition received :: "bytes \<Rightarrow> bytes list" where
  "received bs = dcc_parse 0 (dcc_read (tl bs))"

lemma received_stream:
  assumes "translateBitstream2Packetstream (dcc_stream ps) = Some (j, p)" "ps \<noteq> []" "\<forall>vs \<in> set ps. vs \<noteq> []"
  shows "received (convertNMRAPacketToSPIStream p) = map (map (take_bit 8)) ps"
proof -
  obtain s where s: "dcc_stream ps = preamble @ s"
    using assms(2) by (cases ps rule: dcc_stream.cases) auto
  from assms(1) have "received (convertNMRAPacketToSPIStream p) = dcc_parse 0 (bits (dcc_stream ps) @ [True])"
    unfolding s received_def by (simp only: stream_received)
  then show ?thesis using dcc_parse_stream [OF assms(3), of 0 0] by simp
qed

section \<open>Packets as bytes\<close>

definition dcc_packet :: "bytes \<Rightarrow> bytes \<Rightarrow> bytes" where
  "dcc_packet addr instr = addr @ instr @ [foldr (XOR) (addr @ instr) 0]"

definition addr_bytes :: "int \<Rightarrow> int \<Rightarrow> bytes" where
  "addr_bytes address md = (if md = 1 then [address AND 0x7F] else [0xC0 OR (address div 256), address])"

lemma foldr_xor: "NO_MATCH 0 v \<Longrightarrow> foldr (XOR) xs v = foldr (XOR) xs 0 XOR (v :: int)"
  by (induction xs) (simp_all add: xor.assoc)

lemma calc_address_stream_bytes:
  assumes "md = 1 \<or> md = 2"
  shows "calc_address_stream address md =
    (preamble @ concat (map (\<lambda>v. CHR ''0'' # cs v) (addr_bytes address md)) @ ''0'', cs (foldr (XOR) (addr_bytes address md) 0))"
  using assms by (auto simp: calc_address_stream_def addr_bytes_def calc_14bit_address_byte_def xor_cs Let_def)

lemma frame_one:
  "(preamble @ concat (map (\<lambda>v. CHR ''0'' # cs v) a) @ ''0'') @ cs v @ ''0'' @ xor_two_bytes (cs (foldr (XOR) a 0)) (cs v) @ ''1''
     = dcc_stream [dcc_packet a [v]]"
  by (simp add: dcc_packet_def dcc_frame_def xor_cs foldr_xor)

lemma frame_two:
  "(preamble @ concat (map (\<lambda>v. CHR ''0'' # cs v) a) @ ''0'') @ cs v @ ''0'' @ cs w @ ''0'' @
     xor_two_bytes (xor_two_bytes (cs (foldr (XOR) a 0)) (cs v)) (cs w) @ ''1''
     = dcc_stream [dcc_packet a [v, w]]"
  by (simp add: dcc_packet_def dcc_frame_def xor_cs foldr_xor [of "v XOR w"] xor.assoc)

lemma dcc_packet_nonempty [simp]: "dcc_packet a i \<noteq> []"
  by (simp add: dcc_packet_def)

lemma length_dcc_stream:
  "length (dcc_stream [dcc_packet a i]) = 16 + 9 * (length a + length i + 1)"
proof -
  have "length (concat (map (\<lambda>v. CHR ''0'' # cs v) vs)) = 9 * length vs" for vs
    by (induction vs) simp_all
  then show ?thesis by (simp add: dcc_frame_def dcc_packet_def preamble_def)
qed

section \<open>What a decoder understands\<close>

text \<open>
  The instructions of NMRA RP-9.2.1 that the driver sends: drive with 14 and 28 steps, drive with 128
  steps, and the function groups.
\<close>

definition xor_ok :: "bytes \<Rightarrow> bool" where
  "xor_ok p \<longleftrightarrow> foldr (XOR) p 0 = 0"

fun dcc_address :: "bytes \<Rightarrow> int \<times> bytes" where
  "dcc_address (b # r) = (if b < 128 then (b, r) else ((b - 192) * 256 + hd r, tl r))"
| "dcc_address [] = (0, [])"

definition dcc_steps :: "int \<Rightarrow> int \<Rightarrow> int" where
  "dcc_steps nspeed b =
     (if nspeed < 15 then b mod 16
      else (let v = 2 * (b mod 16) + of_bool (bit b 4) in if v < 2 then 0 else if v < 4 then 1 else v - 2))"

fun dcc_drive :: "int \<Rightarrow> bytes \<Rightarrow> (bool \<times> int) option" where
  "dcc_drive nspeed [b] = (if b div 64 = 1 then Some (bit b 5, dcc_steps nspeed b) else None)"
| "dcc_drive nspeed [b, c] = (if b = 0x3F then Some (bit c 7, c mod 128) else None)"
| "dcc_drive nspeed _ = None"

fun dcc_functions :: "bytes \<Rightarrow> (nat \<times> bool) list" where
  "dcc_functions [b] =
     (if b div 32 = 4 then [(0, bit b 4), (1, bit b 0), (2, bit b 1), (3, bit b 2), (4, bit b 3)]
      else if b div 16 = 11 then map (\<lambda>k. (5 + k, bit b k)) [0..<4]
      else if b div 16 = 10 then map (\<lambda>k. (9 + k, bit b k)) [0..<4] else [])"
| "dcc_functions [b, c] =
     (if b = 0xDE then map (\<lambda>k. (13 + k, bit c k)) [0..<8] else if b = 0xDF then map (\<lambda>k. (21 + k, bit c k)) [0..<8] else [])"
| "dcc_functions _ = []"

section \<open>The packets of a locomotive\<close>

lemma xor_ok_packet [simp]: "xor_ok (dcc_packet a i)"
proof -
  have "foldr (XOR) (xs @ [foldr (XOR) xs 0]) 0 = (0 :: int)" for xs
    using foldr_xor [of "foldr (XOR) xs 0" xs] by simp
  from this [of "a @ i"] show ?thesis by (simp add: xor_ok_def dcc_packet_def)
qed

lemma take_bit_packet:
  "map (take_bit 8) (dcc_packet a i) = dcc_packet (map (take_bit 8) a) (map (take_bit 8) i)"
proof -
  have "take_bit 8 (foldr (XOR) xs 0) = foldr (XOR) (map (take_bit 8) xs) (0 :: int)" for xs
    by (induction xs) (simp_all add: take_bit_xor)
  from this [of "a @ i"] show ?thesis by (simp add: dcc_packet_def)
qed

lemma butlast_packet [simp]: "butlast (dcc_packet a i) = a @ i"
  by (simp add: dcc_packet_def butlast_append)

lemma dcc_address_bytes:
  assumes "1 \<le> address" "address \<le> 10239" "md = 1 \<and> address \<le> 127 \<or> md = 2"
  shows "dcc_address (map (take_bit 8) (addr_bytes address md) @ i) = (address, i)"
proof (cases "md = 1")
  case True
  then have "address AND 0x7F = take_bit 7 address" using take_bit_eq_mask [of 7 address] by (simp add: mask_eq_exp_minus_1)
  then show ?thesis using True assms by (simp add: addr_bytes_def take_bit_int_eq_self)
next
  case False
  let ?h = "address div 256"
  have h: "0 \<le> ?h" "?h < 64" using assms by auto
  have "?h \<in> set [0..63]" using h by simp
  moreover have "\<forall>h \<in> set [0..63]. 0xC0 OR h = 192 + (h :: int)" by code_simp
  ultimately have "0xC0 OR ?h = 192 + ?h" by blast
  then show ?thesis
    using False assms h by (simp add: addr_bytes_def take_bit_eq_mod)
qed

definition speed_instr :: "int \<Rightarrow> int \<Rightarrow> int \<Rightarrow> int \<Rightarrow> bytes" where
  "speed_instr nspeed direction speed func =
     (if speed < 2 \<or> nspeed < 15 then
        [0x40 OR (direction * 32) OR speed OR (if func AND 1 \<noteq> 0 then 16 else 0)]
      else if nspeed > 29 then [0x3F, speed OR (if direction = 1 then 128 else 0)]
      else [0x40 OR (direction * 32) OR ((speed + 2) div 2) OR (if (speed + 2) AND 1 \<noteq> 0 then 16 else 0)])"

lemma speed_stream_bytes:
  assumes "md = 1 \<or> md = 2"
  shows "nmra_speed_stream nspeed direction speed func (fst (calc_address_stream address md)) (snd (calc_address_stream address md)) =
    dcc_stream [dcc_packet (addr_bytes address md) (speed_instr nspeed direction speed func)]"
proof -
  have set3: "(if b then (cs v)[3 := CHR ''1''] else cs v) = cs (v OR (if b then 16 else 0))" for b v
    by (simp add: cs_set(1))
  have set0: "(if b then (cs v)[0 := CHR ''1''] else cs v) = cs (v OR (if b then 128 else 0))" for b v
    by (simp add: cs_set(2))
  consider "speed < 2 \<or> nspeed < 15" | "\<not> (speed < 2 \<or> nspeed < 15)" "nspeed > 29" | "\<not> (speed < 2 \<or> nspeed < 15)" "\<not> nspeed > 29"
    by blast
  then show ?thesis
  proof cases
    case 1
    moreover have "\<not> (nspeed > 29 \<and> speed > 1)" using 1 by auto
    ultimately show ?thesis
      unfolding calc_address_stream_bytes [OF assms] fst_conv snd_conv frame_one [symmetric]
      by (simp only: nmra_speed_stream_def speed_instr_def calc_baseline_speed_byte_def Let_def set3 if_True if_False
          prod.case or.assoc frame_one)
  next
    case 2
    moreover have "nspeed > 29 \<and> speed > 1" using 2 by auto
    ultimately show ?thesis
      unfolding calc_address_stream_bytes [OF assms] fst_conv snd_conv
      by (simp only: nmra_speed_stream_def speed_instr_def calc_128spst_adv_op_bytes_def Let_def set0 if_True if_False
          prod.case cs_consts simp_thms append_assoc frame_two [unfolded append_assoc])
  next
    case 3
    moreover have "speed > 1" "\<not> (nspeed > 29 \<and> speed > 1)" using 3 by auto
    ultimately show ?thesis
      unfolding calc_address_stream_bytes [OF assms] fst_conv snd_conv
      by (simp only: nmra_speed_stream_def speed_instr_def calc_28spst_speed_byte_def Let_def set3 if_True if_False
          prod.case or.assoc append_assoc frame_one [unfolded append_assoc])
  qed
qed

lemma speed_tables:
  "\<forall>d \<in> set [0, 1]. \<forall>s \<in> set [0..15]. \<forall>l \<in> set [0, 16].
     (let v = 0x40 OR (d * 32) OR s OR l :: int
      in v div 64 = 1 \<and> (bit v 5 \<longleftrightarrow> d = 1) \<and> v mod 16 = s \<and> (bit v 4 \<longleftrightarrow> l = 16) \<and> v < 256 \<and> 0 \<le> v)"
  "\<forall>s \<in> set [0..127]. \<forall>l \<in> set [0, 128].
     (let v = s OR l :: int in (bit v 7 \<longleftrightarrow> l = 128) \<and> v mod 128 = s \<and> v < 256 \<and> 0 \<le> v)"
  by code_simp+

lemma take_bit_byte: "0 \<le> v \<Longrightarrow> v < 256 \<Longrightarrow> take_bit 8 v = (v :: int)"
  by (simp add: take_bit_int_eq_self)

lemma speed_instr_drives:
  assumes "direction = 0 \<or> direction = 1" "0 \<le> speed" "speed \<le> nspeed + 1" "speed \<le> 127" "nspeed = 14 \<or> nspeed = 28 \<or> nspeed = 128"
  shows "dcc_drive nspeed (map (take_bit 8) (speed_instr nspeed direction speed func)) = Some (direction = 1, speed)"
proof -
  have d: "direction \<in> set [0, 1]" using assms(1) by auto
  note t = speed_tables(1) [rule_format, OF d]
  show ?thesis
  proof (cases "speed < 2 \<or> nspeed < 15")
    case True
    let ?l = "if func AND 1 \<noteq> 0 then 16 else 0 :: int"
    have s: "speed \<in> set [0..15]" "?l \<in> set [0, 16]" using True assms by auto
    define v where "v = 0x40 OR (direction * 32) OR speed OR ?l"
    have v: "v div 64 = 1" "bit v 5 \<longleftrightarrow> direction = 1" "v mod 16 = speed" "0 \<le> v" "v < 256"
      using t [OF s] by (simp_all add: Let_def v_def)
    have "dcc_steps nspeed v = speed"
    proof (cases "nspeed < 15")
      case False
      then have "speed = 0 \<or> speed = 1" using True assms(2) by auto
      then show ?thesis using v(3) False by (auto simp: dcc_steps_def Let_def)
    qed (simp add: dcc_steps_def v)
    moreover have "speed_instr nspeed direction speed func = [v]" using True by (simp only: speed_instr_def v_def if_True)
    ultimately show ?thesis using v by (simp add: take_bit_byte)
  next
    case False
    show ?thesis
    proof (cases "nspeed > 29")
      case True
      let ?l = "if direction = 1 then 128 else 0 :: int"
      have s: "speed \<in> set [0..127]" "?l \<in> set [0, 128]" using assms by auto
      show ?thesis using speed_tables(2) [rule_format, OF s] True False assms(1)
        by (auto simp: speed_instr_def take_bit_byte Let_def)
    next
      case small: False
      let ?s = "(speed + 2) div 2" and ?l = "if (speed + 2) AND 1 \<noteq> 0 then 16 else 0 :: int"
      have s: "?s \<in> set [0..15]" "?l \<in> set [0, 16]" using assms False small by auto
      have "(speed + 2) AND 1 \<noteq> 0 \<longleftrightarrow> odd speed" by (simp add: and_one_eq odd_iff_mod_2_eq_one)
      moreover have "2 * ?s + of_bool (odd speed) = speed + 2" by (cases "odd speed") (auto elim: oddE evenE)
      moreover define v where "v = 0x40 OR (direction * 32) OR ?s OR ?l"
      moreover have v: "v div 64 = 1" "bit v 5 \<longleftrightarrow> direction = 1" "v mod 16 = ?s" "bit v 4 \<longleftrightarrow> ?l = 16" "0 \<le> v" "v < 256"
        using t [OF s] by (simp_all add: Let_def v_def)
      ultimately have "dcc_steps nspeed v = speed" using False by (simp add: dcc_steps_def Let_def)
      moreover have "speed_instr nspeed direction speed func = [v]"
        using False small by (simp only: speed_instr_def v_def if_False)
      ultimately show ?thesis using v by (simp add: take_bit_byte)
    qed
  qed
qed

section \<open>The function groups\<close>

definition fx_group1 :: "int \<Rightarrow> int" where
  "fx_group1 func = 0x80 OR ((func AND 0x1F) div 2) OR (if (func AND 0x1F) AND 1 \<noteq> 0 then 16 else 0)"

definition fx_groups :: "bytes \<Rightarrow> int \<Rightarrow> int \<Rightarrow> bytes list \<times> bytes list" where
  "fx_groups a func nfuncs =
     ((if nfuncs > 5 then [dcc_packet a [((func div 32) AND 0xF) OR 0xB0]] else [])
        @ (if nfuncs > 12 then [dcc_packet a [0xDE, func div 8192]] else []),
      dcc_packet a [fx_group1 func] # (if nfuncs > 8 then [dcc_packet a [((func div 512) AND 0xF) OR 0xA0]] else [])
        @ (if nfuncs > 20 then [dcc_packet a [0xDF, func div 2097152]] else []))"

lemma dcc_stream_snoc:
  "ps \<noteq> [] \<Longrightarrow> dcc_stream (ps @ [q]) = dcc_stream ps @ wait_bits @ dcc_stream [q]"
proof (induction ps rule: dcc_stream.induct)
  case (3 vs w ws)
  then show ?case by (cases "ws @ [q]") auto
qed simp_all

lemma function_stream_bytes:
  assumes "md = 1 \<or> md = 2" "ps \<noteq> []"
  shows "calc_function_stream (dcc_stream ps) (snd (calc_address_stream address md)) (fst (calc_address_stream address md)) func nfuncs =
    (dcc_stream (ps @ fst (fx_groups (addr_bytes address md) func nfuncs)), dcc_stream (snd (fx_groups (addr_bytes address md) func nfuncs)))"
proof -
  let ?a = "addr_bytes address md"
  let ?s = "preamble @ concat (map (\<lambda>v. CHR ''0'' # cs v) ?a) @ ''0''"
  let ?e = "cs (foldr (XOR) ?a 0)"
  have set3: "(if b then (cs v)[3 := CHR ''1''] else cs v) = cs (v OR (if b then 16 else 0))" for b v
    by (simp add: cs_set(1))
  have f1: "calc_function_group_one_byte func = cs (fx_group1 func)"
    by (simp only: calc_function_group_one_byte_def fx_group1_def Let_def set3 or.assoc)
  have c: "''11011110'' = cs 0xDE" "(cs 0xDE)[7 := CHR ''1''] = cs 0xDF" by code_simp+
  have one: "?s @ cs v @ ''0'' @ xor_two_bytes ?e (cs v) @ ''1'' = dcc_stream [dcc_packet ?a [v]]" for v
    by (rule frame_one)
  have two: "?s @ cs v @ ''0'' @ cs w @ ''0'' @ xor_two_bytes (xor_two_bytes ?e (cs v)) (cs w) @ ''1'' = dcc_stream [dcc_packet ?a [v, w]]" for v w
    by (rule frame_two)
  have snoc: "dcc_stream qs @ (if b then wait_bits @ dcc_stream [q] else []) = dcc_stream (qs @ (if b then [q] else []))"
    if "qs \<noteq> []" for qs b q
    using that by (simp add: dcc_stream_snoc)
  have ne: "ps @ x \<noteq> []" for x using assms(2) by simp
  show ?thesis
    unfolding calc_function_stream_def calc_address_stream_bytes [OF assms(1)] fst_conv snd_conv Let_def f1 c
      calc_function_group_two_byte_def if_True if_False one two fx_groups_def
    by (simp only: append_assoc [symmetric] snoc [OF assms(2)] snoc [OF ne] snoc [of "[_]"] snoc [of "_ # _"]
        append_Cons append_Nil list.distinct simp_thms)
qed

lemma length_dcc_streams:
  "ps \<noteq> [] \<Longrightarrow> length (dcc_stream ps) + 35 = sum_list (map (\<lambda>p. 51 + 9 * length p) ps)"
proof (induction ps rule: dcc_stream.induct)
  case (2 vs)
  have "length (concat (map (\<lambda>v. CHR ''0'' # cs v) vs)) = 9 * length vs" by (induction vs) simp_all
  then show ?case by (simp add: dcc_frame_def preamble_def)
next
  case (3 vs w ws)
  have "length (concat (map (\<lambda>v. CHR ''0'' # cs v) vs)) = 9 * length vs" by (induction vs) simp_all
  then show ?case using 3 by (simp add: dcc_frame_def preamble_def wait_bits_def)
qed simp

lemma length_packet [simp]: "length (dcc_packet a i) = length a + length i + 1"
  by (simp add: dcc_packet_def)

lemma length_addr_bytes: "length (addr_bytes address md) \<le> 2"
  by (simp add: addr_bytes_def)

lemma length_speed_instr: "length (speed_instr nspeed direction speed func) \<le> 2"
  by (simp add: speed_instr_def)

text \<open>The bit strings never exceed the 255 bits that \<open>translateBitstream2Packetstream\<close> can pack.\<close>

lemma loco_streams_short:
  assumes "a = addr_bytes address md" "s = dcc_packet a (speed_instr nspeed direction speed func)"
  shows "length (dcc_stream (s # fst (fx_groups a f nfuncs))) \<le> 244"
    "length (dcc_stream (snd (fx_groups a f nfuncs))) \<le> 244"
  using length_addr_bytes [of address md] length_speed_instr [of nspeed direction speed func]
    length_dcc_streams [of "s # fst (fx_groups a f nfuncs)"] length_dcc_streams [of "snd (fx_groups a f nfuncs)"]
  by (auto simp: assms fx_groups_def split: if_splits)

section \<open>A decoder with an address\<close>

definition heard :: "int \<Rightarrow> bytes list \<Rightarrow> bytes list" where
  "heard adr ps = map (snd \<circ> dcc_address \<circ> butlast) (filter (\<lambda>p. xor_ok p \<and> fst (dcc_address (butlast p)) = adr) ps)"

definition heard_drive :: "int \<Rightarrow> int \<Rightarrow> bytes list \<Rightarrow> (bool \<times> int) list" where
  "heard_drive nspeed adr ps = List.map_filter (dcc_drive nspeed) (heard adr ps)"

definition heard_functions :: "int \<Rightarrow> bytes list \<Rightarrow> (nat \<times> bool) list" where
  "heard_functions adr ps = concat (map dcc_functions (heard adr ps))"

lemma heard_append [simp]: "heard adr (ps @ qs) = heard adr ps @ heard adr qs" "heard adr [] = []"
  by (simp_all add: heard_def)

lemma heard_Cons: "heard adr (p # ps) = heard adr [p] @ heard adr ps"
  by (simp add: heard_def)

definition loco_address :: "int \<Rightarrow> int \<Rightarrow> bool" where
  "loco_address address md \<longleftrightarrow> 1 \<le> address \<and> address \<le> 10239 \<and> (md = 1 \<and> address \<le> 127 \<or> md = 2)"

lemma heard_packet:
  assumes "loco_address address md"
  shows "heard adr [map (take_bit 8) (dcc_packet (addr_bytes address md) i)] = (if adr = address then [map (take_bit 8) i] else [])"
  using assms by (simp add: heard_def take_bit_packet dcc_address_bytes loco_address_def)

lemma heard_packets:
  "loco_address address md \<Longrightarrow> heard adr (map (map (take_bit 8)) (map (dcc_packet (addr_bytes address md)) is)) =
     (if adr = address then map (map (take_bit 8)) is else [])"
proof (induction "is")
  case (Cons i "is")
  then show ?case
    using heard_Cons [of adr "map (take_bit 8) (dcc_packet (addr_bytes address md) i)"] heard_packet [of address md adr i] by simp
qed simp

section \<open>The packets of a locomotive\<close>

definition fx_enabled :: "gl_data_t \<Rightarrow> bool" where
  "fx_enabled glp \<longleftrightarrow> gl_n_func glp \<noteq> 0 \<and> gl_n_fs glp > 14"

definition fx_instrs :: "int \<Rightarrow> int \<Rightarrow> bytes list \<times> bytes list" where
  "fx_instrs func nfuncs =
     ((if nfuncs > 5 then [[((func div 32) AND 0xF) OR 0xB0]] else []) @ (if nfuncs > 12 then [[0xDE, func div 8192]] else []),
      [fx_group1 func] # (if nfuncs > 8 then [[((func div 512) AND 0xF) OR 0xA0]] else [])
        @ (if nfuncs > 20 then [[0xDF, func div 2097152]] else []))"

definition loco_instrs :: "gl_data_t \<Rightarrow> bytes list \<times> bytes list" where
  "loco_instrs glp =
     (let (speed, direction) = nmra_speed glp; s = speed_instr (gl_n_fs glp) direction speed (gl_funcs glp);
          (f1, f2) = fx_instrs (s32 (gl_funcs glp)) (gl_n_func glp)
      in if fx_enabled glp then (s # f1, f2) else ([s], [s]))"

lemma fx_groups_instrs:
  "fx_groups a func nfuncs = (map (dcc_packet a) (fst (fx_instrs func nfuncs)), map (dcc_packet a) (snd (fx_instrs func nfuncs)))"
  by (simp add: fx_groups_def fx_instrs_def)

definition nmra_accepts :: "gl_data_t \<Rightarrow> bool" where
  "nmra_accepts glp \<longleftrightarrow> loco_address (gl_id glp) (gl_protocolversion glp) \<and>
     (let (speed, direction) = nmra_speed glp in (direction = 0 \<or> direction = 1) \<and> 0 \<le> speed \<and> speed \<le> gl_n_fs glp + 1)"

definition loco_stream :: "gl_data_t \<Rightarrow> bytes list \<Rightarrow> string" where
  "loco_stream glp is = dcc_stream (map (dcc_packet (addr_bytes (gl_id glp) (gl_protocolversion glp))) is)"

lemma loco_instrs_eq:
  assumes "nmra_speed glp = (speed, direction)" "s = speed_instr (gl_n_fs glp) direction speed (gl_funcs glp)"
  shows "loco_instrs glp = (let f = fx_instrs (s32 (gl_funcs glp)) (gl_n_func glp)
    in if fx_enabled glp then (s # fst f, snd f) else ([s], [s]))"
  by (simp add: loco_instrs_def assms case_prod_unfold Let_def)

lemma loco_stream_short:
  "length (loco_stream glp (fst (loco_instrs glp))) \<le> 244" "length (loco_stream glp (snd (loco_instrs glp))) \<le> 244"
proof -
  let ?a = "addr_bytes (gl_id glp) (gl_protocolversion glp)"
  obtain speed direction where sd: "nmra_speed glp = (speed, direction)" by force
  define s where "s = speed_instr (gl_n_fs glp) direction speed (gl_funcs glp)"
  have "length (dcc_stream [dcc_packet ?a s]) \<le> 244"
    using length_addr_bytes [of "gl_id glp" "gl_protocolversion glp"] length_speed_instr [of "gl_n_fs glp" direction speed "gl_funcs glp"]
    by (simp add: length_dcc_stream s_def del: dcc_stream.simps)
  then show "length (loco_stream glp (fst (loco_instrs glp))) \<le> 244" "length (loco_stream glp (snd (loco_instrs glp))) \<le> 244"
    using loco_streams_short [OF refl refl, of "gl_id glp" "gl_protocolversion glp", unfolded fx_groups_instrs fst_conv snd_conv]
    by (simp_all add: loco_stream_def loco_instrs_eq [OF sd s_def] Let_def s_def del: dcc_stream.simps)
qed

definition packed :: "string \<Rightarrow> nat \<times> bytes" where
  "packed s = (length s div 8 + 2, int (length s) # map (packed_byte s) [0..<PKTSIZE - 1])"

lemma translate_packed: "length s \<le> 244 \<Longrightarrow> translateBitstream2Packetstream s = Some (packed s)"
  by (simp add: translateBitstream2Packetstream_def packed_def)

definition handled :: "gl_data_t \<Rightarrow> gl_data_t" where
  "handled glp = glp\<lparr>gl_speedchange := (if gl_speedchange glp AND SCEMERG \<noteq> 0 then gl_speedchange glp AND NOT SCEMERG
     else gl_speedchange glp) AND NOT (SCSPEED OR SCDIREC)\<rparr>"

lemma comp_nmra_packed:
  assumes "nmra_accepts glp" "packed (loco_stream glp (fst (loco_instrs glp))) = (j, p)"
    "packed (loco_stream glp (snd (loco_instrs glp))) = (jj, q)"
  shows "comp_nmra_multi_func i glp d =
    (let d1 = send p QNBLOCOPKT 2 (update_NMRAPacketPool i (handled glp) p j q jj d)
     in (handled glp, if fx_enabled glp then send p QNBLOCOPKT 2 d1 else d1))"
proof -
  obtain speed direction where sd: "nmra_speed glp = (speed, direction)" by force
  let ?md = "gl_protocolversion glp" and ?adr = "gl_id glp"
  obtain addrstream addrerrbyte where a: "calc_address_stream ?adr ?md = (addrstream, addrerrbyte)" by force
  have md: "?md = 1 \<or> ?md = 2" using assms(1) by (auto simp: nmra_accepts_def loco_address_def)
  have ok: "\<not> (?adr < 1 \<or> ?adr > 10239 \<or> direction < 0 \<or> direction > 1 \<or> speed < 0 \<or> speed > gl_n_fs glp + 1 \<or> (?adr > 127 \<and> ?md = 1))"
    using assms(1) sd by (auto simp: nmra_accepts_def loco_address_def)
  note speed = speed_stream_bytes [OF md, of "gl_n_fs glp" direction speed "gl_funcs glp" ?adr, unfolded a fst_conv snd_conv]
  note func = function_stream_bytes [OF md, of _ ?adr, unfolded a fst_conv snd_conv fx_groups_instrs]
  have st: "(if gl_n_func glp \<noteq> 0 \<and> 14 < gl_n_fs glp then
      calc_function_stream (nmra_speed_stream (gl_n_fs glp) direction speed (gl_funcs glp) addrstream addrerrbyte) addrerrbyte addrstream
        (s32 (gl_funcs glp)) (gl_n_func glp)
      else (nmra_speed_stream (gl_n_fs glp) direction speed (gl_funcs glp) addrstream addrerrbyte,
            nmra_speed_stream (gl_n_fs glp) direction speed (gl_funcs glp) addrstream addrerrbyte)) =
    (loco_stream glp (fst (loco_instrs glp)), loco_stream glp (snd (loco_instrs glp)))"
    by (simp add: speed func loco_stream_def loco_instrs_eq [OF sd refl] fx_enabled_def Let_def del: dcc_stream.simps)
  have tr: "translateBitstream2Packetstream (loco_stream glp (fst (loco_instrs glp))) = Some (j, p)"
    "translateBitstream2Packetstream (loco_stream glp (snd (loco_instrs glp))) = Some (jj, q)"
    by (simp_all only: translate_packed loco_stream_short assms)
  show ?thesis
    unfolding comp_nmra_multi_func_def sd a Let_def prod.case if_not_P [OF ok] st tr option.case handled_def [symmetric] fx_enabled_def
    by (rule refl)
qed

lemma translate_inverse: "translateBitstream2Packetstream s = Some (j, p) \<Longrightarrow> packed s = (j, p)"
  by (auto simp: translateBitstream2Packetstream_def packed_def split: if_splits)

lemma received_loco:
  assumes "packed (loco_stream glp is) = (j, p)" "length (loco_stream glp is) \<le> 244" "is \<noteq> []"
    "loco_address (gl_id glp) (gl_protocolversion glp)"
  shows "heard adr (received (convertNMRAPacketToSPIStream p)) = (if adr = gl_id glp then map (map (take_bit 8)) is else [])"
proof -
  let ?ps = "map (dcc_packet (addr_bytes (gl_id glp) (gl_protocolversion glp))) is"
  have "translateBitstream2Packetstream (dcc_stream ?ps) = Some (j, p)"
    using assms(1,2) by (simp add: translate_packed loco_stream_def)
  from received_stream [OF this] have "received (convertNMRAPacketToSPIStream p) = map (map (take_bit 8)) ?ps"
    using assms(3) by auto
  then show ?thesis by (simp only: heard_packets [OF assms(4)])
qed

text \<open>The functions of the groups, for a decoder.\<close>

lemma bit_s32: "k < 32 \<Longrightarrow> bit (s32 x) k \<longleftrightarrow> bit x k"
proof -
  have "s32 x = signed_take_bit 31 x"
    by (simp add: s32_def signed_take_bit_eq_take_bit_shift take_bit_eq_mod)
  then show "k < 32 \<Longrightarrow> ?thesis" by (cases "k = 31") (auto simp: bit_signed_take_bit_iff min_def)
qed

lemma div_bits: "(x :: int) div 32 = drop_bit 5 x" "x div 512 = drop_bit 9 x" "x div 8192 = drop_bit 13 x" "x div 2097152 = drop_bit 21 x"
  by (simp_all add: drop_bit_eq_div)

lemma nibble_table:
  "\<forall>n \<in> set [0..15]. dcc_functions (map (take_bit 8) [n OR 0xB0]) = [(5, bit n 0), (6, bit n 1), (7, bit n 2), (8, bit n 3)] \<and>
     dcc_functions (map (take_bit 8) [n OR 0xA0]) = [(9, bit n 0), (10, bit n 1), (11, bit n 2), (12, bit n 3)]"
  by code_simp

lemma group1_table:
  "\<forall>n \<in> set [0..31]. (let v = 0x80 OR (n div 2) OR (if n AND 1 \<noteq> 0 then 16 else 0) :: int
     in take_bit 8 v = v \<and> v div 32 = 4 \<and> (bit v 4 \<longleftrightarrow> bit n 0) \<and> (bit v 0 \<longleftrightarrow> bit n 1) \<and> (bit v 1 \<longleftrightarrow> bit n 2)
       \<and> (bit v 2 \<longleftrightarrow> bit n 3) \<and> (bit v 3 \<longleftrightarrow> bit n 4))"
  by code_simp

lemma and_low: "(x :: int) AND 0xF \<in> set [0..15]" "(x :: int) AND 0x1F \<in> set [0..31]"
  "k < 4 \<Longrightarrow> bit (x AND 0xF) k \<longleftrightarrow> bit x k" "k < 5 \<Longrightarrow> bit (x AND 0x1F) k \<longleftrightarrow> bit x k"
proof -
  have m: "x AND 0xF = take_bit 4 x" "x AND 0x1F = take_bit 5 x"
    using take_bit_eq_mask [of 4 x] take_bit_eq_mask [of 5 x] by (simp_all add: mask_eq_exp_minus_1)
  show "x AND 0xF \<in> set [0..15]" "x AND 0x1F \<in> set [0..31]"
    using take_bit_int_less_exp [of 4 x] take_bit_int_less_exp [of 5 x] by (simp_all add: m)
  show "k < 4 \<Longrightarrow> bit (x AND 0xF) k \<longleftrightarrow> bit x k" "k < 5 \<Longrightarrow> bit (x AND 0x1F) k \<longleftrightarrow> bit x k"
    by (simp_all add: m bit_take_bit_iff)
qed

lemma functions_group1:
  "dcc_functions (map (take_bit 8) [fx_group1 func]) = map (\<lambda>k. (k, bit func k)) [0..<5]"
proof -
  have "[0..<5] = [0, 1, 2, 3, 4 :: nat]" by (simp add: upt_rec)
  then show ?thesis
    using group1_table [rule_format, OF and_low(2), of func] and_low(4) [of _ func]
    by (simp add: fx_group1_def Let_def)
qed

lemma functions_group2:
  "dcc_functions (map (take_bit 8) [((func div 32) AND 0xF) OR 0xB0]) = map (\<lambda>k. (k, bit func k)) [5..<9]"
  "dcc_functions (map (take_bit 8) [((func div 512) AND 0xF) OR 0xA0]) = map (\<lambda>k. (k, bit func k)) [9..<13]"
proof -
  have "[0..<4] = [0, 1, 2, 3 :: nat]" "[5..<9] = [5, 6, 7, 8 :: nat]" "[9..<13] = [9, 10, 11, 12 :: nat]" by (simp_all add: upt_rec)
  then show "dcc_functions (map (take_bit 8) [((func div 32) AND 0xF) OR 0xB0]) = map (\<lambda>k. (k, bit func k)) [5..<9]"
    "dcc_functions (map (take_bit 8) [((func div 512) AND 0xF) OR 0xA0]) = map (\<lambda>k. (k, bit func k)) [9..<13]"
    unfolding nibble_table [rule_format, OF and_low(1), THEN conjunct1] nibble_table [rule_format, OF and_low(1), THEN conjunct2]
    by (simp_all add: and_low(3) div_bits bit_drop_bit_eq)
qed

lemma functions_group3:
  "dcc_functions (map (take_bit 8) [0xDE, func div 8192]) = map (\<lambda>k. (k, bit func k)) [13..<21]"
  "dcc_functions (map (take_bit 8) [0xDF, func div 2097152]) = map (\<lambda>k. (k, bit func k)) [21..<29]"
proof -
  have sh: "map (\<lambda>k. (m + k, bit (take_bit 8 (drop_bit m func)) k)) [0..<8] = map (\<lambda>k. (k, bit func k)) [m..<m + 8]" for m
    by (rule nth_equalityI) (simp_all add: bit_take_bit_iff bit_drop_bit_eq)
  show "dcc_functions (map (take_bit 8) [0xDE, func div 8192]) = map (\<lambda>k. (k, bit func k)) [13..<21]"
    "dcc_functions (map (take_bit 8) [0xDF, func div 2097152]) = map (\<lambda>k. (k, bit func k)) [21..<29]"
    using sh [of 13] sh [of 21] by (simp_all add: div_bits take_bit_byte del: upt_Suc)
qed

lemmas functions_groups = functions_group1 functions_group2 functions_group3

lemma functions_of_instrs:
  "concat (map (dcc_functions \<circ> map (take_bit 8)) (fst (fx_instrs func n))) =
     map (\<lambda>k. (k, bit func k)) ((if n > 5 then [5..<9] else []) @ (if n > 12 then [13..<21] else []))"
  "concat (map (dcc_functions \<circ> map (take_bit 8)) (snd (fx_instrs func n))) =
     map (\<lambda>k. (k, bit func k)) ([0..<5] @ (if n > 8 then [9..<13] else []) @ (if n > 20 then [21..<29] else []))"
  by (simp_all add: fx_instrs_def functions_groups del: dcc_functions.simps list.map upt_Suc upt_rec_numeral add: list.map(1) list.map(2) [of "dcc_functions \<circ> _"] list.map(2) [of "\<lambda>k. (k, bit func k)"] map_append)

lemma update_nmra_frame [simp]:
  "transfers (update_NMRAPacketPool i glp p j q jj d) = transfers d"
  "spi_works (update_NMRAPacketPool i glp p j q jj d) = spi_works d"
  by (simp_all add: update_NMRAPacketPool_def Let_def spi_works_def)

lemma instrs_nonempty: "fst (loco_instrs glp) \<noteq> []" "snd (loco_instrs glp) \<noteq> []"
  by (simp_all add: loco_instrs_def fx_instrs_def case_prod_unfold Let_def)

lemma comp_nmra_transfers:
  assumes "spi_works d" "nmra_accepts glp"
  shows "\<exists>bs. transfers (snd (comp_nmra_multi_func i glp d)) =
      transfers d @ replicate (if fx_enabled glp then 4 else 2) (SPI_BAUDRATE_NMRA_2, bs) \<and>
    (\<forall>adr. heard adr (received bs) = (if adr = gl_id glp then map (map (take_bit 8)) (fst (loco_instrs glp)) else []))"
proof -
  obtain j p jj q where p: "packed (loco_stream glp (fst (loco_instrs glp))) = (j, p)"
    "packed (loco_stream glp (snd (loco_instrs glp))) = (jj, q)" by (metis surj_pair)
  have adr: "loco_address (gl_id glp) (gl_protocolversion glp)" using assms(2) by (simp add: nmra_accepts_def)
  have "replicate 4 x = replicate 2 x @ replicate 2 x" for x :: "nat \<times> bytes" by (simp add: numeral_eq_Suc)
  then have "transfers (snd (comp_nmra_multi_func i glp d)) =
      transfers d @ replicate (if fx_enabled glp then 4 else 2) (SPI_BAUDRATE_NMRA_2, convertNMRAPacketToSPIStream p)"
    using assms by (simp add: comp_nmra_packed [OF assms(2) p] Let_def send_nmra_transfers)
  moreover have "heard adr (received (convertNMRAPacketToSPIStream p)) =
      (if adr = gl_id glp then map (map (take_bit 8)) (fst (loco_instrs glp)) else [])" for adr
    by (rule received_loco [OF p(1) loco_stream_short(1) instrs_nonempty(1) adr])
  ultimately show ?thesis by blast
qed

lemma no_drive_functions: "List.map_filter (dcc_drive n) (map (map (take_bit 8)) (fst (fx_instrs func nfuncs))) = []"
proof -
  have "\<forall>n \<in> set [0..15]. dcc_drive m (map (take_bit 8) [n OR 0xB0]) = None" for m
    by (simp add: upto_rec1 take_bit_byte)
  then have "dcc_drive m (map (take_bit 8) [(x AND 0xF) OR 0xB0]) = None" for m and x :: int using and_low(1) [of x] by blast
  then show ?thesis by (simp add: fx_instrs_def List.map_filter_def take_bit_byte)
qed

lemma drive_loco_instrs:
  assumes "nmra_accepts glp" "gl_n_fs glp = 14 \<or> gl_n_fs glp = 28 \<or> gl_n_fs glp = 128"
  shows "List.map_filter (dcc_drive (gl_n_fs glp)) (map (map (take_bit 8)) (fst (loco_instrs glp))) =
    [(snd (nmra_speed glp) = 1, fst (nmra_speed glp))]"
proof -
  obtain speed direction where sd: "nmra_speed glp = (speed, direction)" by force
  have "speed \<le> 127" using sd by (auto simp: nmra_speed_def Let_def split: if_splits prod.splits)
  then have s: "dcc_drive (gl_n_fs glp) (map (take_bit 8) (speed_instr (gl_n_fs glp) direction speed (gl_funcs glp))) = Some (direction = 1, speed)"
    using assms sd by (intro speed_instr_drives) (auto simp: nmra_accepts_def)
  show ?thesis
    using no_drive_functions [of "gl_n_fs glp" "s32 (gl_funcs glp)" "gl_n_func glp"]
    by (simp add: loco_instrs_eq [OF sd refl] Let_def s sd List.map_filter_simps)
qed

text \<open>C5. An NMRA locomotive is driven as commanded: the driver accepts the state of a locomotive with a valid
  address, speed and direction, and all that it shifts out carries, for the decoder with that
  address and for no other, one drive instruction with the commanded direction and speed, also on an
  emergency stop.
\<close>

theorem nmra_loco_received:
  assumes "spi_works d" and "nmra_accepts glp" and "gl_n_fs glp = 14 \<or> gl_n_fs glp = 28 \<or> gl_n_fs glp = 128"
  shows "\<exists>n hz bs. transfers (snd (comp_nmra_multi_func i glp d)) = transfers d @ replicate (n + 2) (hz, bs) \<and>
    (\<forall>adr. heard_drive (gl_n_fs glp) adr (received bs) =
       (if adr = gl_id glp then [(snd (nmra_speed glp) = 1, fst (nmra_speed glp))] else []))"
proof -
  obtain bs where t: "transfers (snd (comp_nmra_multi_func i glp d)) =
      transfers d @ replicate (if fx_enabled glp then 4 else 2) (SPI_BAUDRATE_NMRA_2, bs)"
    and h: "\<And>adr. heard adr (received bs) = (if adr = gl_id glp then map (map (take_bit 8)) (fst (loco_instrs glp)) else [])"
    using comp_nmra_transfers [OF assms(1,2)] by blast
  have "transfers (snd (comp_nmra_multi_func i glp d)) =
      transfers d @ replicate ((if fx_enabled glp then 2 else 0) + 2) (SPI_BAUDRATE_NMRA_2, bs)"
    using t by (cases "fx_enabled glp") (simp_all add: numeral_eq_Suc)
  moreover have "heard_drive (gl_n_fs glp) adr (received bs) =
       (if adr = gl_id glp then [(snd (nmra_speed glp) = 1, fst (nmra_speed glp))] else [])" for adr
    using drive_loco_instrs [OF assms(2,3)] by (simp add: heard_drive_def h List.map_filter_simps(2))
  ultimately show ?thesis by blast
qed

theorem nmra_loco_received_witness:
  "\<exists>n hz bs. transfers (snd (comp_nmra_multi_func 1 (gl_zero\<lparr>gl_id := 1000, gl_protocolversion := 2, gl_n_fs := 128, gl_speed := 50\<rparr>) ddl_start)) =
      transfers ddl_start @ replicate (n + 2) (hz, bs) \<and>
    (\<forall>adr. heard_drive (gl_n_fs (gl_zero\<lparr>gl_id := 1000, gl_protocolversion := 2, gl_n_fs := 128, gl_speed := 50\<rparr>)) adr (received bs) =
       (if adr = gl_id (gl_zero\<lparr>gl_id := 1000, gl_protocolversion := 2, gl_n_fs := 128, gl_speed := 50\<rparr>) then
         [(snd (nmra_speed (gl_zero\<lparr>gl_id := 1000, gl_protocolversion := 2, gl_n_fs := 128, gl_speed := 50\<rparr>)) = 1,
           fst (nmra_speed (gl_zero\<lparr>gl_id := 1000, gl_protocolversion := 2, gl_n_fs := 128, gl_speed := 50\<rparr>)))] else []))"
  by (rule nmra_loco_received) (simp_all add: nmra_accepts_def loco_address_def nmra_speed_def gl_zero_def)

lemma drive_no_functions: "dcc_drive n is = Some x \<Longrightarrow> dcc_functions is = []"
  by (cases "(n, is)" rule: dcc_drive.cases) (auto split: if_splits)

lemma functions_loco_instrs:
  assumes "nmra_accepts glp" "fx_enabled glp" "gl_n_fs glp = 28 \<or> gl_n_fs glp = 128"
  shows "concat (map (dcc_functions \<circ> map (take_bit 8)) (fst (loco_instrs glp))) =
    map (\<lambda>k. (k, bit (s32 (gl_funcs glp)) k))
      ((if gl_n_func glp > 5 then [5..<9] else []) @ (if gl_n_func glp > 12 then [13..<21] else []))"
    and "concat (map (dcc_functions \<circ> map (take_bit 8)) (snd (loco_instrs glp))) =
    map (\<lambda>k. (k, bit (s32 (gl_funcs glp)) k))
      ([0..<5] @ (if gl_n_func glp > 8 then [9..<13] else []) @ (if gl_n_func glp > 20 then [21..<29] else []))"
proof -
  obtain speed direction where sd: "nmra_speed glp = (speed, direction)" by force
  have "speed \<le> 127" using sd by (auto simp: nmra_speed_def Let_def split: if_splits prod.splits)
  then have "dcc_drive (gl_n_fs glp) (map (take_bit 8) (speed_instr (gl_n_fs glp) direction speed (gl_funcs glp))) = Some (direction = 1, speed)"
    using assms(1,3) sd by (intro speed_instr_drives) (auto simp: nmra_accepts_def)
  then have s: "dcc_functions (map (take_bit 8) (speed_instr (gl_n_fs glp) direction speed (gl_funcs glp))) = []"
    by (rule drive_no_functions)
  show "concat (map (dcc_functions \<circ> map (take_bit 8)) (fst (loco_instrs glp))) =
    map (\<lambda>k. (k, bit (s32 (gl_funcs glp)) k))
      ((if gl_n_func glp > 5 then [5..<9] else []) @ (if gl_n_func glp > 12 then [13..<21] else []))"
    using functions_of_instrs(1) [of "s32 (gl_funcs glp)" "gl_n_func glp"]
    by (simp add: loco_instrs_eq [OF sd refl] assms(2) s Let_def del: upt_rec_numeral)
  show "concat (map (dcc_functions \<circ> map (take_bit 8)) (snd (loco_instrs glp))) =
    map (\<lambda>k. (k, bit (s32 (gl_funcs glp)) k))
      ([0..<5] @ (if gl_n_func glp > 8 then [9..<13] else []) @ (if gl_n_func glp > 20 then [21..<29] else []))"
    using functions_of_instrs(2) [of "s32 (gl_funcs glp)" "gl_n_func glp"]
    by (simp add: loco_instrs_eq [OF sd refl] assms(2) Let_def del: upt_rec_numeral)
qed

text \<open>C40. The function groups that carry F0 to F4 and F9 to F12 are not sent with a command: of what is
  shifted out, the decoder hears only of F5 to F8 and F13 to F20 (the first packet is sent twice
  where the second one was meant), until a refresh sends the other packet.
\<close>

theorem nmra_functions_not_sent:
  assumes "spi_works d" and "nmra_accepts glp" and "fx_enabled glp" and "gl_n_fs glp = 28 \<or> gl_n_fs glp = 128"
  shows "\<exists>hz bs. transfers (snd (comp_nmra_multi_func i glp d)) = transfers d @ replicate 4 (hz, bs) \<and>
    fst ` set (heard_functions (gl_id glp) (received bs)) \<subseteq> {5..8} \<union> {13..20}"
proof -
  obtain bs where t: "transfers (snd (comp_nmra_multi_func i glp d)) = transfers d @ replicate 4 (SPI_BAUDRATE_NMRA_2, bs)"
    and h: "heard (gl_id glp) (received bs) = map (map (take_bit 8)) (fst (loco_instrs glp))"
    using comp_nmra_transfers [OF assms(1,2), of i] assms(3) by auto
  then have "heard_functions (gl_id glp) (received bs) = map (\<lambda>k. (k, bit (s32 (gl_funcs glp)) k))
      ((if gl_n_func glp > 5 then [5..<9] else []) @ (if gl_n_func glp > 12 then [13..<21] else []))"
    using functions_loco_instrs(1) [OF assms(2-4)] by (simp only: heard_functions_def map_map)
  then have "fst ` set (heard_functions (gl_id glp) (received bs)) \<subseteq> {5..8} \<union> {13..20}" by (auto split: if_splits)
  with t show ?thesis by blast
qed

theorem nmra_functions_not_sent_witness:
  "\<exists>hz bs. transfers (snd (comp_nmra_multi_func 1 (gl_zero\<lparr>gl_id := 3, gl_protocolversion := 1, gl_n_fs := 28, gl_n_func := 5, gl_funcs := 1\<rparr>) ddl_start)) =
      transfers ddl_start @ replicate 4 (hz, bs) \<and>
    fst ` set (heard_functions (gl_id (gl_zero\<lparr>gl_id := 3, gl_protocolversion := 1, gl_n_fs := 28, gl_n_func := 5, gl_funcs := 1\<rparr>)) (received bs))
      \<subseteq> {5..8} \<union> {13..20}"
  by (rule nmra_functions_not_sent) (simp_all add: nmra_accepts_def loco_address_def nmra_speed_def fx_enabled_def gl_zero_def)

lemma conv_agree:
  assumes "\<And>m. m < nat (p ! 0) div 8 + 2 \<Longrightarrow> q ! m = p ! m" "p ! 1 = 0xFF"
  shows "convertNMRAPacketToSPIStream q = convertNMRAPacketToSPIStream p"
proof -
  have "q ! 0 = p ! 0" "q ! 1 = p ! 1" using assms(1) by simp_all
  moreover have "q ! (i div 8 + 1) = p ! (i div 8 + 1)" if "i < nat (p ! 0)" for i
    using that div_le_mono [of i "nat (p ! 0)" 8] by (intro assms(1)) simp
  ultimately have "packet_bits q = packet_bits p" "q ! 1 = 0xFF" using assms(2)
    unfolding packet_bits_def by (auto intro!: map_cong)
  then show ?thesis using assms(2) by (simp only: long_stream)
qed

text \<open>A shorter packet is read correctly from the remains of a longer one.\<close>

lemma overwrite_stream:
  assumes "packed (loco_stream glp is) = (j, p)" "is \<noteq> []" "length (loco_stream glp is) \<le> 244"
  shows "convertNMRAPacketToSPIStream (overwrite j p old) = convertNMRAPacketToSPIStream p"
proof (rule conv_agree)
  have j: "j = length (loco_stream glp is) div 8 + 2" "p ! 0 = int (length (loco_stream glp is))" "length p = 80"
    using assms(1) by (auto simp: packed_def PKTSIZE_def)
  then show "overwrite j p old ! m = p ! m" if "m < nat (p ! 0) div 8 + 2" for m
    using that assms(3) by (simp add: overwrite_def nth_append)
  obtain s where "loco_stream glp is = preamble @ s"
    using assms(2) by (cases "is" rule: dcc_stream.cases) (auto simp: loco_stream_def)
  then have "packed_byte (loco_stream glp is) 0 = 255" by (intro packed_byte_ones) (simp add: preamble_def)
  moreover have "translateBitstream2Packetstream (loco_stream glp is) = Some (j, p)"
    using assms(1,3) by (simp add: translate_packed)
  ultimately show "p ! 1 = 0xFF" using packet_bits_translate(2) by simp
qed

lemma pool_update_nmra:
  assumes "gl_id glp = adr"
  shows "\<exists>r. packets (NMRAPacketPool (update_NMRAPacketPool i glp p j q jj d)) (nat adr) = Some r \<and>
    (\<exists>old. nmra_packet r = overwrite j p old) \<and> (\<exists>old. nmra_fx_packet r = overwrite jj q old)"
  using assms by (auto simp: update_NMRAPacketPool_def pool_enter_def Let_def)

text \<open>The packets that are kept for the refresh carry every function of the locomotive: after a command, the
  two packets in the pool tell the decoder the commanded state of F0 to F28 as far as the locomotive
  has them, none of them twice.
\<close>

theorem nmra_pool_functions:
  assumes "spi_works d" and "nmra_accepts glp" and "fx_enabled glp" and "gl_n_fs glp = 28 \<or> gl_n_fs glp = 128"
    and "k < 29" and "int k < gl_n_func glp"
  shows "\<exists>q. packets (NMRAPacketPool (snd (comp_nmra_multi_func i glp d))) (nat (gl_id glp)) = Some q \<and>
    (let fs = concat (map (\<lambda>p. heard_functions (gl_id glp) (received (convertNMRAPacketToSPIStream p))) [nmra_packet q, nmra_fx_packet q])
     in map_of fs k = Some (bit (gl_funcs glp) k) \<and> distinct (map fst fs))"
proof -
  obtain j p jj q where p: "packed (loco_stream glp (fst (loco_instrs glp))) = (j, p)"
    "packed (loco_stream glp (snd (loco_instrs glp))) = (jj, q)" by (metis surj_pair)
  have adr: "loco_address (gl_id glp) (gl_protocolversion glp)" using assms(2) by (simp add: nmra_accepts_def)
  obtain r where r: "packets (NMRAPacketPool (snd (comp_nmra_multi_func i glp d))) (nat (gl_id glp)) = Some r"
    and n: "\<exists>old. nmra_packet r = overwrite j p old" "\<exists>old. nmra_fx_packet r = overwrite jj q old"
    using pool_update_nmra [of "handled glp" "gl_id glp" i p j q jj d] assms(1,3)
    by (auto simp: comp_nmra_packed [OF assms(2) p] Let_def send_nmra_transfers handled_def)
  have c: "convertNMRAPacketToSPIStream (nmra_packet r) = convertNMRAPacketToSPIStream p"
    "convertNMRAPacketToSPIStream (nmra_fx_packet r) = convertNMRAPacketToSPIStream q"
    using n overwrite_stream [OF p(1) instrs_nonempty(1) loco_stream_short(1)]
      overwrite_stream [OF p(2) instrs_nonempty(2) loco_stream_short(2)] by auto
  define fs where "fs = concat (map (\<lambda>p. heard_functions (gl_id glp) (received (convertNMRAPacketToSPIStream p))) [nmra_packet r, nmra_fx_packet r])"
  define ks where "ks = (if gl_n_func glp > 5 then [5..<9] else []) @ (if gl_n_func glp > 12 then [13..<21] else []) @
      [0..<5] @ (if gl_n_func glp > 8 then [9..<13] else []) @ (if gl_n_func glp > 20 then [21..<29] else [])"
  have "heard_functions (gl_id glp) (received (convertNMRAPacketToSPIStream p)) =
      concat (map (dcc_functions \<circ> map (take_bit 8)) (fst (loco_instrs glp)))"
    "heard_functions (gl_id glp) (received (convertNMRAPacketToSPIStream q)) =
      concat (map (dcc_functions \<circ> map (take_bit 8)) (snd (loco_instrs glp)))"
    using received_loco [OF p(1) loco_stream_short(1) instrs_nonempty(1) adr] received_loco [OF p(2) loco_stream_short(2) instrs_nonempty(2) adr]
    by (simp_all add: heard_functions_def)
  then have fs: "fs = map (\<lambda>k. (k, bit (s32 (gl_funcs glp)) k)) ks"
    using functions_loco_instrs [OF assms(2-4)] by (simp add: fs_def c ks_def del: upt_rec_numeral)
  have "distinct (map fst fs)" by (auto simp: fs ks_def o_def)
  moreover have "k \<in> set ks" using assms(5,6) by (auto simp: ks_def simp del: upt_rec_numeral)
  then have "(k, bit (s32 (gl_funcs glp)) k) \<in> set fs" by (auto simp: fs)
  then have "map_of fs k = Some (bit (gl_funcs glp) k)"
    using calculation assms(5) by (simp add: bit_s32)
  ultimately show ?thesis using r by (auto simp: fs_def)
qed

theorem nmra_pool_functions_witness:
  "\<exists>q. packets (NMRAPacketPool (snd (comp_nmra_multi_func 1
      (gl_zero\<lparr>gl_id := 3, gl_protocolversion := 1, gl_n_fs := 28, gl_n_func := 5, gl_funcs := 1\<rparr>) ddl_start)))
        (nat (gl_id (gl_zero\<lparr>gl_id := 3, gl_protocolversion := 1, gl_n_fs := 28, gl_n_func := 5, gl_funcs := 1\<rparr>))) = Some q \<and>
    (let fs = concat (map (\<lambda>p. heard_functions (gl_id (gl_zero\<lparr>gl_id := 3, gl_protocolversion := 1, gl_n_fs := 28, gl_n_func := 5, gl_funcs := 1\<rparr>))
        (received (convertNMRAPacketToSPIStream p))) [nmra_packet q, nmra_fx_packet q])
     in map_of fs 4 = Some (bit (gl_funcs (gl_zero\<lparr>gl_id := 3, gl_protocolversion := 1, gl_n_fs := 28, gl_n_func := 5, gl_funcs := 1\<rparr>)) 4)
        \<and> distinct (map fst fs))"
  by (rule nmra_pool_functions) (simp_all add: nmra_accepts_def loco_address_def nmra_speed_def fx_enabled_def gl_zero_def)

section \<open>Accessories on the track\<close>

text \<open>A basic accessory packet: address, activation, pair and output.\<close>

fun dcc_accessory :: "bytes \<Rightarrow> (int \<times> bool \<times> int \<times> int) option" where
  "dcc_accessory [b, c, e] =
     (if b div 64 = 2 \<and> c div 128 = 1 \<and> xor_ok [b, c, e]
      then Some (b mod 64 + 64 * (7 - c div 16 mod 8), bit c 3, c div 2 mod 4, c mod 2) else None)"
| "dcc_accessory _ = None"

lemma accessory_byte1: "0 \<le> a \<Longrightarrow> a < 512 \<Longrightarrow> 0x80 OR (a AND 0x3F) = 128 + a mod 64 \<and> ((NOT a) AND 0x1C0) div 4 = 16 * (7 - a div 64)"
  for a :: int
proof -
  have "\<forall>a \<in> set [0..511]. 0x80 OR (a AND 0x3F) = 128 + a mod 64 \<and> ((NOT a) AND 0x1C0) div 4 = 16 * (7 - a div 64 :: int)"
    by code_simp
  moreover assume "0 \<le> a" "a < 512"
  ultimately show ?thesis by auto
qed

lemma accessory_byte2:
  "\<forall>h \<in> set [0..7]. \<forall>act \<in> set [0, 1]. \<forall>p \<in> set [0..3]. \<forall>out \<in> set [0, 1].
     0x80 OR (16 * (7 - h)) OR (act * 8) OR (p * 2) OR out = 128 + 16 * (7 - h) + act * 8 + p * 2 + (out :: int)"
  by code_simp

lemma accessory_fields:
  "\<forall>h \<in> set [0..7]. \<forall>act \<in> set [0, 1]. \<forall>p \<in> set [0..3]. \<forall>out \<in> set [0, 1].
     (let b = 128 + 16 * h + act * 8 + p * 2 + out :: int
      in b div 128 = 1 \<and> b div 16 mod 8 = h \<and> b div 2 mod 4 = p \<and> b mod 2 = out \<and> (bit b 3 \<longleftrightarrow> act = 1) \<and> 0 \<le> b \<and> b < 256)"
  by code_simp

lemma comp_nmra_accessory_packed:
  assumes "1 \<le> nr" "nr \<le> 2044" "output = 0 \<or> output = 1" "activate = 0 \<or> activate = 1" "offset = 0 \<or> offset = 1"
  shows "\<exists>j p. translateBitstream2Packetstream (dcc_stream [dcc_packet [128 + ((nr - 1) div 4 + offset) mod 64]
        [128 + 16 * (7 - ((nr - 1) div 4 + offset) div 64) + activate * 8 + (nr - 1) mod 4 * 2 + output]]) = Some (j, p) \<and>
      comp_nmra_accessory nr output activate offset d = (0, send p QNBACCPKT 2 d)"
proof -
  define a where "a = (nr - 1) div 4 + offset"
  define b1 where "b1 = 128 + a mod 64"
  define b2 where "b2 = 128 + 16 * (7 - a div 64) + activate * 8 + (nr - 1) mod 4 * 2 + output"
  have a: "0 \<le> a" "a < 512" using assms by (auto simp: a_def)
  have "a div 64 \<in> set [0..7]" "activate \<in> set [0, 1]" "(nr - 1) mod 4 \<in> set [0..3]" "output \<in> set [0, 1]"
    using a assms by auto
  from accessory_byte2 [rule_format, OF this] accessory_byte1 [OF a]
  have b: "0x80 OR (a AND 0x3F) = b1"
    "0x80 OR (((NOT a) AND 0x1C0) div 4) OR (activate * 8) OR ((nr - 1) mod 4 * 2) OR output = b2"
    by (simp_all only: b1_def b2_def)
  have st: "preamble @ ''0'' @ cs b1 @ ''0'' @ cs b2 @ ''0'' @ xor_two_bytes (cs b2) (cs b1) @ ''1'' = dcc_stream [dcc_packet [b1] [b2]]"
    using frame_one [of "[b1]" b2] by (simp add: xor_cs xor.commute)
  have "length (dcc_stream [dcc_packet [b1] [b2]]) \<le> 244" unfolding length_dcc_stream by simp
  then obtain j p where tr: "translateBitstream2Packetstream (dcc_stream [dcc_packet [b1] [b2]]) = Some (j, p)"
    using translate_packed by (metis surj_pair)
  have "\<not> (nr < 1 \<or> nr > 2044 \<or> output < 0 \<or> output > 1 \<or> activate < 0 \<or> activate > 1)" using assms by auto
  then have "comp_nmra_accessory nr output activate offset d = (0, send p QNBACCPKT 2 d)"
    unfolding comp_nmra_accessory_def Let_def a_def [symmetric] b st tr by simp
  with tr show ?thesis unfolding a_def [symmetric] b1_def [symmetric] b2_def [symmetric] by blast
qed

text \<open>C26. A command for an NMRA accessory is accepted for the addresses 1 to 2044, shifted out twice, and what a
  receiver reads is a valid accessory packet from which the address, the output and its activation
  can be recovered.
\<close>

theorem nmra_accessory_received:
  assumes "spi_works d" and "1 \<le> nr" and "nr \<le> 2044" and "output = 0 \<or> output = 1" and "activate = 0 \<or> activate = 1"
    and "offset = 0 \<or> offset = 1"
  shows "\<exists>hz bs p adr pair. fst (comp_nmra_accessory nr output activate offset d) = 0 \<and>
    transfers (snd (comp_nmra_accessory nr output activate offset d)) = transfers d @ [(hz, bs), (hz, bs)] \<and>
    received bs = [p] \<and> dcc_accessory p = Some (adr, activate = 1, pair, output) \<and> nr = 4 * (adr - offset) + pair + 1"
proof -
  define a where "a = (nr - 1) div 4 + offset"
  define b1 where "b1 = 128 + a mod 64"
  define b2 where "b2 = 128 + 16 * (7 - a div 64) + activate * 8 + (nr - 1) mod 4 * 2 + output"
  obtain j p where tr: "translateBitstream2Packetstream (dcc_stream [dcc_packet [b1] [b2]]) = Some (j, p)"
    and c: "comp_nmra_accessory nr output activate offset d = (0, send p QNBACCPKT 2 d)"
    using comp_nmra_accessory_packed [OF assms(2-6)] unfolding a_def [symmetric] b1_def [symmetric] b2_def [symmetric] by blast
  have a: "0 \<le> a" "a < 512" using assms by (auto simp: a_def)
  then have h: "0 \<le> a div 64" "a div 64 \<le> 7" by auto
  define h' where "h' = 7 - a div 64"
  define pr where "pr = (nr - 1) mod 4"
  have b2: "b2 = 128 + 16 * h' + activate * 8 + pr * 2 + output" and r: "0 \<le> h'" "h' \<le> 7" "0 \<le> pr" "pr \<le> 3"
    using h by (simp_all add: b2_def h'_def pr_def)
  have f: "b2 div 128 = 1" "b2 div 16 mod 8 = h'" "b2 div 2 mod 4 = pr" "b2 mod 2 = output" "bit b2 3 \<longleftrightarrow> activate = 1" "0 \<le> b2" "b2 < 256"
    using accessory_fields [rule_format, of h' activate pr "output"] r assms(4,5) by (auto simp: b2 Let_def)
  have g: "b1 div 64 = 2" "b1 mod 64 = a mod 64" "0 \<le> b1" "b1 < 256" by (simp_all add: b1_def mod_add_eq [of 128, symmetric])
  let ?p = "[b1, b2, b1 XOR b2]" and ?bs = "convertNMRAPacketToSPIStream p"
  have p: "dcc_packet [b1] [b2] = ?p" by (simp add: dcc_packet_def)
  have "map (take_bit 8) (dcc_packet [b1] [b2]) = ?p" unfolding take_bit_packet using f(6,7) g(3,4) by (simp add: take_bit_byte p)
  then have rcv: "received ?bs = [?p]" using received_stream [OF tr] by simp
  have "xor_ok ?p" unfolding p [symmetric] by simp
  moreover have "a mod 64 + 64 * (7 - h') = a" by (simp add: h'_def)
  ultimately have acc: "dcc_accessory ?p = Some (a, activate = 1, pr, output)"
    by (simp only: dcc_accessory.simps f(1-5) g(1,2) simp_thms if_True)
  have nr: "nr = 4 * (a - offset) + pr + 1" by (simp add: a_def pr_def)
  have "transfers (send p QNBACCPKT 2 d) = transfers d @ [(SPI_BAUDRATE_NMRA_2, ?bs), (SPI_BAUDRATE_NMRA_2, ?bs)]"
    using send_nmra_transfers(1) [OF assms(1), of QNBACCPKT p 2] by (simp add: numeral_eq_Suc)
  then show ?thesis unfolding c fst_conv snd_conv using rcv acc nr by blast
qed

theorem nmra_accessory_received_witness:
  "\<exists>hz bs p adr pair. fst (comp_nmra_accessory 2044 1 1 1 ddl_start) = 0 \<and>
    transfers (snd (comp_nmra_accessory 2044 1 1 1 ddl_start)) = transfers ddl_start @ [(hz, bs), (hz, bs)] \<and>
    received bs = [p] \<and> dcc_accessory p = Some (adr, (1 :: int) = 1, pair, 1) \<and> 2044 = 4 * (adr - 1) + pair + 1"
  by (rule nmra_accessory_received) simp_all

section \<open>Reading configuration variables\<close>

lemma sm_direct_no_ack: "fst (sm_direct p verify d) = 0"
  using send_packet_never_acks by (simp add: sm_direct_def Let_def case_prod_unfold)

lemma get_cvbyte_loop_zero: "1 \<le> cv \<Longrightarrow> cv \<le> 1024 \<Longrightarrow> n \<le> 8 \<Longrightarrow> fst (get_cvbyte_loop cv n 0 d) = 0"
proof (induction n arbitrary: d)
  case (Suc n)
  then have "fst (protocol_nmra_sm_direct_cvbit cv (int n) 1 True d) = 0"
    by (simp add: protocol_nmra_sm_direct_cvbit_def sm_direct_no_ack Let_def)
  then show ?case using Suc by (simp add: case_prod_unfold)
qed simp

text \<open>Reading on the programming track never works: whatever the decoder and the hardware do, a read of a
  variable returns 0 and every verification fails, because no acknowledgement is detected.
\<close>

theorem nmra_reads_nothing:
  "fst (protocol_nmra_sm_get_cvbyte cv d) = (if 1 \<le> cv \<and> cv \<le> 1024 then 0 else -255) \<and>
   fst (protocol_nmra_sm_direct_cvbyte cv val True d) \<le> 0 \<and> fst (protocol_nmra_sm_direct_cvbit cv bitnr val True d) \<le> 0"
proof -
  have "fst (get_cvbyte_loop cv 8 0 d) = -255" if "\<not> (1 \<le> cv \<and> cv \<le> 1024)"
    using that by (auto simp: numeral_eq_Suc protocol_nmra_sm_direct_cvbit_def)
  then show ?thesis
    using get_cvbyte_loop_zero [of cv 8 d]
    by (auto simp: protocol_nmra_sm_get_cvbyte_def protocol_nmra_sm_direct_cvbyte_def protocol_nmra_sm_direct_cvbit_def sm_direct_no_ack Let_def)
qed

end
