(* ===== verification/Ddl_Refresh.thy ===== *)
theory Ddl_Refresh
  imports Ddl_Mfx Ddl_Maerklin Ddl_Nmra
begin

unbundle bit_operations_syntax

text \<open>
  The refresh cycle of \<open>ddl.c\<close>: between commands, the packets of the locomotives are repeated, one
  locomotive per call, the locomotives with a recent command twice as often. The pools
  are visited in the order of their known addresses, the protocols in turn. A loop that does not end
  is \<open>None\<close>; shifting a one out of a signed integer wraps, as GCC documents.
\<close>

section \<open>Definitions\<close>

definition FAST_REFRESH_TIMEOUT :: int where [code_unfold]: "FAST_REFRESH_TIMEOUT = 10"
definition EP_MAERKLIN :: int where [code_unfold]: "EP_MAERKLIN = 1"
definition EP_NMRADCC :: int where [code_unfold]: "EP_NMRADCC = 2"
definition EP_MFX :: int where [code_unfold]: "EP_MFX = 4"

definition recent :: "bus_t \<Rightarrow> srcpd \<Rightarrow> nat \<Rightarrow> bool" where
  "recent b s i \<longleftrightarrow> tv_sec (clock s) - tv_sec (gl_updatime (gl_at b i s)) \<le> FAST_REFRESH_TIMEOUT"

definition rinfo :: "bool \<Rightarrow> ddl_data \<Rightarrow> tRefreshInfo" where
  "rinfo fast d = (if fast then refreshInfoFast d else refreshInfo d)"

definition put_rinfo :: "bool \<Rightarrow> tRefreshInfo \<Rightarrow> drv \<Rightarrow> drv" where
  "put_rinfo fast r v = on_ddl (\<lambda>d. if fast then d\<lparr>refreshInfoFast := r\<rparr> else d\<lparr>refreshInfo := r\<rparr>) v"

definition wild :: "drv \<Rightarrow> drv" where
  "wild v = on_ddl (\<lambda>d. d\<lparr>ddl_ub := True\<rparr>) v"

text \<open>
  The loop that looks for the next locomotive of the kind wanted: its position, or 0 and the end of
  the cycle. \<open>None\<close> is the access through a pointer that is not set.
\<close>

function advance :: "('p \<Rightarrow> nat) \<Rightarrow> (nat \<Rightarrow> bool) \<Rightarrow> bool \<Rightarrow> 'p packet_pool \<Rightarrow> nat \<Rightarrow> (nat \<times> bool) option" where
  "advance glp rec fast pool idx =
     (if Suc idx \<ge> NrOfKnownAddresses pool then Some (0, True)
      else case packets pool (nat (knownAddresses pool (Suc idx))) of
             None \<Rightarrow> None
           | Some p \<Rightarrow> if fast \<noteq> rec (glp p) then advance glp rec fast pool (Suc idx) else Some (Suc idx, False))"
  by pat_completeness auto

termination
  by (relation "measure (\<lambda>(glp, rec, fast, pool, idx). NrOfKnownAddresses pool - idx)") auto

declare advance.simps [simp del]

text \<open>Each part tells whether something was sent and whether its cycle is complete.\<close>

definition f_packet :: "tMaerklinPacket \<Rightarrow> int \<Rightarrow> bytes" where
  "f_packet p fx = (if 0 \<le> fx \<and> fx < 4 then mm_f_packets p (nat fx) else mm_packet p)"

definition refresh_maerklin :: "bus_t \<Rightarrow> bool \<Rightarrow> drv \<Rightarrow> bool \<times> bool \<times> drv" where
  "refresh_maerklin b fast v =
     (let ri = rinfo fast (ddl v); pool = MaerklinPacketPool (ddl v); idx = last_refreshed_maerklin_loco ri;
          fx = last_refreshed_maerklin_fx ri; adr = knownAddresses pool idx
      in if adr > 0 then
           (case packets pool (nat adr) of
              None \<Rightarrow> (False, False, wild v)
            | Some p \<Rightarrow>
                (let sent = (fast = recent b (srv v) (mm_glptr p));
                     v1 = (if sent then
                             (let w = on_ddl (\<lambda>d. send (f_packet p fx) QM2FXPKT 1 (send (mm_packet p) QM2LOCOPKT 1 d)) v
                              in if 0 \<le> fx \<and> fx < 4 then w else wild w)
                           else v)
                 in case advance mm_glptr (recent b (srv v)) fast pool idx of
                      None \<Rightarrow> (sent, False, wild v1)
                    | Some (i, complete) \<Rightarrow>
                        (sent, complete, put_rinfo fast (ri\<lparr>last_refreshed_maerklin_loco := i,
                           last_refreshed_maerklin_fx := (if complete then if fx + 1 \<ge> 4 then 0 else fx + 1 else fx)\<rparr>) v1)))
         else (False, True, v))"

text \<open>\<open>None\<close> is the early return when the packet of the locomotive is missing.\<close>

definition refresh_nmra :: "bus_t \<Rightarrow> bool \<Rightarrow> drv \<Rightarrow> (bool \<times> bool \<times> drv) option" where
  "refresh_nmra b fast v =
     (let ri = rinfo fast (ddl v); pool = NMRAPacketPool (ddl v); idx = last_refreshed_nmra_loco ri;
          adr = knownAddresses pool idx
      in if adr > 0 then
           (case packets pool (nat adr) of
              None \<Rightarrow> None
            | Some p \<Rightarrow>
                (let sent = (fast = recent b (srv v) (nmra_glptr p));
                     v1 = (if sent then on_ddl (\<lambda>d. send (nmra_fx_packet p) QNBLOCOPKT 1 (send (nmra_packet p) QNBLOCOPKT 1 d)) v else v)
                 in Some (case advance nmra_glptr (recent b (srv v)) fast pool idx of
                      None \<Rightarrow> (sent, False, wild v1)
                    | Some (i, complete) \<Rightarrow> (sent, complete, put_rinfo fast (ri\<lparr>last_refreshed_nmra_loco := i\<rparr>) v1))))
         else Some (False, True, v))"

definition refresh_mfx_fx :: "bus_t \<Rightarrow> nat \<Rightarrow> int \<Rightarrow> drv \<Rightarrow> drv" where
  "refresh_mfx_fx b i adr v =
     (let glp = gl_at b i (srv v)
      in if gl_n_func glp > 16 then
           (let lf0 = u8 (gl_lastfunc glp + 1); lf = (if lf0 < 16 \<or> lf0 \<ge> gl_n_func glp then 16 else lf0)
            in on_ddl (send_LocoFx16_32 adr lf ((gl_funcs glp div 2 ^ nat lf) AND 1 \<noteq> 0) 1)
                 (on_srv (upd_glstate b i (\<lambda>p. p\<lparr>gl_lastfunc := lf\<rparr>)) v))
         else v)"

definition refresh_mfx :: "bus_t \<Rightarrow> bool \<Rightarrow> drv \<Rightarrow> (bool \<times> bool \<times> drv) option" where
  "refresh_mfx b fast v =
     (let ri = rinfo fast (ddl v); pool = MFXPacketPool (ddl v); idx = last_refreshed_mfx_loco ri;
          adr = knownAddresses pool idx
      in if adr > 0 then
           (case packets pool (nat adr) of
              None \<Rightarrow> None
            | Some p \<Rightarrow>
                (let sent = (fast = recent b (srv v) (mfx_glptr p));
                     v1 = (if sent then refresh_mfx_fx b (mfx_glptr p) adr (on_ddl (\<lambda>d. send (mfx_packet p) QMFX0PKT 1 d) v) else v)
                 in Some (case advance mfx_glptr (recent b (srv v)) fast pool idx of
                      None \<Rightarrow> (sent, False, wild v1)
                    | Some (i, complete) \<Rightarrow> (sent, complete, put_rinfo fast (ri\<lparr>last_refreshed_mfx_loco := i\<rparr>) v1))))
         else Some (False, True, v))"

partial_function (option) next_protocol :: "int \<Rightarrow> int \<Rightarrow> int option" where
  "next_protocol enabled p =
     (let q = (if s32 (p * 2) = 0 then 1 else s32 (p * 2))
      in if enabled AND q = 0 then next_protocol enabled q else Some q)"

definition refresh_loco_one :: "bus_t \<Rightarrow> bool \<Rightarrow> drv \<Rightarrow> (bool \<times> drv) option" where
  "refresh_loco_one b fast v =
     (let pr = protocol_refresh (rinfo fast (ddl v));
          (s1, c1, v1) = (if pr AND EP_MAERKLIN \<noteq> 0 then refresh_maerklin b fast v else (False, False, v))
      in case (if pr AND EP_NMRADCC \<noteq> 0 then refresh_nmra b fast v1 else Some (False, False, v1)) of
           None \<Rightarrow> Some (False, v1)
         | Some (s2, c2, v2) \<Rightarrow>
             (case (if pr AND EP_MFX \<noteq> 0 then refresh_mfx b fast v2 else Some (False, False, v2)) of
                None \<Rightarrow> Some (False, v2)
              | Some (s3, c3, v3) \<Rightarrow>
                  if c1 \<or> c2 \<or> c3 then
                    (case next_protocol (ENABLED_PROTOCOLS (ddl v3)) pr of
                       None \<Rightarrow> None
                     | Some q \<Rightarrow> Some (s1 \<or> s2 \<or> s3, put_rinfo fast ((rinfo fast (ddl v3))\<lparr>protocol_refresh := q\<rparr>) v3))
                  else Some (s1 \<or> s2 \<or> s3, v3)))"

definition refresh_loco :: "bus_t \<Rightarrow> drv \<Rightarrow> (bool \<times> drv) option" where
  "refresh_loco b v =
     (if lastRefreshFast (ddl v) then refresh_loco_one b False (on_ddl (\<lambda>d. d\<lparr>lastRefreshFast := False\<rparr>) v)
      else
        (case refresh_loco_one b True v of
           None \<Rightarrow> None
         | Some (sent, v1) \<Rightarrow>
             if sent then Some (True, on_ddl (\<lambda>d. d\<lparr>lastRefreshFast := True\<rparr>) v1) else refresh_loco_one b False v1))"

section \<open>The packet pools\<close>

text \<open>
  The known addresses are distinct, each has a packet, and the places behind them are empty.
\<close>

definition pool_ok :: "int \<Rightarrow> 'p packet_pool \<Rightarrow> bool" where
  "pool_ok mx pool \<longleftrightarrow>
     (\<forall>i < NrOfKnownAddresses pool. 0 < knownAddresses pool i \<and> knownAddresses pool i \<le> mx \<and>
        packets pool (nat (knownAddresses pool i)) \<noteq> None) \<and>
     distinct (map (knownAddresses pool) [0..<NrOfKnownAddresses pool]) \<and>
     (\<forall>i \<ge> NrOfKnownAddresses pool. knownAddresses pool i = 0)"

lemma pool_ok_init: "pool_ok mx pool_init"
  by (simp add: pool_ok_def pool_init_def)

text \<open>The arrays are large enough for all the addresses.\<close>

lemma pool_ok_bound:
  assumes "pool_ok mx pool" "0 \<le> mx"
  shows "int (NrOfKnownAddresses pool) \<le> mx"
proof -
  let ?ks = "map (knownAddresses pool) [0..<NrOfKnownAddresses pool]"
  have "set ?ks \<subseteq> {1..mx}" using assms(1) by (auto simp: pool_ok_def)
  then have "card (set ?ks) \<le> card {1..mx}" by (intro card_mono) auto
  moreover have "card (set ?ks) = length ?ks" using assms(1) by (intro distinct_card) (simp add: pool_ok_def)
  ultimately show ?thesis using assms(2) by simp
qed

text \<open>
  The update functions differ in how many places they search for the address: the Motorola pool the
  known ones, the others one more. Either way the address is found if it is known.
\<close>

definition pool_entered :: "nat \<Rightarrow> int \<Rightarrow> 'p \<Rightarrow> 'p packet_pool \<Rightarrow> 'p packet_pool" where
  "pool_entered n adr p pool = pool_enter (pool_find n adr pool) adr (pool\<lparr>packets := (packets pool)(nat adr \<mapsto> p)\<rparr>)"

locale pool_search =
  fixes searched :: "'p packet_pool \<Rightarrow> nat"
  assumes searched_known: "NrOfKnownAddresses pool \<le> searched pool"
    and searched_bound: "searched pool \<le> Suc (NrOfKnownAddresses pool)"
begin

lemma found_known:
  assumes "pool_ok mx pool" "0 < adr"
  shows "pool_find (searched pool) adr pool \<longleftrightarrow> adr \<in> knownAddresses pool ` {..<NrOfKnownAddresses pool}"
proof -
  have "knownAddresses pool i \<noteq> adr" if "NrOfKnownAddresses pool \<le> i" for i
    using assms that by (auto simp: pool_ok_def)
  then have "i < NrOfKnownAddresses pool" if "knownAddresses pool i = adr" for i using that by (metis not_le)
  moreover have "i < searched pool" if "i < NrOfKnownAddresses pool" for i using that searched_known [of pool] by simp
  ultimately show ?thesis unfolding pool_find_def by (auto simp: image_iff)
qed

lemma entered_ok:
  assumes "pool_ok mx pool" "0 < adr" "adr \<le> mx"
  shows "pool_ok mx (pool_entered (searched pool) adr p pool)"
proof (cases "pool_find (searched pool) adr pool")
  case True
  then show ?thesis using assms(1) by (auto simp: pool_entered_def pool_enter_def pool_ok_def)
next
  case False
  let ?n = "NrOfKnownAddresses pool"
  have "adr \<notin> knownAddresses pool ` {..<?n}" using found_known [OF assms(1,2)] False by simp
  moreover have "map ((knownAddresses pool)(?n := adr)) [0..<?n] = map (knownAddresses pool) [0..<?n]" by simp
  ultimately show ?thesis
    using assms False by (auto simp: pool_entered_def pool_enter_def pool_ok_def less_Suc_eq)
qed

lemma entered_lists:
  assumes "pool_ok mx pool" "0 < adr"
  shows "\<exists>i < NrOfKnownAddresses (pool_entered (searched pool) adr p pool). knownAddresses (pool_entered (searched pool) adr p pool) i = adr \<and>
    packets (pool_entered (searched pool) adr p pool) (nat adr) = Some p"
proof (cases "pool_find (searched pool) adr pool")
  case True
  then show ?thesis using found_known [OF assms] by (auto simp: pool_entered_def pool_enter_def)
next
  case False
  then show ?thesis by (auto simp: pool_entered_def pool_enter_def)
qed

end

interpretation mm_pool: pool_search "NrOfKnownAddresses :: tMaerklinPacket packet_pool \<Rightarrow> nat"
  by unfold_locales simp_all

interpretation nmra_pool: pool_search "\<lambda>pool :: tNMRAPacket packet_pool. Suc (NrOfKnownAddresses pool)"
  by unfold_locales simp_all

interpretation mfx_pool: pool_search "\<lambda>pool :: tMFXPacket packet_pool. Suc (NrOfKnownAddresses pool)"
  by unfold_locales simp_all

lemma update_mm_entered:
  "\<exists>p. MaerklinPacketPool (update_MaerklinPacketPool i glp q f1 f2 f3 f4 d) = pool_entered (NrOfKnownAddresses (MaerklinPacketPool d)) (gl_id glp) p (MaerklinPacketPool d) \<and> mm_glptr p = i"
  by (auto simp: update_MaerklinPacketPool_def pool_entered_def Let_def)

lemma update_nmra_entered:
  "\<exists>p. NMRAPacketPool (update_NMRAPacketPool i glp q j r jj d) = pool_entered (Suc (NrOfKnownAddresses (NMRAPacketPool d))) (gl_id glp) p (NMRAPacketPool d) \<and> nmra_glptr p = i"
  by (auto simp: update_NMRAPacketPool_def pool_entered_def Let_def)

lemma update_mfx_entered:
  "\<exists>p. MFXPacketPool (update_MFXPacketPool i glp q j d) = pool_entered (Suc (NrOfKnownAddresses (MFXPacketPool d))) (gl_id glp) p (MFXPacketPool d) \<and> mfx_glptr p = i"
  by (auto simp: update_MFXPacketPool_def pool_entered_def Let_def)

section \<open>What sending leaves alone\<close>

lemma spi_xmit_shape: "\<exists>k t. snd (snd (spi_xmit n hz bs rx a d)) = d\<lparr>ioctls := k, transfers := transfers d @ t\<rparr>"
proof (induction n arbitrary: a d)
  case 0
  show ?case by (rule exI [of _ "ioctls d"], rule exI [of _ "[]"]) simp
next
  case (Suc n)
  have "snd (ioctl hz bs d) = d\<lparr>ioctls := Suc (ioctls d), transfers := transfers d @ (if ioctl_ok d (ioctls d) then [(hz, bs)] else [])\<rparr>"
    by (cases d) (simp add: ioctl_def Let_def)
  then obtain k t where kt: "snd (ioctl hz bs d) = d\<lparr>ioctls := k, transfers := transfers d @ t\<rparr>" by blast
  have "\<exists>ka ta. snd (snd (spi_xmit n hz bs rx c (d\<lparr>ioctls := k, transfers := transfers d @ t\<rparr>))) =
      d\<lparr>ioctls := ka, transfers := transfers d @ ta\<rparr>" for c
    using Suc.IH [of c "d\<lparr>ioctls := k, transfers := transfers d @ t\<rparr>"] by (auto intro: exI [of _ "t @ _"])
  then show ?case using kt by (cases "fst (ioctl hz bs d)") (auto simp: case_prod_unfold Let_def)
qed

text \<open>The fields that the refresh and the bus thread use; what is on the track stays there.\<close>

definition same_rest :: "ddl_data \<Rightarrow> ddl_data \<Rightarrow> bool" where
  "same_rest d e \<longleftrightarrow> MaerklinPacketPool e = MaerklinPacketPool d \<and> NMRAPacketPool e = NMRAPacketPool d \<and>
     MFXPacketPool e = MFXPacketPool d \<and> refreshInfo e = refreshInfo d \<and> refreshInfoFast e = refreshInfoFast d \<and>
     lastRefreshFast e = lastRefreshFast d \<and> ENABLED_PROTOCOLS e = ENABLED_PROTOCOLS d \<and> ddl_ub e = ddl_ub d \<and>
     NMRA_GA_OFFSET e = NMRA_GA_OFFSET d \<and> pgtrkonly e = pgtrkonly d \<and> allowSM e = allowSM d \<and> resumeSM e = resumeSM d \<and>
     PROGRAM_TRACK e = PROGRAM_TRACK d \<and> ioctl_ok e = ioctl_ok d \<and> prefix (transfers d) (transfers e)"

lemma same_rest_trans: "same_rest d e \<Longrightarrow> same_rest e f \<Longrightarrow> same_rest d f"
  by (auto simp: same_rest_def)

lemma same_rest_simps:
  "same_rest d d" "same_rest d (d\<lparr>ioctls := k, transfers := transfers d @ t\<rparr>)" "same_rest d (d\<lparr>spiLastMM := b\<rparr>)"
  "same_rest d (d\<lparr>waitread := w\<rparr>)" "same_rest d (d\<lparr>feedback := f\<rparr>)"
  by (simp_all add: same_rest_def)

lemma same_rest_xmit: "same_rest d (snd (snd (spi_xmit n hz bs rx a d)))"
  using spi_xmit_shape [of n hz bs rx a d] by (auto simp: same_rest_def)

lemma same_rest_ioctl: "same_rest d (snd (ioctl hz bs d))"
  by (simp add: ioctl_def same_rest_def Let_def)

lemma same_rest_feedback: "same_rest d (read_feedback d)"
  by (simp add: read_feedback_def serialMFXresult_def Let_def same_rest_def)

lemma same_rest_mm: "same_rest d (snd (snd (send_mm p ty n d)))"
proof -
  obtain pb pe hz where t: "mm_timing ty = (pb, pe, hz)" by (metis prod_cases3)
  obtain ok d1 where o: "(if \<not> spiLastMM d then ioctl hz (replicate pe 0) d else (True, d)) = (ok, d1)" by force
  then have d1: "same_rest d d1" using same_rest_ioctl [of d hz "replicate pe 0"] by (auto simp: same_rest_simps split: if_splits)
  show ?thesis unfolding send_mm_def t o Let_def prod.case
    using same_rest_trans [OF same_rest_trans [OF d1 same_rest_simps(3)] same_rest_xmit] d1 by (cases ok) simp_all
qed

lemma same_rest_nmra: "same_rest d (snd (snd (send_nmra p ty n d)))"
  unfolding send_nmra_def by (rule same_rest_trans [OF same_rest_simps(3) same_rest_xmit])

lemma same_rest_mfx: "same_rest d (snd (snd (send_mfx p ty n d)))"
proof -
  let ?d1 = "if ty \<noteq> QMFX0PKT then d\<lparr>feedback := feedback d @ [pkt_code ty]\<rparr> else d"
  obtain acks ok d2 where x: "spi_xmit (if ty = QMFX0PKT then nat n else 1) SPI_BAUDRATE_MFX_2 (convertMFXPacketToSPIStream p ty) False 0
      (?d1\<lparr>spiLastMM := False\<rparr>) = (acks, ok, d2)" by (metis prod_cases3)
  have "same_rest d ?d1" by (simp add: same_rest_simps)
  then have d2: "same_rest d d2" using same_rest_trans [OF same_rest_trans [OF _ same_rest_simps(3)] same_rest_xmit] x by (metis snd_conv)
  show ?thesis unfolding send_mfx_def Let_def x prod.case snd_conv
    using d2 same_rest_trans [OF d2 same_rest_simps(4)] by simp
qed

lemma same_rest_send: "same_rest d (send p ty n d)"
proof -
  let ?r = "if ty \<in> {QM1LOCOPKT, QM2LOCOPKT, QM2FXPKT, QM1FUNCPKT, QM1SOLEPKT, QMSEARCH20, QMSEARCH40} then send_mm p ty n d
            else if ty \<in> {QNBLOCOPKT, QNBACCPKT, QNPROGPKT} then send_nmra p ty n d else send_mfx p ty n d"
  obtain acks ok d1 where r: "?r = (acks, ok, d1)" by (metis prod_cases3)
  have "same_rest d (snd (snd ?r))" by (simp only: same_rest_mm same_rest_nmra same_rest_mfx split: if_split) simp
  then have "same_rest d d1" unfolding r by simp
  then show ?thesis unfolding send_packet_def r Let_def prod.case
    using same_rest_trans [OF _ same_rest_feedback] by simp
qed

lemma send_frame [simp]:
  "MaerklinPacketPool (send p ty n d) = MaerklinPacketPool d" "NMRAPacketPool (send p ty n d) = NMRAPacketPool d"
  "MFXPacketPool (send p ty n d) = MFXPacketPool d" "refreshInfo (send p ty n d) = refreshInfo d"
  "refreshInfoFast (send p ty n d) = refreshInfoFast d" "lastRefreshFast (send p ty n d) = lastRefreshFast d"
  "ENABLED_PROTOCOLS (send p ty n d) = ENABLED_PROTOCOLS d" "ddl_ub (send p ty n d) = ddl_ub d"
  "NMRA_GA_OFFSET (send p ty n d) = NMRA_GA_OFFSET d" "pgtrkonly (send p ty n d) = pgtrkonly d"
  "allowSM (send p ty n d) = allowSM d" "resumeSM (send p ty n d) = resumeSM d" "PROGRAM_TRACK (send p ty n d) = PROGRAM_TRACK d"
  using same_rest_send [of d p ty n] by (simp_all add: same_rest_def)

section \<open>The pools stay in order\<close>

definition pools_ok :: "ddl_data \<Rightarrow> bool" where
  "pools_ok d \<longleftrightarrow> pool_ok MAX_MARKLIN_ADDRESS (MaerklinPacketPool d) \<and> pool_ok MAX_NMRA_ADDRESS (NMRAPacketPool d) \<and>
     pool_ok MAX_MFX_ADDRESS (MFXPacketPool d) \<and> \<not> ddl_ub d"

lemma pools_ok_send [simp]: "pools_ok (send p ty n d) = pools_ok d"
  by (simp add: pools_ok_def)

lemma pools_ok_update_mm:
  assumes "pools_ok d" "0 < gl_id glp" "gl_id glp \<le> MAX_MARKLIN_ADDRESS"
  shows "pools_ok (update_MaerklinPacketPool i glp q f1 f2 f3 f4 d)"
proof -
  obtain p where "MaerklinPacketPool (update_MaerklinPacketPool i glp q f1 f2 f3 f4 d) =
      pool_entered (NrOfKnownAddresses (MaerklinPacketPool d)) (gl_id glp) p (MaerklinPacketPool d)"
    using update_mm_entered by blast
  then show ?thesis
    using assms mm_pool.entered_ok [of MAX_MARKLIN_ADDRESS "MaerklinPacketPool d" "gl_id glp" p]
    by (simp add: pools_ok_def) (simp add: update_MaerklinPacketPool_def Let_def outside_def)
qed

lemma pools_ok_update_nmra:
  assumes "pools_ok d" "0 < gl_id glp" "gl_id glp \<le> MAX_NMRA_ADDRESS"
  shows "pools_ok (update_NMRAPacketPool i glp q j r jj d)"
proof -
  obtain p where "NMRAPacketPool (update_NMRAPacketPool i glp q j r jj d) =
      pool_entered (Suc (NrOfKnownAddresses (NMRAPacketPool d))) (gl_id glp) p (NMRAPacketPool d)"
    using update_nmra_entered by blast
  then show ?thesis
    using assms nmra_pool.entered_ok [of MAX_NMRA_ADDRESS "NMRAPacketPool d" "gl_id glp" p]
    by (simp add: pools_ok_def) (simp add: update_NMRAPacketPool_def Let_def outside_def)
qed

lemma pools_ok_update_mfx:
  assumes "pools_ok d" "0 < gl_id glp" "gl_id glp \<le> MAX_MFX_ADDRESS"
  shows "pools_ok (update_MFXPacketPool i glp q j d)"
proof -
  obtain p where "MFXPacketPool (update_MFXPacketPool i glp q j d) =
      pool_entered (Suc (NrOfKnownAddresses (MFXPacketPool d))) (gl_id glp) p (MFXPacketPool d)"
    using update_mfx_entered by blast
  then show ?thesis
    using assms mfx_pool.entered_ok [of MAX_MFX_ADDRESS "MFXPacketPool d" "gl_id glp" p]
    by (simp add: pools_ok_def) (simp add: update_MFXPacketPool_def Let_def outside_def)
qed

lemma pools_ok_MM:
  assumes "pools_ok d" "0 < gl_id glp"
  shows "pools_ok (comp_MM i glp direction speed d)"
proof (cases "gl_id glp > 255 \<or> speed < 0 \<or> speed > gl_n_fs glp + 1")
  case False
  then have g: "gl_id glp \<le> MAX_MARKLIN_ADDRESS" by (simp add: MAX_MARKLIN_ADDRESS_def)
  have 1: "pools_ok (comp_MM1 i glp speed d)"
    using pools_ok_update_mm [OF assms g] assms(1) by (simp add: comp_MM1_def Let_def)
  have 2: "pools_ok (comp_MM2 i glp direction speed d)"
    using pools_ok_update_mm [OF _ assms(2) g] assms(1) by (auto simp: comp_MM2_def Let_def split: option.split prod.split)
  show ?thesis using 1 2 False by (simp add: comp_MM_def)
qed (simp add: comp_MM_def assms(1))

lemma pools_ok_changed: "pools_ok d \<Longrightarrow> pools_ok (send_changed_fx is a c f d)"
  by (induction "is" arbitrary: d) (simp_all add: send_fx)

lemma comp_mfx_shape:
  "\<exists>g p. gl_id g = gl_id glp \<and> snd (comp_mfx_loco i glp d) =
      (if gl_n_func glp > 16 then send_changed_fx [16..<32] (gl_id glp) (gl_funcschange glp AND 0xFFFF0000) (gl_funcs glp)
         (update_MFXPacketPool i g p (nat ((p ! 0 + 7) div 8 + 1)) (send p QMFX0PKT 2 d))
       else update_MFXPacketPool i g p (nat ((p ! 0 + 7) div 8 + 1)) (send p QMFX0PKT 2 d))"
proof -
  obtain speed direction where sd: "mfx_speed glp = (speed, direction)" by force
  define g where "g = glp\<lparr>gl_speedchange := (if gl_speedchange glp AND SCEMERG \<noteq> 0 then gl_speedchange glp AND NOT SCEMERG
     else gl_speedchange glp) AND NOT (SCSPEED OR SCDIREC)\<rparr>"
  have fc: "gl_funcschange g = gl_funcschange glp" "gl_id g = gl_id glp" by (simp_all add: g_def)
  show ?thesis
    unfolding comp_mfx_loco_def sd Let_def prod.case sendMFXPaket_def g_def [symmetric] fc
    using fc(2) by (intro exI [of _ g]) (auto simp only: if_distrib [of snd] snd_conv)
qed



lemma changed_ub: "ddl_ub (send_changed_fx is a c f d) = ddl_ub d"
  by (induction "is" arbitrary: d) (simp_all add: send_fx)

text \<open>The mfx pool is too small for the addresses that the daemon accepts (up to 16379): a command for an mfx
  locomotive with an address above 512 writes outside of the array of packets.
\<close>

theorem mfx_pool_overrun:
  assumes "MAX_MFX_ADDRESS < gl_id glp"
  shows "ddl_ub (snd (comp_mfx_loco i glp d))"
proof -
  obtain g p where g: "gl_id g = gl_id glp" and c: "snd (comp_mfx_loco i glp d) =
      (if gl_n_func glp > 16 then send_changed_fx [16..<32] (gl_id glp) (gl_funcschange glp AND 0xFFFF0000) (gl_funcs glp)
         (update_MFXPacketPool i g p (nat ((p ! 0 + 7) div 8 + 1)) (send p QMFX0PKT 2 d))
       else update_MFXPacketPool i g p (nat ((p ! 0 + 7) div 8 + 1)) (send p QMFX0PKT 2 d))"
    using comp_mfx_shape by blast
  have "ddl_ub (update_MFXPacketPool i g p n e)" for n e
    using g assms by (simp add: update_MFXPacketPool_def Let_def outside_def)
  then show ?thesis unfolding c by (simp only: changed_ub split: if_split) simp
qed

theorem mfx_pool_overrun_witness: "ddl_ub (snd (comp_mfx_loco 1 (gl_zero\<lparr>gl_id := 600, gl_protocol := CHR ''X''\<rparr>) ddl_start))"
  by (rule mfx_pool_overrun) (simp add: MAX_MFX_ADDRESS_def)

section \<open>The next protocol\<close>

declare next_protocol.simps [code]

lemma next_protocol_enabled: "next_protocol e p = Some q \<Longrightarrow> e AND q \<noteq> 0"
  by (erule next_protocol.raw_induct [rotated]) (auto simp: Let_def split: if_splits)

lemma next_protocol_table:
  "\<forall>e \<in> set [1..7]. next_protocol e 1 = find (\<lambda>q. e AND q \<noteq> 0) [2, 4, 1] \<and> next_protocol e 2 = find (\<lambda>q. e AND q \<noteq> 0) [4, 1, 2] \<and>
     next_protocol e 4 = find (\<lambda>q. e AND q \<noteq> 0) [1, 2, 4]"
  by code_simp

text \<open>C37. With no protocol enabled, the search for the next one never ends: the bus thread hangs in the first
  refresh. With a protocol enabled it ends with the next enabled protocol in turn.
\<close>

theorem next_protocol_ends:
  "next_protocol 0 p = None \<and>
   (0 < e \<and> e < 8 \<longrightarrow> next_protocol e EP_MAERKLIN = find (\<lambda>q. e AND q \<noteq> 0) [EP_NMRADCC, EP_MFX, EP_MAERKLIN] \<and>
      next_protocol e EP_NMRADCC = find (\<lambda>q. e AND q \<noteq> 0) [EP_MFX, EP_MAERKLIN, EP_NMRADCC] \<and>
      next_protocol e EP_MFX = find (\<lambda>q. e AND q \<noteq> 0) [EP_MAERKLIN, EP_NMRADCC, EP_MFX])"
proof -
  have "next_protocol 0 p = None" using next_protocol_enabled [of 0 p] by (cases "next_protocol 0 p") auto
  moreover have "e \<in> set [1..7]" if "0 < e \<and> e < 8" using that by auto
  ultimately show ?thesis using next_protocol_table unfolding EP_MAERKLIN_def EP_NMRADCC_def EP_MFX_def by blast
qed

theorem next_protocol_ends_witness:
  "next_protocol 0 1 = None \<and> next_protocol 5 EP_MAERKLIN = Some EP_MFX"
  using next_protocol_ends [of 1 5] by (simp add: EP_MAERKLIN_def EP_NMRADCC_def EP_MFX_def)

section \<open>A round of the refresh\<close>

definition entry :: "'p packet_pool \<Rightarrow> nat \<Rightarrow> 'p" where
  "entry pool i = the (packets pool (nat (knownAddresses pool i)))"

lemma find_Cons_upt: "i < n \<Longrightarrow> find P [i..<n] = (if P i then Some i else find P [Suc i..<n])"
  by (simp add: upt_conv_Cons)

text \<open>The loop finds the next locomotive of the kind wanted.\<close>

lemma advance_finds:
  assumes "pool_ok mx pool" "idx < NrOfKnownAddresses pool"
  shows "advance glp rec fast pool idx =
    (case find (\<lambda>i. fast = rec (glp (entry pool i))) [Suc idx..<NrOfKnownAddresses pool] of None \<Rightarrow> Some (0, True) | Some j \<Rightarrow> Some (j, False))"
  using assms(2)
proof (induction "NrOfKnownAddresses pool - idx" arbitrary: idx)
  case (Suc m)
  let ?n = "NrOfKnownAddresses pool"
  show ?case
  proof (cases "Suc idx < ?n")
    case True
    then have "packets pool (nat (knownAddresses pool (Suc idx))) \<noteq> None" using assms(1) by (auto simp: pool_ok_def)
    then obtain p where p: "packets pool (nat (knownAddresses pool (Suc idx))) = Some p" by auto
    let ?P = "\<lambda>i. fast = rec (glp (entry pool i))"
    have e: "entry pool (Suc idx) = p" using p by (simp add: entry_def)
    have IH: "advance glp rec fast pool (Suc idx) = (case find (\<lambda>i. fast = rec (glp (entry pool i))) [Suc (Suc idx)..<?n] of
        None \<Rightarrow> Some (0, True) | Some j \<Rightarrow> Some (j, False))"
      using Suc.hyps True by (intro Suc.hyps(1)) simp_all
    have adv: "advance glp rec fast pool idx = (if fast = rec (glp p) then Some (Suc idx, False) else advance glp rec fast pool (Suc idx))"
      using True p by (subst advance.simps) simp
    have fnd: "find ?P [Suc idx..<?n] = (if fast = rec (glp p) then Some (Suc idx) else find ?P [Suc (Suc idx)..<?n])"
      using find_Cons_upt [OF True, of ?P] by (simp only: e)
    show ?thesis unfolding adv fnd IH by (cases "fast = rec (glp p)") (simp_all only: if_True if_False option.case refl)
  next
    case False
    then show ?thesis by (subst advance.simps) simp
  qed
qed simp

text \<open>
  The transfers for a locomotive, and the number of calls of \<open>refresh_loco_one\<close>.
\<close>

definition nmra_pair :: "tNMRAPacket \<Rightarrow> (nat \<times> bytes) list" where
  "nmra_pair p = [(SPI_BAUDRATE_NMRA_2, convertNMRAPacketToSPIStream (nmra_packet p)),
     (SPI_BAUDRATE_NMRA_2, convertNMRAPacketToSPIStream (nmra_fx_packet p))]"

fun refresh_n :: "bus_t \<Rightarrow> bool \<Rightarrow> nat \<Rightarrow> drv \<Rightarrow> drv option" where
  "refresh_n b fast 0 v = Some v"
| "refresh_n b fast (Suc k) v = (case refresh_loco_one b fast v of None \<Rightarrow> None | Some (sent, v1) \<Rightarrow> refresh_n b fast k v1)"

lemma put_rinfo_simps [simp]:
  "srv (put_rinfo fast r v) = srv v" "rinfo fast (ddl (put_rinfo fast r v)) = r"
  "NMRAPacketPool (ddl (put_rinfo fast r v)) = NMRAPacketPool (ddl v)" "transfers (ddl (put_rinfo fast r v)) = transfers (ddl v)"
  "ENABLED_PROTOCOLS (ddl (put_rinfo fast r v)) = ENABLED_PROTOCOLS (ddl v)" "spi_works (ddl (put_rinfo fast r v)) = spi_works (ddl v)"
  by (simp_all add: put_rinfo_def rinfo_def spi_works_def)

lemma refresh_nmra_step:
  assumes "pool_ok mx (NMRAPacketPool (ddl v))" "spi_works (ddl v)" "ri = rinfo fast (ddl v)"
    "last_refreshed_nmra_loco ri = idx" "n = NrOfKnownAddresses (NMRAPacketPool (ddl v))" "idx < n"
    "kind = (\<lambda>i. fast = recent b (srv v) (nmra_glptr (entry (NMRAPacketPool (ddl v)) i)))"
    "nxt = find kind [Suc idx..<n]"
  shows "\<exists>w. refresh_nmra b fast v = Some (kind idx, nxt = None, put_rinfo fast (ri\<lparr>last_refreshed_nmra_loco := case nxt of None \<Rightarrow> 0 | Some j \<Rightarrow> j\<rparr>) w) \<and>
    srv w = srv v \<and> NMRAPacketPool (ddl w) = NMRAPacketPool (ddl v) \<and> spi_works (ddl w) \<and> ENABLED_PROTOCOLS (ddl w) = ENABLED_PROTOCOLS (ddl v) \<and>
    transfers (ddl w) = transfers (ddl v) @ (if kind idx then nmra_pair (entry (NMRAPacketPool (ddl v)) idx) else [])"
proof -
  let ?pool = "NMRAPacketPool (ddl v)" and ?adr = "knownAddresses (NMRAPacketPool (ddl v)) idx"
  have "?adr > 0" "packets ?pool (nat ?adr) \<noteq> None" using assms(1,5,6) by (auto simp: pool_ok_def)
  then obtain p where p: "packets ?pool (nat ?adr) = Some p" "?adr > 0" by auto
  have e: "entry ?pool idx = p" using p by (simp add: entry_def)
  have adv: "advance nmra_glptr (recent b (srv v)) fast ?pool idx = (case nxt of None \<Rightarrow> Some (0, True) | Some j \<Rightarrow> Some (j, False))"
    using advance_finds [OF assms(1), of idx nmra_glptr "recent b (srv v)" fast] assms(5-8) by simp
  define w where "w = (if kind idx then on_ddl (\<lambda>d. send (nmra_fx_packet p) QNBLOCOPKT 1 (send (nmra_packet p) QNBLOCOPKT 1 d)) v else v)"
  have "(fast = recent b (srv v) (nmra_glptr p)) = kind idx" using assms(7) e by simp
  then have "refresh_nmra b fast v = Some (kind idx, nxt = None, put_rinfo fast (ri\<lparr>last_refreshed_nmra_loco := case nxt of None \<Rightarrow> 0 | Some j \<Rightarrow> j\<rparr>) w)"
    unfolding refresh_nmra_def assms(3,4) [symmetric] Let_def
    using p adv assms(4) by (cases "nxt") (simp_all add: w_def assms(3) [symmetric])
  moreover have "srv w = srv v" "NMRAPacketPool (ddl w) = ?pool" "ENABLED_PROTOCOLS (ddl w) = ENABLED_PROTOCOLS (ddl v)" by (simp_all add: w_def)
  moreover have "spi_works (ddl w)" "transfers (ddl w) = transfers (ddl v) @ (if kind idx then nmra_pair (entry ?pool idx) else [])"
    using assms(2) by (simp_all add: w_def e send_nmra_transfers nmra_pair_def)
  ultimately show ?thesis by blast
qed

lemma find_upt:
  "find P [i..<n] = Some j \<Longrightarrow> filter P [i..<n] = filter P [j..<n] \<and> i \<le> j \<and> j < n"
  "find P [i..<n] = None \<Longrightarrow> filter P [i..<n] = []"
proof -
  assume f: "find P [i..<n] = Some j"
  then obtain k where k: "k < n - i" "j = i + k" "P j" "\<forall>m < k. \<not> P (i + m)"
    by (auto simp: find_Some_iff)
  then have "[i..<n] = [i..<j] @ [j..<n]" by (metis le_add1 le_add_diff_inverse2 less_diff_conv less_or_eq_imp_le upt_add_eq_append add.commute)
  moreover have "filter P [i..<j] = []" using k by (auto simp: filter_empty_conv) (metis le_add_diff_inverse nat_add_left_cancel_less)
  ultimately show "filter P [i..<n] = filter P [j..<n] \<and> i \<le> j \<and> j < n" using k by simp
next
  assume "find P [i..<n] = None"
  then show "filter P [i..<n] = []" by (simp add: find_None_iff filter_empty_conv)
qed

lemma refresh_one_nmra:
  assumes "pool_ok mx (NMRAPacketPool (ddl v))" "spi_works (ddl v)" "protocol_refresh (rinfo fast (ddl v)) = EP_NMRADCC"
    "last_refreshed_nmra_loco (rinfo fast (ddl v)) = idx" "n = NrOfKnownAddresses (NMRAPacketPool (ddl v))" "idx < n"
    "kind = (\<lambda>i. fast = recent b (srv v) (nmra_glptr (entry (NMRAPacketPool (ddl v)) i)))"
    "nxt = find kind [Suc idx..<n]" "next_protocol (ENABLED_PROTOCOLS (ddl v)) EP_NMRADCC = Some q"
  shows "\<exists>w. refresh_loco_one b fast v = Some (kind idx, w) \<and> srv w = srv v \<and> NMRAPacketPool (ddl w) = NMRAPacketPool (ddl v) \<and>
    spi_works (ddl w) \<and> ENABLED_PROTOCOLS (ddl w) = ENABLED_PROTOCOLS (ddl v) \<and>
    transfers (ddl w) = transfers (ddl v) @ (if kind idx then nmra_pair (entry (NMRAPacketPool (ddl v)) idx) else []) \<and>
    last_refreshed_nmra_loco (rinfo fast (ddl w)) = (case nxt of None \<Rightarrow> 0 | Some j \<Rightarrow> j) \<and>
    protocol_refresh (rinfo fast (ddl w)) = (if nxt = None then q else EP_NMRADCC)"
proof -
  obtain w where w: "refresh_nmra b fast v = Some (kind idx, nxt = None,
      put_rinfo fast ((rinfo fast (ddl v))\<lparr>last_refreshed_nmra_loco := case nxt of None \<Rightarrow> 0 | Some j \<Rightarrow> j\<rparr>) w)"
    "srv w = srv v" "NMRAPacketPool (ddl w) = NMRAPacketPool (ddl v)" "spi_works (ddl w)" "ENABLED_PROTOCOLS (ddl w) = ENABLED_PROTOCOLS (ddl v)"
    "transfers (ddl w) = transfers (ddl v) @ (if kind idx then nmra_pair (entry (NMRAPacketPool (ddl v)) idx) else [])"
    using refresh_nmra_step [OF assms(1,2) refl assms(4-8)] by blast
  let ?r = "(rinfo fast (ddl v))\<lparr>last_refreshed_nmra_loco := case nxt of None \<Rightarrow> 0 | Some j \<Rightarrow> j\<rparr>"
  have bits: "EP_NMRADCC AND EP_MAERKLIN = 0" "EP_NMRADCC AND EP_NMRADCC \<noteq> 0" "EP_NMRADCC AND EP_MFX = 0" by code_simp+
  have one: "refresh_loco_one b fast v = (if nxt = None then Some (kind idx, put_rinfo fast (?r\<lparr>protocol_refresh := q\<rparr>) (put_rinfo fast ?r w))
      else Some (kind idx, put_rinfo fast ?r w))"
    unfolding refresh_loco_one_def assms(3) Let_def using w(1) bits assms(9) w(5) by simp
  show ?thesis
  proof (cases "nxt")
    case None
    then show ?thesis using one w assms(3)
      by (intro exI [of _ "put_rinfo fast (?r\<lparr>protocol_refresh := q\<rparr>) (put_rinfo fast ?r w)"]) simp
  next
    case (Some j)
    then show ?thesis using one w assms(3) by (intro exI [of _ "put_rinfo fast ?r w"]) simp
  qed
qed

lemma refresh_walk:
  assumes "pool_ok mx pool" "n = NrOfKnownAddresses pool" "next_protocol e EP_NMRADCC = Some q"
    "kind = (\<lambda>i. fast = recent b s (nmra_glptr (entry pool i)))"
  shows "NMRAPacketPool (ddl v) = pool \<Longrightarrow> srv v = s \<Longrightarrow> ENABLED_PROTOCOLS (ddl v) = e \<Longrightarrow> spi_works (ddl v) \<Longrightarrow>
    protocol_refresh (rinfo fast (ddl v)) = EP_NMRADCC \<Longrightarrow> last_refreshed_nmra_loco (rinfo fast (ddl v)) = idx \<Longrightarrow> idx < n \<Longrightarrow>
    \<exists>k w. 1 \<le> k \<and> k \<le> n - idx \<and> refresh_n b fast k v = Some w \<and>
      transfers (ddl w) = transfers (ddl v) @ concat (map (nmra_pair \<circ> entry pool) (filter kind [idx..<n])) \<and>
      protocol_refresh (rinfo fast (ddl w)) = q \<and> last_refreshed_nmra_loco (rinfo fast (ddl w)) = 0"
proof (induction "n - idx" arbitrary: idx v rule: less_induct)
  case less
  define nxt where "nxt = find kind [Suc idx..<n]"
  have kv: "kind = (\<lambda>i. fast = recent b (srv v) (nmra_glptr (entry (NMRAPacketPool (ddl v)) i)))" using assms(4) less.prems(1,2) by simp
  obtain w where w: "refresh_loco_one b fast v = Some (kind idx, w)" "srv w = s" "NMRAPacketPool (ddl w) = pool"
    "spi_works (ddl w)" "ENABLED_PROTOCOLS (ddl w) = e"
    "transfers (ddl w) = transfers (ddl v) @ (if kind idx then nmra_pair (entry pool idx) else [])"
    "last_refreshed_nmra_loco (rinfo fast (ddl w)) = (case nxt of None \<Rightarrow> 0 | Some j \<Rightarrow> j)"
    "protocol_refresh (rinfo fast (ddl w)) = (if nxt = None then q else EP_NMRADCC)"
    using refresh_one_nmra [of mx v fast idx n kind b "nxt" q] assms(1-3) less.prems kv by (auto simp: nxt_def)
  have first: "filter kind [idx..<n] = (if kind idx then [idx] else []) @ filter kind [Suc idx..<n]"
    using less.prems(7) by (simp add: upt_conv_Cons)
  show ?case
  proof (cases "nxt")
    case None
    then have "filter kind [Suc idx..<n] = []" using find_upt(2) [of kind "Suc idx" n] by (simp add: nxt_def)
    then show ?thesis using None w first less.prems(7) by (intro exI [of _ 1] exI [of _ w]) simp
  next
    case (Some j)
    then have j: "filter kind [Suc idx..<n] = filter kind [j..<n]" "Suc idx \<le> j" "j < n"
      using find_upt(1) [of kind "Suc idx" n j] by (simp_all add: nxt_def)
    have lt: "n - j < n - idx" using j(2) less.prems(7) by simp
    obtain k x where k: "1 \<le> k" "k \<le> n - j" "refresh_n b fast k w = Some x"
      "transfers (ddl x) = transfers (ddl w) @ concat (map (nmra_pair \<circ> entry pool) (filter kind [j..<n]))"
      "protocol_refresh (rinfo fast (ddl x)) = q" "last_refreshed_nmra_loco (rinfo fast (ddl x)) = 0"
      using less.hyps [OF lt w(3,2,5,4)] w(7,8) Some j(3) by (simp only: option.case option.distinct if_False simp_thms) blast
    have "refresh_n b fast (Suc k) v = Some x" using w(1) k(3) by simp
    moreover have "transfers (ddl x) = transfers (ddl v) @ concat (map (nmra_pair \<circ> entry pool) (filter kind [idx..<n]))"
      using k(4) w(6) first j(1) by simp
    moreover have "Suc k \<le> n - idx" using k(2) j(2,3) by simp
    ultimately show ?thesis using k(5,6) by (intro exI [of _ "Suc k"] exI [of _ x]) simp
  qed
qed


definition refresh_demo :: drv where
  "refresh_demo = (drv_start srcpd_init)\<lparr>ddl := ddl_start\<lparr>refreshInfo := refresh_zero\<lparr>protocol_refresh := 2\<rparr>,
     NMRAPacketPool := \<lparr>packets = (\<lambda>_. None)(3 \<mapsto> \<lparr>nmra_glptr = 1, nmra_packet = idlepacket, nmra_fx_packet = resetpacket\<rparr>),
       knownAddresses = (\<lambda>_. 0)(0 := 3), NrOfKnownAddresses = 1\<rparr>\<rparr>\<rparr>"


text \<open>The first refresh of a Motorola locomotive after the start of a bus reads outside of its function packets:
  the index of the function packet starts at -1.
\<close>

theorem first_fx_refresh_wild:
  assumes "pools_ok (ddl v)" and "0 < NrOfKnownAddresses (MaerklinPacketPool (ddl v))" and "rinfo fast (ddl v) = refresh_zero"
    and "fast = recent b (srv v) (mm_glptr (entry (MaerklinPacketPool (ddl v)) 0))"
  shows "ddl_ub (ddl (snd (snd (refresh_maerklin b fast v))))"
proof -
  let ?pool = "MaerklinPacketPool (ddl v)"
  have ok: "pool_ok MAX_MARKLIN_ADDRESS ?pool" using assms(1) by (simp add: pools_ok_def)
  then have "knownAddresses ?pool 0 > 0" "packets ?pool (nat (knownAddresses ?pool 0)) \<noteq> None" using assms(2) by (auto simp: pool_ok_def)
  then obtain p where p: "packets ?pool (nat (knownAddresses ?pool 0)) = Some p" "knownAddresses ?pool 0 > 0" by auto
  have e: "entry ?pool 0 = p" using p by (simp add: entry_def)
  have "ddl_ub (ddl (put_rinfo fast r w)) = ddl_ub (ddl w)" for r w by (simp add: put_rinfo_def)
  then show ?thesis
    unfolding refresh_maerklin_def Let_def assms(3)
    using p assms(4) e by (simp add: refresh_zero_def wild_def split: option.split prod.split)
qed

definition fx_demo :: drv where
  "fx_demo = (drv_start srcpd_init)\<lparr>ddl := ddl_start\<lparr>MaerklinPacketPool :=
     \<lparr>packets = (\<lambda>_. None)(3 \<mapsto> \<lparr>mm_glptr = 1, mm_packet = [192, 0, 0, 0], mm_f_packets = (\<lambda>_. [192, 0, 0, 0])\<rparr>),
       knownAddresses = (\<lambda>_. 0)(0 := 3), NrOfKnownAddresses = 1\<rparr>\<rparr>\<rparr>"

theorem first_fx_refresh_wild_witness: "ddl_ub (ddl (snd (snd (refresh_maerklin 1 True fx_demo))))"
  by (rule first_fx_refresh_wild)
    (simp_all add: fx_demo_def drv_start_def ddl_start_def pools_ok_def pool_ok_def pool_init_def rinfo_def entry_def recent_def
      MAX_MARKLIN_ADDRESS_def FAST_REFRESH_TIMEOUT_def srcpd_init_def gl_bus_zero_def gl_zero_def tv0_def)

end
