(* ===== verification/Srcp_GA.thy ===== *)
theory Srcp_GA
  imports Srcp_Bus Device_Lock
begin

unbundle bit_operations_syntax

text \<open>
  \<open>srcp-ga.c\<close>: the generic accessories (turnouts, signals). Per bus a table of
  \<open>numberOfGa + 1\<close> decoder records, a command queue of \<open>QUEUELEN = 50\<close> slots between the
  client threads and the bus thread, the device locks, and the entry point of the central
  station gateway. An address reaches the table as a C \<open>int\<close>; \<open>ga_allocated\<close> is the allocated
  range, and the operations that index the table without a range check raise \<open>ub\<close> outside it.
\<close>

definition QUEUELEN_GA :: nat where [simp, code_unfold]: "QUEUELEN_GA = 50"

definition get_number_ga :: "bus_t \<Rightarrow> srcpd \<Rightarrow> int" where
  "get_number_ga b s = numberOfGa (ga s b)"

definition ga_allocated :: "bus_t \<Rightarrow> int \<Rightarrow> srcpd \<Rightarrow> bool" where
  "ga_allocated b addr s \<longleftrightarrow> 0 < numberOfGa (ga s b) \<and> 0 \<le> addr \<and> addr \<le> numberOfGa (ga s b)"

abbreviation ga_at :: "bus_t \<Rightarrow> int \<Rightarrow> srcpd \<Rightarrow> ga_data_t" where
  "ga_at b addr s \<equiv> gastate (ga s b) (nat addr)"

definition upd_gastate :: "bus_t \<Rightarrow> int \<Rightarrow> (ga_data_t \<Rightarrow> ga_data_t) \<Rightarrow> srcpd \<Rightarrow> srcpd" where
  "upd_gastate b addr f s =
     upd_ga b (\<lambda>g. g\<lparr>gastate := (gastate g)(nat addr := f (gastate g (nat addr)))\<rparr>) s"

section \<open>Command queue\<close>

definition queue_GA_isempty :: "bus_t \<Rightarrow> srcpd \<Rightarrow> bool" where
  "queue_GA_isempty b s = ring_isempty (ga_queue (ga s b))"

definition queue_len_ga :: "bus_t \<Rightarrow> srcpd \<Rightarrow> nat" where
  "queue_len_ga b s = ring_len QUEUELEN_GA (ga_queue (ga s b))"

definition queue_isfull_ga :: "bus_t \<Rightarrow> srcpd \<Rightarrow> bool" where
  "queue_isfull_ga b s \<longleftrightarrow> queue_len_ga b s \<ge> QUEUELEN_GA - 1"

text \<open>
  The slot at position \<open>in\<close> is overwritten field by field, so the fields that are not assigned
  keep what an earlier command left there. \<open>tv[port]\<close> has \<open>MAXGAPORT\<close> elements; \<open>port\<close> comes
  from the client and is not checked.
\<close>

definition enqueueGA :: "bus_t \<Rightarrow> int \<Rightarrow> int \<Rightarrow> int \<Rightarrow> int \<Rightarrow> srcpd \<Rightarrow> int \<times> srcpd" where
  "enqueueGA b addr port action activetime s =
     (if 0 < addr \<and> addr \<le> get_number_ga b s then
        if queue_isfull_ga b s then (SRCP_TEMPORARILYPROHIBITED, s)
        else
          (let q = ga_queue (ga s b); old = slots q (inp q);
               good = (0 \<le> port \<and> port < int MAXGAPORT);
               new = old\<lparr>ga_protocol := ga_protocol (ga_at b addr s), ga_action := action,
                 ga_port := port, ga_activetime := activetime,
                 ga_tv := (if good then (ga_tv old)(nat port := clock s) else ga_tv old),
                 ga_id := addr\<rparr>
           in (SRCP_OK, (upd_ga b (\<lambda>g. g\<lparr>ga_queue := ring_put QUEUELEN_GA new q\<rparr>) s)
                 \<lparr>ub := ub s \<or> \<not> good\<rparr>))
      else (SRCP_WRONGVALUE, s))"

text \<open>The bus thread takes the oldest command; \<open>-1\<close> and no entry when the queue is empty.\<close>

definition dequeueNextGA :: "bus_t \<Rightarrow> srcpd \<Rightarrow> int \<times> ga_data_t option \<times> srcpd" where
  "dequeueNextGA b s =
     (if ring_isempty (ga_queue (ga s b)) then (-1, None, s)
      else let q = ring_drop QUEUELEN_GA (ga_queue (ga s b))
           in (int (outp q), Some (ring_peek (ga_queue (ga s b))),
               upd_ga b (\<lambda>g. g\<lparr>ga_queue := q\<rparr>) s))"

definition getGA :: "bus_t \<Rightarrow> int \<Rightarrow> srcpd \<Rightarrow> int \<times> ga_data_t option" where
  "getGA b addr s =
     (if 0 < addr \<and> addr \<le> get_number_ga b s then (SRCP_OK, Some (ga_at b addr s))
      else (SRCP_NODATA, None))"

definition isInitializedGA :: "bus_t \<Rightarrow> int \<Rightarrow> srcpd \<Rightarrow> bool" where
  "isInitializedGA b addr s \<longleftrightarrow> ga_protocol (ga_at b addr s) \<noteq> nul"

section \<open>SRCP operations\<close>

definition describeGA :: "bus_t \<Rightarrow> int \<Rightarrow> srcpd \<Rightarrow> int \<times> string" where
  "describeGA b addr s =
     (if get_number_ga b s \<le> 0 then (SRCP_UNSUPPORTEDDEVICEGROUP, [])
      else if 0 < addr \<and> addr \<le> get_number_ga b s \<and> ga_protocol (ga_at b addr s) \<noteq> nul then
        (SRCP_INFO, stamp (ga_inittime (ga_at b addr s)) @ '' 101 INFO '' @ show_nat b @ '' GA ''
           @ show_int addr @ '' '' @ [ga_protocol (ga_at b addr s), CHR 0x0A])
      else (SRCP_NODATA, []))"

definition infoGA :: "bus_t \<Rightarrow> int \<Rightarrow> int \<Rightarrow> srcpd \<Rightarrow> int \<times> string" where
  "infoGA b addr port s =
     (if 0 < addr \<and> addr \<le> get_number_ga b s \<and> 0 \<le> port \<and> port < int MAXGAPORT \<and>
         0 < tv_sec (ga_tv (ga_at b addr s) (nat port)) then
        (SRCP_INFO, stamp (ga_tv (ga_at b addr s) (nat port)) @ '' 100 INFO '' @ show_nat b
           @ '' GA '' @ show_int addr @ '' '' @ show_int port @ '' ''
           @ show_int (ga_action (ga_at b addr s)) @ [CHR 0x0A])
      else (SRCP_NODATA, srcp_fmt_msg SRCP_NODATA (clock s)))"

definition initGA :: "bus_t \<Rightarrow> int \<Rightarrow> char \<Rightarrow> srcpd \<Rightarrow> int \<times> srcpd" where
  "initGA b addr protocol s =
     (if 0 < addr \<and> addr \<le> get_number_ga b s then
        (let rc = bus_supports_protocol b protocol s
         in if rc \<noteq> SRCP_OK then (rc, s)
            else
              (let s1 = upd_gastate b addr (\<lambda>g. g\<lparr>ga_protocol := protocol, ga_id := addr,
                    ga_inittime := clock s, ga_activetime := 0, ga_action := 0,
                    ga_tv := (\<lambda>i. if i < MAXGAPORT then tv0 else ga_tv g i)\<rparr>) s;
                   (rc, s2) = (case init_ga_func (buses s b) of
                      None \<Rightarrow> (rc, s1)
                    | Some f \<Rightarrow> (case f (ga_at b addr s1) of
                        (rc, g) \<Rightarrow> (rc, upd_gastate b addr (\<lambda>_. g) s1)))
               in if rc = SRCP_OK then
                    (let s3 = upd_gastate b addr (\<lambda>g. g\<lparr>ga_state := gasActive\<rparr>) s2
                     in (rc, enqueueInfoMessage (snd (describeGA b addr s3)) s3))
                  else (rc, s2)))
      else (SRCP_UNSUPPORTEDDEVICE, s))"

definition setGA :: "bus_t \<Rightarrow> int \<Rightarrow> ga_data_t \<Rightarrow> srcpd \<Rightarrow> int \<times> srcpd" where
  "setGA b addr a s =
     (if 0 < addr \<and> addr \<le> get_number_ga b s then
        (let s1 = (if \<not> isInitializedGA b addr s then snd (initGA b addr (CHR ''P'') s) else s);
             good = (0 \<le> ga_port a \<and> ga_port a < int MAXGAPORT);
             s2 = upd_gastate b addr (\<lambda>g. g\<lparr>ga_id := ga_id a, ga_action := ga_action a,
                 ga_port := ga_port a,
                 ga_tv := (if good then (ga_tv g)(nat (ga_port a) := clock s) else ga_tv g)\<rparr>) s1;
             s3 = s2\<lparr>ub := ub s2 \<or> \<not> good\<rparr>;
             s4 = enqueueInfoMessage (snd (infoGA b addr (ga_port a) s3)) s3;
             at = s32 (ga_activetime a);
             minfo = (if at \<noteq> 0 then [ga_port a, ga_action a, drop_bit 8 at, at AND 0xFF]
                      else [ga_port a, ga_action a])
         in (SRCP_OK, snd (info_mcs b 0x17
               (addr + (if ga_protocol (ga_at b addr s4) = CHR ''N'' then 0x37FF else 0x2FFF))
               minfo s4)))
      else (SRCP_NODATA, s))"

definition termGA :: "bus_t \<Rightarrow> int \<Rightarrow> srcpd \<Rightarrow> int \<times> srcpd" where
  "termGA b addr s =
     (if \<not> ga_allocated b addr s then (SRCP_NODATA, raise_ub s)
      else if isInitializedGA b addr s then
        (let s1 = upd_gastate b addr (\<lambda>g. g\<lparr>ga_state := gasTerm\<rparr>) s;
             s2 = enqueueInfoMessage (stamp (clock s) @ '' 102 INFO '' @ show_nat b @ '' GA ''
                    @ show_int addr @ [CHR 0x0A]) s1
         in (SRCP_OK, upd_gastate b addr (\<lambda>_. ga_zero) s2))
      else (SRCP_NODATA, s))"

section \<open>Locks\<close>

definition describeLOCKGA :: "bus_t \<Rightarrow> int \<Rightarrow> srcpd \<Rightarrow> int \<times> string" where
  "describeLOCKGA b addr s =
     (if addr \<le> 0 \<or> get_number_ga b s < addr then (SRCP_WRONGVALUE, [])
      else (SRCP_OK, stamp (ga_locktime (ga_at b addr s)) @ '' 100 INFO '' @ show_nat b
              @ '' LOCK GA '' @ show_int addr @ '' '' @ show_int (ga_lockduration (ga_at b addr s))
              @ '' '' @ show_nat (ga_locked_by (ga_at b addr s)) @ [CHR 0x0A]))"

definition lockGA :: "bus_t \<Rightarrow> int \<Rightarrow> int \<Rightarrow> sessionid_t \<Rightarrow> srcpd \<Rightarrow> int \<times> srcpd" where
  "lockGA b addr duration sid s =
     (if addr \<le> 0 \<or> get_number_ga b s < addr then (SRCP_WRONGVALUE, s)
      else if ga_locked_by (ga_at b addr s) = sid \<or> ga_locked_by (ga_at b addr s) = 0 then
        (let s1 = upd_gastate b addr (\<lambda>g. g\<lparr>ga_locked_by := sid, ga_lockduration := duration,
                    ga_locktime := clock s\<rparr>) s
         in (SRCP_OK, enqueueInfoMessage (snd (describeLOCKGA b addr s1)) s1))
      else (SRCP_DEVICELOCKED, s))"

definition getlockGA :: "bus_t \<Rightarrow> int \<Rightarrow> srcpd \<Rightarrow> int \<times> sessionid_t" where
  "getlockGA b addr s =
     (if addr \<le> 0 \<or> get_number_ga b s < addr then (SRCP_WRONGVALUE, 0)
      else (SRCP_OK, ga_locked_by (ga_at b addr s)))"

definition unlock_msg_ga :: "bus_t \<Rightarrow> int \<Rightarrow> timeval \<Rightarrow> string" where
  "unlock_msg_ga b addr t =
     stamp t @ '' 102 INFO '' @ show_nat b @ '' LOCK GA '' @ show_int addr @ [CHR 0x0A]"

definition unlockGA :: "bus_t \<Rightarrow> int \<Rightarrow> sessionid_t \<Rightarrow> srcpd \<Rightarrow> int \<times> srcpd" where
  "unlockGA b addr sid s =
     (if addr \<le> 0 \<or> get_number_ga b s < addr then (SRCP_WRONGVALUE, s)
      else if ga_locked_by (ga_at b addr s) = 0 \<or> ga_locked_by (ga_at b addr s) = sid then
        (SRCP_OK, enqueueInfoMessage (unlock_msg_ga b addr (clock s))
           (upd_gastate b addr (\<lambda>g. g\<lparr>ga_locked_by := 0, ga_locktime := clock s\<rparr>) s))
      else (SRCP_DEVICELOCKED, s))"

text \<open>The addresses that the loops over all accessories visit, in their order.\<close>

definition ga_addrs :: "bus_t \<Rightarrow> srcpd \<Rightarrow> int list" where
  "ga_addrs b s = map int [1..<Suc (nat (get_number_ga b s))]"

definition unlock_ga_bysessionid :: "sessionid_t \<Rightarrow> srcpd \<Rightarrow> srcpd" where
  "unlock_ga_bysessionid sid s =
     fold (\<lambda>i s. fold (\<lambda>j s. if ga_locked_by (ga_at i j s) = sid then snd (unlockGA i j sid s) else s)
            (ga_addrs i s) s)
       [1..<Suc (num_buses s)] s"

definition tick_lock_ga :: "bus_t \<Rightarrow> int \<Rightarrow> srcpd \<Rightarrow> srcpd" where
  "tick_lock_ga i j s =
     (let d = ga_lockduration (ga_at i j s);
          s1 = upd_gastate i j (\<lambda>g. g\<lparr>ga_lockduration := d - 1\<rparr>) s
      in if d = 1 then snd (unlockGA i j (ga_locked_by (ga_at i j s1)) s1) else s1)"

definition unlock_ga_bytime :: "srcpd \<Rightarrow> srcpd" where
  "unlock_ga_bytime s =
     fold (\<lambda>i s. fold (tick_lock_ga i) (ga_addrs i s) s) [1..<Suc (num_buses s)] s"

section \<open>Start-up, reset and the gateway\<close>

definition startup_GA :: "srcpd \<Rightarrow> srcpd" where
  "startup_GA s = fold (\<lambda>i s. upd_ga i (\<lambda>g. g\<lparr>numberOfGa := 0,
     ga_queue := (ga_queue g)\<lparr>inp := 0, outp := 0\<rparr>\<rparr>) s) [0..<MAX_BUSES] s"

text \<open>\<open>mem\<close> says whether \<open>malloc\<close> succeeds.\<close>

definition init_GA :: "bool \<Rightarrow> bus_t \<Rightarrow> int \<Rightarrow> srcpd \<Rightarrow> int \<times> srcpd" where
  "init_GA mem b number s =
     (if b \<ge> MAX_BUSES then (1, s)
      else if number > 0 then
        if \<not> mem then (1, s)
        else (0, upd_ga b (\<lambda>g. g\<lparr>numberOfGa := number, gastate := (\<lambda>_. ga_zero)\<rparr>) s)
      else (0, s))"

definition clean_GA :: "bus_t \<Rightarrow> srcpd \<Rightarrow> srcpd" where
  "clean_GA b s = fold (\<lambda>i. upd_gastate b i (\<lambda>_. ga_zero)) (ga_addrs b s) s"

definition handle_mcs_gacc :: "bus_t \<Rightarrow> char \<Rightarrow> int \<Rightarrow> int \<Rightarrow> int \<Rightarrow> int \<Rightarrow> srcpd \<Rightarrow> srcpd" where
  "handle_mcs_gacc b protocol addr port action activetime s =
     (if b = 0 then s
      else if addr \<le> 0 \<or> get_number_ga b s < addr then s
      else if ga_protocol (ga_at b addr s) \<noteq> protocol then
        (case initGA b addr protocol s of (rc, s1) \<Rightarrow>
           if rc \<noteq> SRCP_OK then s1 else snd (enqueueGA b addr port action activetime s1))
      else snd (enqueueGA b addr port action activetime s))"

section \<open>Frame lemmas\<close>

lemma upd_ga_frame [simp]:
  "ub (upd_ga b f s) = ub s" "clock (upd_ga b f s) = clock s"
  "num_buses (upd_ga b f s) = num_buses s" "buses (upd_ga b f s) = buses s"
  "session_list (upd_ga b f s) = session_list s" "gl (upd_ga b f s) = gl s"
  "fb (upd_ga b f s) = fb s" "sm_queue (upd_ga b f s) = sm_queue s"
  "mcs_bus (upd_ga b f s) = mcs_bus s" "mcs_out (upd_ga b f s) = mcs_out s"
  "ga (upd_ga b f s) = (ga s)(b := f (ga s b))"
  "lastsession (upd_ga b f s) = lastsession s" "runningsessions (upd_ga b f s) = runningsessions s"
  by (simp_all add: upd_ga_def)

lemma sessions_ok_upd_ga [simp]: "sessions_ok (upd_ga b f s) \<longleftrightarrow> sessions_ok s"
  by (simp add: sessions_ok_def)

lemma upd_gastate_frame [simp]:
  "ub (upd_gastate b a f s) = ub s" "clock (upd_gastate b a f s) = clock s"
  "num_buses (upd_gastate b a f s) = num_buses s" "buses (upd_gastate b a f s) = buses s"
  "session_list (upd_gastate b a f s) = session_list s" "gl (upd_gastate b a f s) = gl s"
  "fb (upd_gastate b a f s) = fb s" "sm_queue (upd_gastate b a f s) = sm_queue s"
  "mcs_bus (upd_gastate b a f s) = mcs_bus s" "mcs_out (upd_gastate b a f s) = mcs_out s"
  "numberOfGa (ga (upd_gastate b a f s) b') = numberOfGa (ga s b')"
  "ga_queue (ga (upd_gastate b a f s) b') = ga_queue (ga s b')"
  "sessions_ok (upd_gastate b a f s) = sessions_ok s"
  "info_seen i (upd_gastate b a f s) = info_seen i s"
  "info_subscribed i (upd_gastate b a f s) = info_subscribed i s"
  by (simp_all add: upd_gastate_def info_seen_def info_subscribed_def)

lemma gastate_upd_gastate [simp]:
  "gastate (ga (upd_gastate b a f s) b') n =
     (if b' = b \<and> n = nat a then f (gastate (ga s b) n) else gastate (ga s b') n)"
  by (simp add: upd_gastate_def)

lemma get_number_ga_frame [simp]:
  "get_number_ga b (upd_gastate b' a f s) = get_number_ga b s"
  "get_number_ga b (enqueueInfoMessage m s) = get_number_ga b s"
  "get_number_ga b (s\<lparr>clock := t\<rparr>) = get_number_ga b s"
  "get_number_ga b (s\<lparr>ub := u\<rparr>) = get_number_ga b s"
  by (simp_all add: get_number_ga_def)

lemma srcpd_field_frame [simp]: "sessions_ok (s\<lparr>ub := u\<rparr>) = sessions_ok s"
  "sessions_ok (s\<lparr>clock := t\<rparr>) = sessions_ok s"
  by (simp_all add: sessions_ok_def)

section \<open>The command queue\<close>

interpretation garing: bounded_fifo 49 "ring_ok 50" "ring_list 50" ring_isempty "ring_isfull 50"
    "ring_put 50" ring_peek "ring_drop 50"
  using ring_bounded_fifo [of 50] by simp

text \<open>An entry carries the request of the client.\<close>

fun ga_carries :: "int \<times> int \<times> int \<times> int \<Rightarrow> ga_data_t \<Rightarrow> bool" where
  "ga_carries (addr, port, action, activetime) e \<longleftrightarrow>
     ga_id e = addr \<and> ga_port e = port \<and> ga_action e = action \<and> ga_activetime e = activetime"

fun enqueueGA_req :: "bus_t \<Rightarrow> int \<times> int \<times> int \<times> int \<Rightarrow> srcpd \<Rightarrow> int \<times> srcpd" where
  "enqueueGA_req b (addr, port, action, activetime) s = enqueueGA b addr port action activetime s"

abbreviation ga_pending :: "bus_t \<Rightarrow> srcpd \<Rightarrow> ga_data_t list" where
  "ga_pending b s \<equiv> ring_list QUEUELEN_GA (ga_queue (ga s b))"

lemma queue_isfull_ga_ring: "queue_isfull_ga b s \<longleftrightarrow> ring_isfull 50 (ga_queue (ga s b))"
  by (simp add: queue_isfull_ga_def queue_len_ga_def ring_isfull_def)

lemma enqueueGA_code:
  "fst (enqueueGA b addr port action at s) =
     (if 0 < addr \<and> addr \<le> get_number_ga b s then
        if queue_isfull_ga b s then SRCP_TEMPORARILYPROHIBITED else SRCP_OK
      else SRCP_WRONGVALUE)"
  by (simp add: enqueueGA_def Let_def)

lemma enqueueGA_refused:
  "fst (enqueueGA b addr port action at s) \<noteq> SRCP_OK \<Longrightarrow> enqueueGA b addr port action at s =
     (fst (enqueueGA b addr port action at s), s)"
  by (auto simp: enqueueGA_def Let_def)

lemma enqueueGA_appends:
  assumes "ring_ok 50 (ga_queue (ga s b))" "fst (enqueueGA b addr port action at s) = SRCP_OK"
  shows "\<exists>e. ga_carries (addr, port, action, at) e \<and> ga_protocol e = ga_protocol (ga_at b addr s) \<and>
    ga_pending b (snd (enqueueGA b addr port action at s)) = ga_pending b s @ [e]"
proof -
  have c: "0 < addr \<and> addr \<le> get_number_ga b s" "\<not> queue_isfull_ga b s"
    using assms(2) by (auto simp: enqueueGA_code srcp_codes split: if_splits)
  then have room: "\<not> ring_isfull 50 (ga_queue (ga s b))" by (simp add: queue_isfull_ga_ring)
  show ?thesis
    using garing.put_law [OF assms(1) room] c by (simp add: enqueueGA_def Let_def)
qed

lemma enqueueGA_ring_ok:
  "ring_ok 50 (ga_queue (ga s b)) \<Longrightarrow>
   ring_ok 50 (ga_queue (ga (snd (enqueueGA b addr port action at s)) b))"
  by (simp add: enqueueGA_def Let_def garing.put_inv)

interpretation gaq: command_queue SRCP_OK "\<lambda>s. ring_ok 50 (ga_queue (ga s b))" "ga_pending b"
    ga_carries "enqueueGA_req b" "\<lambda>s. snd (dequeueNextGA b s)" for b
proof
  fix s :: srcpd and r :: "int \<times> int \<times> int \<times> int"
  obtain a p c t where r: "r = (a, p, c, t)" by (cases r)
  assume ok: "ring_ok 50 (ga_queue (ga s b))"
  show "ring_ok 50 (ga_queue (ga (snd (enqueueGA_req b r s)) b))"
    using enqueueGA_ring_ok [OF ok] by (simp add: r)
  show "fst (enqueueGA_req b r s) = SRCP_OK \<Longrightarrow>
      \<exists>e. ga_carries r e \<and> ga_pending b (snd (enqueueGA_req b r s)) = ga_pending b s @ [e]"
    using enqueueGA_appends [OF ok, of a p c t] by (auto simp: r)
  show "fst (enqueueGA_req b r s) \<noteq> SRCP_OK \<Longrightarrow>
      ga_pending b (snd (enqueueGA_req b r s)) = ga_pending b s"
    using enqueueGA_refused [of b a p c t s] by (simp add: r) (metis snd_conv)
  show "ring_ok 50 (ga_queue (ga (snd (snd (dequeueNextGA b s))) b))"
    using ok by (simp add: dequeueNextGA_def Let_def garing.drop_inv)
  show "ga_pending b s = [] \<Longrightarrow> fst (snd (dequeueNextGA b s)) = None \<and>
      ga_pending b (snd (snd (dequeueNextGA b s))) = []"
    using garing.isempty_law [OF ok] by (simp add: dequeueNextGA_def)
  fix e es
  show "ga_pending b s = e # es \<Longrightarrow> fst (snd (dequeueNextGA b s)) = Some e \<and>
      ga_pending b (snd (snd (dequeueNextGA b s))) = es"
    using garing.isempty_law [OF ok] garing.drop_law [OF ok] by (simp add: dequeueNextGA_def Let_def)
qed

section \<open>Locks\<close>

fun ga_target :: "bus_t \<times> int \<Rightarrow> srcpd \<Rightarrow> (bus_t \<times> int) option" where
  "ga_target (b, addr) s = (if 0 < addr \<and> addr \<le> get_number_ga b s then Some (b, addr) else None)"

fun ga_owner :: "bus_t \<times> int \<Rightarrow> srcpd \<Rightarrow> sessionid_t" where
  "ga_owner (b, addr) s = ga_locked_by (ga_at b addr s)"

fun lockGA_req :: "bus_t \<times> int \<Rightarrow> int \<Rightarrow> sessionid_t \<Rightarrow> srcpd \<Rightarrow> int \<times> srcpd" where
  "lockGA_req (b, addr) d sid s = lockGA b addr d sid s"

fun unlockGA_req :: "bus_t \<times> int \<Rightarrow> sessionid_t \<Rightarrow> srcpd \<Rightarrow> int \<times> srcpd" where
  "unlockGA_req (b, addr) sid s = unlockGA b addr sid s"

interpretation galock: device_lock ga_target ga_owner lockGA_req unlockGA_req
proof
  fix r r' :: "bus_t \<times> int" and d :: "bus_t \<times> int" and t sid s
  obtain b a where r: "r = (b, a)" by (cases r)
  obtain b' a' where r': "r' = (b', a')" by (cases r')
  obtain bd ad where d: "d = (bd, ad)" by (cases d)
  show "fst (lockGA_req r t sid s) = (case ga_target r s of None \<Rightarrow> SRCP_WRONGVALUE
     | Some d \<Rightarrow> if ga_owner d s = 0 \<or> ga_owner d s = sid then SRCP_OK else SRCP_DEVICELOCKED)"
    by (auto simp: r lockGA_def Let_def)
  show "ga_owner d (snd (lockGA_req r t sid s)) =
      (if ga_target r s = Some d \<and> fst (lockGA_req r t sid s) = SRCP_OK then sid else ga_owner d s)"
    by (auto simp: r d lockGA_def Let_def srcp_codes nat_eq_iff)
  show "ga_target r' (snd (lockGA_req r t sid s)) = ga_target r' s"
    by (simp add: r r' lockGA_def Let_def)
  show "fst (unlockGA_req r sid s) = (case ga_target r s of None \<Rightarrow> SRCP_WRONGVALUE
     | Some d \<Rightarrow> if ga_owner d s = 0 \<or> ga_owner d s = sid then SRCP_OK else SRCP_DEVICELOCKED)"
    by (auto simp: r unlockGA_def)
  show "ga_owner d (snd (unlockGA_req r sid s)) =
      (if ga_target r s = Some d \<and> fst (unlockGA_req r sid s) = SRCP_OK then 0 else ga_owner d s)"
    by (auto simp: r d unlockGA_def srcp_codes nat_eq_iff)
  show "ga_target r' (snd (unlockGA_req r sid s)) = ga_target r' s"
    by (simp add: r r' unlockGA_def)
qed

section \<open>Loops over all accessories\<close>

text \<open>
  \<open>unlock_ga_bysessionid\<close> and \<open>unlock_ga_bytime\<close> apply one operation to every accessory of
  every bus. When the operation changes only its own record, the loops change every record of
  the buses \<open>1..n\<close> once and nothing else.
\<close>

definition ga_local :: "(bus_t \<Rightarrow> int \<Rightarrow> srcpd \<Rightarrow> srcpd) \<Rightarrow> (timeval \<Rightarrow> ga_data_t \<Rightarrow> ga_data_t) \<Rightarrow> bool" where
  "ga_local f h \<longleftrightarrow> (\<forall>i j s. 0 < j \<and> j \<le> get_number_ga i s \<longrightarrow>
     clock (f i j s) = clock s \<and> num_buses (f i j s) = num_buses s \<and>
     (\<forall>b. numberOfGa (ga (f i j s) b) = numberOfGa (ga s b)) \<and>
     (\<forall>b a. gastate (ga (f i j s) b) a =
        (if b = i \<and> a = nat j then h (clock s) (gastate (ga s b) a) else gastate (ga s b) a)))"

lemma ga_local_bus:
  assumes f: "ga_local f h" and n: "n \<le> nat (get_number_ga i s)"
  shows "clock (fold (f i) (map int [1..<Suc n]) s) = clock s \<and>
    num_buses (fold (f i) (map int [1..<Suc n]) s) = num_buses s \<and>
    (\<forall>b. numberOfGa (ga (fold (f i) (map int [1..<Suc n]) s) b) = numberOfGa (ga s b)) \<and>
    (\<forall>b a. gastate (ga (fold (f i) (map int [1..<Suc n]) s) b) a =
       (if b = i \<and> 1 \<le> a \<and> a \<le> n then h (clock s) (gastate (ga s b) a) else gastate (ga s b) a))"
  using n
proof (induction n)
  case (Suc n)
  let ?s = "fold (f i) (map int [1..<Suc n]) s"
  have IH: "clock ?s = clock s" "num_buses ?s = num_buses s"
      "\<And>b. numberOfGa (ga ?s b) = numberOfGa (ga s b)"
      "\<And>b a. gastate (ga ?s b) a =
         (if b = i \<and> 1 \<le> a \<and> a \<le> n then h (clock s) (gastate (ga s b) a) else gastate (ga s b) a)"
    using Suc by auto
  have step: "fold (f i) (map int [1..<Suc (Suc n)]) s = f i (int (Suc n)) ?s" by simp
  have "0 < int (Suc n) \<and> int (Suc n) \<le> get_number_ga i ?s"
    using Suc.prems IH(3) by (simp add: get_number_ga_def)
  with f have *: "clock (f i (int (Suc n)) ?s) = clock ?s"
      "num_buses (f i (int (Suc n)) ?s) = num_buses ?s"
      "\<And>b. numberOfGa (ga (f i (int (Suc n)) ?s) b) = numberOfGa (ga ?s b)"
      "\<And>b a. gastate (ga (f i (int (Suc n)) ?s) b) a = (if b = i \<and> a = Suc n
         then h (clock ?s) (gastate (ga ?s b) a) else gastate (ga ?s b) a)"
    unfolding ga_local_def by (metis nat_int)+
  show ?case unfolding step * IH by auto
qed simp

lemma ga_local_all:
  assumes f: "ga_local f h"
  defines "F \<equiv> \<lambda>n s. fold (\<lambda>i s. fold (f i) (ga_addrs i s) s) [1..<Suc n] s"
  shows "clock (F n s) = clock s \<and> num_buses (F n s) = num_buses s \<and>
    (\<forall>b. numberOfGa (ga (F n s) b) = numberOfGa (ga s b)) \<and>
    (\<forall>b a. gastate (ga (F n s) b) a =
       (if 1 \<le> b \<and> b \<le> n \<and> 1 \<le> a \<and> int a \<le> numberOfGa (ga s b)
        then h (clock s) (gastate (ga s b) a) else gastate (ga s b) a))"
proof (induction n)
  case 0
  show ?case by (simp add: F_def)
next
  case (Suc n)
  let ?s = "F n s"
  have step: "F (Suc n) s = fold (f (Suc n)) (map int [1..<Suc (nat (get_number_ga (Suc n) ?s))]) ?s"
    by (simp add: F_def ga_addrs_def)
  have num: "get_number_ga (Suc n) ?s = numberOfGa (ga s (Suc n))"
    using Suc by (simp add: get_number_ga_def)
  have le: "a \<le> nat m \<longleftrightarrow> int a \<le> m" if "1 \<le> a" for a and m :: int
    using that by linarith
  let ?t = "F (Suc n) s"
  have IH: "clock ?s = clock s" "num_buses ?s = num_buses s"
      "\<And>b. numberOfGa (ga ?s b) = numberOfGa (ga s b)"
      "\<And>b a. gastate (ga ?s b) a = (if 1 \<le> b \<and> b \<le> n \<and> 1 \<le> a \<and> int a \<le> numberOfGa (ga s b)
         then h (clock s) (gastate (ga s b) a) else gastate (ga s b) a)"
    using Suc by auto
  note * = ga_local_bus [OF f order_refl, of "Suc n" ?s, folded step, unfolded num]
  have bus: "clock ?t = clock ?s" "num_buses ?t = num_buses ?s"
      "\<And>b. numberOfGa (ga ?t b) = numberOfGa (ga ?s b)"
      "\<And>b a. gastate (ga ?t b) a =
         (if b = Suc n \<and> 1 \<le> a \<and> a \<le> nat (numberOfGa (ga s (Suc n)))
          then h (clock ?s) (gastate (ga ?s b) a) else gastate (ga ?s b) a)"
    using * by blast+
  have "b \<le> Suc n \<longleftrightarrow> b = Suc n \<or> b \<le> n" for b by auto
  then show ?case unfolding bus IH using le by (cases "n = 0") (auto simp del: One_nat_def)
qed

text \<open>What the two loops do to one record.\<close>

definition release_by :: "sessionid_t \<Rightarrow> timeval \<Rightarrow> ga_data_t \<Rightarrow> ga_data_t" where
  "release_by sid t g = (if ga_locked_by g = sid then g\<lparr>ga_locked_by := 0, ga_locktime := t\<rparr> else g)"

definition age_lock :: "timeval \<Rightarrow> ga_data_t \<Rightarrow> ga_data_t" where
  "age_lock t g =
     (if ga_lockduration g = 1
      then g\<lparr>ga_lockduration := 0, ga_locked_by := 0, ga_locktime := t\<rparr>
      else g\<lparr>ga_lockduration := ga_lockduration g - 1\<rparr>)"

lemma release_local:
  "ga_local (\<lambda>i j s. if ga_locked_by (ga_at i j s) = sid then snd (unlockGA i j sid s) else s)
     (release_by sid)"
  by (auto simp: ga_local_def release_by_def unlockGA_def)

lemma age_local: "ga_local tick_lock_ga age_lock"
  by (auto simp: ga_local_def age_lock_def tick_lock_ga_def unlockGA_def Let_def)

lemma unlock_ga_bysessionid_pointwise:
  "gastate (ga (unlock_ga_bysessionid sid s) b) a =
     (if 1 \<le> b \<and> b \<le> num_buses s \<and> 1 \<le> a \<and> int a \<le> numberOfGa (ga s b)
      then release_by sid (clock s) (gastate (ga s b) a) else gastate (ga s b) a)"
  using ga_local_all [OF release_local [of sid], of "num_buses s" s]
  by (simp add: unlock_ga_bysessionid_def del: upt_Suc)

lemma unlock_ga_bytime_pointwise:
  "clock (unlock_ga_bytime s) = clock s" "num_buses (unlock_ga_bytime s) = num_buses s"
  "numberOfGa (ga (unlock_ga_bytime s) b) = numberOfGa (ga s b)"
  "gastate (ga (unlock_ga_bytime s) b) a =
     (if 1 \<le> b \<and> b \<le> num_buses s \<and> 1 \<le> a \<and> int a \<le> numberOfGa (ga s b)
      then age_lock (clock s) (gastate (ga s b) a) else gastate (ga s b) a)"
  using ga_local_all [OF age_local, of "num_buses s" s]
  by (simp_all add: unlock_ga_bytime_def del: upt_Suc)

text \<open>One call of \<open>unlock_ga_bytime\<close> per second, at the clock readings \<open>ts\<close>.\<close>

definition seconds_ga :: "timeval list \<Rightarrow> srcpd \<Rightarrow> srcpd" where
  "seconds_ga ts s = fold (\<lambda>t s. unlock_ga_bytime (s\<lparr>clock := t\<rparr>)) ts s"

lemma seconds_ga_lock:
  assumes "1 \<le> b" "b \<le> num_buses s" "0 < addr" "addr \<le> get_number_ga b s"
  shows "ga_lockduration (ga_at b addr (seconds_ga ts s)) =
      ga_lockduration (ga_at b addr s) - int (length ts) \<and>
    ga_locked_by (ga_at b addr (seconds_ga ts s)) =
      (if 0 < ga_lockduration (ga_at b addr s) \<and> ga_lockduration (ga_at b addr s) \<le> int (length ts)
       then 0 else ga_locked_by (ga_at b addr s)) \<and>
    get_number_ga b (seconds_ga ts s) = get_number_ga b s"
  using assms
proof (induction ts arbitrary: s)
  case Nil
  then show ?case by (simp add: seconds_ga_def)
next
  case (Cons t ts)
  let ?s = "unlock_ga_bytime (s\<lparr>clock := t\<rparr>)"
  have step: "seconds_ga (t # ts) s = seconds_ga ts ?s" by (simp add: seconds_ga_def)
  have num: "get_number_ga b ?s = get_number_ga b s" "num_buses ?s = num_buses s"
    by (simp_all add: get_number_ga_def unlock_ga_bytime_pointwise)
  have rec: "ga_at b addr ?s = age_lock t (ga_at b addr s)"
    using Cons.prems by (simp add: unlock_ga_bytime_pointwise get_number_ga_def)
  show ?case
    using Cons.IH [of ?s] Cons.prems num unfolding step rec
    by (auto simp: age_lock_def)
qed

section \<open>Properties\<close>

text \<open>A daemon with one bus of four accessories of protocol P.\<close>

definition ga_demo :: srcpd where
  "ga_demo = snd (init_GA True 1 4 (srcpd_init\<lparr>num_buses := 2, clock := \<lparr>tv_sec = 7, tv_usec = 0\<rparr>,
     buses := (\<lambda>_. bus_zero\<lparr>bus_protocols := Some ''P''\<rparr>)\<rparr>))"

lemma ga_demo_simps [simp]:
  "num_buses ga_demo = 2" "ga ga_demo 1 = ga_bus_zero\<lparr>numberOfGa := 4\<rparr>"
  "ga ga_demo (Suc 0) = ga_bus_zero\<lparr>numberOfGa := 4\<rparr>"
  "get_number_ga 1 ga_demo = 4" "get_number_ga (Suc 0) ga_demo = 4"
  "clock ga_demo = \<lparr>tv_sec = 7, tv_usec = 0\<rparr>" "ub ga_demo = False" "session_list ga_demo = []"
  "bus_protocols (buses ga_demo b) = Some ''P''" "init_ga_func (buses ga_demo b) = None"
  "sessions_ok ga_demo"
  by (simp_all add: ga_demo_def init_GA_def srcpd_init_def ga_bus_zero_def get_number_ga_def
      bus_zero_def sessions_ok_def)

text \<open>C8. Accessory commands are executed in the order in which they were accepted: for every
  interleaving of client calls of \<open>enqueueGA\<close> and calls of \<open>dequeueNextGA\<close> by the bus thread,
  the entries taken out, followed by those still waiting, are those that were waiting before,
  followed by one entry per accepted request, in order and with its address, port, action and
  activation time.\<close>

theorem ga_commands_in_order:
  assumes "ring_ok QUEUELEN_GA (ga_queue (ga s b))"
    and "queue_run SRCP_OK (enqueueGA_req b) (\<lambda>s. snd (dequeueNextGA b s)) ops s = (acc, del, s')"
  shows "\<exists>es. del @ ga_pending b s' = ga_pending b s @ es \<and> list_all2 ga_carries acc es"
  using gaq.run_in_order [of s b ops acc del s'] assms by simp

theorem ga_commands_in_order_witness:
  "\<exists>acc del s'. queue_run SRCP_OK (enqueueGA_req 1) (\<lambda>s. snd (dequeueNextGA 1 s))
      [Enq (2, 0, 1, 0), Enq (9, 0, 1, 0), Enq (3, 1, 1, 0), Deq] ga_demo = (acc, del, s') \<and>
     (\<exists>es. del @ ga_pending 1 s' = es \<and> list_all2 ga_carries acc es)"
proof -
  obtain acc del s' where run: "queue_run SRCP_OK (enqueueGA_req 1) (\<lambda>s. snd (dequeueNextGA 1 s))
      [Enq (2, 0, 1, 0), Enq (9, 0, 1, 0), Enq (3, 1, 1, 0), Deq] ga_demo = (acc, del, s')"
    by (metis prod_cases3)
  have ok: "ring_ok QUEUELEN_GA (ga_queue (ga ga_demo 1))" by (simp add: ga_bus_zero_def)
  have "ga_pending 1 ga_demo = []" by (simp add: ga_bus_zero_def)
  with ga_commands_in_order [OF ok run] run show ?thesis by simp
qed

text \<open>C7. A locked accessory stays with its session: while one session holds the lock, no
  sequence of \<open>lockGA\<close> and \<open>unlockGA\<close> requests of other sessions takes it away, and each of
  these requests that names the accessory is answered with \<open>SRCP_DEVICELOCKED\<close>.\<close>

theorem lock_GA_exclusive:
  assumes "ga_locked_by (ga_at b addr s) = sid" "sid \<noteq> 0"
    and "\<forall>q \<in> set qs. lock_req_by q \<noteq> sid"
  shows "ga_locked_by (ga_at b addr (snd (lock_run lockGA_req unlockGA_req qs s))) = sid \<and>
    (0 < addr \<and> addr \<le> get_number_ga b s \<longrightarrow> (\<forall>i < length qs. lock_req_dev (qs ! i) = (b, addr) \<longrightarrow>
       fst (lock_run lockGA_req unlockGA_req qs s) ! i = SRCP_DEVICELOCKED))"
  using galock.run_excludes [of "(b, addr)" s sid qs] assms by auto

theorem lock_GA_exclusive_witness:
  "ga_locked_by (ga_at 1 3 (snd (lock_run lockGA_req unlockGA_req
      [Lock (1, 3) 10 6, Unlock (1, 3) 6] (snd (lockGA 1 3 0 5 ga_demo))))) = 5"
  using lock_GA_exclusive [of "snd (lockGA 1 3 0 5 ga_demo)" 1 3 5
      "[Lock (1, 3) 10 6, Unlock (1, 3) 6]"]
  by (simp add: lockGA_def Let_def ga_bus_zero_def ga_zero_def)

text \<open>A lock ends exactly when its duration is over: after \<open>lockGA\<close> with duration \<open>d\<close>, once
  \<open>unlock_ga_bytime\<close> has run \<open>n\<close> times the accessory is free if \<open>0 < d \<le> n\<close>, and otherwise
  still belongs to the session; the duration \<open>describeLOCKGA\<close> reports is then \<open>d - n\<close>, which
  is negative for an unlimited lock (\<open>d = 0\<close>).\<close>

theorem lock_GA_expires:
  assumes "1 \<le> b" "b \<le> num_buses s" "0 < addr" "addr \<le> get_number_ga b s"
    and "ga_locked_by (ga_at b addr s) = 0 \<or> ga_locked_by (ga_at b addr s) = sid"
  shows "ga_locked_by (ga_at b addr (seconds_ga ts (snd (lockGA b addr d sid s)))) =
      (if 0 < d \<and> d \<le> int (length ts) then 0 else sid) \<and>
    ga_lockduration (ga_at b addr (seconds_ga ts (snd (lockGA b addr d sid s)))) = d - int (length ts)"
proof -
  let ?s = "snd (lockGA b addr d sid s)"
  have "num_buses ?s = num_buses s" "get_number_ga b ?s = get_number_ga b s"
    "ga_locked_by (ga_at b addr ?s) = sid" "ga_lockduration (ga_at b addr ?s) = d"
    using assms by (auto simp: lockGA_def Let_def)
  then show ?thesis using assms seconds_ga_lock [of b ?s addr ts] by simp
qed

theorem lock_GA_expires_witness:
  "ga_locked_by (ga_at 1 3 (seconds_ga [tv0, tv0] (snd (lockGA 1 3 2 5 ga_demo)))) = 0 \<and>
   ga_lockduration (ga_at 1 3 (seconds_ga [tv0, tv0] (snd (lockGA 1 3 0 5 ga_demo)))) = -2"
  using lock_GA_expires [of 1 ga_demo 3 5 "[tv0, tv0]" 2]
    lock_GA_expires [of 1 ga_demo 3 5 "[tv0, tv0]" 0]
  by (simp add: ga_bus_zero_def ga_zero_def)

text \<open>The end of a session releases its accessories: after \<open>unlock_ga_bysessionid\<close> no
  accessory of the buses \<open>1..num_buses\<close> is locked by that session, and every other record is
  unchanged.\<close>

theorem unlock_ga_bysessionid_releases:
  assumes "sid \<noteq> 0" "1 \<le> b" "b \<le> num_buses s" "0 < addr" "addr \<le> get_number_ga b s"
  shows "ga_locked_by (ga_at b addr (unlock_ga_bysessionid sid s)) \<noteq> sid \<and>
    (ga_locked_by (ga_at b addr s) \<noteq> sid \<longrightarrow>
       ga_at b addr (unlock_ga_bysessionid sid s) = ga_at b addr s)"
  using assms by (auto simp: unlock_ga_bysessionid_pointwise release_by_def get_number_ga_def)

theorem unlock_ga_bysessionid_releases_witness:
  "ga_locked_by (ga_at 1 3 (unlock_ga_bysessionid 5 (snd (lockGA 1 3 0 5 ga_demo)))) \<noteq> 5"
  using unlock_ga_bysessionid_releases [of 5 1 "snd (lockGA 1 3 0 5 ga_demo)" 3]
  by (simp add: lockGA_def Let_def ga_bus_zero_def ga_zero_def)

text \<open>\<open>initGA\<close> on every branch, for a bus without a driver callback: an address outside
  \<open>1..numberOfGa\<close> and an unsupported protocol are refused with the state unchanged; otherwise
  the accessory is initialised, \<open>describeGA\<close> then reports the new protocol and the current
  time, that report is what the info sessions receive, and the lock is kept.\<close>

theorem initGA_result:
  assumes "init_ga_func (buses s b) = None" "p \<noteq> nul"
  shows "(\<not> (0 < addr \<and> addr \<le> get_number_ga b s) \<longrightarrow>
       initGA b addr p s = (SRCP_UNSUPPORTEDDEVICE, s)) \<and>
    (0 < addr \<and> addr \<le> get_number_ga b s \<and> bus_supports_protocol b p s \<noteq> SRCP_OK \<longrightarrow>
       initGA b addr p s = (SRCP_UNSUPPORTEDDEVICEPROTOCOL, s)) \<and>
    (0 < addr \<and> addr \<le> get_number_ga b s \<and> bus_supports_protocol b p s = SRCP_OK \<longrightarrow>
       (let s' = snd (initGA b addr p s);
            m = stamp (clock s) @ '' 101 INFO '' @ show_nat b @ '' GA '' @ show_int addr @ '' ''
              @ [p, CHR 0x0A]
        in fst (initGA b addr p s) = SRCP_OK \<and> isInitializedGA b addr s' \<and>
           ga_state (ga_at b addr s') = gasActive \<and> describeGA b addr s' = (SRCP_INFO, m) \<and>
           info_seen i s' = (if info_subscribed i s then info_seen i s @ [m] else info_seen i s) \<and>
           ga_locked_by (ga_at b addr s') = ga_locked_by (ga_at b addr s)))"
proof -
  have prot: "bus_supports_protocol b p s \<noteq> SRCP_OK \<Longrightarrow>
      bus_supports_protocol b p s = SRCP_UNSUPPORTEDDEVICEPROTOCOL"
    by (auto simp: bus_supports_protocol_def split: option.splits if_splits)
  show ?thesis
    using assms prot
    by (auto simp: initGA_def Let_def describeGA_def isInitializedGA_def)
qed

theorem initGA_result_witness:
  "initGA 1 9 (CHR ''P'') ga_demo = (SRCP_UNSUPPORTEDDEVICE, ga_demo) \<and>
   fst (initGA 1 3 (CHR ''P'') ga_demo) = SRCP_OK"
  using initGA_result [of ga_demo 1 "CHR ''P''" 9] initGA_result [of ga_demo 1 "CHR ''P''" 3]
  by (simp add: bus_supports_protocol_def Let_def)

text \<open>A driver that refuses the accessory leaves it initialised: when \<open>init_ga_func\<close> returns
  an error, \<open>initGA\<close> returns that error, but the record keeps the protocol the driver left in
  it, so that \<open>isInitializedGA\<close> holds and \<open>describeGA\<close> answers as for an accessory whose INIT
  succeeded.\<close>

theorem initGA_refused_by_driver:
  assumes "0 < addr" "addr \<le> get_number_ga b s" "bus_supports_protocol b p s = SRCP_OK"
    and "init_ga_func (buses s b) = Some f" "\<forall>g. fst (f g) \<noteq> SRCP_OK \<and> ga_protocol (snd (f g)) = p"
    and "p \<noteq> nul"
  shows "fst (initGA b addr p s) \<noteq> SRCP_OK \<and> isInitializedGA b addr (snd (initGA b addr p s)) \<and>
    fst (describeGA b addr (snd (initGA b addr p s))) = SRCP_INFO"
  using assms
  by (auto simp: initGA_def Let_def isInitializedGA_def describeGA_def case_prod_unfold)

theorem initGA_refused_by_driver_witness:
  "isInitializedGA 1 2 (snd (initGA 1 2 (CHR ''P'')
     (upd_bus 1 (\<lambda>b. b\<lparr>init_ga_func := Some (\<lambda>g. (SRCP_UNSUPPORTEDDEVICE, g\<lparr>ga_protocol := CHR ''P''\<rparr>))\<rparr>) ga_demo)))"
  using initGA_refused_by_driver [of 2 1 "upd_bus 1 (\<lambda>b. b\<lparr>init_ga_func := Some (\<lambda>g.
      (SRCP_UNSUPPORTEDDEVICE, g\<lparr>ga_protocol := CHR ''P''\<rparr>))\<rparr>) ga_demo" "CHR ''P''"]
  by (simp add: bus_supports_protocol_def get_number_ga_def ga_bus_zero_def srcp_codes)

text \<open>What the bus thread reports with \<open>setGA\<close> is what a client reads with \<open>infoGA\<close>: for an
  initialised accessory and one of its ports, the state is stored without a memory error, the
  info sessions receive the message that GET then returns, and the central station, when it is
  attached to that bus, receives one accessory frame.\<close>

theorem setGA_infoGA:
  assumes "0 < addr" "addr \<le> get_number_ga b s" "isInitializedGA b addr s"
    and "0 \<le> ga_port a" "ga_port a < 2" "0 < tv_sec (clock s)" "sessions_ok s"
  shows "let s' = snd (setGA b addr a s);
      m = stamp (clock s) @ '' 100 INFO '' @ show_nat b @ '' GA '' @ show_int addr @ '' '' @
        show_int (ga_port a) @ '' '' @ show_int (ga_action a) @ [CHR 0x0A]
    in fst (setGA b addr a s) = SRCP_OK \<and> ub s' = ub s \<and>
       infoGA b addr (ga_port a) s' = (SRCP_INFO, m) \<and>
       info_seen i s' = (if info_subscribed i s then info_seen i s @ [m] else info_seen i s) \<and>
       length (mcs_out s') = length (mcs_out s) + (if b = mcs_bus s then 1 else 0)"
proof -
  let ?s2 = "upd_gastate b addr (\<lambda>g. g\<lparr>ga_id := ga_id a, ga_action := ga_action a,
     ga_port := ga_port a, ga_tv := (ga_tv g)(nat (ga_port a) := clock s)\<rparr>) s"
  let ?s3 = "?s2\<lparr>ub := ub ?s2\<rparr>"
  let ?m = "stamp (clock s) @ '' 100 INFO '' @ show_nat b @ '' GA '' @ show_int addr @ '' '' @
        show_int (ga_port a) @ '' '' @ show_int (ga_action a) @ [CHR 0x0A]"
  have info: "infoGA b addr (ga_port a) ?s3 = (SRCP_INFO, ?m)"
    using assms by (simp add: infoGA_def MAXGAPORT_def)
  obtain i0 d where set: "setGA b addr a s =
      (SRCP_OK, snd (info_mcs b 0x17 i0 d (enqueueInfoMessage ?m ?s3)))"
    using assms info by (simp add: setGA_def Let_def MAXGAPORT_def)
  have "infoGA b addr (ga_port a) (snd (info_mcs b 0x17 i0 d (enqueueInfoMessage ?m ?s3)))
      = infoGA b addr (ga_port a) ?s3"
    by (simp add: infoGA_def get_number_ga_def)
  moreover have "ub (snd (info_mcs b 0x17 i0 d (enqueueInfoMessage ?m ?s3))) = ub s"
    using assms by simp
  ultimately show ?thesis
    unfolding set Let_def using info by simp
qed

theorem setGA_infoGA_witness:
  "infoGA 1 3 1 (snd (setGA 1 3 (ga_zero\<lparr>ga_port := 1, ga_action := 1\<rparr>)
     (snd (initGA 1 3 (CHR ''P'') ga_demo)))) = (SRCP_INFO, stamp \<lparr>tv_sec = 7, tv_usec = 0\<rparr> @
     '' 100 INFO '' @ show_nat 1 @ '' GA '' @ show_int 3 @ '' '' @ show_int 1 @ '' '' @ show_int 1 @
     [CHR 0x0A])"
  using setGA_infoGA [of 3 1 "snd (initGA 1 3 (CHR ''P'') ga_demo)"
      "ga_zero\<lparr>ga_port := 1, ga_action := 1\<rparr>"]
  by (simp add: initGA_def Let_def bus_supports_protocol_def isInitializedGA_def)

text \<open>\<open>termGA\<close> clears the record of an initialised accessory, its lock included, announces
  the termination once, and refuses an accessory that is not initialised; an address outside
  the table, which TERM passes through unchecked, is read outside the array.\<close>

theorem termGA_result:
  "(\<not> ga_allocated b addr s \<longrightarrow> ub (snd (termGA b addr s))) \<and>
   (ga_allocated b addr s \<and> \<not> isInitializedGA b addr s \<longrightarrow> termGA b addr s = (SRCP_NODATA, s)) \<and>
   (ga_allocated b addr s \<and> isInitializedGA b addr s \<longrightarrow>
      fst (termGA b addr s) = SRCP_OK \<and> ga_at b addr (snd (termGA b addr s)) = ga_zero \<and>
      info_seen i (snd (termGA b addr s)) = info_seen i s @ (if info_subscribed i s
        then [stamp (clock s) @ '' 102 INFO '' @ show_nat b @ '' GA '' @ show_int addr @ [CHR 0x0A]]
        else []))"
  by (simp add: termGA_def Let_def raise_ub_def)

text \<open>An accessory command of the central station reaches the bus thread: on a bus that is
  not 0, for an address of the table, a protocol the bus supports and a queue with room,
  \<open>handle_mcs_gacc\<close> initialises the accessory if it has another protocol and appends one command
  with the address, port, action and activation time of the frame and that protocol.\<close>

theorem handle_mcs_gacc_enqueues:
  assumes "b \<noteq> 0" "0 < addr" "addr \<le> get_number_ga b s" "bus_supports_protocol b p s = SRCP_OK"
    and "init_ga_func (buses s b) = None" "ring_ok QUEUELEN_GA (ga_queue (ga s b))"
    and "\<not> queue_isfull_ga b s"
  shows "\<exists>e. ga_pending b (handle_mcs_gacc b p addr port action at s) = ga_pending b s @ [e] \<and>
    ga_carries (addr, port, action, at) e \<and> ga_protocol e = p"
proof -
  let ?s = "if ga_protocol (ga_at b addr s) \<noteq> p then snd (initGA b addr p s) else s"
  have fr: "ga_queue (ga ?s b) = ga_queue (ga s b)" "get_number_ga b ?s = get_number_ga b s"
    "ga_protocol (ga_at b addr ?s) = p" "fst (initGA b addr p s) = SRCP_OK"
    using assms(2-5) by (simp_all add: initGA_def Let_def)
  then have full: "queue_isfull_ga b ?s = queue_isfull_ga b s"
    by (simp add: queue_isfull_ga_ring)
  have h: "handle_mcs_gacc b p addr port action at s = snd (enqueueGA b addr port action at ?s)"
    using assms(1-3) fr(4) by (simp add: handle_mcs_gacc_def case_prod_unfold)
  have "fst (enqueueGA b addr port action at ?s) = SRCP_OK"
    using assms(2,3,7) fr(2) full unfolding enqueueGA_code by simp
  from enqueueGA_appends [OF _ this] assms(6) fr(1,3) show ?thesis
    unfolding h by auto
qed

theorem handle_mcs_gacc_enqueues_witness:
  "\<exists>e. ga_pending 1 (handle_mcs_gacc 1 (CHR ''P'') 2 1 1 100 ga_demo) = [e] \<and> ga_id e = 2"
  using handle_mcs_gacc_enqueues [of 1 2 ga_demo "CHR ''P''" 1 1 100]
  by (auto simp: bus_supports_protocol_def ga_bus_zero_def queue_isfull_ga_def queue_len_ga_def
      ring_len_def ring_empty_def ring_ok_def ring_list_def)

end
