(* ===== verification/Srcp_Server.thy ===== *)
theory Srcp_Server
  imports Srcp_GA Srcp_GL
begin

text \<open>
  \<open>srcp-server.c\<close>: the state of the server, its announcement, shutdown, and the reset that
  removes all locks, locomotives and accessories. The version string and the two values read from
  the platform files are parameters; \<open>init_func\<close> are the start-up functions of the bus drivers.
\<close>

definition describeSERVER :: "string \<Rightarrow> nat \<Rightarrow> nat \<Rightarrow> bus_t \<Rightarrow> srcpd \<Rightarrow> int \<times> string option" where
  "describeSERVER version serial temp b s =
     (if b \<noteq> 0 then (SRCP_UNSUPPORTEDOPERATION, None)
      else (SRCP_INFO, Some (stamp (clock s) @ '' 101 INFO 0 SERVER BASRCPD '' @ version @ '' SERIAL ''
              @ show_nat serial @ '' TEMP '' @ show_nat (temp div 100) @ [CHR 0x0A])))"

definition init_bus_server :: "bus_t \<Rightarrow> srcpd \<Rightarrow> int \<times> srcpd" where
  "init_bus_server b s = (0, upd_bus 0 (\<lambda>x. x\<lparr>power_change_time := clock s\<rparr>) s)"

definition set_server_state :: "server_state_t \<Rightarrow> srcpd \<Rightarrow> srcpd" where
  "set_server_state st s = s\<lparr>server_state := st\<rparr>"

definition get_server_state :: "srcpd \<Rightarrow> server_state_t" where
  "get_server_state s = server_state s"

text \<open>In the initial state nothing is written to the message buffer (\<open>None\<close>).\<close>

definition infoSERVER :: "srcpd \<Rightarrow> int \<times> string option" where
  "infoSERVER s =
     (case get_server_state s of
        ssResetting \<Rightarrow> (SRCP_OK, Some (stamp (clock s) @ '' 100 INFO 0 SERVER RESETTING'' @ [CHR 0x0A]))
      | ssTerminating \<Rightarrow> (SRCP_OK, Some (stamp (clock s) @ '' 100 INFO 0 SERVER TERMINATING'' @ [CHR 0x0A]))
      | ssRunning \<Rightarrow> (SRCP_OK, Some (stamp (clock s) @ '' 100 INFO 0 SERVER RUNNING'' @ [CHR 0x0A]))
      | ssInitializing \<Rightarrow> (SRCP_UNKNOWNVALUE, None))"

definition announce_server :: "srcpd \<Rightarrow> srcpd" where
  "announce_server s =
     (case snd (infoSERVER s) of None \<Rightarrow> raise_ub s | Some m \<Rightarrow> enqueueInfoMessage m s)"

definition reset_bus :: "(bus_t \<Rightarrow> srcpd \<Rightarrow> srcpd) option \<Rightarrow> bus_t \<Rightarrow> srcpd \<Rightarrow> srcpd" where
  "reset_bus init_func b s =
     clean_GA b (cacheCleanGL init_func b (snd (setPower b 0 ''SERVER RESET'' s)))"

definition server_reset :: "(bus_t \<Rightarrow> (bus_t \<Rightarrow> srcpd \<Rightarrow> srcpd) option) \<Rightarrow> srcpd \<Rightarrow> srcpd" where
  "server_reset init_func s =
     (let s1 = announce_server (set_server_state ssResetting s);
          s2 = fold (\<lambda>b. reset_bus (init_func b) b) [1..<Suc (num_buses s1)] s1
      in announce_server (set_server_state ssRunning s2))"

definition server_shutdown :: "srcpd \<Rightarrow> srcpd" where
  "server_shutdown s = announce_server (set_server_state ssTerminating s)"

section \<open>Properties\<close>

lemma fold_upd_gastate_zero:
  "gastate (ga (fold (\<lambda>i. upd_gastate b i (\<lambda>_. ga_zero)) js s) b') a =
     (if b' = b \<and> (\<exists>j \<in> set js. a = nat j) then ga_zero else gastate (ga s b') a)"
  by (induction js arbitrary: s) auto

lemma fold_upd_gastate_frame [simp]:
  "clock (fold (\<lambda>i. upd_gastate b i (\<lambda>_. ga_zero)) js s) = clock s"
  "num_buses (fold (\<lambda>i. upd_gastate b i (\<lambda>_. ga_zero)) js s) = num_buses s"
  "buses (fold (\<lambda>i. upd_gastate b i (\<lambda>_. ga_zero)) js s) = buses s"
  "gl (fold (\<lambda>i. upd_gastate b i (\<lambda>_. ga_zero)) js s) = gl s"
  "numberOfGa (ga (fold (\<lambda>i. upd_gastate b i (\<lambda>_. ga_zero)) js s) b') = numberOfGa (ga s b')"
  "info_seen k (fold (\<lambda>i. upd_gastate b i (\<lambda>_. ga_zero)) js s) = info_seen k s"
  "info_subscribed k (fold (\<lambda>i. upd_gastate b i (\<lambda>_. ga_zero)) js s) = info_subscribed k s"
  by (induction js arbitrary: s) auto

lemma fold_upd_glstate_zero:
  "glstate (gl (fold (\<lambda>i. upd_glstate b i (\<lambda>_. gl_zero)) js s) b') a =
     (if b' = b \<and> a \<in> set js then gl_zero else glstate (gl s b') a)"
  by (induction js arbitrary: s) auto

lemma fold_upd_glstate_frame [simp]:
  "clock (fold (\<lambda>i. upd_glstate b i (\<lambda>_. gl_zero)) js s) = clock s"
  "num_buses (fold (\<lambda>i. upd_glstate b i (\<lambda>_. gl_zero)) js s) = num_buses s"
  "buses (fold (\<lambda>i. upd_glstate b i (\<lambda>_. gl_zero)) js s) = buses s"
  "ga (fold (\<lambda>i. upd_glstate b i (\<lambda>_. gl_zero)) js s) = ga s"
  "numberOfGl (gl (fold (\<lambda>i. upd_glstate b i (\<lambda>_. gl_zero)) js s) b') = numberOfGl (gl s b')"
  "info_seen k (fold (\<lambda>i. upd_glstate b i (\<lambda>_. gl_zero)) js s) = info_seen k s"
  "info_subscribed k (fold (\<lambda>i. upd_glstate b i (\<lambda>_. gl_zero)) js s) = info_subscribed k s"
  by (induction js arbitrary: s) auto

text \<open>A bus whose devices are all gone and whose track is without power.\<close>

definition bus_clean :: "bus_t \<Rightarrow> srcpd \<Rightarrow> bool" where
  "bus_clean b s \<longleftrightarrow> power_state (buses s b) = 0 \<and>
     (\<forall>a. 1 \<le> a \<and> int a \<le> numberOfGa (ga s b) \<longrightarrow> gastate (ga s b) a = ga_zero) \<and>
     (\<forall>i. 1 \<le> i \<and> int i \<le> numberOfGl (gl s b) \<longrightarrow> glstate (gl s b) i = gl_zero)"

lemma info_upd_gl_bus [simp]:
  "info_seen k (upd_gl b f s) = info_seen k s" "info_subscribed k (upd_gl b f s) = info_subscribed k s"
  "info_seen k (upd_bus b g s) = info_seen k s" "info_subscribed k (upd_bus b g s) = info_subscribed k s"
  by (simp_all add: info_seen_def info_subscribed_def)

lemma reset_bus_effect:
  "clock (reset_bus None b s) = clock s \<and> num_buses (reset_bus None b s) = num_buses s \<and>
   info_seen k (reset_bus None b s) = info_seen k s \<and>
   info_subscribed k (reset_bus None b s) = info_subscribed k s \<and>
   bus_clean b (reset_bus None b s) \<and> (b' \<noteq> b \<longrightarrow> bus_clean b' (reset_bus None b s) = bus_clean b' s)"
proof -
  have nat: "1 \<le> a \<Longrightarrow> int a \<le> n \<Longrightarrow> \<exists>j \<in> set (map int [1..<Suc (nat n)]). a = nat j" for a n
    by (rule bexI [of _ "int a"]) (auto simp: image_iff)
  show ?thesis
    by (auto simp: reset_bus_def clean_GA_def cacheCleanGL_def Let_def setPower_def bus_clean_def
        fold_upd_gastate_zero fold_upd_glstate_zero ga_addrs_def get_number_ga_def nat
        simp del: upt_Suc intro!: nat)
qed

lemma reset_all:
  "info_seen k (fold (reset_bus None) bs s) = info_seen k s \<and>
   info_subscribed k (fold (reset_bus None) bs s) = info_subscribed k s \<and>
   clock (fold (reset_bus None) bs s) = clock s \<and> (\<forall>b \<in> set bs. bus_clean b (fold (reset_bus None) bs s))"
proof (induction bs rule: rev_induct)
  case (snoc b bs)
  let ?t = "fold (reset_bus None) bs s"
  have "bus_clean b' (reset_bus None b ?t)" if "b' = b \<or> bus_clean b' ?t" for b'
    using that reset_bus_effect [of b ?t k b'] by auto
  with snoc reset_bus_effect [of b ?t k] show ?case by auto
qed simp

text \<open>A server reset leaves nothing behind: after \<open>server_reset\<close> (with no driver start-up
  function) every bus \<open>1..num_buses\<close> is without power and without any initialised or locked
  locomotive or accessory, the server is running again, and the info sessions have received the
  announcements RESETTING and RUNNING and nothing else.\<close>

theorem server_reset_cleans:
  assumes "1 \<le> b" "b \<le> num_buses s"
  shows "bus_clean b (server_reset (\<lambda>_. None) s) \<and> server_state (server_reset (\<lambda>_. None) s) = ssRunning \<and>
    info_seen k (server_reset (\<lambda>_. None) s) = info_seen k s @ (if info_subscribed k s then
      [stamp (clock s) @ '' 100 INFO 0 SERVER RESETTING'' @ [CHR 0x0A],
       stamp (clock s) @ '' 100 INFO 0 SERVER RUNNING'' @ [CHR 0x0A]] else [])"
proof -
  let ?m = "stamp (clock s) @ '' 100 INFO 0 SERVER RESETTING'' @ [CHR 0x0A]"
  define s1 where "s1 = enqueueInfoMessage ?m (s\<lparr>server_state := ssResetting\<rparr>)"
  define s2 where "s2 = fold (reset_bus None) [1..<Suc (num_buses s)] s1"
  have a1: "announce_server (set_server_state ssResetting s) = s1"
    by (simp add: announce_server_def infoSERVER_def get_server_state_def set_server_state_def s1_def)
  have n1: "num_buses s1 = num_buses s" "clock s1 = clock s" by (simp_all add: s1_def)
  have i0: "info_seen k (t\<lparr>server_state := st\<rparr>) = info_seen k t"
    "info_subscribed k (t\<lparr>server_state := st\<rparr>) = info_subscribed k t" for t st
    by (simp_all add: info_seen_def info_subscribed_def)
  have r: "server_reset (\<lambda>_. None) s = enqueueInfoMessage (stamp (clock s2) @ '' 100 INFO 0 SERVER RUNNING''
      @ [CHR 0x0A]) (s2\<lparr>server_state := ssRunning\<rparr>)"
    unfolding server_reset_def Let_def a1 n1(1) s2_def [symmetric]
    by (simp add: announce_server_def infoSERVER_def get_server_state_def set_server_state_def)
  have s2: "info_seen k s2 = info_seen k s1" "info_subscribed k s2 = info_subscribed k s1" "clock s2 = clock s"
    "bus_clean b s2"
    using reset_all [of k "[1..<Suc (num_buses s)]" s1] assms n1(2) by (auto simp: s2_def simp del: upt_Suc)
  have "info_seen k s1 = info_seen k s @ (if info_subscribed k s then [?m] else [])"
    "info_subscribed k s1 = info_subscribed k s"
    by (simp_all add: s1_def i0)
  then show ?thesis
    using s2 unfolding r by (simp add: i0) (simp add: bus_clean_def)
qed

theorem server_reset_cleans_witness: "bus_clean 1 (server_reset (\<lambda>_. None) (snd (lockGA 1 3 0 5 ga_demo)))"
  using server_reset_cleans [of 1 "snd (lockGA 1 3 0 5 ga_demo)"] by (simp add: lockGA_def Let_def)

end
