(* ===== verification/Srcp_FB.thy ===== *)
theory Srcp_FB
  imports Srcp_Bus
begin

unbundle bit_operations_syntax

text \<open>
  \<open>srcp-fb.c\<close>: the feedback contacts. A contact that is reported free is not reset at once but
  after \<open>min_time\<close> microseconds, through a queue of pending resets that the bus thread works off
  in \<open>check_reset_fb\<close>; a new impulse in between cancels the reset. \<open>queue_reset_fb\<close> waits while
  the queue is full: the operations that reach it return \<open>None\<close> when they would wait, since only
  another thread can end the wait.
\<close>

definition QUEUELENGTH_FB :: nat where [simp, code_unfold]: "QUEUELENGTH_FB = 1000"
definition FB_ORDER_0 :: int where [code_unfold]: "FB_ORDER_0 = 0x0200"
definition FB_16_PORTS :: int where [code_unfold]: "FB_16_PORTS = 0x0400"
definition FB_4_PORTS :: int where [code_unfold]: "FB_4_PORTS = 0x0800"

definition get_number_fb :: "bus_t \<Rightarrow> srcpd \<Rightarrow> int" where
  "get_number_fb b s = numberOfFb (fb s b)"

definition upd_fbstate :: "bus_t \<Rightarrow> nat \<Rightarrow> (fb_state_t \<Rightarrow> fb_state_t) \<Rightarrow> srcpd \<Rightarrow> srcpd" where
  "upd_fbstate b i f s = upd_fb b (\<lambda>g. g\<lparr>fbstate := (fbstate g)(i := f (fbstate g i))\<rparr>) s"

abbreviation fb_at :: "bus_t \<Rightarrow> nat \<Rightarrow> srcpd \<Rightarrow> fb_state_t" where
  "fb_at b i s \<equiv> fbstate (fb s b) i"

section \<open>Reading\<close>

definition getFB :: "bus_t \<Rightarrow> int \<Rightarrow> srcpd \<Rightarrow> int \<times> (timeval \<times> int) option" where
  "getFB b port s =
     (let port = port - 1
      in if get_number_fb b s \<le> 0 \<or> port < 0 \<or> get_number_fb b s \<le> port then (SRCP_NODATA, None)
         else (SRCP_OK, Some (fb_timestamp (fb_at b (nat port) s), fb_state (fb_at b (nat port) s))))"

definition infoFB :: "bus_t \<Rightarrow> int \<Rightarrow> srcpd \<Rightarrow> int \<times> string" where
  "infoFB b port s =
     (case getFB b port s of
        (rc, Some (time, state)) \<Rightarrow>
          (SRCP_INFO, stamp time @ '' 100 INFO '' @ show_nat b @ '' FB '' @ show_int port @ '' ''
             @ show_int state @ [CHR 0x0A])
      | (rc, None) \<Rightarrow> (SRCP_NODATA, []))"

definition enqueueInfoFB :: "bus_t \<Rightarrow> int \<Rightarrow> srcpd \<Rightarrow> srcpd" where
  "enqueueInfoFB b port s = enqueueInfoMessage (snd (infoFB b port s)) s"

definition describeFB :: "bus_t \<Rightarrow> int \<Rightarrow> int" where
  "describeFB b addr = SRCP_UNSUPPORTEDOPERATION"

section \<open>The queue of resets\<close>

definition queueLengthFB :: "bus_t \<Rightarrow> srcpd \<Rightarrow> nat" where
  "queueLengthFB b s = ring_len QUEUELENGTH_FB (reset_queue (fb s b))"

definition queueIsFullFB :: "bus_t \<Rightarrow> srcpd \<Rightarrow> bool" where
  "queueIsFullFB b s \<longleftrightarrow> queueLengthFB b s \<ge> QUEUELENGTH_FB - 1"

definition queueIsEmptyFB :: "bus_t \<Rightarrow> srcpd \<Rightarrow> bool" where
  "queueIsEmptyFB b s = ring_isempty (reset_queue (fb s b))"

definition getNextFB :: "bus_t \<Rightarrow> srcpd \<Rightarrow> fb_reset_t option" where
  "getNextFB b s =
     (if ring_isempty (reset_queue (fb s b)) then None else Some (ring_peek (reset_queue (fb s b))))"

definition unqueueNextFB :: "bus_t \<Rightarrow> srcpd \<Rightarrow> srcpd" where
  "unqueueNextFB b s = upd_fb b (\<lambda>g. g\<lparr>reset_queue := ring_drop QUEUELENGTH_FB (reset_queue g)\<rparr>) s"

definition queue_reset_fb :: "bus_t \<Rightarrow> int \<Rightarrow> timeval \<Rightarrow> srcpd \<Rightarrow> srcpd option" where
  "queue_reset_fb b port ctime s =
     (if queueIsFullFB b s then None
      else Some (upd_fb b (\<lambda>g. g\<lparr>reset_queue := ring_put QUEUELENGTH_FB
             \<lparr>reset_port = port, reset_timestamp = ctime\<rparr> (reset_queue g)\<rparr>) s))"

section \<open>Writing\<close>

definition updateFB :: "bus_t \<Rightarrow> int \<Rightarrow> int \<Rightarrow> srcpd \<Rightarrow> (int \<times> srcpd) option" where
  "updateFB b port value s =
     (if get_number_fb b s < port \<or> port < 1 then Some (SRCP_WRONGVALUE, s)
      else
        (let i = nat (port - 1);
             change = (\<lambda>s. enqueueInfoFB b port (upd_fbstate b i (\<lambda>c. c\<lparr>fb_state := s16 value,
                         fb_timestamp := clock s, fb_change := 0\<rparr>) s))
         in if fb_state (fb_at b i s) = value then Some (SRCP_OK, s)
            else if value = 0 then
              if min_time (fb s b) = 0 then Some (SRCP_OK, change s)
              else map_option (Pair SRCP_OK) (queue_reset_fb b (port - 1) (clock s)
                     (upd_fbstate b i (\<lambda>c. c\<lparr>fb_change := -1\<rparr>) s))
            else if fb_change (fb_at b i s) < 0 then
              Some (SRCP_OK, upd_fbstate b i (\<lambda>c. c\<lparr>fb_change := 0\<rparr>) s)
            else Some (SRCP_OK, change s)))"

definition setFB :: "bus_t \<Rightarrow> int \<Rightarrow> int \<Rightarrow> srcpd \<Rightarrow> (int \<times> srcpd) option" where
  "setFB b port value s = updateFB b port value s"

fun setFB_ports :: "bus_t \<Rightarrow> nat \<Rightarrow> int \<Rightarrow> int \<Rightarrow> bool \<Rightarrow> int \<Rightarrow> int \<Rightarrow> srcpd \<Rightarrow> (int \<times> srcpd) option" where
  "setFB_ports b 0 contact msk dir values rc s = Some (rc, s)"
| "setFB_ports b (Suc n) contact msk dir values rc s =
     (case updateFB b contact (if values AND msk \<noteq> 0 then 1 else 0) s of
        None \<Rightarrow> None
      | Some (rc', s') \<Rightarrow> setFB_ports b n (contact + 1) (if dir then drop_bit 1 msk else push_bit 1 msk)
          dir values rc' s')"

definition fb_ports :: "int \<Rightarrow> nat" where
  "fb_ports flags =
     (let ports = (if flags AND FB_16_PORTS = FB_16_PORTS then 16 else 8)
      in if flags AND FB_4_PORTS \<noteq> 0 then 4 else ports)"

definition setFBmodul :: "bus_t \<Rightarrow> int \<Rightarrow> int \<Rightarrow> srcpd \<Rightarrow> (int \<times> srcpd) option" where
  "setFBmodul b modul values s =
     (let ports = fb_ports (bus_flags (buses s b));
          dir = (bus_flags (buses s b) AND FB_ORDER_0 \<noteq> FB_ORDER_0);
          msk = (if dir then push_bit (ports - 1) 1 else 1)
      in setFB_ports b ports ((modul - 1) * int ports + 1) msk dir values SRCP_OK s)"

section \<open>Working off the resets\<close>

definition reset_age :: "timeval \<Rightarrow> timeval \<Rightarrow> int" where
  "reset_age now t = tv_usec now - tv_usec t + (tv_sec now - tv_sec t) * 1000000"

text \<open>One iteration per queue entry: every iteration that does not leave the loop removes one.\<close>

fun check_reset_loop :: "nat \<Rightarrow> bus_t \<Rightarrow> srcpd \<Rightarrow> srcpd" where
  "check_reset_loop 0 b s = s"
| "check_reset_loop (Suc n) b s =
     (case getNextFB b s of
        None \<Rightarrow> s
      | Some r \<Rightarrow>
          (let i = nat (reset_port r)
           in if fb_change (fb_at b i s) = 0 then check_reset_loop n b (unqueueNextFB b s)
              else if reset_age (clock s) (reset_timestamp r) < min_time (fb s b) then s
              else check_reset_loop n b (enqueueInfoFB b (reset_port r + 1)
                     (upd_fbstate b i (\<lambda>c. c\<lparr>fb_state := 0, fb_timestamp := reset_timestamp r,
                        fb_change := 0\<rparr>) (unqueueNextFB b s)))))"

definition check_reset_fb :: "bus_t \<Rightarrow> srcpd \<Rightarrow> srcpd" where
  "check_reset_fb b s = check_reset_loop (queueLengthFB b s) b s"

section \<open>Start-up\<close>

definition startup_FB :: "srcpd \<Rightarrow> srcpd" where
  "startup_FB s = fold (\<lambda>i. upd_fb i (\<lambda>g. g\<lparr>numberOfFb := 0, min_time := 0,
     reset_queue := (reset_queue g)\<lparr>inp := 0, outp := 0\<rparr>\<rparr>)) [0..<MAX_BUSES] s"

definition set_min_time :: "bus_t \<Rightarrow> int \<Rightarrow> srcpd \<Rightarrow> srcpd" where
  "set_min_time b mt s = (if b < MAX_BUSES then upd_fb b (\<lambda>g. g\<lparr>min_time := mt * 1000\<rparr>) s else s)"

definition init_FB :: "bool \<Rightarrow> bus_t \<Rightarrow> int \<Rightarrow> srcpd \<Rightarrow> int \<times> srcpd" where
  "init_FB mem b number s =
     (if b \<ge> MAX_BUSES then (1, s)
      else if number > 0 then
        if \<not> mem then (1, s)
        else (0, upd_fb b (\<lambda>g. g\<lparr>numberOfFb := number,
               fbstate := (\<lambda>_. \<lparr>fb_timestamp = clock s, fb_state = 0, fb_change = 0\<rparr>)\<rparr>) s)
      else (0, s))"

definition initFB :: "bus_t \<Rightarrow> int \<Rightarrow> char \<Rightarrow> int \<Rightarrow> srcpd \<Rightarrow> int" where
  "initFB b addr protocol index s =
     (if 0 < addr \<and> addr \<le> get_number_fb b s then
        (case init_fb_func (buses s b) of None \<Rightarrow> SRCP_OK | Some f \<Rightarrow> f b addr protocol index)
      else SRCP_OK)"

section \<open>Frame lemmas\<close>

lemma upd_fb_frame [simp]:
  "ub (upd_fb b f s) = ub s" "clock (upd_fb b f s) = clock s" "num_buses (upd_fb b f s) = num_buses s"
  "buses (upd_fb b f s) = buses s" "session_list (upd_fb b f s) = session_list s"
  "gl (upd_fb b f s) = gl s" "ga (upd_fb b f s) = ga s"
  "fb (upd_fb b f s) = (fb s)(b := f (fb s b))"
  "info_seen k (upd_fb b f s) = info_seen k s" "info_subscribed k (upd_fb b f s) = info_subscribed k s"
  by (simp_all add: upd_fb_def info_seen_def info_subscribed_def)

lemma upd_fbstate_frame [simp]:
  "ub (upd_fbstate b i f s) = ub s" "clock (upd_fbstate b i f s) = clock s"
  "buses (upd_fbstate b i f s) = buses s" "session_list (upd_fbstate b i f s) = session_list s"
  "numberOfFb (fb (upd_fbstate b i f s) b') = numberOfFb (fb s b')"
  "min_time (fb (upd_fbstate b i f s) b') = min_time (fb s b')"
  "reset_queue (fb (upd_fbstate b i f s) b') = reset_queue (fb s b')"
  "fb_at b' n (upd_fbstate b i f s) = (if b' = b \<and> n = i then f (fb_at b n s) else fb_at b' n s)"
  "info_seen k (upd_fbstate b i f s) = info_seen k s"
  "info_subscribed k (upd_fbstate b i f s) = info_subscribed k s"
  by (simp_all add: upd_fbstate_def)

lemma enqueueInfoFB_frame [simp]:
  "clock (enqueueInfoFB b p s) = clock s" "buses (enqueueInfoFB b p s) = buses s"
  "fb (enqueueInfoFB b p s) = fb s"
  "info_subscribed k (enqueueInfoFB b p s) = info_subscribed k s"
  by (simp_all add: enqueueInfoFB_def)

lemma unqueueNextFB_frame [simp]:
  "clock (unqueueNextFB b s) = clock s" "buses (unqueueNextFB b s) = buses s"
  "fbstate (fb (unqueueNextFB b s) b') = fbstate (fb s b')"
  "numberOfFb (fb (unqueueNextFB b s) b') = numberOfFb (fb s b')"
  "min_time (fb (unqueueNextFB b s) b') = min_time (fb s b')"
  "info_seen k (unqueueNextFB b s) = info_seen k s"
  "info_subscribed k (unqueueNextFB b s) = info_subscribed k s"
  by (simp_all add: unqueueNextFB_def)

section \<open>The queue of resets\<close>

interpretation fbring: bounded_fifo 999 "ring_ok 1000" "ring_list 1000" ring_isempty "ring_isfull 1000"
    "ring_put 1000" ring_peek "ring_drop 1000"
  using ring_bounded_fifo [of 1000] by simp

abbreviation fb_pending :: "bus_t \<Rightarrow> srcpd \<Rightarrow> fb_reset_t list" where
  "fb_pending b s \<equiv> ring_list QUEUELENGTH_FB (reset_queue (fb s b))"

abbreviation fb_queue_ok :: "bus_t \<Rightarrow> srcpd \<Rightarrow> bool" where
  "fb_queue_ok b s \<equiv> ring_ok QUEUELENGTH_FB (reset_queue (fb s b))"

lemma queue_reset_fb_pending:
  assumes "fb_queue_ok b s" "queue_reset_fb b port t s = Some s'"
  shows "fb_queue_ok b s' \<and> fb_pending b s' = fb_pending b s @ [\<lparr>reset_port = port, reset_timestamp = t\<rparr>]"
proof -
  have room: "\<not> ring_isfull 1000 (reset_queue (fb s b))"
    using assms(2) by (simp add: queue_reset_fb_def queueIsFullFB_def queueLengthFB_def ring_isfull_def
        split: if_splits)
  have ok: "ring_ok 1000 (reset_queue (fb s b))" using assms(1) by simp
  have "s' = upd_fb b (\<lambda>g. g\<lparr>reset_queue := ring_put QUEUELENGTH_FB
      \<lparr>reset_port = port, reset_timestamp = t\<rparr> (reset_queue g)\<rparr>) s"
    using assms(2) unfolding queue_reset_fb_def by (simp split: if_splits)
  then show ?thesis
    using fbring.put_law [OF ok room] fbring.put_inv [OF ok] by simp
qed

lemma fb_pending_cases:
  assumes "fb_queue_ok b s"
  shows "(ring_isempty (reset_queue (fb s b)) \<and> fb_pending b s = []) \<or>
    (\<not> ring_isempty (reset_queue (fb s b)) \<and> fb_pending b s = ring_peek (reset_queue (fb s b)) #
       ring_list QUEUELENGTH_FB (ring_drop QUEUELENGTH_FB (reset_queue (fb s b))))"
proof (cases "ring_isempty (reset_queue (fb s b))")
  case True
  with assms fbring.isempty_law [of "reset_queue (fb s b)"] show ?thesis by simp
next
  case False
  with assms fbring.drop_law [of "reset_queue (fb s b)"] show ?thesis
    unfolding QUEUELENGTH_FB_def by blast
qed

lemma getNextFB_pending:
  assumes "fb_queue_ok b s"
  shows "getNextFB b s = (case fb_pending b s of [] \<Rightarrow> None | r # rs \<Rightarrow> Some r)"
  using fb_pending_cases [OF assms] by (auto simp: getNextFB_def)

lemma unqueueNextFB_pending:
  assumes "fb_queue_ok b s" "fb_pending b s = r # rs"
  shows "fb_queue_ok b (unqueueNextFB b s) \<and> fb_pending b (unqueueNextFB b s) = rs"
  using assms(2) fb_pending_cases [OF assms(1)] fbring.drop_inv [of "reset_queue (fb s b)"] assms(1)
  by (auto simp: unqueueNextFB_def)

text \<open>The exit condition of the loop: nothing waits, or the oldest reset is still too young.\<close>

definition resets_settled :: "bus_t \<Rightarrow> srcpd \<Rightarrow> bool" where
  "resets_settled b s \<longleftrightarrow> (case fb_pending b s of [] \<Rightarrow> True
     | r # rs \<Rightarrow> fb_change (fb_at b (nat (reset_port r)) s) \<noteq> 0 \<and>
         reset_age (clock s) (reset_timestamp r) < min_time (fb s b))"

lemma check_reset_loop_settles:
  assumes "fb_queue_ok b s" "length (fb_pending b s) \<le> n"
  shows "fb_queue_ok b (check_reset_loop n b s) \<and> resets_settled b (check_reset_loop n b s) \<and>
    (\<exists>pre. fb_pending b s = pre @ fb_pending b (check_reset_loop n b s)) \<and>
    (n \<le> m \<longrightarrow> check_reset_loop m b s = check_reset_loop n b s)"
  using assms
proof (induction n arbitrary: s m)
  case 0
  then have e: "fb_pending b s = []" by (metis le_zero_eq length_0_conv)
  with 0 have "getNextFB b s = None" by (simp add: getNextFB_pending)
  then have "check_reset_loop m b s = s" by (cases m) simp_all
  with 0 e show ?case by (simp add: resets_settled_def)
next
  case (Suc n)
  show ?case
  proof (cases "fb_pending b s")
    case Nil
    with Suc.prems have "getNextFB b s = None" by (simp add: getNextFB_pending)
    then have "check_reset_loop k b s = s" for k by (cases k) simp_all
    with Suc.prems Nil show ?thesis by (simp add: resets_settled_def)
  next
    case (Cons r rs)
    have nxt: "getNextFB b s = Some r" using Suc.prems Cons by (simp add: getNextFB_pending)
    have un: "fb_queue_ok b (unqueueNextFB b s)" "fb_pending b (unqueueNextFB b s) = rs"
      using unqueueNextFB_pending [OF Suc.prems(1) Cons] by auto
    have rec: ?thesis if t: "\<And>k. check_reset_loop (Suc k) b s = check_reset_loop k b t"
        "fb_queue_ok b t" "fb_pending b t = rs" for t
    proof -
      have len: "length (fb_pending b t) \<le> n"
        using Suc.prems(2) unfolding Cons t(3) by simp
      have IH: "fb_queue_ok b (check_reset_loop n b t) \<and> resets_settled b (check_reset_loop n b t) \<and>
          (\<exists>pre. rs = pre @ fb_pending b (check_reset_loop n b t)) \<and>
          (n \<le> k \<longrightarrow> check_reset_loop k b t = check_reset_loop n b t)" for k
        using Suc.IH [OF t(2) len, of k] t(3) by simp
      have "Suc n \<le> m \<Longrightarrow> check_reset_loop m b s = check_reset_loop n b t"
        using IH [of "m - 1"] t(1) [of "m - 1"] by (cases m) auto
      moreover obtain pre where "rs = pre @ fb_pending b (check_reset_loop n b t)" using IH by blast
      then have "fb_pending b s = (r # pre) @ fb_pending b (check_reset_loop n b t)" using Cons by simp
      then have "\<exists>pre. fb_pending b s = pre @ fb_pending b (check_reset_loop n b t)" by blast
      ultimately show ?thesis using IH unfolding t(1) by blast
    qed
    let ?i = "nat (reset_port r)"
    show ?thesis
    proof (cases "fb_change (fb_at b ?i s) = 0")
      case True
      with nxt un show ?thesis by (intro rec [of "unqueueNextFB b s"]) (simp_all add: Let_def)
    next
      case F: False
      show ?thesis
      proof (cases "reset_age (clock s) (reset_timestamp r) < min_time (fb s b)")
        case True
        have "check_reset_loop (Suc k) b s = s" for k using F True nxt by (simp add: Let_def)
        then have "check_reset_loop (Suc n) b s = s" "Suc n \<le> m \<Longrightarrow> check_reset_loop m b s = s"
          by (simp, cases m) auto
        with F True Suc.prems Cons show ?thesis by (simp add: resets_settled_def)
      next
        case False
        with F nxt un show ?thesis
          by (intro rec [of "enqueueInfoFB b (reset_port r + 1) (upd_fbstate b ?i (\<lambda>c. c\<lparr>fb_state := 0,
              fb_timestamp := reset_timestamp r, fb_change := 0\<rparr>) (unqueueNextFB b s))"])
            (simp_all add: Let_def)
      qed
    qed
  qed
qed

section \<open>Properties\<close>

text \<open>A daemon with 32 contacts on bus 1 that are debounced for 500 ms.\<close>

definition fb_demo :: "int \<Rightarrow> srcpd" where
  "fb_demo mt = set_min_time 1 mt (snd (init_FB True 1 32 (srcpd_init\<lparr>num_buses := 2\<rparr>)))"

lemma fb_demo_simps [simp]:
  "get_number_fb (Suc 0) (fb_demo mt) = 32" "min_time (fb (fb_demo mt) (Suc 0)) = mt * 1000"
  "fb_state (fb_at (Suc 0) i (fb_demo mt)) = 0" "fb_change (fb_at (Suc 0) i (fb_demo mt)) = 0"
  "reset_queue (fb (fb_demo mt) (Suc 0)) = ring_empty \<lparr>reset_port = 0, reset_timestamp = tv0\<rparr>"
  "bus_flags (buses (fb_demo mt) b) = 0"
  by (simp_all add: fb_demo_def set_min_time_def init_FB_def srcpd_init_def fb_bus_zero_def
      get_number_fb_def bus_zero_def)



text \<open>The module of contacts that one message of the feedback bus reports.\<close>

definition fb_module_bit :: "int \<Rightarrow> nat \<Rightarrow> nat" where
  "fb_module_bit flags k = (if flags AND FB_ORDER_0 = FB_ORDER_0 then k else fb_ports flags - 1 - k)"

lemma updateFB_direct:
  assumes "1 \<le> port" "port \<le> get_number_fb b s" "min_time (fb s b) = 0" "v = 0 \<or> v = 1"
    and "\<forall>i. 0 \<le> fb_change (fb_at b i s)"
  obtains s' where "updateFB b port v s = Some (SRCP_OK, s')" "get_number_fb b s' = get_number_fb b s"
    "min_time (fb s' b) = 0" "\<forall>i. 0 \<le> fb_change (fb_at b i s')"
    "\<forall>i. fb_state (fb_at b i s') = (if i = nat (port - 1) then v else fb_state (fb_at b i s))"
proof -
  have "\<exists>s'. updateFB b port v s = Some (SRCP_OK, s') \<and> get_number_fb b s' = get_number_fb b s \<and>
    min_time (fb s' b) = 0 \<and> (\<forall>i. 0 \<le> fb_change (fb_at b i s')) \<and>
    (\<forall>i. fb_state (fb_at b i s') = (if i = nat (port - 1) then v else fb_state (fb_at b i s)))"
  proof -
    have nn: "\<not> fb_change (fb_at b (nat (port - 1)) s) < 0" using assms(5) by (simp add: linorder_not_less)
    with assms show ?thesis by (auto simp: updateFB_def Let_def get_number_fb_def s16_def)
  qed
  with that show thesis by blast
qed

lemma setFB_ports_direct:
  assumes "1 \<le> c" "c + int n - 1 \<le> get_number_fb b s" "min_time (fb s b) = 0"
    and "\<forall>i. 0 \<le> fb_change (fb_at b i s)" "\<And>k. k < n \<Longrightarrow> values AND msk k \<noteq> 0 \<longleftrightarrow> bit values (pos k)"
    and "\<And>k. msk (Suc k) = (if dir then drop_bit 1 (msk k) else push_bit 1 (msk k))"
  shows "\<exists>s' rc'. setFB_ports b n c (msk 0) dir values rc s = Some (rc', s') \<and>
    (\<forall>k < n. fb_state (fb_at b (nat (c - 1) + k) s') = (if bit values (pos k) then 1 else 0)) \<and>
    (\<forall>i. i < nat (c - 1) \<or> nat (c - 1) + n \<le> i \<longrightarrow> fb_state (fb_at b i s') = fb_state (fb_at b i s)) \<and>
    (n \<noteq> 0 \<longrightarrow> rc' = SRCP_OK)"
  using assms
proof (induction n arbitrary: c s msk pos rc)
  case 0
  then show ?case by simp
next
  case (Suc n)
  let ?v = "if values AND msk 0 \<noteq> 0 then 1 else 0 :: int"
  obtain s1 where s1: "updateFB b c ?v s = Some (SRCP_OK, s1)" "get_number_fb b s1 = get_number_fb b s"
    "min_time (fb s1 b) = 0" "\<forall>i. 0 \<le> fb_change (fb_at b i s1)"
    "\<forall>i. fb_state (fb_at b i s1) = (if i = nat (c - 1) then ?v else fb_state (fb_at b i s))"
    by (rule updateFB_direct [of c b s ?v]) (use Suc.prems in auto)
  have v: "?v = (if bit values (pos 0) then 1 else 0)" using Suc.prems(5) [of 0] by simp
  have c: "c + 1 - 1 = c" "nat c = Suc (nat (c - 1))" using Suc.prems(1) by linarith+
  have "\<exists>s' rc'. setFB_ports b n (c + 1) (msk (Suc 0)) dir values SRCP_OK s1 = Some (rc', s') \<and>
    (\<forall>k < n. fb_state (fb_at b (nat (c + 1 - 1) + k) s') = (if bit values (pos (Suc k)) then 1 else 0)) \<and>
    (\<forall>i. i < nat (c + 1 - 1) \<or> nat (c + 1 - 1) + n \<le> i \<longrightarrow> fb_state (fb_at b i s') = fb_state (fb_at b i s1)) \<and>
    (n \<noteq> 0 \<longrightarrow> rc' = SRCP_OK)"
  proof (rule Suc.IH)
    show "1 \<le> c + 1" "c + 1 + int n - 1 \<le> get_number_fb b s1" using Suc.prems(1,2) s1(2) by simp_all
    show "values AND msk (Suc k) \<noteq> 0 \<longleftrightarrow> bit values (pos (Suc k))" if "k < n" for k
      using Suc.prems(5) that by simp
  qed (rule s1(3,4) Suc.prems(6))+
  then obtain s' rc' where s': "setFB_ports b n (c + 1) (msk (Suc 0)) dir values SRCP_OK s1 = Some (rc', s')"
    "\<forall>k < n. fb_state (fb_at b (nat c + k) s') = (if bit values (pos (Suc k)) then 1 else 0)"
    "\<forall>i. i < nat c \<or> nat c + n \<le> i \<longrightarrow> fb_state (fb_at b i s') = fb_state (fb_at b i s1)"
    "n \<noteq> 0 \<longrightarrow> rc' = SRCP_OK"
    unfolding c(1) by blast
  have run: "setFB_ports b (Suc n) c (msk 0) dir values rc s = Some (rc', s')"
    using s1(1) s'(1) Suc.prems(6) [of 0] by simp
  have "fb_state (fb_at b (nat (c - 1) + k) s') = (if bit values (pos k) then 1 else 0)" if "k < Suc n" for k
  proof (cases k)
    case 0
    then show ?thesis using s'(3) s1(5) v c(2) by simp
  next
    case (Suc j)
    then show ?thesis using s'(2) that c(2) by simp
  qed
  moreover have "fb_state (fb_at b i s') = fb_state (fb_at b i s)"
    if "i < nat (c - 1) \<or> nat (c - 1) + Suc n \<le> i" for i
    using that s'(3) s1(5) c(2) by auto
  moreover have "rc' = SRCP_OK" using s'(1,4) by (cases n) auto
  ultimately show ?case using run by blast
qed

text \<open>A module report sets every contact of the module and no other: without debouncing,
  \<open>setFBmodul\<close> for a module that lies inside the table returns \<open>SRCP_OK\<close>, contact \<open>k\<close> of the
  module takes the value of its bit in the report (the lowest bit first when the bus has the flag
  \<open>FB_ORDER_0\<close>, the highest first otherwise), and all other contacts keep theirs; this for modules
  of 4, 8 and 16 ports.\<close>

theorem setFBmodul_sets_module:
  assumes "1 \<le> modul" "modul * int (fb_ports (bus_flags (buses s b))) \<le> get_number_fb b s"
    and "min_time (fb s b) = 0" "\<forall>i. 0 \<le> fb_change (fb_at b i s)"
  defines "n \<equiv> fb_ports (bus_flags (buses s b))"
  shows "\<exists>s'. setFBmodul b modul values s = Some (SRCP_OK, s') \<and>
    (\<forall>k < n. fb_state (fb_at b (nat ((modul - 1) * int n) + k) s') =
       (if bit values (fb_module_bit (bus_flags (buses s b)) k) then 1 else 0)) \<and>
    (\<forall>i. i < nat ((modul - 1) * int n) \<or> nat ((modul - 1) * int n) + n \<le> i \<longrightarrow>
       fb_state (fb_at b i s') = fb_state (fb_at b i s))"
proof -
  let ?fl = "bus_flags (buses s b)"
  let ?dir = "?fl AND FB_ORDER_0 \<noteq> FB_ORDER_0"
  have n: "0 < n" by (simp add: n_def fb_ports_def Let_def)
  let ?pos = "\<lambda>k. if ?dir then n - 1 - k else k"
  let ?m = "\<lambda>k. if ?dir then drop_bit k (2 ^ (n - 1)) else 2 ^ k :: int"
  have m: "?m (Suc k) = (if ?dir then drop_bit 1 (?m k) else push_bit 1 (?m k))" for k
    by (simp add: push_bit_eq_mult drop_bit_Suc)
  have bits: "values AND ?m k \<noteq> 0 \<longleftrightarrow> bit values (?pos k)" if "k < n" for k
  proof -
    have "drop_bit k ((2::int) ^ (n - 1)) = 2 ^ (n - 1 - k)"
      using that by (subst power_diff) (auto simp: drop_bit_eq_div)
    then have "?m k = 2 ^ ?pos k" by simp
    then show ?thesis by (simp add: and_exp_eq_0_iff_not_bit)
  qed
  have "1 \<le> (modul - 1) * int n + 1" using assms(1) by simp
  moreover have "(modul - 1) * int n + 1 + int n - 1 \<le> get_number_fb b s"
    using assms(2) unfolding n_def by (simp add: algebra_simps)
  ultimately obtain s' rc' where
    s': "setFB_ports b n ((modul - 1) * int n + 1) (?m 0) ?dir values SRCP_OK s = Some (rc', s')"
    "\<forall>k < n. fb_state (fb_at b (nat ((modul - 1) * int n + 1 - 1) + k) s') = (if bit values (?pos k) then 1 else 0)"
    "\<forall>i. i < nat ((modul - 1) * int n + 1 - 1) \<or> nat ((modul - 1) * int n + 1 - 1) + n \<le> i \<longrightarrow>
       fb_state (fb_at b i s') = fb_state (fb_at b i s)" "n \<noteq> 0 \<longrightarrow> rc' = SRCP_OK"
    using setFB_ports_direct [of "(modul - 1) * int n + 1" n b s "values" ?m ?pos ?dir SRCP_OK] assms(3,4)
      bits m by blast
  have "setFBmodul b modul values s = Some (SRCP_OK, s')"
  proof -
    have "?m 0 = (if ?dir then push_bit (n - 1) 1 else 1)" by (simp add: push_bit_eq_mult)
    then show ?thesis using s'(1,4) n unfolding setFBmodul_def Let_def n_def [symmetric] by simp
  qed
  moreover have "fb_module_bit ?fl k = ?pos k" for k by (simp add: fb_module_bit_def n_def)
  ultimately show ?thesis using s'(2,3) by auto
qed

theorem setFBmodul_sets_module_witness:
  "\<exists>s'. setFBmodul 1 2 0x81 (fb_demo 0) = Some (SRCP_OK, s') \<and> fb_state (fb_at 1 8 s') = 1"
proof -
  have p: "fb_ports 0 = 8" by (simp add: fb_ports_def FB_16_PORTS_def FB_4_PORTS_def)
  obtain s' where s': "setFBmodul 1 2 0x81 (fb_demo 0) = Some (SRCP_OK, s')"
    "\<forall>k < 8. fb_state (fb_at 1 (8 + k) s') = (if bit (0x81::int) (fb_module_bit 0 k) then 1 else 0)"
    using setFBmodul_sets_module [of 2 "fb_demo 0" 1 "0x81"] p by auto
  have "fb_module_bit 0 0 = 7" by (simp add: fb_module_bit_def p FB_ORDER_0_def)
  then have "fb_state (fb_at 1 8 s') = 1" using s'(2) [rule_format, of 0] by simp
  with s'(1) show ?thesis by blast
qed

lemma release_debounced:
  assumes "1 \<le> port" "port \<le> get_number_fb b s" "fb_state (fb_at b (nat (port - 1)) s) = 1"
    and "min_time (fb s b) \<noteq> 0" "fb_queue_ok b s" "fb_pending b s = []"
    and "updateFB b port 0 s = Some (rc, s1)"
  defines "late \<equiv> \<lambda>t. min_time (fb s b) \<le> reset_age t (clock s)"
  shows "rc = SRCP_OK \<and> fb_state (fb_at b (nat (port - 1)) s1) = 1 \<and> info_seen i s1 = info_seen i s \<and>
    fb_state (fb_at b (nat (port - 1)) (check_reset_fb b (s1\<lparr>clock := t\<rparr>))) = (if late t then 0 else 1) \<and>
    info_seen i (check_reset_fb b (s1\<lparr>clock := t\<rparr>)) = info_seen i s @
      (if late t \<and> info_subscribed i s then [stamp (clock s) @ '' 100 INFO '' @ show_nat b @ '' FB '' @
         show_int port @ '' '' @ show_int 0 @ [CHR 0x0A]] else [])"
proof -
  let ?r = "\<lparr>reset_port = port - 1, reset_timestamp = clock s\<rparr>"
  let ?u = "upd_fbstate b (nat (port - 1)) (\<lambda>c. c\<lparr>fb_change := -1\<rparr>) s"
  have q: "rc = SRCP_OK" "queue_reset_fb b (port - 1) (clock s) ?u = Some s1"
    using assms(1-4,7) by (auto simp: updateFB_def Let_def)
  have s1: "fb_queue_ok b s1" "fb_pending b s1 = [?r]"
    using queue_reset_fb_pending [of ?u b "port - 1" "clock s" s1] q(2) assms(5,6) by auto
  have fr: "fbstate (fb s1 b) = fbstate (fb ?u b)" "min_time (fb s1 b) = min_time (fb s b)"
    "numberOfFb (fb s1 b) = numberOfFb (fb s b)" "info_seen i s1 = info_seen i s"
    "info_subscribed i s1 = info_subscribed i s"
    using q(2) by (auto simp: queue_reset_fb_def split: if_splits)
  let ?t = "s1\<lparr>clock := t\<rparr>"
  have nxt: "getNextFB b ?t = Some ?r" using s1 getNextFB_pending [of ?t b] by simp
  have "length (fb_pending b s1) = 1" using s1(2) by simp
  then have len: "queueLengthFB b ?t = Suc 0" by (simp add: queueLengthFB_def)
  let ?v = "upd_fbstate b (nat (port - 1)) (\<lambda>c. c\<lparr>fb_state := 0, fb_timestamp := clock s,
      fb_change := 0\<rparr>) (unqueueNextFB b ?t)"
  have run: "check_reset_fb b ?t = (if late t then enqueueInfoFB b port ?v else ?t)"
    using nxt len fr by (simp add: check_reset_fb_def Let_def late_def linorder_not_le)
  have msg: "infoFB b port ?v = (SRCP_INFO, stamp (clock s) @ '' 100 INFO '' @ show_nat b @ '' FB '' @
         show_int port @ '' '' @ show_int 0 @ [CHR 0x0A])"
    using assms(1,2) fr(3)
    by (simp add: infoFB_def getFB_def Let_def get_number_fb_def)
  show ?thesis
    using q(1) fr assms(3) unfolding run by (simp add: enqueueInfoFB_def msg)
qed

text \<open>A released contact is reported free after the debounce time, exactly once: if it is
  reported free at time \<open>t\<close> with no other reset waiting, the contact stays occupied, and a later
  \<open>check_reset_fb\<close> leaves it occupied without a message while less than \<open>min_time\<close> has passed, and
  afterwards sets it free with the time stamp \<open>t\<close> of the release and one info message.\<close>

theorem released_contact_debounced:
  assumes "1 \<le> port" "port \<le> get_number_fb b s" "fb_state (fb_at b (nat (port - 1)) s) = 1"
    and "min_time (fb s b) \<noteq> 0" "fb_queue_ok b s" "fb_pending b s = []"
    and "updateFB b port 0 s = Some (rc, s1)"
  defines "late \<equiv> \<lambda>t. min_time (fb s b) \<le> reset_age t (clock s)"
  shows "rc = SRCP_OK \<and> fb_state (fb_at b (nat (port - 1)) s1) = 1 \<and> info_seen i s1 = info_seen i s \<and>
    fb_state (fb_at b (nat (port - 1)) (check_reset_fb b (s1\<lparr>clock := t\<rparr>))) = (if late t then 0 else 1) \<and>
    info_seen i (check_reset_fb b (s1\<lparr>clock := t\<rparr>)) = info_seen i s @
      (if late t \<and> info_subscribed i s then [stamp (clock s) @ '' 100 INFO '' @ show_nat b @ '' FB '' @
         show_int port @ '' '' @ show_int 0 @ [CHR 0x0A]] else [])"
  unfolding late_def using assms(1-7) by (rule release_debounced)


text \<open>Contact 3 occupied at second 1; everything later is measured from there.\<close>

definition fb_occupied :: srcpd where
  "fb_occupied = (upd_fbstate 1 2 (\<lambda>c. c\<lparr>fb_state := 1\<rparr>) (fb_demo 500))\<lparr>clock := \<lparr>tv_sec = 1, tv_usec = 0\<rparr>\<rparr>"

lemma fb_occupied_simps [simp]:
  "get_number_fb (Suc 0) fb_occupied = 32" "min_time (fb fb_occupied (Suc 0)) = 500000"
  "fb_state (fb_at (Suc 0) 2 fb_occupied) = 1" "fb_change (fb_at (Suc 0) 2 fb_occupied) = 0"
  "reset_queue (fb fb_occupied (Suc 0)) = ring_empty \<lparr>reset_port = 0, reset_timestamp = tv0\<rparr>"
  "clock fb_occupied = \<lparr>tv_sec = 1, tv_usec = 0\<rparr>"
  using fb_demo_simps(1) [of 500] by (simp_all add: fb_occupied_def get_number_fb_def)

lemma fb_occupied_released: "\<exists>s1. updateFB 1 3 0 fb_occupied = Some (SRCP_OK, s1)"
  by (auto simp: updateFB_def Let_def queue_reset_fb_def queueIsFullFB_def queueLengthFB_def ring_len_def
      ring_empty_def)

theorem released_contact_debounced_witness:
  "\<exists>s1. updateFB 1 3 0 fb_occupied = Some (SRCP_OK, s1) \<and>
     fb_state (fb_at 1 2 (check_reset_fb 1 (s1\<lparr>clock := \<lparr>tv_sec = 1, tv_usec = 600000\<rparr>\<rparr>))) = 0"
proof -
  obtain s1 where s1: "updateFB 1 3 0 fb_occupied = Some (SRCP_OK, s1)" using fb_occupied_released by blast
  from released_contact_debounced [OF _ _ _ _ _ _ this, of 0 "\<lparr>tv_sec = 1, tv_usec = 600000\<rparr>"] s1
  show ?thesis by (simp add: reset_age_def)
qed

text \<open>A new impulse does not cancel a waiting reset: when a contact is reported occupied again
  after its release, \<open>updateFB\<close> finds the stored state unchanged and does nothing, so once
  \<open>min_time\<close> has passed since the release \<open>check_reset_fb\<close> sets the occupied contact free.\<close>

theorem impulse_does_not_cancel_reset:
  assumes "1 \<le> port" "port \<le> get_number_fb b s" "fb_state (fb_at b (nat (port - 1)) s) = 1"
    and "min_time (fb s b) \<noteq> 0" "fb_queue_ok b s" "fb_pending b s = []"
    and "updateFB b port 0 s = Some (r1, s1)" "min_time (fb s b) \<le> reset_age t (clock s)"
  shows "updateFB b port 1 (s1\<lparr>clock := t1\<rparr>) = Some (SRCP_OK, s1\<lparr>clock := t1\<rparr>) \<and>
    fb_state (fb_at b (nat (port - 1)) (check_reset_fb b (s1\<lparr>clock := t\<rparr>))) = 0"
proof -
  note r = release_debounced [OF assms(1-7)]
  have "get_number_fb b s1 = get_number_fb b s"
    using assms(1-4,7) by (auto simp: updateFB_def Let_def queue_reset_fb_def get_number_fb_def split: if_splits)
  then show ?thesis
    using r [of 0 t] assms(1,2,8) by (simp add: updateFB_def Let_def get_number_fb_def)
qed

theorem impulse_does_not_cancel_reset_witness:
  "\<exists>s1. updateFB 1 3 0 fb_occupied = Some (SRCP_OK, s1) \<and>
     fb_state (fb_at 1 2 (check_reset_fb 1 (s1\<lparr>clock := \<lparr>tv_sec = 2, tv_usec = 0\<rparr>\<rparr>))) = 0"
proof -
  obtain s1 where s1: "updateFB 1 3 0 fb_occupied = Some (SRCP_OK, s1)" using fb_occupied_released by blast
  from impulse_does_not_cancel_reset [OF _ _ _ _ _ _ this, of "\<lparr>tv_sec = 2, tv_usec = 0\<rparr>"] s1
  show ?thesis by (simp add: reset_age_def)
qed

text \<open>With a full queue of resets \<open>updateFB\<close> does not return: releasing an occupied contact
  waits for \<open>check_reset_fb\<close>, which the same bus thread runs; in every other situation it
  returns.\<close>

theorem updateFB_returns:
  "updateFB b port value s = None \<longleftrightarrow> 1 \<le> port \<and> port \<le> get_number_fb b s \<and> value = 0 \<and>
     fb_state (fb_at b (nat (port - 1)) s) \<noteq> 0 \<and> min_time (fb s b) \<noteq> 0 \<and> queueIsFullFB b s"
proof -
  have "queueIsFullFB b (upd_fbstate b i f s) = queueIsFullFB b s" for i f
    by (simp add: queueIsFullFB_def queueLengthFB_def)
  then show ?thesis by (auto simp: updateFB_def Let_def queue_reset_fb_def)
qed

end
