(* ===== verification/Srcp_SM.thy ===== *)
theory Srcp_SM
  imports Srcp_Bus
begin

unbundle bit_operations_syntax

text \<open>
  \<open>srcp-sm.c\<close>: the service mode, in which a client reads and writes decoder variables. The
  client thread puts one request into the queue of the bus and then waits on a condition
  variable (\<open>session_condt_wait\<close>) until the bus thread reports the outcome or 90 seconds have
  passed. What happens meanwhile is the parameter \<open>env\<close>: it maps the state in which the client
  starts to wait to the outcome (\<open>None\<close> for the time-out, otherwise the number passed to
  \<open>session_endwait\<close>) and the state in which it goes on. The answer buffer is \<open>None\<close> as long as
  nobody has written to it; looking at its first character then reads uninitialised memory.
\<close>

definition QUEUELEN_SM :: nat where [simp, code_unfold]: "QUEUELEN_SM = 2"

definition queue_SM_isempty :: "bus_t \<Rightarrow> srcpd \<Rightarrow> bool" where
  "queue_SM_isempty b s = ring_isempty (sm_queue s b)"

definition queue_len_sm :: "bus_t \<Rightarrow> srcpd \<Rightarrow> nat" where
  "queue_len_sm b s = ring_len QUEUELEN_SM (sm_queue s b)"

definition queue_isfull_sm :: "bus_t \<Rightarrow> srcpd \<Rightarrow> bool" where
  "queue_isfull_sm b s \<longleftrightarrow> queue_len_sm b s \<ge> QUEUELEN_SM - 1"

definition enqueueSM :: "bus_t \<Rightarrow> sm_protocol_t \<Rightarrow> sm_command_t \<Rightarrow> sm_type_t \<Rightarrow> int \<Rightarrow> int \<Rightarrow> int \<Rightarrow> int \<Rightarrow>
    srcpd \<Rightarrow> int \<times> srcpd" where
  "enqueueSM b protocol command type addr typeaddr bit_index value s =
     (if queue_isfull_sm b s then (SRCP_TEMPORARILYPROHIBITED, s)
      else (SRCP_OK, s\<lparr>sm_queue := (sm_queue s)(b := ring_put QUEUELEN_SM
         \<lparr>sm_protocol = protocol, sm_type = type, sm_command = command, sm_protocolversion = 1,
          sm_addr = addr, sm_cvaddr = typeaddr, sm_index = bit_index, sm_value = value,
          sm_tv = clock s\<rparr> (sm_queue s b))\<rparr>))"

definition getNextSM :: "bus_t \<Rightarrow> srcpd \<Rightarrow> int \<times> sm_t option" where
  "getNextSM b s =
     (if ring_isempty (sm_queue s b) then (-1, None)
      else (int (outp (sm_queue s b)), Some (ring_peek (sm_queue s b))))"

definition dequeueNextSM :: "bus_t \<Rightarrow> srcpd \<Rightarrow> int \<times> sm_t option \<times> srcpd" where
  "dequeueNextSM b s =
     (if ring_isempty (sm_queue s b) then (-1, None, s)
      else let q = ring_drop QUEUELEN_SM (sm_queue s b)
           in (int (outp q), Some (ring_peek (sm_queue s b)), s\<lparr>sm_queue := (sm_queue s)(b := q)\<rparr>))"

section \<open>A request and its answer\<close>

definition sm_line :: "timeval \<Rightarrow> bus_t \<Rightarrow> int \<Rightarrow> string \<Rightarrow> int list \<Rightarrow> string" where
  "sm_line now b addr kind args = stamp now @ '' 100 INFO '' @ show_nat b @ '' SM '' @ show_int addr
     @ '' '' @ kind @ concat (map (\<lambda>x. '' '' @ show_int x) args) @ [CHR 0x0A]"

text \<open>The \<open>switch (type)\<close>: new status, answer line, state with the frames for the central station.\<close>

definition sm_answer :: "bus_t \<Rightarrow> sm_command_t \<Rightarrow> sm_type_t \<Rightarrow> int \<Rightarrow> int \<Rightarrow> int \<Rightarrow> int \<Rightarrow> int \<Rightarrow> int \<Rightarrow>
    string option \<Rightarrow> srcpd \<Rightarrow> int \<times> string option \<times> srcpd" where
  "sm_answer b command type addr typeaddr bit_index value result status info s =
     (let now = clock s
      in case type of
           CV \<Rightarrow>
             (status, Some (sm_line now b addr ''CV'' [typeaddr, result]),
              (let item = \<bar>addr\<bar> OR 0xC000; minfo = [drop_bit 8 typeaddr, typeaddr AND 0xFF, result]
               in if command = SET then snd (info_mcs b 0x11 item (minfo @ [0xC0]) s)
                  else snd (info_mcs b 0x0F item minfo s)))
         | REGISTER \<Rightarrow> (status, Some (sm_line now b addr ''REG'' [typeaddr, result]), s)
         | PAGE \<Rightarrow> (status, Some (sm_line now b addr ''PAGE'' [typeaddr, result]), s)
         | CV_BIT \<Rightarrow> (status, Some (sm_line now b addr ''CVBIT'' [typeaddr, bit_index, result]), s)
         | MM_REG \<Rightarrow> (status, info,
              if command = SET then snd (info_mcs b 0x11 addr [0, typeaddr AND 0xFF, value, 0x80] s)
              else snd (info_mcs b 3 result [33] s))
         | MM_REG_UB \<Rightarrow> (status, info,
              if command = SET then snd (info_mcs b 0x11 addr [0, typeaddr AND 0xFF, value, 0x80] s)
              else snd (info_mcs b 3 result [33] s))
         | BIND_MFX \<Rightarrow>
             if addr = 0 then
               (if command = VERIFY \<and> value \<noteq> result then SRCP_WRONGVALUE else status,
                Some (sm_line now b addr ''BIND'' [u32 result]),
                snd (info_mcs b 1 0 [9, drop_bit 8 result, result AND 0xFF] s))
             else if command = SET then
               (status, Some (sm_line now b addr ''BIND'' [u32 value]),
                snd (info_mcs b 5 value [drop_bit 8 addr, addr AND 0xFF] s))
             else (if command = GET then SRCP_NODATA else status, info, s)
         | CV_MFX \<Rightarrow>
             if command = SET then
               (status, Some (sm_line now b addr ''CVMFX'' [typeaddr, bit_index, value]),
                snd (info_mcs b 0x11 (addr OR 0x4000)
                  [drop_bit 8 typeaddr OR push_bit 2 bit_index, typeaddr AND 0xFF, value, 0x80] s))
             else (status, info, s)
         | NO_TYPE \<Rightarrow> (status, info, s))"

definition infoSM :: "(srcpd \<Rightarrow> int option \<times> srcpd) \<Rightarrow> bus_t \<Rightarrow> sm_protocol_t \<Rightarrow> sm_command_t \<Rightarrow> sm_type_t \<Rightarrow>
    int \<Rightarrow> int \<Rightarrow> int \<Rightarrow> int \<Rightarrow> string option \<Rightarrow> srcpd \<Rightarrow> int \<times> string option \<times> srcpd" where
  "infoSM env b protocol command type addr typeaddr bit_index value info s =
     (let (status, s1) = enqueueSM b protocol command type addr typeaddr bit_index value s
      in case env s1 of
           (None, s2) \<Rightarrow> (SRCP_TIMEOUT, info, s2)
         | (Some result, s2) \<Rightarrow>
             if result = -2 then (SRCP_TEMPORARILYPROHIBITED, info, s2)
             else if result = -1 \<or> (command = VERIFY \<and> value \<noteq> result \<and> type \<noteq> BIND_MFX)
             then (SRCP_WRONGVALUE, info, s2)
             else
               (case sm_answer b command type addr typeaddr bit_index value result status info s2 of
                  (status, info, s3) \<Rightarrow>
                    (status, info,
                     case info of
                       None \<Rightarrow> raise_ub s3
                     | Some m \<Rightarrow> if m \<noteq> [] then enqueueInfoMessage m s3 else s3)))"

section \<open>The central station gateway\<close>

definition handle_mfx_bind_verify :: "(srcpd \<Rightarrow> int option \<times> srcpd) \<Rightarrow> bus_t \<Rightarrow> sm_command_t \<Rightarrow> int \<Rightarrow> int \<Rightarrow>
    srcpd \<Rightarrow> srcpd" where
  "handle_mfx_bind_verify env b cmnd val addr s =
     snd (snd (infoSM env b PROTO_MFX cmnd BIND_MFX addr (-1) (-1) (s32 val) None s))"

text \<open>What kind of request a configuration frame is; \<open>None\<close>: not supported.\<close>

definition mcs_config :: "sm_command_t \<Rightarrow> int \<Rightarrow> int \<Rightarrow> int \<Rightarrow> int \<Rightarrow>
    (sm_protocol_t \<times> sm_type_t \<times> int \<times> int \<times> int) option" where
  "mcs_config command uid cvindex value ctrl =
     (let addr = uid AND 0x3FFF; space = drop_bit 14 uid
      in if space = 0 then
           if command = GET then None
           else Some (PROTO_MM, if ctrl AND 0x10 \<noteq> 0 then MM_REG_UB else MM_REG, addr, cvindex, value)
         else if space = 1 then Some (PROTO_MFX, CV_MFX, addr, cvindex, value)
         else if space = 3 then
           (let addr' = (if ctrl AND 0x80 = 0 then - addr else addr)
            in if ctrl AND 0x30 = 0 then Some (PROTO_NMRA, CV, addr', cvindex, value)
               else if ctrl AND 0x30 = 0x10 then Some (PROTO_NMRA, REGISTER, addr', cvindex, value)
               else if ctrl AND 0x30 = 0x20 then
                 Some (PROTO_NMRA, CV_BIT, addr', value AND 7, drop_bit 3 value AND 1)
               else None)
         else None)"

definition handle_mcs_config :: "(srcpd \<Rightarrow> int option \<times> srcpd) \<Rightarrow> bus_t \<Rightarrow> sm_command_t \<Rightarrow> int \<Rightarrow> int \<Rightarrow>
    int \<Rightarrow> int \<Rightarrow> int \<Rightarrow> srcpd \<Rightarrow> srcpd" where
  "handle_mcs_config env b command uid cvaddr cvindex value ctrl s =
     (case mcs_config command uid cvindex value ctrl of
        None \<Rightarrow> s
      | Some (protocol, type, addr, cvindex, value) \<Rightarrow>
          snd (snd (infoSM env b protocol command type addr cvaddr cvindex value None s)))"

definition handle_mcs_discovery :: "(srcpd \<Rightarrow> int option \<times> srcpd) \<Rightarrow> bus_t \<Rightarrow> int \<Rightarrow> int \<Rightarrow> srcpd \<Rightarrow> srcpd" where
  "handle_mcs_discovery env b prot uid s =
     (if prot = 33 \<or> prot = 34
      then snd (snd (infoSM env b PROTO_MM GET MM_REG 0 (-1) prot (-1) None s)) else s)"

section \<open>The command queue\<close>

interpretation smring: bounded_fifo 1 "ring_ok 2" "ring_list 2" ring_isempty "ring_isfull 2"
    "ring_put 2" ring_peek "ring_drop 2"
  using ring_bounded_fifo [of 2] by simp

fun sm_carries :: "sm_protocol_t \<times> sm_command_t \<times> sm_type_t \<times> int \<times> int \<times> int \<times> int \<Rightarrow> sm_t \<Rightarrow> bool" where
  "sm_carries (p, c, t, addr, typeaddr, idx, value) e \<longleftrightarrow> sm_protocol e = p \<and> sm_command e = c \<and>
     sm_type e = t \<and> sm_addr e = addr \<and> sm_cvaddr e = typeaddr \<and> sm_index e = idx \<and> sm_value e = value"

fun enqueueSM_req :: "bus_t \<Rightarrow> sm_protocol_t \<times> sm_command_t \<times> sm_type_t \<times> int \<times> int \<times> int \<times> int \<Rightarrow>
    srcpd \<Rightarrow> int \<times> srcpd" where
  "enqueueSM_req b (p, c, t, addr, typeaddr, idx, value) s = enqueueSM b p c t addr typeaddr idx value s"

abbreviation sm_pending :: "bus_t \<Rightarrow> srcpd \<Rightarrow> sm_t list" where
  "sm_pending b s \<equiv> ring_list QUEUELEN_SM (sm_queue s b)"

lemma queue_isfull_sm_ring: "queue_isfull_sm b s \<longleftrightarrow> ring_isfull 2 (sm_queue s b)"
  by (simp add: queue_isfull_sm_def queue_len_sm_def ring_isfull_def)

interpretation smq: command_queue SRCP_OK "\<lambda>s. ring_ok 2 (sm_queue s b)" "sm_pending b"
    sm_carries "enqueueSM_req b" "\<lambda>s. snd (dequeueNextSM b s)" for b
proof
  fix s :: srcpd and r :: "sm_protocol_t \<times> sm_command_t \<times> sm_type_t \<times> int \<times> int \<times> int \<times> int"
  obtain p c t a v i x where r: "r = (p, c, t, a, v, i, x)" by (metis prod.exhaust)
  assume ok: "ring_ok 2 (sm_queue s b)"
  show "ring_ok 2 (sm_queue (snd (enqueueSM_req b r s)) b)"
    using smring.put_inv [OF ok] ok by (simp add: r enqueueSM_def)
  show "fst (enqueueSM_req b r s) = SRCP_OK \<Longrightarrow>
      \<exists>e. sm_carries r e \<and> sm_pending b (snd (enqueueSM_req b r s)) = sm_pending b s @ [e]"
    using smring.put_law [OF ok]
    by (auto simp: r enqueueSM_def queue_isfull_sm_ring srcp_codes split: if_splits)
  show "fst (enqueueSM_req b r s) \<noteq> SRCP_OK \<Longrightarrow> sm_pending b (snd (enqueueSM_req b r s)) = sm_pending b s"
    by (auto simp: r enqueueSM_def split: if_splits)
  show "ring_ok 2 (sm_queue (snd (snd (dequeueNextSM b s))) b)"
    using ok smring.drop_inv [OF ok] by (simp add: dequeueNextSM_def Let_def)
  show "sm_pending b s = [] \<Longrightarrow> fst (snd (dequeueNextSM b s)) = None \<and>
      sm_pending b (snd (snd (dequeueNextSM b s))) = []"
    using smring.isempty_law [OF ok] by (simp add: dequeueNextSM_def)
  fix e es
  show "sm_pending b s = e # es \<Longrightarrow> fst (snd (dequeueNextSM b s)) = Some e \<and>
      sm_pending b (snd (snd (dequeueNextSM b s))) = es"
    using smring.isempty_law [OF ok] smring.drop_law [OF ok] by (simp add: dequeueNextSM_def Let_def)
qed

section \<open>Properties\<close>

text \<open>A service-mode request is judged by what the decoder reports: a request the queue
  accepts ends with \<open>SRCP_TIMEOUT\<close> when nothing is reported in time, with
  \<open>SRCP_TEMPORARILYPROHIBITED\<close> for the report -2 and with \<open>SRCP_WRONGVALUE\<close> for the report -1, each
  without any message; a VERIFY of anything but a binding succeeds exactly when the reported value
  is the expected one; a read of a CV reports its value to the client and to the info
  sessions.\<close>

theorem infoSM_outcome:
  assumes "\<not> queue_isfull_sm b s"
    and "env (snd (enqueueSM b p c t addr a i v s)) = (out, s2)"
  shows "(out = None \<longrightarrow> infoSM env b p c t addr a i v buf s = (SRCP_TIMEOUT, buf, s2)) \<and>
    (out = Some (-2) \<longrightarrow> infoSM env b p c t addr a i v buf s = (SRCP_TEMPORARILYPROHIBITED, buf, s2)) \<and>
    (out = Some (-1) \<longrightarrow> infoSM env b p c t addr a i v buf s = (SRCP_WRONGVALUE, buf, s2)) \<and>
    (\<forall>r. out = Some r \<and> 0 \<le> r \<and> c = VERIFY \<and> t \<noteq> BIND_MFX \<longrightarrow>
       fst (infoSM env b p c t addr a i v buf s) = (if v = r then SRCP_OK else SRCP_WRONGVALUE)) \<and>
    (\<forall>r. out = Some r \<and> 0 \<le> r \<and> c = GET \<and> t = CV \<longrightarrow>
       (let m = sm_line (clock s2) b addr ''CV'' [a, r]
        in fst (infoSM env b p c t addr a i v buf s) = SRCP_OK \<and>
           fst (snd (infoSM env b p c t addr a i v buf s)) = Some m \<and>
           info_seen k (snd (snd (infoSM env b p c t addr a i v buf s))) =
             info_seen k s2 @ (if info_subscribed k s2 then [m] else [])))"
proof -
  let ?e = "enqueueSM b p c t addr a i v s"
  have st: "fst ?e = SRCP_OK" using assms(1) by (simp add: enqueueSM_def)
  have sm: "infoSM env b p c t addr a i v buf s =
     (case out of None \<Rightarrow> (SRCP_TIMEOUT, buf, s2)
      | Some result \<Rightarrow> if result = -2 then (SRCP_TEMPORARILYPROHIBITED, buf, s2)
         else if result = -1 \<or> (c = VERIFY \<and> v \<noteq> result \<and> t \<noteq> BIND_MFX) then (SRCP_WRONGVALUE, buf, s2)
         else (case sm_answer b c t addr a i v result SRCP_OK buf s2 of (status, info, s3) \<Rightarrow>
            (status, info, case info of None \<Rightarrow> raise_ub s3
               | Some m \<Rightarrow> if m \<noteq> [] then enqueueInfoMessage m s3 else s3)))"
    using st assms(2) unfolding infoSM_def by (cases ?e) (simp split: option.split)
  have ver: "fst (sm_answer b VERIFY t addr a i v r SRCP_OK buf s2) = SRCP_OK" if "t \<noteq> BIND_MFX" for r
    using that by (cases t) (simp_all add: sm_answer_def Let_def)
  have ne: "sm_line (clock s2) b addr ''CV'' [a, r] \<noteq> []" for r by (simp add: sm_line_def)
  have cv: "sm_answer b GET CV addr a i v r SRCP_OK buf s2 = (SRCP_OK, Some (sm_line (clock s2) b addr ''CV'' [a, r]),
      snd (info_mcs b 0x0F (\<bar>addr\<bar> OR 0xC000) [drop_bit 8 a, a AND 0xFF, r] s2))" for r
    by (simp add: sm_answer_def Let_def)
  show ?thesis
    unfolding sm using ver ne by (auto simp: cv case_prod_unfold Let_def)
qed

definition sm_demo :: srcpd where "sm_demo = srcpd_init\<lparr>clock := \<lparr>tv_sec = 3, tv_usec = 0\<rparr>\<rparr>"

lemma sm_demo_room [simp]: "\<not> queue_isfull_sm (Suc 0) sm_demo"
  by (simp add: sm_demo_def queue_isfull_sm_def queue_len_sm_def ring_len_def srcpd_init_def ring_empty_def)

theorem infoSM_outcome_witness:
  "fst (infoSM (\<lambda>s. (Some 6, s)) 1 PROTO_NMRA VERIFY CV (-1) 29 0 6 None sm_demo) = SRCP_OK"
  using infoSM_outcome [of 1 sm_demo "\<lambda>s. (Some 6, s)" PROTO_NMRA VERIFY CV "-1" 29 0 6] by simp

text \<open>A decoder search of the central station reads an uninitialised answer buffer: whenever
  \<open>handle_mcs_discovery\<close> for the protocols 33 and 34 gets a report, nothing has been written to the
  buffer whose first character \<open>infoSM\<close> tests.\<close>

theorem discovery_reads_uninitialised:
  assumes "prot = 33 \<or> prot = 34" "env (snd (enqueueSM b PROTO_MM GET MM_REG 0 (-1) prot (-1) s)) = (Some r, s2)"
    and "0 \<le> r"
  shows "ub (handle_mcs_discovery env b prot uid s)"
proof (cases "enqueueSM b PROTO_MM GET MM_REG 0 (-1) prot (-1) s")
  case (Pair st s1)
  with assms show ?thesis
    by (auto simp: handle_mcs_discovery_def infoSM_def sm_answer_def Let_def raise_ub_def)
qed

theorem discovery_reads_uninitialised_witness:
  "ub (handle_mcs_discovery (\<lambda>s. (Some 5, s)) 1 33 0 sm_demo)"
  using discovery_reads_uninitialised [of 33 "\<lambda>s. (Some 5, s)" 1 sm_demo 5] by simp

end
