(* ===== verification/Srcp_Time.thy ===== *)
theory Srcp_Time
  imports Srcp_Bus
begin

text \<open>
  \<open>srcp-time.c\<close> and \<open>srcp-gm.c\<close>: the model clock, whose speed is the ratio \<open>ratio_x / ratio_y\<close>,
  one pass of the thread that advances it, and the general messages that clients exchange.
\<close>

section \<open>Model time\<close>

definition startup_TIME :: "srcpd \<Rightarrow> srcpd" where
  "startup_TIME s = s\<lparr>distort := (distort s)\<lparr>td_inittime := clock s\<rparr>\<rparr>"

definition set_time :: "vtime_t \<Rightarrow> srcpd \<Rightarrow> srcpd" where
  "set_time vt s = s\<lparr>vtime := vt\<rparr>"

definition getTIME :: "srcpd \<Rightarrow> int \<times> vtime_t" where
  "getTIME s = (SRCP_OK, vtime s)"

definition get_distortion :: "srcpd \<Rightarrow> int \<times> time_distort_t" where
  "get_distortion s = (SRCP_OK, distort s)"

definition time_is_available :: "srcpd \<Rightarrow> bool" where
  "time_is_available s \<longleftrightarrow> 0 < ratio_x (distort s) \<and> 0 < ratio_y (distort s)"

definition infoTIME :: "srcpd \<Rightarrow> int \<times> string" where
  "infoTIME s =
     (if \<not> time_is_available s then (SRCP_NODATA, [])
      else
        (let vt = snd (getTIME s)
         in (SRCP_INFO, stamp (clock s) @ '' 100 INFO 0 TIME '' @ show_int (vt_day vt) @ '' ''
               @ show_int (vt_hour vt) @ '' '' @ show_int (vt_min vt) @ '' '' @ show_int (vt_sec vt)
               @ [CHR 0x0A])))"

definition describeTIME :: "srcpd \<Rightarrow> int \<times> string" where
  "describeTIME s =
     (let td = snd (get_distortion s)
      in (SRCP_INFO, stamp (td_inittime td) @ '' 101 INFO 0 TIME '' @ show_int (ratio_x td) @ '' ''
            @ show_int (ratio_y td) @ [CHR 0x0A]))"

definition setTIME :: "int \<Rightarrow> int \<Rightarrow> int \<Rightarrow> int \<Rightarrow> srcpd \<Rightarrow> int \<times> srcpd" where
  "setTIME d h m sec s =
     (if d < 0 \<or> h < 0 \<or> h > 23 \<or> m < 0 \<or> m > 59 \<or> sec < 0 \<or> sec > 59 then (SRCP_WRONGVALUE, s)
      else
        (let s1 = set_time \<lparr>vt_day = d, vt_hour = h, vt_min = m, vt_sec = sec\<rparr> s
         in (SRCP_OK, enqueueInfoMessage (snd (infoTIME s1)) s1)))"

definition initTIME :: "int \<Rightarrow> int \<Rightarrow> srcpd \<Rightarrow> int \<times> srcpd" where
  "initTIME fx fy s =
     (if fx < 0 \<or> fy \<le> 0 then (SRCP_WRONGVALUE, s)
      else
        (let s1 = s\<lparr>distort := \<lparr>ratio_x = fx, ratio_y = fy, td_inittime = clock s\<rparr>\<rparr>
         in (SRCP_OK, enqueueInfoMessage (snd (describeTIME s1)) s1)))"

definition termTIME :: "srcpd \<Rightarrow> int \<times> srcpd" where
  "termTIME s =
     (SRCP_OK, enqueueInfoMessage (stamp (clock s) @ '' 102 INFO 0 TIME'' @ [CHR 0x0A])
        (s\<lparr>distort := (distort s)\<lparr>ratio_x := 0, ratio_y := 0\<rparr>\<rparr>))"

text \<open>
  One pass of the loop of \<open>thr_clock\<close> with the clock running: \<open>clock_sleeptime\<close> is the
  microseconds it sleeps, an \<open>int\<close> product whose overflow the standard leaves undefined, and
  \<open>clock_pass\<close> what it does after waking up at the time \<open>t\<close>.
\<close>

definition clock_sleeptime :: "time_distort_t \<Rightarrow> int option" where
  "clock_sleeptime td =
     (if 1000000 * ratio_y td < 2147483648 then Some (tdiv (1000000 * ratio_y td) (ratio_x td)) else None)"

definition clock_advance :: "vtime_t \<Rightarrow> vtime_t \<times> bool" where
  "clock_advance vt =
     (let vt = vt\<lparr>vt_sec := vt_sec vt + 1\<rparr>;
          (vt, sendinfo) = (if vt_sec vt \<ge> 60 then (vt\<lparr>vt_sec := 0, vt_min := vt_min vt + 1\<rparr>, True)
                            else (vt, False));
          vt = (if vt_min vt \<ge> 60 then vt\<lparr>vt_hour := vt_hour vt + 1, vt_min := 0\<rparr> else vt);
          vt = (if vt_hour vt \<ge> 24 then vt\<lparr>vt_day := vt_day vt + 1, vt_hour := 0\<rparr> else vt)
      in (vt, sendinfo))"

definition clock_pass :: "timeval \<Rightarrow> srcpd \<Rightarrow> srcpd" where
  "clock_pass t s =
     (let s = s\<lparr>clock := t\<rparr>; (vt, sendinfo) = clock_advance (snd (getTIME s)); s1 = set_time vt s
      in if sendinfo then enqueueInfoMessage (snd (infoTIME s1)) s1 else s1)"

section \<open>General messages\<close>

text \<open>\<open>snprintf\<close> into a buffer of \<open>MAXSRCPLINELEN = 1001\<close> bytes keeps the first 1000 characters.\<close>

definition MAXSRCPLINELEN :: nat where [code_unfold]: "MAXSRCPLINELEN = 1001"

definition gm_text :: "timeval \<Rightarrow> sessionid_t \<Rightarrow> sessionid_t \<Rightarrow> string \<Rightarrow> string" where
  "gm_text t sid rid msg = stamp t @ '' 100 INFO 0 GM '' @ show_nat sid @ '' '' @ show_nat rid @ '' ''
     @ msg @ [CHR 0x0A]"

definition setGM :: "sessionid_t \<Rightarrow> sessionid_t \<Rightarrow> string \<Rightarrow> srcpd \<Rightarrow> int \<times> srcpd" where
  "setGM sid rid msg s =
     (if sid \<noteq> 0 \<and> \<not> is_valid_info_session sid s then (SRCP_WRONGVALUE, s)
      else if rid \<noteq> 0 \<and> \<not> is_valid_info_session rid s then (SRCP_WRONGVALUE, s)
      else (SRCP_OK, session_enqueue_info_message sid
              (take (MAXSRCPLINELEN - 1) (gm_text (clock s) sid rid msg)) s))"

section \<open>Properties\<close>

definition time_ok :: "vtime_t \<Rightarrow> bool" where
  "time_ok vt \<longleftrightarrow> 0 \<le> vt_day vt \<and> 0 \<le> vt_hour vt \<and> vt_hour vt < 24 \<and> 0 \<le> vt_min vt \<and> vt_min vt < 60 \<and>
     0 \<le> vt_sec vt \<and> vt_sec vt < 60"

definition time_seconds :: "vtime_t \<Rightarrow> int" where
  "time_seconds vt = ((vt_day vt * 24 + vt_hour vt) * 60 + vt_min vt) * 60 + vt_sec vt"

lemma clock_advance_ok:
  assumes "time_ok vt"
  shows "time_ok (fst (clock_advance vt))"
    "time_seconds (fst (clock_advance vt)) = time_seconds vt + 1"
    "snd (clock_advance vt) \<longleftrightarrow> vt_sec (fst (clock_advance vt)) = 0"
  using assms by (auto simp: time_ok_def clock_advance_def Let_def time_seconds_def)

lemma clock_pass_vtime: "vtime (clock_pass t s) = fst (clock_advance (vtime s))"
  by (simp add: clock_pass_def Let_def getTIME_def set_time_def split: prod.split)

text \<open>The model clock counts seconds: started from a time that \<open>setTIME\<close> accepts, after \<open>n\<close>
  passes of the clock thread the time is again a valid time of day and exactly \<open>n\<close> model seconds
  later.\<close>

theorem clock_counts_seconds:
  assumes "fst (setTIME d h m sec s) = SRCP_OK"
  shows "time_ok (vtime (fold clock_pass ts (snd (setTIME d h m sec s)))) \<and>
    time_seconds (vtime (fold clock_pass ts (snd (setTIME d h m sec s)))) =
      ((d * 24 + h) * 60 + m) * 60 + sec + int (length ts)"
proof -
  have start: "time_ok (vtime (snd (setTIME d h m sec s)))"
      "time_seconds (vtime (snd (setTIME d h m sec s))) = ((d * 24 + h) * 60 + m) * 60 + sec"
    using assms
    by (auto simp: setTIME_def srcp_codes Let_def set_time_def time_ok_def time_seconds_def
        split: if_splits)
  have "time_ok (vtime (fold clock_pass ts u)) \<and>
      time_seconds (vtime (fold clock_pass ts u)) = time_seconds (vtime u) + int (length ts)"
    if "time_ok (vtime u)" for u
    using that
    by (induction ts arbitrary: u) (simp_all add: clock_pass_vtime clock_advance_ok)
  from this [OF start(1)] start(2) show ?thesis by simp
qed

theorem clock_counts_seconds_witness:
  "time_seconds (vtime (fold clock_pass [tv0, tv0] (snd (setTIME 0 23 59 59 srcpd_init)))) = 86401"
  using clock_counts_seconds [of 0 23 59 59 srcpd_init "[tv0, tv0]"] by (simp add: setTIME_def Let_def)

lemma show_nat_no_newline: "CHR 0x0A \<notin> set (show_nat n)"
  using show_nat_digits [of "CHR 0x0A" n] by (auto simp: is_dec_def)

lemma stamp_no_newline: "CHR 0x0A \<notin> set (stamp t)"
  using show_nat_no_newline by (auto simp: stamp_def show_int_def show_pad3_def Let_def)

lemma last_take_snoc: "c \<notin> set h \<Longrightarrow> 0 < n \<Longrightarrow> last (take n (h @ [c])) = c \<longleftrightarrow> length h < n"
proof (cases "length h < n")
  case False
  moreover assume "c \<notin> set h" "0 < n"
  moreover from calculation have "take n h \<noteq> []" by auto
  then have "last (take n h) \<in> set h" by (meson in_set_takeD last_in_set)
  ultimately show ?thesis by auto
qed simp

text \<open>A general message longer than the line buffer loses its end of line: \<open>setGM\<close> stores a
  message that ends with a newline exactly when the whole line has at most 1000 characters.\<close>

theorem setGM_newline:
  assumes "CHR 0x0A \<notin> set msg" "sid = 0" "rid = 0" "info_subscribed i s"
  shows "fst (setGM sid rid msg s) = SRCP_OK \<and>
    (\<exists>m. info_seen i (snd (setGM sid rid msg s)) = info_seen i s @ [m] \<and>
       (last m = CHR 0x0A \<longleftrightarrow> length (gm_text (clock s) sid rid msg) \<le> 1000))"
proof -
  let ?g = "gm_text (clock s) sid rid msg"
  have nonl: "CHR 0x0A \<notin> set (stamp (clock s) @ '' 100 INFO 0 GM '' @ show_nat sid @ '' '' @ show_nat rid @ '' '' @ msg)"
    (is "_ \<notin> set ?h")
    using assms(1) stamp_no_newline show_nat_no_newline by auto
  have "last (take 1000 (?h @ [CHR 0x0A])) = CHR 0x0A \<longleftrightarrow> length ?h < 1000"
    using last_take_snoc [OF nonl, of 1000] by simp
  then have "last (take 1000 ?g) = CHR 0x0A \<longleftrightarrow> length ?g \<le> 1000"
    by (simp add: gm_text_def) presburger
  then show ?thesis
    using assms info.seen_emit [of i s] by (auto simp: setGM_def MAXSRCPLINELEN_def enqueueInfoMessage_def)
qed

theorem setGM_newline_witness:
  "fst (setGM 0 0 ''hello'' (one_session\<lparr>session_list :=
     [(session_list one_session ! 0)\<lparr>mode := smInfo, pipefd1 := 7\<rparr>]\<rparr>)) = SRCP_OK"
  using setGM_newline [of "''hello''" 0 0 0 "one_session\<lparr>session_list :=
     [(session_list one_session ! 0)\<lparr>mode := smInfo, pipefd1 := 7\<rparr>]\<rparr>"]
  by (simp add: info_subscribed_def)

end
