(* ===== verification/Srcp_Command.thy ===== *)
theory Srcp_Command
  imports Srcp_Text Srcp_Server Srcp_FB Srcp_SM Srcp_Time
begin

unbundle bit_operations_syntax

text \<open>
  \<open>srcp-command.c\<close>: the commands of a client in command mode. One definition per device group and
  command, composed by the handlers in the order in which the code tests the groups, then the
  dispatch of a line and the loop of a command session. A handler returns its result code, the
  contents of the reply buffer and the new state; \<open>None\<close> means that the thread waits for ever (a
  full queue of feedback resets, or \<open>WAIT TIME\<close> for a time that never comes).

  What runs meanwhile in other threads, the driver functions, the platform values and the contents
  of uninitialised variables are the fields of \<open>cmd_env\<close>.
\<close>

record cmd_env =
  sm_wait :: "srcpd \<Rightarrow> int option \<times> srcpd" \<comment> \<open>while a service mode request is worked off\<close>
  sleep_env :: "nat \<Rightarrow> srcpd \<Rightarrow> srcpd" \<comment> \<open>during the \<open>k\<close>th \<open>usleep\<close> of a \<open>WAIT\<close>\<close>
  between :: "nat \<Rightarrow> srcpd \<Rightarrow> srcpd" \<comment> \<open>until the \<open>k\<close>th command of the session has been read\<close>
  write_ok :: "nat \<Rightarrow> bool" \<comment> \<open>whether the \<open>k\<close>th reply can be written\<close>
  driver_init :: "bus_t \<Rightarrow> (bus_t \<Rightarrow> srcpd \<Rightarrow> srcpd) option" \<comment> \<open>\<open>init_func\<close> of the buses\<close>
  junk :: int \<comment> \<open>value of a local variable that \<open>sscanf\<close> or \<open>getFB\<close> did not assign\<close>
  env_version :: string
  env_serial :: nat
  env_temp :: nat

section \<open>SET and CHECK\<close>

text \<open>The digits of the function list: bit \<open>i\<close> is the \<open>i\<close>th digit; blanks are skipped.\<close>

fun gl_func_bits :: "string \<Rightarrow> int \<Rightarrow> int \<Rightarrow> int" where
  "gl_func_bits [] shift func = func"
| "gl_func_bits (c # cs) shift func =
     (if c = CHR ''1'' \<or> c = CHR ''0'' then
        (let func = (if c = CHR ''1'' then func OR shift else func); shift = u32 (2 * shift)
         in if shift = 0 then func else gl_func_bits cs shift func)
      else if c = CHR '' '' then gl_func_bits cs shift func
      else func)"

definition set_GL :: "sessionid_t \<Rightarrow> bus_t \<Rightarrow> string \<Rightarrow> bool \<Rightarrow> srcpd \<Rightarrow> int \<times> srcpd" where
  "set_GL sid bus parameter setorcheck s =
     (let (nparms, p) = ssplitstr 5 parameter;
          func = gl_func_bits (p ! 4) 1 0
      in if nparms \<ge> 4 then
           (let addr = atoi (p ! 0); direction = atoi (p ! 1);
                lockid = (case cacheGetLockGL bus (nat (u32 addr)) s of (_, None) \<Rightarrow> 0 | (_, Some l) \<Rightarrow> l)
            in if lockid = 0 \<or> lockid = sid \<or> direction = 2 then
                 if setorcheck then enqueueGL bus (nat (u32 addr)) direction (atoi (p ! 2)) (atoi (p ! 3)) (s32 func) s
                 else (SRCP_OK, s)
               else (SRCP_DEVICELOCKED, s))
         else (SRCP_LISTTOOSHORT, s))"

definition set_GA :: "sessionid_t \<Rightarrow> bus_t \<Rightarrow> string \<Rightarrow> bool \<Rightarrow> srcpd \<Rightarrow> int \<times> srcpd" where
  "set_GA sid bus parameter setorcheck s =
     (let v = sscanf [LD, LD, LD, LD] parameter; arg = num_arg 0 v
      in if length v \<ge> 4 then
           (let lockid = snd (getlockGA bus (s32 (arg 0)) s)
            in if lockid = 0 \<or> lockid = sid then
                 if setorcheck then enqueueGA bus (s32 (arg 0)) (s32 (arg 1)) (s32 (arg 2)) (s32 (arg 3)) s
                 else (SRCP_OK, s)
               else (SRCP_DEVICELOCKED, s))
         else (SRCP_LISTTOOSHORT, s))"

text \<open>A short list and a CHECK leave the initial result code.\<close>

definition set_FB :: "bus_t \<Rightarrow> string \<Rightarrow> bool \<Rightarrow> srcpd \<Rightarrow> (int \<times> srcpd) option" where
  "set_FB bus parameter setorcheck s =
     (let v = sscanf [LD, LD] parameter
      in if length v \<ge> 2 \<and> setorcheck then setFB bus (s32 (num_arg 0 v 0)) (s32 (num_arg 0 v 1)) s
         else Some (SRCP_UNSUPPORTEDDEVICEGROUP, s))"

definition set_GM :: "string \<Rightarrow> srcpd \<Rightarrow> int \<times> srcpd" where
  "set_GM parameter s =
     (let (n, p) = ssplitstr 3 parameter;
          sendto = sscanf [LU] (p ! 0); replyto = sscanf [LU] (p ! 1)
      in if sendto = [] \<or> replyto = [] then (SRCP_WRONGVALUE, s)
         else if n < 3 then (SRCP_LISTTOOSHORT, s)
         else setGM (nat (num_arg 0 sendto 0)) (nat (num_arg 0 replyto 0)) (p ! 2) s)"

text \<open>The kind of decoder variable; \<open>NO_TYPE\<close> stands for the -1 of an unknown name.\<close>

definition sm_type_of :: "string \<Rightarrow> sm_type_t" where
  "sm_type_of ctype =
     (if strcasecmp_eq ctype ''REG'' then REGISTER
      else if strcasecmp_eq ctype ''CV'' then CV
      else if strcasecmp_eq ctype ''CVBIT'' then CV_BIT
      else if strcasecmp_eq ctype ''PAGE'' then PAGE
      else if strcasecmp_eq ctype ''MMREG'' then MM_REG
      else if strcasecmp_eq ctype ''CVMFX'' then CV_MFX
      else if strcasecmp_eq ctype ''BIND'' then BIND_MFX
      else NO_TYPE)"

definition sm_request :: "cmd_env \<Rightarrow> bus_t \<Rightarrow> sm_protocol_t \<Rightarrow> sm_command_t \<Rightarrow> sm_type_t \<Rightarrow> int \<Rightarrow> int \<Rightarrow> int \<Rightarrow> int \<Rightarrow>
    srcpd \<Rightarrow> int \<times> string \<times> srcpd" where
  "sm_request env bus protocol command type addr typeaddr bit_index value s =
     (case infoSM (sm_wait env) bus protocol command type (s32 addr) (s32 typeaddr) (s32 bit_index)
         (s32 value) (Some []) s of
        (rc, None, s') \<Rightarrow> (rc, [], s')
      | (rc, Some m, s') \<Rightarrow> (rc, m, s'))"

text \<open>
  The parameters of \<open>SET SM\<close> and \<open>VERIFY SM\<close>, which have the same layout; \<open>VERIFY\<close> does not know the
  type \<open>MMREG\<close>.
\<close>

definition write_SM :: "cmd_env \<Rightarrow> bus_t \<Rightarrow> sm_command_t \<Rightarrow> string \<Rightarrow> srcpd \<Rightarrow> int \<times> string \<times> srcpd" where
  "write_SM env bus command parameter s =
     (let v = sscanf [LD, WORD 10, LU, LU, LU] parameter;
          n = length v; arg = num_arg 0 v; type = sm_type_of (str_arg v 1);
          short = (SRCP_LISTTOOSHORT, [], s)
      in if n < 3 then short
         else case type of
             CV_BIT \<Rightarrow> if n < 5 then short
               else sm_request env bus PROTO_NMRA command type (arg 0) (arg 2) (arg 3) (arg 4) s
           | REGISTER \<Rightarrow> if n < 4 then short
               else sm_request env bus PROTO_NMRA command type (arg 0) (arg 2) (-1) (arg 3) s
           | CV \<Rightarrow> if n < 4 then short
               else sm_request env bus PROTO_NMRA command type (arg 0) (arg 2) (-1) (arg 3) s
           | PAGE \<Rightarrow> if n < 4 then short
               else sm_request env bus PROTO_NMRA command type (arg 0) (arg 2) (-1) (arg 3) s
           | MM_REG \<Rightarrow> if command = VERIFY then (SRCP_WRONGVALUE, [], s)
               else if n < 4 then short
               else sm_request env bus PROTO_MM command type (arg 0) (arg 2) (-1) (arg 3) s
           | CV_MFX \<Rightarrow> if n < 5 then short
               else sm_request env bus PROTO_MFX command type (arg 0) (arg 2) (arg 3) (arg 4) s
           | BIND_MFX \<Rightarrow> sm_request env bus PROTO_MFX command type (arg 0) (-1) (-1) (arg 2) s
           | _ \<Rightarrow> (SRCP_WRONGVALUE, [], s))"

definition set_TIME :: "string \<Rightarrow> bool \<Rightarrow> srcpd \<Rightarrow> int \<times> srcpd" where
  "set_TIME parameter setorcheck s =
     (let v = sscanf [LD, LD, LD, LD] parameter; arg = num_arg 0 v
      in if length v \<ge> 4 then
           if setorcheck then setTIME (s32 (arg 0)) (s32 (arg 1)) (s32 (arg 2)) (s32 (arg 3)) s
           else (SRCP_OK, s)
         else (SRCP_LISTTOOSHORT, s))"

definition set_LOCK :: "sessionid_t \<Rightarrow> bus_t \<Rightarrow> string \<Rightarrow> bool \<Rightarrow> srcpd \<Rightarrow> int \<times> srcpd" where
  "set_LOCK sid bus parameter setorcheck s =
     (let v = sscanf [WORD 10, LD, LD] parameter; devgrp = str_arg v 0; arg = num_arg 0 v
      in if length v \<ge> 3 then
           if strncasecmp_eq devgrp ''GL'' then
             if setorcheck then cacheLockGL bus (nat (u32 (arg 1))) (arg 2) sid s else (SRCP_OK, s)
           else if strncasecmp_eq devgrp ''GA'' then
             if setorcheck then lockGA bus (s32 (arg 1)) (arg 2) sid s else (SRCP_OK, s)
           else (SRCP_UNSUPPORTEDDEVICEGROUP, s)
         else (SRCP_LISTTOOSHORT, s))"

definition set_POWER :: "bus_t \<Rightarrow> string \<Rightarrow> bool \<Rightarrow> srcpd \<Rightarrow> int \<times> srcpd" where
  "set_POWER bus parameter setorcheck s =
     (let (n, p) = ssplitstr 2 parameter
      in if n \<ge> 1 then
           if strncasecmp_eq (p ! 0) ''OFF'' then
             if setorcheck then setPower bus 0 (p ! 1) s else (SRCP_OK, s)
           else if strncasecmp_eq (p ! 0) ''ON'' then
             if setorcheck then setPower bus 1 (p ! 1) s else (SRCP_OK, s)
           else (SRCP_WRONGVALUE, s)
         else (SRCP_LISTTOOSHORT, s))"

text \<open>Every branch ends with an empty reply buffer.\<close>

definition handle_setcheck :: "cmd_env \<Rightarrow> sessionid_t \<Rightarrow> bus_t \<Rightarrow> string \<Rightarrow> string \<Rightarrow> bool \<Rightarrow> srcpd \<Rightarrow>
    (int \<times> string \<times> srcpd) option" where
  "handle_setcheck env sid bus device parameter setorcheck s =
     (let is = (\<lambda>dg name. bus_has_devicegroup bus dg s \<and> strncasecmp_eq device name);
          done' = (\<lambda>(rc, s'). Some (rc, [], s'))
      in if is DG_GL ''GL'' then done' (set_GL sid bus parameter setorcheck s)
         else if is DG_GA ''GA'' then done' (set_GA sid bus parameter setorcheck s)
         else if is DG_FB ''FB'' then
           (case set_FB bus parameter setorcheck s of None \<Rightarrow> None | Some r \<Rightarrow> done' r)
         else if is DG_GM ''GM'' then done' (set_GM parameter s)
         else if is DG_SM ''SM'' then
           (case write_SM env bus SET parameter s of (rc, _, s') \<Rightarrow> done' (rc, s'))
         else if is DG_TIME ''TIME'' then done' (set_TIME parameter setorcheck s)
         else if is DG_LOCK ''LOCK'' then done' (set_LOCK sid bus parameter setorcheck s)
         else if is DG_POWER ''POWER'' then done' (set_POWER bus parameter setorcheck s)
         else done' (SRCP_UNSUPPORTEDDEVICEGROUP, s))"

definition handleSET :: "cmd_env \<Rightarrow> sessionid_t \<Rightarrow> bus_t \<Rightarrow> string \<Rightarrow> string \<Rightarrow> srcpd \<Rightarrow>
    (int \<times> string \<times> srcpd) option" where
  "handleSET env sid bus device parameter s = handle_setcheck env sid bus device parameter True s"

definition handleCHECK :: "cmd_env \<Rightarrow> sessionid_t \<Rightarrow> bus_t \<Rightarrow> string \<Rightarrow> string \<Rightarrow> srcpd \<Rightarrow>
    (int \<times> string \<times> srcpd) option" where
  "handleCHECK env sid bus device parameter s = handle_setcheck env sid bus device parameter False s"

section \<open>GET\<close>

text \<open>An optional third value of \<open>CVMFX\<close> that is not given is passed on uninitialised.\<close>

definition get_SM :: "cmd_env \<Rightarrow> bus_t \<Rightarrow> string \<Rightarrow> srcpd \<Rightarrow> int \<times> string \<times> srcpd" where
  "get_SM env bus parameter s =
     (let v = sscanf [LD, WORD 10, LD, LD, LD] parameter;
          n = length v; arg = num_arg (junk env) v; type = sm_type_of (str_arg v 1);
          short = (SRCP_LISTTOOSHORT, [], s)
      in if n < 2 then short
         else case type of
             CV_BIT \<Rightarrow> if n < 4 then short
               else sm_request env bus PROTO_NMRA GET type (arg 0) (arg 2) (arg 3) (-1) s
           | REGISTER \<Rightarrow> if n < 3 then short
               else sm_request env bus PROTO_NMRA GET type (arg 0) (arg 2) (-1) (-1) s
           | CV \<Rightarrow> if n < 3 then short
               else sm_request env bus PROTO_NMRA GET type (arg 0) (arg 2) (-1) (-1) s
           | PAGE \<Rightarrow> if n < 3 then short
               else sm_request env bus PROTO_NMRA GET type (arg 0) (arg 2) (-1) (-1) s
           | MM_REG \<Rightarrow> if n < 3 then short
               else sm_request env bus PROTO_MM GET type (arg 0) (arg 2) (-1) (-1) s
           | CV_MFX \<Rightarrow> if n < 4 then short
               else sm_request env bus PROTO_MFX GET type (arg 0) (arg 2) (arg 3) (arg 4) s
           | BIND_MFX \<Rightarrow> sm_request env bus PROTO_MFX GET type (arg 0) (-1) (-1) (-1) s
           | _ \<Rightarrow> (SRCP_WRONGVALUE, [], s))"

definition get_DESCRIPTION :: "cmd_env \<Rightarrow> bus_t \<Rightarrow> string \<Rightarrow> srcpd \<Rightarrow> int \<times> string" where
  "get_DESCRIPTION env bus parameter s =
     (let v = sscanf [WORD 10, LD] parameter; devgrp = str_arg v 0; addr = num_arg (junk env) v 1
      in if v = [] then describeBus bus s
         else if bus_has_devicegroup bus DG_DESCRIPTION s then
           if strncasecmp_eq devgrp ''GL'' then cacheDescribeGL bus (nat (u32 addr)) s
           else if strncasecmp_eq devgrp ''GA'' then describeGA bus (s32 addr) s
           else if strncasecmp_eq devgrp ''FB'' then (describeFB bus (s32 addr), [])
           else if strncasecmp_eq devgrp ''SESSION'' then (describeSESSION bus (nat (u64 addr)), [])
           else if strncasecmp_eq devgrp ''TIME'' then describeTIME s
           else if strncasecmp_eq devgrp ''SERVER'' then
             (case describeSERVER (env_version env) (env_serial env) (env_temp env) bus s of
                (rc, m) \<Rightarrow> (rc, case m of None \<Rightarrow> [] | Some m \<Rightarrow> m))
           else (SRCP_UNSUPPORTEDDEVICEGROUP, [])
         else (SRCP_UNSUPPORTEDDEVICEGROUP, []))"

definition get_LOCK :: "bus_t \<Rightarrow> string \<Rightarrow> srcpd \<Rightarrow> int \<times> string" where
  "get_LOCK bus parameter s =
     (let v = sscanf [WORD 10, LD] parameter; devgrp = str_arg v 0; addr = num_arg 0 v 1
      in if length v \<le> 1 then (SRCP_LISTTOOSHORT, [])
         else if strncasecmp_eq devgrp ''GL'' then describeLOCKGL bus (nat (u32 addr)) s
         else if strncasecmp_eq devgrp ''GA'' then describeLOCKGA bus (s32 addr) s
         else (SRCP_UNSUPPORTEDDEVICEGROUP, []))"

definition handleGET :: "cmd_env \<Rightarrow> sessionid_t \<Rightarrow> bus_t \<Rightarrow> string \<Rightarrow> string \<Rightarrow> srcpd \<Rightarrow> int \<times> string \<times> srcpd" where
  "handleGET env sid bus device parameter s =
     (let is = (\<lambda>dg name. bus_has_devicegroup bus dg s \<and> strncasecmp_eq device name);
          keep = (\<lambda>(rc, reply). (rc, reply, s));
          v = sscanf [LD, LD] parameter; arg = num_arg 0 v
      in if is DG_FB ''FB'' then
           keep (if length v \<ge> 1 then infoFB bus (s32 (arg 0)) s else (SRCP_LISTTOOSHORT, []))
         else if is DG_GL ''GL'' then
           keep (if length v \<ge> 1 then cacheInfoGL bus (nat (u32 (arg 0))) s else (SRCP_LISTTOOSHORT, []))
         else if is DG_GA ''GA'' then
           keep (if length v > 1 then infoGA bus (s32 (arg 0)) (s32 (arg 1)) s else (SRCP_LISTTOOSHORT, []))
         else if is DG_SM ''SM'' then get_SM env bus parameter s
         else if is DG_POWER ''POWER'' then keep (infoPower bus s)
         else if is DG_SERVER ''SERVER'' then
           keep (case infoSERVER s of (rc, m) \<Rightarrow> (rc, case m of None \<Rightarrow> [] | Some m \<Rightarrow> m))
         else if is DG_TIME ''TIME'' then
           keep (case infoTIME s of (rc, m) \<Rightarrow> (if rc \<noteq> SRCP_INFO then SRCP_NODATA else rc, m))
         else if strncasecmp_eq device ''DESCRIPTION'' then keep (get_DESCRIPTION env bus parameter s)
         else if is DG_LOCK ''LOCK'' then keep (get_LOCK bus parameter s)
         else keep (SRCP_UNSUPPORTEDDEVICEGROUP, []))"

section \<open>WAIT\<close>

text \<open>
  The polling loop of \<open>WAIT FB\<close>: one pass per \<open>usleep\<close> of 50 ms, counting the time-out down. The
  variable \<open>value\<close> keeps its contents when \<open>getFB\<close> fails. Returns the time-out counter, the time
  stamp of the contact (\<open>akt_time\<close>) and the state.
\<close>

function wait_FB_loop :: "cmd_env \<Rightarrow> bus_t \<Rightarrow> int \<Rightarrow> int \<Rightarrow> nat \<Rightarrow> int \<Rightarrow> int \<Rightarrow> timeval \<Rightarrow> srcpd \<Rightarrow>
    int \<times> timeval \<times> srcpd" where
  "wait_FB_loop env bus port waitvalue k timeout value akt s =
     (let s' = sleep_env env k s;
          (akt', value') = (case getFB bus port s' of (_, Some (t, v)) \<Rightarrow> (t, v) | _ \<Rightarrow> (akt, value));
          timeout' = timeout - 1
      in if 0 \<le> timeout' \<and> value' \<noteq> waitvalue
         then wait_FB_loop env bus port waitvalue (Suc k) timeout' value' akt' s'
         else (timeout', akt', s'))"
  by pat_completeness auto

termination
  by (relation "measure (\<lambda>(env, bus, port, waitvalue, k, timeout, value, akt, s). nat timeout)") auto

text \<open>The result code, the reply buffer and the time that a reply without text is stamped with.\<close>

definition wait_FB :: "cmd_env \<Rightarrow> bus_t \<Rightarrow> string \<Rightarrow> srcpd \<Rightarrow> int \<times> string \<times> timeval \<times> srcpd" where
  "wait_FB env bus parameter s =
     (let v = sscanf [LD, DI, LD] parameter; port = s32 (num_arg 0 v 0);
          waitvalue = num_arg 0 v 1; timeout = num_arg 0 v 2
      in if length v \<ge> 3 then
           (let (rc, found) = getFB bus port s;
                akt = (case found of None \<Rightarrow> clock s | Some (t, _) \<Rightarrow> t);
                value = (case found of None \<Rightarrow> junk env | Some (_, v) \<Rightarrow> v)
            in if rc = SRCP_OK \<and> value = waitvalue then
                 (case infoFB bus port s of (rc, reply) \<Rightarrow> (rc, reply, akt, s))
               else
                 (let s1 = (if long_range (timeout * 20) then s else raise_ub s);
                      (timeout', akt', s2) = wait_FB_loop env bus port waitvalue 0 (timeout * 20) value akt s1
                  in if timeout' < 0 then (SRCP_TIMEOUT, [], clock s2, s2)
                     else (case infoFB bus port s2 of (rc, reply) \<Rightarrow> (rc, reply, akt', s2))))
         else (SRCP_LISTTOOSHORT, [], clock s, s))"

text \<open>
  The loop of \<open>WAIT TIME\<close>, in steps of 10 ms; it ends when the model clock is later than the time
  asked for, and never when the clock stands still.
\<close>

definition seconds_fit :: "(int \<Rightarrow> bool) \<Rightarrow> int \<Rightarrow> int \<Rightarrow> int \<Rightarrow> int \<Rightarrow> bool" where
  "seconds_fit ok d h m s \<longleftrightarrow> ok (d * 24) \<and> ok (d * 24 + h) \<and> ok ((d * 24 + h) * 60) \<and>
     ok ((d * 24 + h) * 60 + m) \<and> ok (((d * 24 + h) * 60 + m) * 60) \<and>
     ok (((d * 24 + h) * 60 + m) * 60 + s)"

definition int_range :: "int \<Rightarrow> bool" where
  "int_range i \<longleftrightarrow> -2147483648 \<le> i \<and> i \<le> 2147483647"

text \<open>\<open>vt.day * 24 + \<dots>\<close> is computed with type \<open>int\<close>.\<close>

definition check_seconds :: "srcpd \<Rightarrow> srcpd" where
  "check_seconds s =
     (let vt = vtime s
      in if seconds_fit int_range (vt_day vt) (vt_hour vt) (vt_min vt) (vt_sec vt) then s else raise_ub s)"

partial_function (option) wait_TIME_loop :: "cmd_env \<Rightarrow> int \<Rightarrow> nat \<Rightarrow> srcpd \<Rightarrow> srcpd option" where
  "wait_TIME_loop env target k s =
     (if time_seconds (vtime s) \<le> target
      then wait_TIME_loop env target (Suc k) (sleep_env env k (check_seconds s))
      else Some (check_seconds s))"

definition wait_TIME :: "cmd_env \<Rightarrow> string \<Rightarrow> srcpd \<Rightarrow> (int \<times> string \<times> timeval \<times> srcpd) option" where
  "wait_TIME env parameter s =
     (let v = sscanf [LD, LD, LD, LD] parameter; arg = num_arg 0 v
      in if length v \<ge> 4 then
           if time_is_available s then
             (let s1 = (if seconds_fit long_range (arg 0) (arg 1) (arg 2) (arg 3) then s else raise_ub s)
              in case wait_TIME_loop env (((arg 0 * 24 + arg 1) * 60 + arg 2) * 60 + arg 3) 0 s1 of
                   None \<Rightarrow> None
                 | Some s2 \<Rightarrow> (case infoTIME s2 of (rc, reply) \<Rightarrow> Some (rc, reply, clock s, s2)))
           else Some (SRCP_NODATA, [], clock s, s)
         else Some (SRCP_LISTTOOSHORT, [], clock s, s))"

definition handleWAIT :: "cmd_env \<Rightarrow> sessionid_t \<Rightarrow> bus_t \<Rightarrow> string \<Rightarrow> string \<Rightarrow> srcpd \<Rightarrow>
    (int \<times> string \<times> timeval \<times> srcpd) option" where
  "handleWAIT env sid bus device parameter s =
     (if bus_has_devicegroup bus DG_FB s \<and> strncasecmp_eq device ''FB'' then
        Some (wait_FB env bus parameter s)
      else if bus_has_devicegroup bus DG_TIME s \<and> strncasecmp_eq device ''TIME'' then
        wait_TIME env parameter s
      else Some (SRCP_UNSUPPORTEDDEVICEGROUP, [], clock s, s))"

section \<open>VERIFY\<close>

definition handleVERIFY :: "cmd_env \<Rightarrow> sessionid_t \<Rightarrow> bus_t \<Rightarrow> string \<Rightarrow> string \<Rightarrow> srcpd \<Rightarrow> int \<times> string \<times> srcpd" where
  "handleVERIFY env sid bus device parameter s =
     (if bus_has_devicegroup bus DG_SM s \<and> strncasecmp_eq device ''SM'' then
        write_SM env bus VERIFY parameter s
      else (SRCP_UNSUPPORTEDOPERATION, [], s))"

section \<open>TERM\<close>

definition term_GL :: "sessionid_t \<Rightarrow> bus_t \<Rightarrow> string \<Rightarrow> srcpd \<Rightarrow> int \<times> srcpd" where
  "term_GL sid bus parameter s =
     (let v = sscanf [LD] parameter; addr = nat (u32 (num_arg 0 v 0))
      in if length v = 1 then
           (case cacheUnlockGL bus addr sid s of
              (rc, s') \<Rightarrow> if rc = SRCP_OK then cacheTermGL bus addr s' else (rc, s'))
         else (SRCP_UNSUPPORTEDDEVICEGROUP, s))"

definition term_GA :: "sessionid_t \<Rightarrow> bus_t \<Rightarrow> string \<Rightarrow> srcpd \<Rightarrow> int \<times> srcpd" where
  "term_GA sid bus parameter s =
     (let v = sscanf [LD] parameter; addr = s32 (num_arg 0 v 0)
      in if length v = 1 then
           (let lockid = snd (getlockGA bus addr s)
            in if lockid = 0 then termGA bus addr s
               else if lockid = sid then
                 (case unlockGA bus addr sid s of
                    (rc, s') \<Rightarrow> if rc = SRCP_OK then termGA bus addr s'
                      else (SRCP_UNSUPPORTEDDEVICEGROUP, s'))
               else (SRCP_DEVICELOCKED, s))
         else (SRCP_UNSUPPORTEDDEVICEGROUP, s))"

definition term_LOCK :: "sessionid_t \<Rightarrow> bus_t \<Rightarrow> string \<Rightarrow> srcpd \<Rightarrow> int \<times> srcpd" where
  "term_LOCK sid bus parameter s =
     (let v = sscanf [WORD 10, LD] parameter; devgrp = str_arg v 0; addr = num_arg 0 v 1
      in if length v \<le> 1 then (SRCP_LISTTOOSHORT, s)
         else if strncasecmp_eq devgrp ''GL'' then cacheUnlockGL bus (nat (u32 addr)) sid s
         else if strncasecmp_eq devgrp ''GA'' then unlockGA bus (s32 addr) sid s
         else (SRCP_UNSUPPORTEDDEVICE, s))"

text \<open>The programming track protocols of \<open>INIT SM\<close> and \<open>TERM SM\<close>.\<close>

definition protocol_SM :: "cmd_env \<Rightarrow> bus_t \<Rightarrow> sm_command_t \<Rightarrow> string \<Rightarrow> srcpd \<Rightarrow> int \<times> string \<times> srcpd" where
  "protocol_SM env bus command parameter s =
     (let (n, p) = ssplitstr 1 parameter;
          request = (\<lambda>protocol. sm_request env bus protocol command NO_TYPE (-1) (-1) (-1) (-1) s)
      in if n < 1 then (SRCP_LISTTOOSHORT, [], s)
         else if strncasecmp_eq (p ! 0) ''NMRA'' then request PROTO_NMRA
         else if strncasecmp_eq (p ! 0) ''MFX'' then request PROTO_MFX
         else if strncasecmp_eq (p ! 0) ''MM'' then request PROTO_MM
         else (SRCP_WRONGVALUE, [], s))"

text \<open>
  \<open>handleTERM\<close> also returns the thread whose cancellation \<open>TERM SESSION\<close> requested.
\<close>

definition handleTERM :: "cmd_env \<Rightarrow> sessionid_t \<Rightarrow> bus_t \<Rightarrow> string \<Rightarrow> string \<Rightarrow> srcpd \<Rightarrow>
    int \<times> string \<times> nat option \<times> srcpd" where
  "handleTERM env sid bus device parameter s =
     (let is = (\<lambda>dg name. bus_has_devicegroup bus dg s \<and> strncasecmp_eq device name);
          plain = (\<lambda>(rc, s'). (rc, [], None, s'))
      in if is DG_GL ''GL'' then plain (term_GL sid bus parameter s)
         else if is DG_GA ''GA'' then plain (term_GA sid bus parameter s)
         else if is DG_LOCK ''LOCK'' then plain (term_LOCK sid bus parameter s)
         else if is DG_POWER ''POWER'' then plain (termPower bus s)
         else if is DG_SERVER ''SERVER'' then plain (SRCP_OK, server_shutdown s)
         else if is DG_SESSION ''SESSION'' then
           (let v = sscanf [LU] parameter; termsession = (if v = [] then sid else nat (num_arg 0 v 0))
            in case termSESSION bus sid termsession s of (rc, cancel) \<Rightarrow> (rc, [], cancel, s))
         else if is DG_SM ''SM'' then
           (case protocol_SM env bus sm_command_t.TERM parameter s of (rc, reply, s') \<Rightarrow> (rc, reply, None, s'))
         else if is DG_TIME ''TIME'' then plain (termTIME s)
         else plain (SRCP_UNSUPPORTEDDEVICEGROUP, s))"

section \<open>INIT and RESET\<close>

text \<open>\<open>optData\<close> is \<open>None\<close> while \<open>sscanf\<close> has not written to it.\<close>

definition init_GL_command :: "bus_t \<Rightarrow> string \<Rightarrow> srcpd \<Rightarrow> int \<times> srcpd" where
  "init_GL_command bus parameter s =
     (let v = sscanf [LD, C1, LD, LD, LD, UPTO 30] parameter; arg = num_arg 0 v
      in if length v \<ge> 5 then
           cacheInitGL bus (nat (u32 (arg 0))) (hd (str_arg v 1)) (s32 (arg 2)) (s32 (arg 3)) (s32 (arg 4))
             (if length v \<ge> 6 then Some (str_arg v 5) else None) s
         else (SRCP_LISTTOOSHORT, s))"

definition handleINIT :: "cmd_env \<Rightarrow> sessionid_t \<Rightarrow> bus_t \<Rightarrow> string \<Rightarrow> string \<Rightarrow> srcpd \<Rightarrow> int \<times> string \<times> srcpd" where
  "handleINIT env sid bus device parameter s =
     (let is = (\<lambda>dg name. bus_has_devicegroup bus dg s \<and> strncasecmp_eq device name);
          plain = (\<lambda>(rc, s'). (rc, [], s'))
      in if is DG_GL ''GL'' then plain (init_GL_command bus parameter s)
         else if is DG_GA ''GA'' then
           (let v = sscanf [LD, C1] parameter
            in plain (if length v \<ge> 2 then initGA bus (s32 (num_arg 0 v 0)) (hd (str_arg v 1)) s
                      else (SRCP_LISTTOOSHORT, s)))
         else if is DG_FB ''FB'' then
           (let v = sscanf [LD, C1, LD] parameter
            in plain (if length v \<ge> 3
                      then (initFB bus (s32 (num_arg 0 v 0)) (hd (str_arg v 1)) (s32 (num_arg 0 v 2)) s, s)
                      else (SRCP_LISTTOOSHORT, s)))
         else if is DG_POWER ''POWER'' then plain (initPower bus, s)
         else if is DG_TIME ''TIME'' then
           (let v = sscanf [LD, LD] parameter
            in plain (if length v \<ge> 2 then initTIME (s32 (num_arg 0 v 0)) (s32 (num_arg 0 v 1)) s
                      else (SRCP_LISTTOOSHORT, s)))
         else if is DG_SM ''SM'' then protocol_SM env bus INIT parameter s
         else plain (SRCP_UNSUPPORTEDDEVICEGROUP, s))"

definition handleRESET :: "cmd_env \<Rightarrow> sessionid_t \<Rightarrow> bus_t \<Rightarrow> string \<Rightarrow> string \<Rightarrow> srcpd \<Rightarrow> int \<times> string \<times> srcpd" where
  "handleRESET env sid bus device parameter s =
     (if bus_has_devicegroup bus DG_SERVER s \<and> strncasecmp_eq device ''SERVER''
      then (SRCP_OK, [], server_reset (driver_init env) s)
      else (SRCP_UNSUPPORTEDDEVICEGROUP, [], s))"

section \<open>A command session\<close>

text \<open>
  What a handler hands back to the dispatch: result code, reply buffer, the value of \<open>akt_time\<close>,
  the thread whose cancellation was requested, the state.
\<close>

type_synonym outcome = "int \<times> string \<times> timeval \<times> nat option \<times> srcpd"

definition dispatch :: "cmd_env \<Rightarrow> sessionid_t \<Rightarrow> string \<Rightarrow> bus_t \<Rightarrow> string \<Rightarrow> string \<Rightarrow> srcpd \<Rightarrow> outcome option" where
  "dispatch env sid command bus devicegroup parameter s =
     (let now = clock s;
          plain = (\<lambda>(rc, reply, s'). (rc, reply, now, None, s'));
          is = strncasecmp_eq command
      in if is ''SET'' then map_option plain (handleSET env sid bus devicegroup parameter s)
         else if is ''CHECK'' then map_option plain (handleCHECK env sid bus devicegroup parameter s)
         else if is ''GET'' then Some (plain (handleGET env sid bus devicegroup parameter s))
         else if is ''WAIT'' then
           map_option (\<lambda>(rc, reply, akt, s'). (rc, reply, akt, None, s'))
             (handleWAIT env sid bus devicegroup parameter s)
         else if is ''INIT'' then Some (plain (handleINIT env sid bus devicegroup parameter s))
         else if is ''TERM'' then
           (case handleTERM env sid bus devicegroup parameter s of
              (rc, reply, cancel, s') \<Rightarrow> Some (\<bar>rc\<bar>, reply, now, cancel, s'))
         else if is ''VERIFY'' then Some (plain (handleVERIFY env sid bus devicegroup parameter s))
         else if is ''RESET'' then Some (plain (handleRESET env sid bus devicegroup parameter s))
         else Some (plain (SRCP_UNKNOWNCOMMAND, [], s)))"

definition strip_newline :: "string \<Rightarrow> string" where
  "strip_newline line = (if 1 < length line \<and> last line = CHR 0x0A then butlast line else line)"

text \<open>One pass of the loop of \<open>doCmdClient\<close>: from the line to the reply.\<close>

definition do_command :: "cmd_env \<Rightarrow> sessionid_t \<Rightarrow> string \<Rightarrow> srcpd \<Rightarrow> (string \<times> nat option \<times> srcpd) option" where
  "do_command env sid line s =
     (let (nelem, p) = ssplitstr 4 (strip_newline line);
          bus = nat (u64 (atoi (p ! 1)));
          result = (if nelem \<ge> 3 then
                      if bus \<le> num_buses s then dispatch env sid (p ! 0) bus (p ! 2) (p ! 3) s
                      else Some (SRCP_WRONGVALUE, [], clock s, None, s)
                    else Some (SRCP_LISTTOOSHORT, [], clock s, None, s))
      in case result of
           None \<Rightarrow> None
         | Some (rc, reply, akt, cancel, s') \<Rightarrow>
             Some (if reply = [] then srcp_fmt_msg rc akt else reply, cancel, s'))"

text \<open>
  The session loop over what arrives on the socket. It returns the replies sent, how it ended and
  the state. The request to cancel the own thread takes effect at the \<open>write\<close> of the reply, which
  is a cancellation point: that reply is not sent.
\<close>

datatype client_end = Closed | Read_Error | Write_Error | Cancelled

lemma readline_rest_shorter: "length (snd (readline_rest len line evs)) \<le> length evs"
  by (induction len line evs rule: readline_rest.induct) (auto simp: Let_def le_SucI)

lemma socket_readline_shorter: "0 < fst (socket_readline len evs) \<Longrightarrow> length (snd (snd (socket_readline len evs))) < length evs"
proof (induction len evs rule: socket_readline.induct)
  case (1 len c evs)
  then show ?case
    using readline_rest_shorter [of len "if isvalidchar c then [c] else []" evs]
    by (simp add: case_prod_unfold less_Suc_eq_le)
qed auto

function doCmdClient :: "cmd_env \<Rightarrow> sessionid_t \<Rightarrow> nat \<Rightarrow> rd list \<Rightarrow> srcpd \<Rightarrow>
    (string list \<times> client_end \<times> srcpd) option" where
  "doCmdClient env sid k evs s =
     (let r = fst (socket_readline (MAXSRCPLINELEN - 1) evs);
          line = fst (snd (socket_readline (MAXSRCPLINELEN - 1) evs));
          evs' = snd (snd (socket_readline (MAXSRCPLINELEN - 1) evs))
      in if r = 0 then Some ([], Closed, s)
         else if r < 0 then Some ([], Read_Error, s)
         else case do_command env sid line (between env k s) of
             None \<Rightarrow> None
           | Some (reply, Some _, s') \<Rightarrow> Some ([], Cancelled, s')
           | Some (reply, None, s') \<Rightarrow>
               if \<not> write_ok env k then Some ([], Write_Error, s')
               else (case doCmdClient env sid (Suc k) evs' s' of
                       None \<Rightarrow> None
                     | Some (replies, how, s'') \<Rightarrow> Some (reply # replies, how, s'')))"
  by pat_completeness auto

termination
  by (relation "measure (\<lambda>(env, sid, k, evs, s). length evs)") (auto intro!: socket_readline_shorter)

declare wait_FB_loop.simps [simp del] doCmdClient.simps [simp del]

end
