(* ===== verification/Srcp_Command_Facts.thy ===== *)
theory Srcp_Command_Facts
  imports Srcp_Command
begin

unbundle bit_operations_syntax

text \<open>
  Properties of the commands: what CHECK leaves unchanged, which locks a command respects, and what
  a command line does from its text to the queue of the bus.
\<close>

declare sscanf.simps [simp del] scan_one.simps [simp del]

section \<open>A quiet environment\<close>

text \<open>No other thread does anything, every write succeeds, no driver function is installed.\<close>

definition env0 :: cmd_env where
  "env0 = \<lparr>sm_wait = (\<lambda>s. (None, s)), sleep_env = (\<lambda>k s. s), between = (\<lambda>k s. s),
     write_ok = (\<lambda>k. True), driver_init = (\<lambda>b. None), junk = 0, env_version = ''1.0'',
     env_serial = 0, env_temp = 0\<rparr>"

section \<open>CHECK\<close>

lemmas set_defs = set_GL_def set_GA_def set_FB_def set_TIME_def set_LOCK_def set_POWER_def

lemma check_parts:
  "snd (set_GL sid bus parameter False s) = s" "snd (set_GA sid bus parameter False s) = s"
  "set_FB bus parameter False s = Some (SRCP_UNSUPPORTEDDEVICEGROUP, s)"
  "snd (set_TIME parameter False s) = s" "snd (set_LOCK sid bus parameter False s) = s"
  "snd (set_POWER bus parameter False s) = s"
  by (simp_all add: set_defs case_prod_unfold Let_def)

text \<open>The group names of the commands exclude one another.\<close>

lemma strncasecmp_eq_prefix:
  "strncasecmp_eq d t \<Longrightarrow> length u \<le> length t \<Longrightarrow> strncasecmp_eq d u \<longleftrightarrow> map tolower (take (length u) t) = map tolower u"
  by (auto simp: strncasecmp_eq_def) (metis take_map take_take min_absorb1)+

text \<open>CHECK is meant as a SET that sends no command. For every device group but the service
  mode and the generic messages it leaves the state of the daemon as it is, answers at once and
  writes no reply text of its own.
\<close>

theorem check_changes_nothing:
  assumes "\<not> strncasecmp_eq device ''GM''" and "\<not> strncasecmp_eq device ''SM''"
  shows "\<exists>rc. handleCHECK env sid bus device parameter s = Some (rc, [], s)"
  using assms
  by (auto simp: handleCHECK_def handle_setcheck_def Let_def case_prod_unfold check_parts)

theorem check_changes_nothing_witness:
  "\<exists>rc. handleCHECK env0 1 1 ''GL'' ''3 1 5 10'' srcpd_init = Some (rc, [], srcpd_init)"
  by (rule check_changes_nothing) (simp_all add: strncasecmp_eq_def tolower_def)

text \<open>The service mode and the generic messages do not look at the flag that distinguishes CHECK
  from SET: CHECK programs the decoder and sends the message exactly as SET does, against the
  comment above \<open>handleCHECK\<close>.
\<close>

theorem check_programs_and_sends:
  assumes "strncasecmp_eq device ''SM'' \<or> strncasecmp_eq device ''GM''"
  shows "handleCHECK env sid bus device parameter s = handleSET env sid bus device parameter s"
proof -
  have "\<not> strncasecmp_eq device u" if "u \<in> {''GL'', ''GA'', ''FB''}" for u
    using assms that by (auto simp: strncasecmp_eq_def tolower_def)
  moreover have "\<not> strncasecmp_eq device u" if "u \<in> {''TIME'', ''LOCK'', ''POWER''}" for u
  proof
    assume u: "strncasecmp_eq device u"
    from assms that show False
      by (auto simp: strncasecmp_eq_prefix [OF u] tolower_def)
  qed
  ultimately have "\<not> strncasecmp_eq device ''GL''" "\<not> strncasecmp_eq device ''GA''"
    "\<not> strncasecmp_eq device ''FB''" "\<not> strncasecmp_eq device ''TIME''"
    "\<not> strncasecmp_eq device ''LOCK''" "\<not> strncasecmp_eq device ''POWER''"
    by blast+
  then show ?thesis
    by (simp add: handleCHECK_def handleSET_def handle_setcheck_def Let_def cong: if_cong)
qed

theorem check_programs_and_sends_witness:
  "handleCHECK env0 1 1 ''SM'' ''3 CV 1 7'' sm_demo = handleSET env0 1 1 ''SM'' ''3 CV 1 7'' sm_demo"
  by (rule check_programs_and_sends) (simp add: strncasecmp_eq_def tolower_def)

section \<open>Locks of other sessions\<close>

text \<open>Locomotive, feedback and bus operations leave the accessories alone.\<close>

named_theorems ga_frame \<open>operations that do not touch the accessories\<close>

lemma fold_info_mcs_ga [ga_frame]:
  "ga (fold (\<lambda>k s. if P k then snd (info_mcs b c i (d k) s) else s) ks s) = ga s"
  by (induction ks arbitrary: s) auto

lemma getGLIndex_ga [ga_frame]: "ga (snd (getGLIndex b locid c s)) = ga s"
  by (simp add: getGLIndex_def Let_def split: option.split)

lemma gl_enter_ga [ga_frame]: "ga (gl_enter b r s) = ga s"
  by (simp add: gl_enter_def gli_set_def)

lemma gl_default_init_ga [ga_frame]: "ga (gl_default_init b i locid s) = ga s"
  by (simp add: gl_default_init_def Let_def case_prod_unfold split: option.split)

lemma get_gldata_ptr_ga [ga_frame]: "ga (snd (get_gldata_ptr b locid s)) = ga s"
  by (simp add: get_gldata_ptr_def Let_def case_prod_unfold ga_frame split: option.split)

lemma gl_push_ga [ga_frame]: "ga (gl_push b i s) = ga s"
  by (simp add: gl_push_def Let_def)

lemma gl_announce_ga [ga_frame]: "ga (gl_announce b i s) = ga s"
  by (simp add: gl_announce_def Let_def)

lemma gl_init_entry_ga [ga_frame]: "ga (snd (gl_init_entry b i locid c v f n d s)) = ga s"
  by (simp add: gl_init_entry_def Let_def case_prod_unfold ga_frame split: option.split)

lemma cacheInitGL_ga [ga_frame]: "ga (snd (cacheInitGL b locid c v f n d s)) = ga s"
  by (simp add: cacheInitGL_def Let_def case_prod_unfold ga_frame split: option.split)

lemma gl_enqueue_ga [ga_frame]: "ga (gl_enqueue b i s) = ga s"
  by (simp add: gl_enqueue_def Let_def ga_frame)

lemma gl_sync_ga [ga_frame]: "ga (gl_sync b p c f s) = ga s"
  by (simp add: gl_sync_def Let_def case_prod_unfold ga_frame)

lemma enqueueGL_ga [ga_frame]: "ga (snd (enqueueGL b locid d v m f s)) = ga s"
  by (simp add: enqueueGL_def Let_def case_prod_unfold ga_frame split: option.split)

lemma cacheTermGL_ga [ga_frame]: "ga (snd (cacheTermGL b locid s)) = ga s"
  by (simp add: cacheTermGL_def Let_def ga_frame)

lemma lockGL_ga [ga_frame]:
  "ga (snd (cacheLockGL b locid d sid s)) = ga s" "ga (snd (cacheUnlockGL b locid sid s)) = ga s"
  by (simp_all add: cacheLockGL_def cacheUnlockGL_def Let_def)

lemma setFB_ga: "setFB b port v s = Some r \<Longrightarrow> ga (snd r) = ga s"
  by (auto simp: setFB_def updateFB_def Let_def queue_reset_fb_def enqueueInfoFB_def upd_fbstate_def split: if_splits)

lemma setPower_ga [ga_frame]:
  "ga (snd (setPower b st m s)) = ga s" "ga (snd (termPower b s)) = ga s"
  by (simp_all add: setPower_def termPower_def)

lemma session_enqueue_ga [ga_frame]: "ga (session_enqueue_info_message sid m s) = ga s"
  by (simp add: session_enqueue_info_message_def Let_def split: option.split)

lemma setGM_ga [ga_frame]: "ga (snd (setGM sid rid m s)) = ga s"
  by (simp add: setGM_def ga_frame)

lemma time_ga [ga_frame]:
  "ga (snd (setTIME d h m sec s)) = ga s" "ga (snd (initTIME x y s)) = ga s" "ga (snd (termTIME s)) = ga s"
  by (simp_all add: setTIME_def initTIME_def termTIME_def Let_def set_time_def)

lemma server_shutdown_ga [ga_frame]: "ga (server_shutdown s) = ga s"
  by (simp add: server_shutdown_def announce_server_def set_server_state_def split: option.split)

text \<open>
  The locks that sessions other than \<open>sid\<close> hold in \<open>s\<close> on the accessories of all buses are held
  in \<open>t\<close>.
\<close>

definition ga_locks_kept :: "sessionid_t \<Rightarrow> srcpd \<Rightarrow> srcpd \<Rightarrow> bool" where
  "ga_locks_kept sid s t \<longleftrightarrow>
     (\<forall>b. get_number_ga b t = get_number_ga b s \<and>
        (\<forall>a. 0 < a \<and> a \<le> get_number_ga b s \<and> ga_locked_by (ga_at b a s) \<notin> {0, sid} \<longrightarrow>
           ga_locked_by (ga_at b a t) = ga_locked_by (ga_at b a s)))"

lemma ga_locks_kept_same [intro, simp]: "ga t = ga s \<Longrightarrow> ga_locks_kept sid s t"
  by (simp add: ga_locks_kept_def get_number_ga_def)

lemma ga_locks_kept_trans: "ga_locks_kept sid s t \<Longrightarrow> ga_locks_kept sid t u \<Longrightarrow> ga_locks_kept sid s u"
  by (auto simp: ga_locks_kept_def)

lemma ga_locks_kept_frame: "ga s' = ga s \<Longrightarrow> ga_locks_kept sid s' t \<longleftrightarrow> ga_locks_kept sid s t"
  by (simp add: ga_locks_kept_def get_number_ga_def)

lemma lockGA_kept: "ga_locks_kept sid s (snd (lockGA b a d sid s))"
  by (auto simp: lockGA_def ga_locks_kept_def Let_def)

lemma unlockGA_kept: "ga_locks_kept sid s (snd (unlockGA b a sid s))"
  by (auto simp: unlockGA_def ga_locks_kept_def Let_def)

lemma enqueueGA_kept: "ga_locks_kept sid s (snd (enqueueGA b a p v d s))"
  by (auto simp: enqueueGA_def ga_locks_kept_def get_number_ga_def Let_def)

lemma termGA_kept:
  "snd (getlockGA b a s) \<in> {0, sid} \<Longrightarrow> ga_locks_kept sid s (snd (termGA b a s))"
  by (auto simp: termGA_def getlockGA_def ga_locks_kept_def get_number_ga_def Let_def split: if_splits)

text \<open>The driver function called by \<open>INIT GA\<close> leaves the lock of the record alone.\<close>

definition driver_keeps_lock :: "srcpd \<Rightarrow> bool" where
  "driver_keeps_lock s \<longleftrightarrow>
     (\<forall>b f g. init_ga_func (buses s b) = Some f \<longrightarrow> ga_locked_by (snd (f g)) = ga_locked_by g)"

lemma initGA_kept:
  assumes "driver_keeps_lock s"
  shows "ga_locks_kept sid s (snd (initGA b a c s))"
  using assms
  by (auto simp: initGA_def ga_locks_kept_def get_number_ga_def driver_keeps_lock_def Let_def
      case_prod_unfold split: option.split)

text \<open>So do the threads that run while a command waits.\<close>

definition env_keeps_locks :: "sessionid_t \<Rightarrow> cmd_env \<Rightarrow> bool" where
  "env_keeps_locks sid env \<longleftrightarrow>
     (\<forall>s. ga_locks_kept sid s (snd (sm_wait env s))) \<and> (\<forall>k s. ga_locks_kept sid s (sleep_env env k s))"

lemma info_mcs_answer_ga [ga_frame]:
  "ga (snd (snd (sm_answer b cmd t a ta i v r st info s))) = ga s"
  by (cases t) (simp_all add: sm_answer_def Let_def)

lemma infoSM_kept:
  assumes "env_keeps_locks sid env"
  shows "ga_locks_kept sid s (snd (snd (infoSM (sm_wait env) b p c t a ta i v info s)))"
proof -
  define s1 where "s1 = snd (enqueueSM b p c t a ta i v s)"
  have "ga s1 = ga s" by (simp add: s1_def enqueueSM_def)
  then have "ga_locks_kept sid s (snd (sm_wait env s1))"
    using assms by (metis env_keeps_locks_def ga_locks_kept_frame)
  then have *: "ga_locks_kept sid s t" if "ga t = ga (snd (sm_wait env s1))" for t
    using that ga_locks_kept_trans by blast
  show ?thesis
    by (rule *) (simp add: infoSM_def case_prod_unfold Let_def ga_frame split: option.split flip: s1_def)
qed

lemma sm_request_kept:
  "env_keeps_locks sid env \<Longrightarrow> ga_locks_kept sid s (snd (snd (sm_request env b p c t a ta i v s)))"
  using infoSM_kept [of sid env s b p c t "s32 a" "s32 ta" "s32 i" "s32 v" "Some []"]
  by (simp add: sm_request_def case_prod_unfold split: option.split)

lemma write_SM_kept:
  "env_keeps_locks sid env \<Longrightarrow> ga_locks_kept sid s (snd (snd (write_SM env b c p s)))"
  by (simp add: write_SM_def Let_def sm_request_kept split: sm_type_t.split)

lemma get_SM_kept:
  "env_keeps_locks sid env \<Longrightarrow> ga_locks_kept sid s (snd (snd (get_SM env b p s)))"
  by (simp add: get_SM_def Let_def sm_request_kept split: sm_type_t.split)

lemma protocol_SM_kept:
  "env_keeps_locks sid env \<Longrightarrow> ga_locks_kept sid s (snd (snd (protocol_SM env b c p s)))"
  by (simp add: protocol_SM_def Let_def sm_request_kept case_prod_unfold)

lemma set_parts_kept:
  "ga_locks_kept sid s (snd (set_GL sid b p f s))" "ga_locks_kept sid s (snd (set_GA sid b p f s))"
  "ga_locks_kept sid s (snd (set_GM p s))" "ga_locks_kept sid s (snd (set_TIME p f s))"
  "ga_locks_kept sid s (snd (set_LOCK sid b p f s))" "ga_locks_kept sid s (snd (set_POWER b p f s))"
  "set_FB b p f s = Some r \<Longrightarrow> ga_locks_kept sid s (snd r)"
  by (auto simp: set_GL_def set_GA_def set_FB_def set_GM_def set_TIME_def set_LOCK_def set_POWER_def
      Let_def case_prod_unfold ga_frame lockGA_kept enqueueGA_kept dest: setFB_ga split: if_splits)

lemma handle_setcheck_kept:
  assumes "env_keeps_locks sid env" "handle_setcheck env sid b d p f s = Some (rc, reply, t)"
  shows "ga_locks_kept sid s t"
  using assms write_SM_kept [OF assms(1), of s b SET p]
  by (auto simp: handle_setcheck_def Let_def case_prod_unfold set_parts_kept(1-6)
      dest: set_parts_kept(7) split: if_splits option.splits)

lemma term_parts_kept:
  "ga_locks_kept sid s (snd (term_GL sid b p s))" "ga_locks_kept sid s (snd (term_LOCK sid b p s))"
  by (simp_all add: term_GL_def term_LOCK_def Let_def case_prod_unfold ga_frame unlockGA_kept)

lemma getlock_after_unlock: "fst (unlockGA b a sid s) = SRCP_OK \<Longrightarrow> snd (getlockGA b a (snd (unlockGA b a sid s))) = 0"
  by (auto simp: unlockGA_def getlockGA_def SRCP_OK_def SRCP_WRONGVALUE_def SRCP_DEVICELOCKED_def split: if_splits)

lemma term_GA_kept: "ga_locks_kept sid s (snd (term_GA sid b p s))"
proof -
  have "ga_locks_kept sid s (snd (termGA b a (snd (unlockGA b a sid s))))"
    if "fst (unlockGA b a sid s) = SRCP_OK" for a
    using termGA_kept [of b a "snd (unlockGA b a sid s)" sid] getlock_after_unlock [OF that] unlockGA_kept
    by (blast intro: ga_locks_kept_trans)
  then show ?thesis
    by (auto simp: term_GA_def Let_def case_prod_unfold unlockGA_kept intro!: termGA_kept)
qed

lemma handleTERM_kept:
  assumes "env_keeps_locks sid env"
  shows "ga_locks_kept sid s (snd (snd (snd (handleTERM env sid b d p s))))"
  using protocol_SM_kept [OF assms, of s b sm_command_t.TERM p]
  by (simp add: handleTERM_def Let_def case_prod_unfold term_parts_kept term_GA_kept ga_frame)

lemma handleINIT_kept:
  assumes "env_keeps_locks sid env" "driver_keeps_lock s"
  shows "ga_locks_kept sid s (snd (snd (handleINIT env sid b d p s)))"
  using protocol_SM_kept [OF assms(1)] initGA_kept [OF assms(2)]
  by (simp add: handleINIT_def init_GL_command_def Let_def case_prod_unfold ga_frame)

lemma handleGET_kept:
  "env_keeps_locks sid env \<Longrightarrow> ga_locks_kept sid s (snd (snd (handleGET env sid b d p s)))"
  by (simp add: handleGET_def Let_def case_prod_unfold get_SM_kept)

lemma wait_FB_loop_kept:
  assumes "env_keeps_locks sid env"
  shows "ga_locks_kept sid s (snd (snd (wait_FB_loop env b port w k n v akt s)))"
  using assms
proof (induction env b port w k n v akt s rule: wait_FB_loop.induct)
  case (1 env b port w k n v akt s)
  let ?s = "sleep_env env k s"
  obtain akt' v' where av: "(case getFB b port ?s of (_, Some (t, v)) \<Rightarrow> (t, v) | _ \<Rightarrow> (akt, v)) = (akt', v')"
    by fastforce
  have "ga_locks_kept sid ?s (snd (snd (wait_FB_loop env b port w (Suc k) (n - 1) v' akt' ?s)))"
    if "0 \<le> n - 1 \<and> v' \<noteq> w"
    using "1.IH" [OF refl av [symmetric] refl refl that "1.prems"] .
  moreover have "ga_locks_kept sid s ?s" using "1.prems" by (simp add: env_keeps_locks_def)
  ultimately show ?case
    unfolding wait_FB_loop.simps [of env b port w k] Let_def av
    by (auto intro: ga_locks_kept_trans)
qed

lemma wait_FB_kept:
  assumes "env_keeps_locks sid env"
  shows "ga_locks_kept sid s (snd (snd (snd (wait_FB env b p s))))"
proof -
  have "ga_locks_kept sid s (snd (snd (wait_FB_loop env b port w k n v akt (raise_ub s))))" for port w k n v akt
    using wait_FB_loop_kept [OF assms, of "raise_ub s"] by (simp add: ga_locks_kept_frame [of "raise_ub s" s])
  then show ?thesis
    using wait_FB_loop_kept [OF assms, of s]
    by (simp add: wait_FB_def Let_def case_prod_unfold)
qed

lemma wait_TIME_loop_kept:
  assumes "wait_TIME_loop env target k s = Some t"
  shows "env_keeps_locks sid env \<longrightarrow> ga_locks_kept sid s t"
proof (rule wait_TIME_loop.raw_induct [OF _ assms])
  fix loop :: "cmd_env \<Rightarrow> int \<Rightarrow> nat \<Rightarrow> srcpd \<Rightarrow> srcpd option" and env target k s t
  assume IH: "\<And>env target k s t. loop env target k s = Some t \<Longrightarrow>
      env_keeps_locks sid env \<longrightarrow> ga_locks_kept sid s t"
    and step: "(if time_seconds (vtime s) \<le> target
      then loop env target (Suc k) (sleep_env env k (check_seconds s)) else Some (check_seconds s)) = Some t"
  show "env_keeps_locks sid env \<longrightarrow> ga_locks_kept sid s t"
  proof
    assume env: "env_keeps_locks sid env"
    have same: "ga (check_seconds s) = ga s" by (simp add: check_seconds_def Let_def)
    have "ga_locks_kept sid s (sleep_env env k (check_seconds s))"
      using env same by (metis env_keeps_locks_def ga_locks_kept_frame)
    with step show "ga_locks_kept sid s t"
      using IH [of env target "Suc k" "sleep_env env k (check_seconds s)" t] env same
      by (auto split: if_splits intro: ga_locks_kept_trans)
  qed
qed

lemma handleWAIT_kept:
  assumes "env_keeps_locks sid env" "handleWAIT env sid b d p s = Some (rc, reply, akt, t)"
  shows "ga_locks_kept sid s t"
proof -
  have "ga_locks_kept sid s t" if "wait_TIME_loop env target k s1 = Some t" "ga s1 = ga s" for target k s1 t
    using wait_TIME_loop_kept [OF that(1), of sid] assms(1) ga_locks_kept_frame [OF that(2), of sid t] by blast
  with assms(2) wait_FB_kept [OF assms(1), of s b p] show ?thesis
    by (auto simp: handleWAIT_def wait_TIME_def Let_def case_prod_unfold split: if_splits option.splits)
qed

lemma dispatch_kept:
  assumes "env_keeps_locks sid env" "driver_keeps_lock s" "\<not> strncasecmp_eq cmd ''RESET''"
    and "dispatch env sid cmd b d p s = Some (rc, reply, akt, cancel, t)"
  shows "ga_locks_kept sid s t"
  using assms(3,4) handleGET_kept [OF assms(1), of s b d p] handleINIT_kept [OF assms(1,2), of b d p]
    handleTERM_kept [OF assms(1), of s b d p] write_SM_kept [OF assms(1), of s b VERIFY p]
  by (auto simp: dispatch_def Let_def case_prod_unfold handleSET_def handleCHECK_def handleVERIFY_def
      split: if_splits dest: handle_setcheck_kept [OF assms(1)] handleWAIT_kept [OF assms(1)])

text \<open>C25. No command line of a session, RESET apart, takes away or changes the owner of an accessory
  lock that another session holds, whatever the line says: provided the driver function called by INIT
  and the threads that run while the command waits do not.
\<close>

theorem command_keeps_foreign_locks:
  assumes "do_command env sid line s = Some (reply, cancel, t)"
    and "\<not> strncasecmp_eq (snd (ssplitstr 4 (strip_newline line)) ! 0) ''RESET''"
    and "env_keeps_locks sid env" and "driver_keeps_lock s"
    and "0 < a" and "a \<le> get_number_ga b s" and "ga_locked_by (ga_at b a s) \<notin> {0, sid}"
  shows "ga_locked_by (ga_at b a t) = ga_locked_by (ga_at b a s)"
proof -
  have "ga_locks_kept sid s t"
    using assms(1,2) dispatch_kept [OF assms(3,4)]
    by (fastforce simp: do_command_def Let_def case_prod_unfold split: if_splits option.splits)
  with assms(5-7) show ?thesis by (simp add: ga_locks_kept_def)
qed

section \<open>From the line to the queue\<close>

lemma blank_space [simp]: "blank (CHR '' '')"
  by (simp add: blank_def)

lemma dec_not_blank: "is_dec c \<Longrightarrow> \<not> blank c \<and> c \<noteq> CHR 0x00"
  by (auto simp: is_dec_def blank_def)

lemma show_int_chars: "c \<in> set (show_int i) \<Longrightarrow> \<not> blank c \<and> c \<noteq> CHR 0x00"
  by (auto simp: show_int_def blank_def split: if_splits dest!: show_nat_digits dec_not_blank)

lemma show_int_nonempty [simp]: "show_int i \<noteq> []"
  by (simp add: show_int_def)

lemma tokens_word:
  assumes "w \<noteq> []" "\<forall>c \<in> set w. \<not> blank c"
  shows "tokens (Suc (Suc n)) (w @ CHR '' '' # rest) = w # tokens (Suc n) rest"
proof -
  obtain c cs where w: "w = c # cs" using assms(1) by (cases w) auto
  have "takeWhile (\<lambda>c. \<not> blank c) (w @ CHR '' '' # rest) = w"
    "dropWhile (\<lambda>c. \<not> blank c) (w @ CHR '' '' # rest) = CHR '' '' # rest"
    using assms(2) by (simp_all add: takeWhile_append takeWhile_eq_all_conv dropWhile_append)
  moreover have "dropWhile blank (w @ CHR '' '' # rest) = w @ CHR '' '' # rest"
    using w assms(2) by simp
  moreover have "tokens (Suc n) (CHR '' '' # rest) = tokens (Suc n) rest" by simp
  ultimately show ?thesis using w by (simp del: tokens.simps add: tokens.simps(2) [of "Suc n"])
qed

lemma tokens_last: "w \<noteq> [] \<Longrightarrow> \<not> blank (hd w) \<Longrightarrow> tokens (Suc 0) w = [w]"
  by (cases w) simp_all

lemma atoi_show_int: "-2147483648 \<le> i \<Longrightarrow> i < 2147483648 \<Longrightarrow> atoi (show_int i) = i"
  using scan_number_show [of "[]" i]
  by (simp add: atoi_def to_long_def s32_id)

lemma strip_newline_append [simp]: "l \<noteq> [] \<Longrightarrow> strip_newline (l @ [CHR 0x0A]) = l"
  by (cases l) (auto simp: strip_newline_def)

definition command_line :: "string \<Rightarrow> bus_t \<Rightarrow> string \<Rightarrow> int \<Rightarrow> int list \<Rightarrow> string" where
  "command_line cmd b dev i is =
     cmd @ CHR '' '' # show_int (int b) @ CHR '' '' # dev @ CHR '' '' # show_int i @ show_params is @ [CHR 0x0A]"

lemma command_line_tokens:
  assumes "cmd \<noteq> []" "dev \<noteq> []" "\<forall>c \<in> set cmd \<union> set dev. \<not> blank c"
  shows "ssplitstr 4 (strip_newline (command_line cmd b dev i is)) =
    (4, [cmd, show_int (int b), dev, show_int i @ show_params is])"
proof -
  let ?l = "cmd @ CHR '' '' # show_int (int b) @ CHR '' '' # dev @ CHR '' '' # show_int i @ show_params is"
  have l: "strip_newline (command_line cmd b dev i is) = ?l"
    using strip_newline_append [of ?l] assms(1) by (simp add: command_line_def)
  have "CHR 0x00 \<notin> set (show_params is)"
    by (auto simp: show_params_def dest: show_int_chars)
  then have "CHR 0x00 \<notin> set ?l"
    using assms(3) show_int_chars [of "CHR 0x00"] blank_nul by (auto simp del: blank_nul)
  moreover have "\<not> blank (hd (show_int i @ show_params is))"
    using show_int_chars [of "hd (show_int i)" i] by simp
  then have "tokens 4 ?l = [cmd, show_int (int b), dev, show_int i @ show_params is]"
    using assms show_int_chars
    by (simp add: numeral_eq_Suc tokens_word tokens_last del: tokens.simps)
  ultimately show ?thesis
    unfolding l by (simp add: ssplitstr_eq_tokens)
qed

lemma sscanf_params:
  assumes "\<forall>i \<in> set (i # is). long_range i"
  shows "sscanf (replicate (Suc (length is)) LD) (show_int i @ show_params is) = map Num (i # is)"
proof -
  have "sscanf (replicate (length (i # is)) LD) (show_params (i # is)) = map Num (i # is)"
    by (rule sscanf_show_params) (use assms in auto)
  then show ?thesis by (simp add: show_params_def sscanf.simps scan_one.simps)
qed

lemma int_range_long: "int_range i \<Longrightarrow> long_range i \<and> s32 i = i"
  by (simp add: int_range_def long_range_def s32_id)

lemma bus_of_text: "int b < 2147483648 \<Longrightarrow> nat (u64 (atoi (show_int (int b)))) = b"
  by (simp add: atoi_show_int u64_id)


text \<open>A bus with four accessories, the third of which session 5 has locked.\<close>

definition ga_locked_demo :: srcpd where
  "ga_locked_demo = snd (lockGA 1 3 0 5 (upd_bus 1 (\<lambda>x. x\<lparr>bus_description := ''GA LOCK''\<rparr>) ga_demo))"

lemma ga_locked_demo_simps [simp]:
  "num_buses ga_locked_demo = 2" "get_number_ga (Suc 0) ga_locked_demo = 4"
  "bus_description (buses ga_locked_demo (Suc 0)) = ''GA LOCK''"
  "ga_locked_by (gastate (ga ga_locked_demo (Suc 0)) 3) = 5" "driver_keeps_lock ga_locked_demo"
  "clock ga_locked_demo = \<lparr>tv_sec = 7, tv_usec = 0\<rparr>"
  by (simp_all add: ga_locked_demo_def lockGA_def Let_def get_number_ga_def ga_bus_zero_def ga_zero_def
      driver_keeps_lock_def)


theorem command_keeps_foreign_locks_witness:
  "\<exists>reply cancel t. do_command env0 6 (command_line ''TERM'' 1 ''GA'' 3 []) ga_locked_demo =
     Some (reply, cancel, t) \<and> ga_locked_by (ga_at 1 3 t) = 5"
proof -
  have split: "ssplitstr 4 (strip_newline (command_line ''TERM'' (Suc 0) ''GA'' 3 [])) =
      (4, [''TERM'', show_int (int (Suc 0)), ''GA'', show_int 3 @ show_params []])"
    by (rule command_line_tokens) (simp_all add: blank_def)
  have "dispatch env0 6 ''TERM'' b d p ga_locked_demo \<noteq> None" for b d p
    by (simp add: dispatch_def strncasecmp_eq_def tolower_def case_prod_unfold)
  then have "do_command env0 6 (command_line ''TERM'' 1 ''GA'' 3 []) ga_locked_demo \<noteq> None"
    by (simp add: do_command_def split Let_def case_prod_unfold split: option.split del: not_None_eq)
  then obtain reply cancel t where run:
      "do_command env0 6 (command_line ''TERM'' 1 ''GA'' 3 []) ga_locked_demo = Some (reply, cancel, t)"
    by (metis not_None_eq prod_cases3)
  have "env_keeps_locks 6 env0" by (simp add: env_keeps_locks_def env0_def)
  from command_keeps_foreign_locks [OF run _ this, of 3 1] run show ?thesis
    by (simp add: split strncasecmp_eq_def tolower_def)
qed

end
