(* ===== verification/Srcp_Command_Session.thy ===== *)
theory Srcp_Command_Session
  imports Srcp_Command_Facts
begin

unbundle bit_operations_syntax

text \<open>
  Properties of the waiting commands, of the replies and of the loop of a command session.
\<close>

section \<open>Waiting\<close>

text \<open>The state in which the \<open>i\<close>th poll of a \<open>WAIT FB\<close> that starts with sleep number \<open>k\<close> looks.\<close>

fun poll_state :: "cmd_env \<Rightarrow> nat \<Rightarrow> srcpd \<Rightarrow> nat \<Rightarrow> srcpd" where
  "poll_state env k s 0 = sleep_env env k s"
| "poll_state env k s (Suc i) = poll_state env (Suc k) (sleep_env env k s) i"

definition contact :: "bus_t \<Rightarrow> int \<Rightarrow> srcpd \<Rightarrow> int" where
  "contact b port s = fb_state (fb_at b (nat (port - 1)) s)"

definition has_contact :: "bus_t \<Rightarrow> int \<Rightarrow> srcpd \<Rightarrow> bool" where
  "has_contact b port s \<longleftrightarrow> 0 < port \<and> port \<le> get_number_fb b s"

lemma getFB_contact:
  "has_contact b port s \<Longrightarrow>
     getFB b port s = (SRCP_OK, Some (fb_timestamp (fb_at b (nat (port - 1)) s), contact b port s))"
  by (auto simp: has_contact_def getFB_def contact_def Let_def)

lemma all_less_Suc_split: "(\<forall>j<Suc i. P j) \<longleftrightarrow> P 0 \<and> (\<forall>j<i. P (Suc j))"
  by (metis less_Suc_eq_0_disj Suc_less_eq zero_less_Suc)

lemma wait_FB_loop_polls:
  assumes "0 \<le> n" "\<forall>i. has_contact b port (poll_state env k s i)"
  shows "(\<exists>i akt'. i < nat n \<and> contact b port (poll_state env k s i) = w \<and>
        (\<forall>j<i. contact b port (poll_state env k s j) \<noteq> w) \<and>
        wait_FB_loop env b port w k n v akt s = (n - 1 - int i, akt', poll_state env k s i)) \<or>
     ((\<forall>i<nat n. contact b port (poll_state env k s i) \<noteq> w) \<and>
        (\<exists>akt'. wait_FB_loop env b port w k n v akt s = (-1, akt', poll_state env k s (nat n))))"
  using assms
proof (induction "nat n" arbitrary: n k s v akt)
  case 0
  then have "n = 0" by simp
  with 0 have "has_contact b port (sleep_env env k s)" using "0.prems"(2) [rule_format, of 0] by simp
  with \<open>n = 0\<close> show ?case
    by (simp add: wait_FB_loop.simps [of env b port w k] getFB_contact Let_def)
next
  case (Suc m)
  let ?s = "sleep_env env k s"
  let ?t = "fb_timestamp (fb_at b (nat (port - 1)) ?s)" and ?v = "contact b port ?s"
  have n: "0 \<le> n - 1" "nat (n - 1) = m" "m = nat (n - 1)" "nat n = Suc m" using Suc.hyps(2) by linarith+
  have here: "has_contact b port ?s" using Suc.prems(2) [rule_format, of 0] by simp
  then have loop: "wait_FB_loop env b port w k n v akt s =
      (if ?v \<noteq> w then wait_FB_loop env b port w (Suc k) (n - 1) ?v ?t ?s else (n - 1, ?t, ?s))"
    using n by (simp add: wait_FB_loop.simps [of env b port w k n] getFB_contact Let_def)
  show ?case
  proof (cases "?v = w")
    case True
    with loop n show ?thesis by (intro disjI1 exI [of _ 0]) simp
  next
    case False
    have later: "\<forall>i. has_contact b port (poll_state env (Suc k) ?s i)"
      using Suc.prems(2) poll_state.simps(2) by metis
    from Suc.hyps(1) [OF n(3,1) later, of ?v ?t] show ?thesis
    proof (elim disjE exE conjE)
      fix i akt'
      assume i: "i < nat (n - 1)" "contact b port (poll_state env (Suc k) ?s i) = w"
        "\<forall>j<i. contact b port (poll_state env (Suc k) ?s j) \<noteq> w"
        "wait_FB_loop env b port w (Suc k) (n - 1) ?v ?t ?s = (n - 1 - 1 - int i, akt', poll_state env (Suc k) ?s i)"
      have "\<forall>j<Suc i. contact b port (poll_state env k s j) \<noteq> w"
        using i(3) False by (simp add: all_less_Suc_split)
      with i loop False n(1,2,4) show ?thesis
        by (intro disjI1 exI [of _ "Suc i"] exI [of _ akt']) simp
    next
      fix akt'
      assume i: "\<forall>i<nat (n - 1). contact b port (poll_state env (Suc k) ?s i) \<noteq> w"
        "wait_FB_loop env b port w (Suc k) (n - 1) ?v ?t ?s = (- 1, akt', poll_state env (Suc k) ?s (nat (n - 1)))"
      have "\<forall>j<Suc m. contact b port (poll_state env k s j) \<noteq> w"
        using i(1) False n(1,2,4) by (simp add: all_less_Suc_split)
      with i loop False n(1,2,4) show ?thesis
        by (intro disjI2 conjI exI [of _ akt']) simp_all
    qed
  qed
qed

text \<open>\<open>WAIT FB\<close> ends after at most 20 polls per second of the time-out and one more. It answers
  with the state of the contact at the first of the \<open>20 * timeout\<close> polls that finds the value asked
  for, and with \<open>SRCP_TIMEOUT\<close> when none of them does.
\<close>

theorem wait_FB_outcome:
  assumes "sscanf [LD, DI, LD] parameter = [Num port, Num w, Num timeout]"
    and "int_range port" and "0 \<le> timeout" and "timeout * 20 \<le> 9223372036854775807"
    and "has_contact b port s" and "contact b port s \<noteq> w"
    and "\<forall>i. has_contact b port (poll_state env 0 s i)"
  shows "(\<exists>i akt. i < nat (timeout * 20) \<and> contact b port (poll_state env 0 s i) = w \<and>
        (\<forall>j<i. contact b port (poll_state env 0 s j) \<noteq> w) \<and>
        wait_FB env b parameter s =
          (SRCP_INFO, snd (infoFB b port (poll_state env 0 s i)), akt, poll_state env 0 s i)) \<or>
     ((\<forall>i<nat (timeout * 20). contact b port (poll_state env 0 s i) \<noteq> w) \<and>
        (\<exists>akt. wait_FB env b parameter s = (SRCP_TIMEOUT, [], akt, poll_state env 0 s (nat (timeout * 20)))))"
proof -
  let ?t = "fb_timestamp (fb_at b (nat (port - 1)) s)" and ?v = "contact b port s"
  have fit: "long_range (timeout * 20)" using assms(3,4) by (simp add: long_range_def)
  have info: "infoFB b port t = (SRCP_INFO, snd (infoFB b port t))" if "has_contact b port t" for t
    using that by (simp add: infoFB_def getFB_contact)
  have wait: "wait_FB env b parameter s =
      (let (timeout', akt', s2) = wait_FB_loop env b port w 0 (timeout * 20) ?v ?t s
       in if timeout' < 0 then (SRCP_TIMEOUT, [], clock s2, s2)
          else (case infoFB b port s2 of (rc, reply) \<Rightarrow> (rc, reply, akt', s2)))"
    using assms(1,2,5,6) fit
    by (simp add: wait_FB_def num_arg_def getFB_contact int_range_long Let_def case_prod_unfold cong: if_cong)
  have "0 \<le> timeout * 20" using assms(3) by simp
  from wait_FB_loop_polls [OF this assms(7), of w ?v ?t] show ?thesis
  proof (elim disjE exE conjE)
    fix i akt'
    assume i: "i < nat (timeout * 20)" "contact b port (poll_state env 0 s i) = w"
      "\<forall>j<i. contact b port (poll_state env 0 s j) \<noteq> w"
      "wait_FB_loop env b port w 0 (timeout * 20) ?v ?t s = (timeout * 20 - 1 - int i, akt', poll_state env 0 s i)"
    have le: "\<not> timeout * 20 - 1 < int i" using i(1) by linarith
    obtain reply where "infoFB b port (poll_state env 0 s i) = (SRCP_INFO, reply)"
      using info assms(7) by blast
    then have "wait_FB env b parameter s =
        (SRCP_INFO, snd (infoFB b port (poll_state env 0 s i)), akt', poll_state env 0 s i)"
      using le unfolding wait i(4) by simp
    with i show ?thesis by blast
  next
    fix akt'
    assume "\<forall>i<nat (timeout * 20). contact b port (poll_state env 0 s i) \<noteq> w"
      "wait_FB_loop env b port w 0 (timeout * 20) ?v ?t s = (- 1, akt', poll_state env 0 s (nat (timeout * 20)))"
    then show ?thesis unfolding wait by simp
  qed
qed

text \<open>The states in which the passes of the loop of \<open>WAIT TIME\<close> look at the model clock.\<close>

fun clock_state :: "cmd_env \<Rightarrow> nat \<Rightarrow> srcpd \<Rightarrow> nat \<Rightarrow> srcpd" where
  "clock_state env k s 0 = s"
| "clock_state env k s (Suc i) = clock_state env (Suc k) (sleep_env env k (check_seconds s)) i"

lemma wait_TIME_loop_ends:
  assumes "target < time_seconds (vtime (clock_state env k s i))"
    and "\<forall>j<i. time_seconds (vtime (clock_state env k s j)) \<le> target"
  shows "wait_TIME_loop env target k s = Some (check_seconds (clock_state env k s i))"
  using assms
proof (induction i arbitrary: k s)
  case 0
  then show ?case by (simp add: wait_TIME_loop.simps [of env target k s])
next
  case (Suc i)
  have "time_seconds (vtime s) \<le> target" using Suc.prems(2) [rule_format, of 0] by simp
  moreover have "wait_TIME_loop env target (Suc k) (sleep_env env k (check_seconds s)) =
      Some (check_seconds (clock_state env (Suc k) (sleep_env env k (check_seconds s)) i))"
    by (rule Suc.IH) (use Suc.prems in \<open>auto simp: all_less_Suc_split\<close>)
  ultimately show ?case by (simp add: wait_TIME_loop.simps [of env target k s])
qed

lemma wait_TIME_loop_passed:
  assumes "wait_TIME_loop env target k s = Some t"
  shows "\<exists>i. target < time_seconds (vtime (clock_state env k s i))"
proof (rule wait_TIME_loop.raw_induct [OF _ assms])
  fix loop :: "cmd_env \<Rightarrow> int \<Rightarrow> nat \<Rightarrow> srcpd \<Rightarrow> srcpd option" and env target k s t
  assume IH: "\<And>env target k s t. loop env target k s = Some t \<Longrightarrow>
      \<exists>i. target < time_seconds (vtime (clock_state env k s i))"
    and step: "(if time_seconds (vtime s) \<le> target
      then loop env target (Suc k) (sleep_env env k (check_seconds s)) else Some (check_seconds s)) = Some t"
  show "\<exists>i. target < time_seconds (vtime (clock_state env k s i))"
  proof (cases "time_seconds (vtime s) \<le> target")
    case True
    with step IH [of env target "Suc k" "sleep_env env k (check_seconds s)" t] obtain i
      where "target < time_seconds (vtime (clock_state env (Suc k) (sleep_env env k (check_seconds s)) i))"
      by auto
    then show ?thesis by (intro exI [of _ "Suc i"]) simp
  next
    case False
    then show ?thesis by (intro exI [of _ 0]) simp
  qed
qed

text \<open>\<open>WAIT TIME\<close> returns exactly when the model clock gets past the time asked for: it then
  answers in the first state, looked at every 10 ms, in which the clock is later, with the time
  shown there; while the clock never gets there the client waits.
\<close>

theorem wait_TIME_returns:
  assumes "sscanf [LD, LD, LD, LD] parameter = [Num d, Num h, Num m, Num sec]"
    and "time_is_available s" and "seconds_fit long_range d h m sec"
    and "target = ((d * 24 + h) * 60 + m) * 60 + sec"
  shows "(\<forall>i. target < time_seconds (vtime (clock_state env 0 s i)) \<and>
        (\<forall>j<i. time_seconds (vtime (clock_state env 0 s j)) \<le> target) \<longrightarrow>
        (let t = check_seconds (clock_state env 0 s i)
         in wait_TIME env parameter s = Some (fst (infoTIME t), snd (infoTIME t), clock s, t))) \<and>
     ((\<forall>i. time_seconds (vtime (clock_state env 0 s i)) \<le> target) \<longrightarrow> wait_TIME env parameter s = None)"
proof -
  have wait: "wait_TIME env parameter s = (case wait_TIME_loop env target 0 s of None \<Rightarrow> None
      | Some s2 \<Rightarrow> (case infoTIME s2 of (rc, reply) \<Rightarrow> Some (rc, reply, clock s, s2)))"
    using assms by (simp add: wait_TIME_def num_arg_def numeral_eq_Suc cong: option.case_cong)
  have "wait_TIME env parameter s = None" if "\<forall>i. time_seconds (vtime (clock_state env 0 s i)) \<le> target"
    using wait_TIME_loop_passed [of env target 0 s] that wait
    by (cases "wait_TIME_loop env target 0 s") (fastforce simp: not_less [symmetric])+
  moreover have "wait_TIME env parameter s = (let t = check_seconds (clock_state env 0 s i)
      in Some (fst (infoTIME t), snd (infoTIME t), clock s, t))"
    if "target < time_seconds (vtime (clock_state env 0 s i))"
      "\<forall>j<i. time_seconds (vtime (clock_state env 0 s j)) \<le> target" for i
    using wait wait_TIME_loop_ends [OF that] by (simp add: Let_def case_prod_unfold)
  ultimately show ?thesis by (simp add: Let_def)
qed

theorem wait_FB_outcome_witness:
  "\<exists>akt. wait_FB env0 1 ''2 1 1'' (fb_demo 0) = (SRCP_TIMEOUT, [], akt, fb_demo 0)"
proof -
  have still: "poll_state env0 k (fb_demo 0) i = fb_demo 0" for k i
    by (induction i arbitrary: k) (simp_all add: env0_def)
  have "sscanf [LD, DI, LD] ''2 1 1'' = [Num 2, Num 1, Num 1]"
    by (simp add: sscanf.simps scan_one.simps scan_number_def isspace_def is_dec_def read_nat_def
        digit_val_def to_long_def s32_id Let_def)
  from wait_FB_outcome [OF this, of 1 "fb_demo 0" env0] show ?thesis
    by (simp add: still int_range_def has_contact_def contact_def)
qed

text \<open>The model clock stands at 0:00:00 of day 0.\<close>

definition clock_demo :: srcpd where
  "clock_demo = snd (initTIME 1 1 srcpd_init)"

lemma clock_demo_simps [simp]:
  "vtime clock_demo = \<lparr>vt_day = 0, vt_hour = 0, vt_min = 0, vt_sec = 0\<rparr>" "time_is_available clock_demo"
  by (simp_all add: clock_demo_def initTIME_def srcpd_init_def Let_def time_is_available_def)

theorem wait_TIME_returns_witness: "wait_TIME env0 ''0 0 0 5'' clock_demo = None"
proof -
  have still: "clock_state env0 k clock_demo i = clock_demo" for k i
    by (induction i arbitrary: k) (simp_all add: env0_def check_seconds_def seconds_fit_def int_range_def)
  have "sscanf [LD, LD, LD, LD] ''0 0 0 5'' = [Num 0, Num 0, Num 0, Num 5]"
    by (simp add: sscanf.simps scan_one.simps scan_number_def isspace_def is_dec_def read_nat_def
        digit_val_def to_long_def Let_def)
  from wait_TIME_returns [OF this, of clock_demo 5 env0] show ?thesis
    by (simp add: still time_seconds_def seconds_fit_def long_range_def)
qed

section \<open>Replies\<close>

text \<open>An empty buffer or a text that ends with a newline.\<close>

definition is_line :: "string \<Rightarrow> bool" where
  "is_line m \<longleftrightarrow> m = [] \<or> last m = CHR 0x0A"

named_theorems lines \<open>texts that are lines\<close>

lemma is_line_simps [simp]: "is_line []" "is_line (m @ [CHR 0x0A])" "is_line (a @ b @ [CHR 0x0A])"
  by (simp_all add: is_line_def)

lemma is_line_append [simp]: "b \<noteq> [] \<Longrightarrow> is_line b \<Longrightarrow> is_line (a @ b)"
  by (simp add: is_line_def)

lemma srcp_fmt_msg_line: "srcp_fmt_msg rc t \<noteq> [] \<and> last (srcp_fmt_msg rc t) = CHR 0x0A"
  by (simp add: srcp_fmt_msg_def Let_def split: option.split)

lemma info_lines [lines]:
  "is_line (snd (infoFB b port s))" "is_line (snd (cacheInfoGL b locid s))"
  "is_line (snd (infoGA b a p s))" "is_line (snd (infoPower b s))" "is_line (snd (infoTIME s))"
  "is_line (snd (describeBus b s))" "is_line (snd (cacheDescribeGL b locid s))"
  "is_line (snd (describeGA b a s))" "is_line (snd (describeTIME s))"
  "is_line (snd (describeLOCKGL b locid s))" "is_line (snd (describeLOCKGA b a s))"
  by (simp_all add: infoFB_def cacheInfoGL_def infoGA_def infoPower_def infoTIME_def describeBus_def
      cacheDescribeGL_def describeGA_def describeTIME_def describeLOCKGL_def describeLOCKGA_def
      Let_def is_line_def srcp_fmt_msg_line split: prod.split option.split)

lemma sm_answer_line:
  "fst (snd (sm_answer b c t a ta i v r st (Some []) s)) = Some m \<Longrightarrow> is_line m"
  by (cases t) (auto simp: sm_answer_def sm_line_def Let_def is_line_def split: if_splits)

lemma infoSM_line: "fst (snd (infoSM w b p c t a ta i v (Some []) s)) = Some m \<Longrightarrow> is_line m"
  by (auto simp: infoSM_def case_prod_unfold Let_def split: option.splits if_splits dest: sm_answer_line)

lemma sm_request_line [lines]: "is_line (fst (snd (sm_request env b p c t a ta i v s)))"
  by (auto simp: sm_request_def case_prod_unfold split: option.split dest: infoSM_line)

lemma SM_lines [lines]:
  "is_line (fst (snd (write_SM env b c p s)))" "is_line (fst (snd (get_SM env b p s)))"
  "is_line (fst (snd (protocol_SM env b c p s)))"
  by (simp_all add: write_SM_def get_SM_def protocol_SM_def Let_def case_prod_unfold lines split: sm_type_t.split)

lemma server_lines [lines]:
  "is_line (case snd (infoSERVER s) of None \<Rightarrow> [] | Some m \<Rightarrow> m)"
  "is_line (case snd (describeSERVER v n t b s) of None \<Rightarrow> [] | Some m \<Rightarrow> m)"
  by (simp_all add: infoSERVER_def describeSERVER_def is_line_def split: server_state_t.split)

lemma handleGET_line [lines]: "is_line (fst (snd (handleGET env sid b d p s)))"
  by (simp add: handleGET_def get_DESCRIPTION_def get_LOCK_def Let_def case_prod_unfold lines)

lemma handleWAIT_line: "handleWAIT env sid b d p s = Some (rc, reply, akt, t) \<Longrightarrow> is_line reply"
  using info_lines(1,5)
  by (auto simp: handleWAIT_def wait_FB_def wait_TIME_def Let_def case_prod_unfold split: if_splits option.splits)

lemma dispatch_line: "dispatch env sid cmd b d p s = Some (rc, reply, akt, cancel, t) \<Longrightarrow> is_line reply"
  using handleWAIT_line [of env sid b d p s]
  by (auto simp: dispatch_def Let_def case_prod_unfold handleSET_def handleCHECK_def handleVERIFY_def
      handle_setcheck_def handleINIT_def handleTERM_def handleRESET_def lines split: if_splits option.splits)

text \<open>C34. Every command line, also a malformed or unknown one, is answered by a non-empty text that
  ends with a newline, unless the handler waits for ever.
\<close>

theorem reply_is_line:
  "case do_command env sid line s of
     None \<Rightarrow> True
   | Some (reply, cancel, t) \<Rightarrow> reply \<noteq> [] \<and> last reply = CHR 0x0A"
  by (auto simp: do_command_def Let_def case_prod_unfold srcp_fmt_msg_line split: option.split
      dest!: dispatch_line simp: is_line_def)

section \<open>The session\<close>

text \<open>The session loop as a function of the lines that the client sends.\<close>

fun serve_lines :: "cmd_env \<Rightarrow> sessionid_t \<Rightarrow> nat \<Rightarrow> string list \<Rightarrow> srcpd \<Rightarrow>
    (string list \<times> client_end \<times> srcpd) option" where
  "serve_lines env sid k [] s = Some ([], Closed, s)"
| "serve_lines env sid k (l # ls) s =
     (case do_command env sid (l @ [CHR 0x0A]) (between env k s) of
        None \<Rightarrow> None
      | Some (reply, Some _, s') \<Rightarrow> Some ([], Cancelled, s')
      | Some (reply, None, s') \<Rightarrow>
          if \<not> write_ok env k then Some ([], Write_Error, s')
          else (case serve_lines env sid (Suc k) ls s' of
                  None \<Rightarrow> None
                | Some (replies, how, s'') \<Rightarrow> Some (reply # replies, how, s'')))"

definition plain_line :: "string \<Rightarrow> bool" where
  "plain_line l \<longleftrightarrow> l \<noteq> [] \<and> length l \<le> 998 \<and> (\<forall>c \<in> set l. isvalidchar c) \<and> CHR 0x0A \<notin> set (tl l)"

lemma socket_readline_plain:
  assumes "plain_line l"
  shows "socket_readline (MAXSRCPLINELEN - 1) (map Byte (l @ [CHR 0x0A]) @ rest) =
    (int (Suc (length l)), l @ [CHR 0x0A], rest)"
proof -
  obtain c cs where l: "l = c # cs" "CHR 0x0A \<notin> set cs"
    using assms by (cases l) (auto simp: plain_line_def)
  have "filter isvalidchar (c # cs @ [CHR 0x0A]) = c # cs @ [CHR 0x0A]"
    using assms l by (auto simp: plain_line_def isvalidchar_def)
  then have "socket_readline 1000 (map Byte (c # cs @ [CHR 0x0A]) @ rest) =
      (int (Suc (length l)), l @ [CHR 0x0A], rest)"
    using readline_rest_line [OF l(2), of "[c]" 1000 rest] assms l by (auto simp: plain_line_def)
  then show ?thesis using l by (simp add: MAXSRCPLINELEN_def)
qed

lemma doCmdClient_lines:
  assumes "\<forall>l \<in> set ls. plain_line l"
  shows "doCmdClient env sid k (concat (map (\<lambda>l. map Byte (l @ [CHR 0x0A])) ls)) s =
    serve_lines env sid k ls s"
  using assms
proof (induction ls arbitrary: k s)
  case Nil
  then show ?case by (simp add: doCmdClient.simps [of env sid k])
next
  case (Cons l ls)
  let ?rest = "concat (map (\<lambda>l. map Byte (l @ [CHR 0x0A])) ls)"
  have "socket_readline (MAXSRCPLINELEN - 1) (concat (map (\<lambda>l. map Byte (l @ [CHR 0x0A])) (l # ls))) =
      (int (Suc (length l)), l @ [CHR 0x0A], ?rest)"
    using socket_readline_plain [of l ?rest] Cons.prems by simp
  then show ?case
    using Cons by (subst doCmdClient.simps) (auto simp: Let_def split: option.split)
qed



end
