(* ===== verification/Srcp_Info.thy ===== *)
theory Srcp_Info
  imports Srcp_Text Srcp_Server Srcp_FB Srcp_Time
begin

text \<open>
  \<open>doInfoClient\<close> of \<open>srcp-info.c\<close>: what a new info client is sent at first, and how the messages
  that other threads write to the pipe of the session (each with its terminating zero) are read
  into a buffer of 2048 bytes and passed on to the socket. Writes to the socket succeed here; a
  failing one ends the session at that point. Sleeping in \<open>read\<close> until more arrives is \<open>None\<close>.
\<close>

section \<open>The state a new client is told\<close>

definition info_bus_head :: "bus_t \<Rightarrow> srcpd \<Rightarrow> string list" where
  "info_bus_head b s =
     (let description = snd (describeBus b s)
      in [description]
         @ (if strstr description ''POWER'' then [snd (infoPower b s)] else [])
         @ (if strstr description ''TIME'' then [snd (describeTIME s), snd (infoTIME s)] else []))"

text \<open>\<open>stale\<close> is the unspecified value of \<open>lockid\<close> when \<open>cacheGetLockGL\<close> does not set it.\<close>

definition info_GL :: "sessionid_t \<Rightarrow> bus_t \<Rightarrow> nat \<Rightarrow> srcpd \<Rightarrow> string list" where
  "info_GL stale b i s =
     (let lockid = (case cacheGetLockGL b i s of (_, None) \<Rightarrow> stale | (_, Some l) \<Rightarrow> l)
      in [snd (cacheDescribeGL b i s)]
         @ (if fst (cacheInfoGL b i s) = SRCP_INFO then [snd (cacheInfoGL b i s)] else [])
         @ (if lockid \<noteq> 0 then [snd (describeLOCKGL b i s)] else []))"

definition info_GA :: "bus_t \<Rightarrow> int \<Rightarrow> srcpd \<Rightarrow> string list" where
  "info_GA b i s =
     [snd (describeGA b i s)]
     @ concat (map (\<lambda>port. if fst (infoGA b i port s) = SRCP_INFO then [snd (infoGA b i port s)] else []) [0, 1])
     @ (if snd (getlockGA b i s) \<noteq> 0 then [snd (describeLOCKGA b i s)] else [])"

definition info_FB :: "bus_t \<Rightarrow> int \<Rightarrow> srcpd \<Rightarrow> string list" where
  "info_FB b i s =
     (case getFB b i s of
        (rc, Some (_, value)) \<Rightarrow> if rc = SRCP_OK \<and> value \<noteq> 0 then [snd (infoFB b i s)] else []
      | _ \<Rightarrow> [])"

definition info_bus :: "sessionid_t \<Rightarrow> bus_t \<Rightarrow> srcpd \<Rightarrow> string list" where
  "info_bus stale b s =
     (let description = snd (describeBus b s)
      in info_bus_head b s
         @ (if strstr description ''GL'' then
              concat (map (\<lambda>n. let i = isInitializedGL b n s in if i > 0 then info_GL stale b i s else [])
                [1..getMaxAddrGL b s]) else [])
         @ (if strstr description ''GA'' then
              concat (map (\<lambda>i. if isInitializedGA b i s then info_GA b i s else []) [1..get_number_ga b s]) else [])
         @ (if strstr description ''FB'' then
              concat (map (\<lambda>i. info_FB b i s) [1..get_number_fb b s]) else []))"

definition info_startup :: "sessionid_t \<Rightarrow> srcpd \<Rightarrow> string list" where
  "info_startup stale s = concat (map (\<lambda>b. info_bus stale b s) [0..<Suc (num_buses s)])"

section \<open>Passing messages on\<close>

definition PIPEBUFFER :: nat where [code_unfold]: "PIPEBUFFER = 2048"

text \<open>
  The inner loop writes the messages of the buffer one by one. \<open>rw\<close> is the number of bytes just
  read, \<open>ls\<close> the start of a truncated message at the end of the buffer (-1 when the search for it ran
  over the start of the buffer). It returns the messages written and whether the truncated
  message was moved to the front.
\<close>

function send_messages :: "string \<Rightarrow> nat \<Rightarrow> int option \<Rightarrow> nat \<Rightarrow> string list \<times> bool" where
  "send_messages buf rw ls off =
     (let m = c_string buf off; off' = off + length m + 1
      in if ls = Some (int off') then ([m], True)
         else if off' < rw \<and> m \<noteq> [] then
           (case send_messages buf rw ls off' of (ms, moved) \<Rightarrow> (m # ms, moved))
         else ([m], False))"
  by pat_completeness auto

termination
  by (relation "measure (\<lambda>(buf, rw, ls, off). rw - off)") auto

declare send_messages.simps [simp del]

text \<open>The last zero before the last byte of the buffer.\<close>

definition last_zero :: "nat \<Rightarrow> string \<Rightarrow> nat option" where
  "last_zero n buf = find (\<lambda>p. buf ! p = CHR 0x00) (rev [0..<n - 1])"

text \<open>
  The outer loop: \<open>n\<close> is the size of the buffer \<open>buf\<close>, of which the first \<open>linelen\<close> bytes are the
  truncated message of the last pass; \<open>bytes\<close> is what the pipe holds. An empty message ends the
  session (\<open>writen\<close> of nothing returns 0), which the second component reports.
\<close>

function forward :: "nat \<Rightarrow> string \<Rightarrow> nat \<Rightarrow> string \<Rightarrow> (string list \<times> bool \<times> string) option" where
  "forward n buf linelen bytes =
     (let chunk = take (n - linelen) bytes; rest = drop (n - linelen) bytes
      in if n \<le> linelen then Some ([], False, bytes)
         else if bytes = [] then None
         else
           (let buf1 = take linelen buf @ chunk @ drop (linelen + length chunk) buf;
                truncated = (length chunk = n - linelen \<and> buf1 ! (n - 1) \<noteq> CHR 0x00);
                zero = last_zero n buf1;
                ls = (if truncated then Some (case zero of None \<Rightarrow> -1 | Some p \<Rightarrow> int p + 1) else None);
                linelen1 = (if truncated then case zero of None \<Rightarrow> 0 | Some p \<Rightarrow> n - 1 - p else 0);
                (ms, moved) = send_messages buf1 (length chunk) ls 0;
                buf2 = (if moved then take linelen1 (drop (n - linelen1) buf1) @ drop linelen1 buf1 else buf1)
            in if last ms = [] then Some (ms, False, rest)
               else if ls = None then Some (ms, True, rest)
               else (case forward n buf2 linelen1 rest of
                       None \<Rightarrow> None
                     | Some (ms', ok, rest') \<Rightarrow> Some (ms @ ms', ok, rest'))))"
  by pat_completeness auto

termination
  by (relation "measure (\<lambda>(n, buf, linelen, bytes). length bytes)")
    (auto simp: length_greater_0_conv [symmetric] simp del: length_greater_0_conv)

declare forward.simps [simp del]

text \<open>What the pipe holds after messages were written to it.\<close>

definition pipe_bytes :: "string list \<Rightarrow> string" where
  "pipe_bytes ms = concat (map (\<lambda>m. m @ [CHR 0x00]) ms)"

section \<open>Messages that fit\<close>

definition message :: "string \<Rightarrow> bool" where
  "message m \<longleftrightarrow> m \<noteq> [] \<and> CHR 0x00 \<notin> set m"

lemma c_string_message: "message m \<Longrightarrow> c_string (pre @ m @ CHR 0x00 # post) (length pre) = m"
  by (auto simp: c_string_def message_def takeWhile_append)

lemma pipe_bytes_simps [simp]:
  "pipe_bytes [] = []" "pipe_bytes (m # ms) = m @ CHR 0x00 # pipe_bytes ms"
  "pipe_bytes (xs @ ys) = pipe_bytes xs @ pipe_bytes ys"
  by (simp_all add: pipe_bytes_def)

text \<open>The inner loop passes on the messages up to the end of what was read.\<close>

lemma send_messages_all:
  assumes "\<forall>m \<in> set (m # ms). message m" "length pre + length (pipe_bytes (m # ms)) = rw"
  shows "send_messages (pre @ pipe_bytes (m # ms) @ post) rw None (length pre) = (m # ms, False)"
  using assms
proof (induction ms arbitrary: m pre)
  case Nil
  then show ?case
    using c_string_message [of m pre post] by (simp add: send_messages.simps [of _ _ _ "length pre"] Let_def)
next
  case (Cons m' ms)
  let ?pre = "pre @ m @ [CHR 0x00]"
  have "send_messages (?pre @ pipe_bytes (m' # ms) @ post) rw None (length ?pre) = (m' # ms, False)"
    by (rule Cons.IH) (use Cons.prems in auto)
  moreover have "c_string (pre @ m @ CHR 0x00 # pipe_bytes (m' # ms) @ post) (length pre) = m"
    using Cons.prems c_string_message by simp
  ultimately show ?case
    using Cons.prems by (simp add: send_messages.simps [of _ _ _ "length pre"] Let_def message_def)
qed

lemma length_pipe_bytes_pos: "ms \<noteq> [] \<Longrightarrow> 0 < length (pipe_bytes ms)"
  by (cases ms) auto

lemma last_pipe_bytes: "ms \<noteq> [] \<Longrightarrow> last (pipe_bytes ms) = CHR 0x00"
proof (induction ms)
  case (Cons m ms)
  then show ?case by (cases ms) auto
qed simp

text \<open>When what waits in the pipe fits into the buffer, an info session passes on every message,
  complete and in the order in which it was written, and empties the pipe.
\<close>

theorem forward_complete:
  assumes "ms \<noteq> []" and "\<forall>m \<in> set ms. message m" and "length (pipe_bytes ms) \<le> n" and "length buf = n"
  shows "forward n buf 0 (pipe_bytes ms) = Some (ms, True, [])"
proof -
  obtain m ms' where ms: "ms = m # ms'" using assms(1) by (cases ms) auto
  let ?buf = "pipe_bytes ms @ drop (length (pipe_bytes ms)) buf"
  have pos: "0 < length (pipe_bytes ms)" by (rule length_pipe_bytes_pos [OF assms(1)])
  have not_trunc: "length (pipe_bytes ms) = n \<Longrightarrow> ?buf ! (n - 1) = CHR 0x00"
    using last_pipe_bytes [OF assms(1)] pos by (auto simp: last_conv_nth nth_append)
  have "send_messages ?buf (length (pipe_bytes ms)) None 0 = (ms, False)"
    using send_messages_all [of m ms' "[]"] assms(2) ms by simp
  moreover have "last ms \<noteq> []" using assms(1,2) by (auto simp: message_def)
  moreover have "pipe_bytes ms \<noteq> []" using pos by auto
  moreover have "0 < n" using pos assms(3) by linarith
  ultimately show ?thesis
    using assms(3) not_trunc by (subst forward.simps) (auto simp: Let_def)
qed

theorem forward_complete_witness:
  "forward 16 (replicate 16 (CHR ''x'')) 0 (pipe_bytes [''one'', ''two'']) = Some ([''one'', ''two''], True, [])"
  using forward_complete [of "[''one'', ''two'']" 16 "replicate 16 (CHR ''x'')"] by (simp add: message_def)

section \<open>Messages that do not fit\<close>

lemma last_zero_here:
  assumes "p < n - 1" "buf ! p = CHR 0x00" "\<forall>q. p < q \<and> q < n - 1 \<longrightarrow> buf ! q \<noteq> CHR 0x00"
  shows "last_zero n buf = Some p"
proof -
  have "rev [0..<n - 1] = rev [Suc p..<n - 1] @ p # rev [0..<p]"
    using assms(1) by (metis append.assoc append_Cons append_Nil less_imp_add_positive rev.simps(2) rev_append
        upt_add_eq_append upt_conv_Cons zero_le less_imp_le_nat le_add_diff_inverse2 add.commute)
  moreover have "find (\<lambda>p. buf ! p = CHR 0x00) (xs @ p # ys) = Some p"
    if "\<forall>q \<in> set xs. buf ! q \<noteq> CHR 0x00" for xs ys
    using that assms(2) by (induction xs) auto
  ultimately show ?thesis using assms(3) by (simp add: last_zero_def)
qed

lemma send_messages_one:
  "c_string buf 0 = m \<Longrightarrow> \<not> Suc (length m) < rw \<Longrightarrow> send_messages buf rw None 0 = ([m], False)"
  by (simp add: send_messages.simps [of buf] Let_def)

text \<open>The loop counts the bytes of a truncated message that it kept from the last pass against the
  number of bytes it has just read. When the rest of that message is followed by others that are
  shorter than the part kept, the loop ends before them and the messages are lost: of four
  messages, of 1000, 1000, 60 and 1 characters, the last one never reaches the client although
  the pipe is empty afterwards.
\<close>

theorem forward_loses_messages:
  assumes "length a = 1000" "length b = 1000" "length c = 60" "length d = 1"
    and "\<forall>m \<in> {a, b, c, d}. message m" and "length buf = PIPEBUFFER"
  shows "forward PIPEBUFFER buf 0 (pipe_bytes [a, b, c, d]) = Some ([a, b, c], True, [])"
proof -
  let ?Z = "CHR 0x00" and ?c1 = "take 46 c" and ?c2 = "drop 46 c"
  let ?B1 = "a @ ?Z # b @ ?Z # ?c1" and ?R = "?c2 @ ?Z # d @ [?Z]"
  have bytes: "take 2048 (pipe_bytes [a, b, c, d]) = ?B1" "drop 2048 (pipe_bytes [a, b, c, d]) = ?R"
    using assms(1-4) by (simp_all add: pipe_bytes_def)
  have len: "length ?B1 = 2048" "length ?R = 17" using assms(1-4) by simp_all
  have c0: "c ! i \<noteq> ?Z" if "i < 60" for i
    using that assms(3,5) by (metis insertCI message_def nth_mem)
  have last: "?B1 ! 2047 \<noteq> ?Z" using assms(1-3) c0 [of 45] by (simp add: nth_append)
  have zero: "last_zero 2048 ?B1 = Some 2001"
    by (rule last_zero_here) (use assms(1-3) c0 in \<open>auto simp: nth_append nth_Cons'\<close>)
  have "c_string ?B1 0 = a" "c_string ?B1 1001 = b"
    using assms(1,5) c_string_message [of a "[]" "b @ ?Z # ?c1"] c_string_message [of b "a @ [?Z]" ?c1]
    by simp_all
  then have send1: "send_messages ?B1 2048 (Some 2002) 0 = ([a, b], True)"
    using assms(1,2,5) by (simp add: send_messages.simps [of ?B1] Let_def message_def)
  let ?B2 = "?c1 @ drop 46 ?B1" 
  let ?B3 = "?c1 @ ?R @ drop 63 ?B2"
  have c12: "?c1 @ ?c2 @ X = c @ X" for X by (metis append.assoc append_take_drop_id)
  have "c_string ?B3 0 = c"
    unfolding append.assoc c12 using assms(5) c_string_message [of c "[]" "d @ ?Z # drop 63 ?B2"] by simp
  then have send2: "send_messages ?B3 17 None 0 = ([c], False)"
    by (rule send_messages_one) (use assms(3) in simp)
  have "c \<noteq> []" using assms(5) by (simp add: message_def)
  have second: "forward 2048 ?B2 46 ?R = Some ([c], True, [])"
  proof -
    have "take 46 ?B2 = ?c1" "take (2048 - 46) ?R = ?R" "drop (2048 - 46) ?R = []"
      using assms(3,4) by simp_all
    with send2 len \<open>c \<noteq> []\<close> show ?thesis
      by (subst forward.simps) (simp only: Let_def, simp)
  qed
  show ?thesis
  proof -
    have "take 46 (drop (2048 - 46) ?B1) = ?c1" using assms(1-3) by simp
    moreover have "b \<noteq> []" using assms(5) by (simp add: message_def)
    moreover have "pipe_bytes [a, b, c, d] \<noteq> []" by simp
    moreover have "drop 2048 buf = []" using assms(6) by (simp add: PIPEBUFFER_def)
    ultimately show ?thesis
      using bytes len last zero send1 second unfolding PIPEBUFFER_def
      by (subst forward.simps) (simp only: Let_def, simp del: pipe_bytes_simps)
  qed
qed

theorem forward_loses_messages_witness:
  "forward PIPEBUFFER (replicate 2048 (CHR ''x'')) 0 (pipe_bytes
     [replicate 1000 (CHR ''a''), replicate 1000 (CHR ''b''), replicate 60 (CHR ''c''), ''d'']) =
   Some ([replicate 1000 (CHR ''a''), replicate 1000 (CHR ''b''), replicate 60 (CHR ''c'')], True, [])"
  by (rule forward_loses_messages) (auto simp: message_def PIPEBUFFER_def)

section \<open>The first messages\<close>

lemma strstr_describeBus: "strstr (bus_description (buses s b)) n \<Longrightarrow> strstr (snd (describeBus b s)) n"
  unfolding strstr_iff describeBus_def by (metis append.assoc snd_conv)

lemma info_bus_startup: "b \<le> num_buses s \<Longrightarrow> set (info_bus stale b s) \<subseteq> set (info_startup stale s)"
  by (auto simp: info_startup_def simp del: upt_Suc) (metis atLeastLessThan_iff le_imp_less_Suc zero_le)

text \<open>A new info client learns the present state: for every bus its description, and on a bus
  with these device groups every contact that is not zero, every initialised accessory and every
  lock that a session holds on one.
\<close>

theorem info_startup_complete:
  assumes "b \<le> num_buses s"
  shows "snd (describeBus b s) \<in> set (info_startup stale s) \<and>
    (\<forall>i t v. bus_has_devicegroup b DG_FB s \<and> getFB b i s = (SRCP_OK, Some (t, v)) \<and> v \<noteq> 0 \<longrightarrow>
       snd (infoFB b i s) \<in> set (info_startup stale s)) \<and>
    (\<forall>i. bus_has_devicegroup b DG_GA s \<and> 0 < i \<and> i \<le> get_number_ga b s \<and> isInitializedGA b i s \<longrightarrow>
       snd (describeGA b i s) \<in> set (info_startup stale s) \<and>
       (snd (getlockGA b i s) \<noteq> 0 \<longrightarrow> snd (describeLOCKGA b i s) \<in> set (info_startup stale s)))"
proof -
  have sub: "x \<in> set (info_startup stale s)" if "x \<in> set (info_bus stale b s)" for x
    using info_bus_startup [OF assms] that by blast
  have range: "0 < i \<and> i \<le> get_number_fb b s" if "getFB b i s = (SRCP_OK, Some (t, v))" for i t v
    using that by (auto simp: getFB_def Let_def SRCP_OK_def SRCP_NODATA_def split: if_splits)
  have "snd (describeBus b s) \<in> set (info_bus stale b s)"
    by (simp add: info_bus_def info_bus_head_def Let_def)
  moreover have "snd (infoFB b i s) \<in> set (info_bus stale b s)"
    if "bus_has_devicegroup b DG_FB s" "getFB b i s = (SRCP_OK, Some (t, v))" "v \<noteq> 0" for i t v
  proof -
    have "snd (infoFB b i s) \<in> set (info_FB b i s)" using that by (simp add: info_FB_def)
    then show ?thesis
      using that(1) range [OF that(2)] strstr_describeBus [of s b "''FB''"]
      by (auto simp: info_bus_def Let_def intro!: bexI [of _ i])
  qed
  moreover have "snd (describeGA b i s) \<in> set (info_bus stale b s)"
      "snd (getlockGA b i s) \<noteq> 0 \<Longrightarrow> snd (describeLOCKGA b i s) \<in> set (info_bus stale b s)"
    if "bus_has_devicegroup b DG_GA s" "0 < i" "i \<le> get_number_ga b s" "isInitializedGA b i s" for i
    using that strstr_describeBus [of s b "''GA''"]
    by (auto simp: info_bus_def Let_def info_GA_def intro!: bexI [of _ i])
  ultimately show ?thesis by (blast intro: sub)
qed

theorem info_startup_complete_witness:
  "let s = upd_bus 1 (\<lambda>x. x\<lparr>bus_description := ''FB''\<rparr>) fb_occupied
   in snd (infoFB 1 3 s) \<in> set (info_startup 0 s)"
proof -
  let ?s = "upd_bus 1 (\<lambda>x. x\<lparr>bus_description := ''FB''\<rparr>) fb_occupied"
  have "num_buses ?s = 2"
    by (simp add: fb_occupied_def fb_demo_def set_min_time_def init_FB_def upd_fbstate_def upd_fb_def)
  moreover have "getFB 1 3 ?s = (SRCP_OK, Some (fb_timestamp (fb_at 1 2 ?s), 1))"
    using fb_occupied_simps(1) by (simp add: getFB_def get_number_fb_def)
  moreover have "bus_has_devicegroup 1 DG_FB ?s" by simp
  ultimately show ?thesis
    using info_startup_complete [of 1 ?s 0] unfolding Let_def by (metis one_le_numeral zero_neq_one)
qed

end
