(* ===== verification/Client_Service.thy ===== *)
theory Client_Service
  imports Srcp_Command_Session Srcp_Info
begin

text \<open>
  \<open>clientservice.c\<close>: the thread of one client from the welcome message through the handshake, the
  command or info session to the clean-up. The thread is named by its id; \<open>sn\<close>, the pointer to its
  node, is the position of the node that carries this id. \<open>stop_session\<close> of \<open>srcp-session.c\<close> stands
  here because it releases the locks of accessories and locomotives.
\<close>

section \<open>The end of a session\<close>

definition stop_session :: "sessionid_t \<Rightarrow> srcpd \<Rightarrow> int \<times> srcpd" where
  "stop_session sid s =
     (SRCP_OK, enqueueInfoMessage (stamp (clock s) @ '' 102 INFO 0 SESSION '' @ show_nat sid @ [CHR 0x0A])
        (unlock_gl_bysessionid sid (unlock_ga_bysessionid sid s)))"

definition sn_index :: "nat \<Rightarrow> srcpd \<Rightarrow> nat" where
  "sn_index tid s = length (takeWhile (\<lambda>n. thread n \<noteq> tid) (session_list s))"

abbreviation sn_of :: "nat \<Rightarrow> srcpd \<Rightarrow> session_node_t" where
  "sn_of tid s \<equiv> session_list s ! sn_index tid s"

definition upd_sn :: "nat \<Rightarrow> (session_node_t \<Rightarrow> session_node_t) \<Rightarrow> srcpd \<Rightarrow> srcpd" where
  "upd_sn tid f s = s\<lparr>session_list := (session_list s)[sn_index tid s := f (sn_of tid s)]\<rparr>"

text \<open>Closing the socket and the ends of the pipe has no effect on the state of the daemon.\<close>

definition end_client_thread :: "nat \<Rightarrow> srcpd \<Rightarrow> srcpd" where
  "end_client_thread tid s =
     (let m = mode (sn_of tid s); sid = session (sn_of tid s);
          s1 = upd_sn tid (\<lambda>n. n\<lparr>mode := smUndefined\<rparr>) s;
          s2 = (if m = smCommand then s1\<lparr>commandsessions := u32 (commandsessions s - 1)\<rparr> else s1)
      in if m \<noteq> smUndefined \<and> sid \<noteq> 0 then snd (stop_session sid (destroy_session sid s2)) else s2)"

section \<open>The info session\<close>

text \<open>
  \<open>fds\<close> are the descriptors that \<open>pipe\<close> returns (\<open>None\<close>: it fails), \<open>stay\<close> what happens to the state
  until the client leaves; the messages passed on meanwhile are the subject of \<open>forward\<close>.
\<close>

definition doInfoClient :: "(int \<times> int) option \<Rightarrow> (srcpd \<Rightarrow> srcpd) \<Rightarrow> sessionid_t \<Rightarrow> nat \<Rightarrow> srcpd \<Rightarrow> string list \<times> srcpd" where
  "doInfoClient fds stay stale tid s =
     (case fds of
        None \<Rightarrow> ([], s)
      | Some (fd0, fd1) \<Rightarrow>
          (let s1 = upd_sn tid (\<lambda>n. n\<lparr>pipefd0 := fd0, pipefd1 := fd1\<rparr>) s
           in (info_startup stale s1, stay s1)))"

section \<open>The handshake\<close>

text \<open>
  One line of the handshake other than \<open>GO\<close>: the result code and the new state. \<open>nelem\<close> and \<open>p\<close> are
  the results of \<open>ssplitstr\<close>.
\<close>

definition handshake_command :: "nat \<Rightarrow> nat \<Rightarrow> string list \<Rightarrow> srcpd \<Rightarrow> int \<times> srcpd" where
  "handshake_command tid nelem p s =
     (if nelem = 0 then (SRCP_HS_NODATA, s)
      else if \<not> strncasecmp_eq (p ! 0) ''SET'' then (SRCP_UNKNOWNCOMMAND, s)
      else
        (let (rc, s1) =
           (if nelem = 3 \<and> strncasecmp_eq (p ! 1) ''CONNECTIONMODE'' then
              if strncasecmp_eq (p ! 2) ''SRCP INFO'' then
                (SRCP_OK_CONNMODE, upd_sn tid (\<lambda>n. n\<lparr>mode := smInfo\<rparr>) s)
              else if strncasecmp_eq (p ! 2) ''SRCP COMMAND'' then
                (SRCP_OK_CONNMODE, upd_sn tid (\<lambda>n. n\<lparr>mode := smCommand\<rparr>) s)
              else (SRCP_HS_WRONGCONNMODE, s)
            else (SRCP_UNKNOWNCOMMAND, s))
         in if nelem = 3 \<and> strncasecmp_eq (p ! 1) ''PROTOCOL'' then
              (if strncasecmp_eq (p ! 2) ''SRCP 0.8'' then SRCP_OK_PROTOCOL else SRCP_HS_WRONGPROTOCOL, s1)
            else (rc, s1)))"

text \<open>
  \<open>GO\<close>: the session gets its id, the client is told, the info sessions are told, and the session of
  the chosen mode runs to its end; then the clean-up routine runs. The result lists the lines sent.
\<close>

record client_env = cmd_env +
  pipe_fds :: "(int \<times> int) option"
  info_stay :: "srcpd \<Rightarrow> srcpd"

definition client_go :: "client_env \<Rightarrow> nat \<Rightarrow> nat \<Rightarrow> rd list \<Rightarrow> srcpd \<Rightarrow> (string list \<times> srcpd) option" where
  "client_go env tid k evs s =
     (let s1 = register_session (sn_index tid s) s;
          sid = session (sn_of tid s1);
          reply = stamp (clock s) @ '' 200 OK GO '' @ show_nat sid @ [CHR 0x0A]
      in if \<not> write_ok env k then Some ([], end_client_thread tid s1)
         else
           (let s2 = snd (start_session (sn_index tid s1) s1)
            in case mode (sn_of tid s2) of
                 smCommand \<Rightarrow>
                   (case doCmdClient (cmd_env.truncate env) sid (Suc k) evs
                           (s2\<lparr>commandsessions := u32 (commandsessions s2 + 1)\<rparr>) of
                      None \<Rightarrow> None
                    | Some (replies, how, s3) \<Rightarrow> Some (reply # replies, end_client_thread tid s3))
               | smInfo \<Rightarrow>
                   (case doInfoClient (pipe_fds env) (info_stay env) (nat (junk env)) tid s2 of
                      (ms, s3) \<Rightarrow> Some (reply # ms, end_client_thread tid s3))
               | smUndefined \<Rightarrow> Some ([reply], end_client_thread tid s2)))"

function handshake :: "client_env \<Rightarrow> nat \<Rightarrow> nat \<Rightarrow> rd list \<Rightarrow> srcpd \<Rightarrow> (string list \<times> srcpd) option" where
  "handshake env tid k evs s =
     (let r = fst (socket_readline (MAXSRCPLINELEN - 1) evs);
          line = fst (snd (socket_readline (MAXSRCPLINELEN - 1) evs));
          evs' = snd (snd (socket_readline (MAXSRCPLINELEN - 1) evs))
      in if r \<le> 0 then Some ([], end_client_thread tid s)
         else
           (let s1 = between env k s; (nelem, p) = ssplitstr 3 (strip_newline line)
            in if nelem > 0 \<and> strncasecmp_eq (p ! 0) ''GO'' then client_go env tid k evs' s1
               else
                 (case handshake_command tid nelem p s1 of
                    (rc, s2) \<Rightarrow>
                      if \<not> write_ok env k then Some ([], end_client_thread tid s2)
                      else (case handshake env tid (Suc k) evs' s2 of
                              None \<Rightarrow> None
                            | Some (replies, s3) \<Rightarrow> Some (srcp_fmt_msg rc (clock s1) # replies, s3)))))"
  by pat_completeness auto

termination
  by (relation "measure (\<lambda>(env, tid, k, evs, s). length evs)") (auto intro!: socket_readline_shorter)

definition WELCOME_MSG :: "string \<Rightarrow> string" where
  "WELCOME_MSG version = ''srcpd V'' @ version @ ''; SRCP 0.8.4; SRCPOTHER 0.8.3'' @ [CHR 0x0A]"

text \<open>The thread that serves the node at position \<open>i\<close>.\<close>

definition thr_doClient :: "client_env \<Rightarrow> nat \<Rightarrow> nat \<Rightarrow> rd list \<Rightarrow> srcpd \<Rightarrow> (string list \<times> srcpd) option" where
  "thr_doClient env tid i evs s =
     (let s1 = s\<lparr>session_list := (session_list s)[i := (session_list s ! i)\<lparr>thread := tid\<rparr>]\<rparr>
      in if \<not> write_ok env 0 then Some ([], end_client_thread tid s1)
         else (case handshake env tid 1 evs s1 of
                 None \<Rightarrow> None
               | Some (replies, s2) \<Rightarrow> Some (WELCOME_MSG (env_version env) # replies, s2)))"

definition getnbr_commandsessions :: "srcpd \<Rightarrow> int" where
  "getnbr_commandsessions s = s32 (commandsessions s)"

section \<open>Clean-up\<close>

text \<open>Releasing locks keeps the ids of the sessions.\<close>

definition session_ids :: "srcpd \<Rightarrow> sessionid_t list" where
  "session_ids s = map session (session_list s)"

lemma session_ids_message [simp]: "session_ids (enqueueInfoMessage m s) = session_ids s"
  by (simp add: session_ids_def session_list_enqueueInfoMessage)

lemma session_ids_frame: "session_list t = session_list s \<Longrightarrow> session_ids t = session_ids s"
  by (simp add: session_ids_def)

lemma session_ids_unlockGA [simp]: "session_ids (snd (unlockGA b a sid s)) = session_ids s"
  by (simp add: unlockGA_def session_ids_frame [of "upd_gastate _ _ _ _" s])

lemma session_ids_unlock_ga [simp]: "session_ids (unlock_ga_bysessionid sid s) = session_ids s"
  unfolding unlock_ga_bysessionid_def
  by (rule fold_invariant [where P = "\<lambda>t. session_ids t = session_ids s"], simp,
      rule fold_invariant [where P = "\<lambda>t. session_ids t = session_ids s"]) simp_all

lemma release_gl_frame:
  "session_ids (release_gl sid b j s) = session_ids s" "ga (release_gl sid b j s) = ga s"
  by (simp_all add: release_gl_def cacheUnlockGL_def Let_def session_ids_frame [of "upd_glstate _ _ _ _" s])

lemma unlock_gl_frame [simp]:
  "session_ids (unlock_gl_bysessionid sid s) = session_ids s" "ga (unlock_gl_bysessionid sid s) = ga s"
proof -
  let ?P = "\<lambda>t. session_ids t = session_ids s \<and> ga t = ga s"
  have "?P (unlock_gl_bysessionid sid s)"
    unfolding unlock_gl_bysessionid_def
    by (rule fold_invariant [where P = ?P], simp, rule fold_invariant [where P = ?P])
      (simp_all add: release_gl_frame)
  then show "session_ids (unlock_gl_bysessionid sid s) = session_ids s" "ga (unlock_gl_bysessionid sid s) = ga s"
    by simp_all
qed

lemma stop_session_effect:
  "session_ids (snd (stop_session sid s)) = session_ids s"
  "ga (snd (stop_session sid s)) = ga (unlock_ga_bysessionid sid s)"
  by (simp_all add: stop_session_def)

text \<open>The node of the thread.\<close>

definition has_sn :: "nat \<Rightarrow> srcpd \<Rightarrow> bool" where
  "has_sn tid s \<longleftrightarrow> (\<exists>n \<in> set (session_list s). thread n = tid)"

lemma sn_index_less: "has_sn tid s \<Longrightarrow> sn_index tid s < length (session_list s) \<and> thread (sn_of tid s) = tid"
proof -
  assume "has_sn tid s"
  let ?P = "\<lambda>n. thread n \<noteq> tid" and ?l = "session_list s"
  have ne: "takeWhile ?P ?l \<noteq> ?l"
    using \<open>has_sn tid s\<close> by (auto simp: has_sn_def takeWhile_eq_all_conv)
  have "length (takeWhile ?P ?l) \<noteq> length ?l"
  proof
    assume "length (takeWhile ?P ?l) = length ?l"
    then have "takeWhile ?P ?l = ?l" using takeWhile_eq_take [of ?P ?l] by simp
    with ne show False by simp
  qed
  then have "length (takeWhile ?P ?l) < length ?l" using length_takeWhile_le [of ?P ?l] by simp
  then show ?thesis using nth_length_takeWhile [of ?P ?l] by (simp add: sn_index_def)
qed

lemma upd_sn_ids:
  assumes "has_sn tid s" "session (f (sn_of tid s)) = session (sn_of tid s)"
  shows "session_ids (upd_sn tid f s) = session_ids s"
  using assms sn_index_less [OF assms(1)]
  by (simp add: session_ids_def upd_sn_def map_update) (metis list_update_id nth_map)

lemma upd_sn_frame [simp]:
  "ga (upd_sn tid f s) = ga s" "num_buses (upd_sn tid f s) = num_buses s" "clock (upd_sn tid f s) = clock s"
  "lastsession (upd_sn tid f s) = lastsession s" "runningsessions (upd_sn tid f s) = runningsessions s"
  "commandsessions (upd_sn tid f s) = commandsessions s" "length (session_list (upd_sn tid f s)) = length (session_list s)"
  by (simp_all add: upd_sn_def)

lemma upd_sn_mode_ok:
  assumes "has_sn tid s" "sessions_ok s"
  shows "sessions_ok (upd_sn tid (\<lambda>n. n\<lparr>mode := m\<rparr>) s)"
proof -
  let ?t = "upd_sn tid (\<lambda>n. n\<lparr>mode := m\<rparr>) s"
  have "session_ids ?t = session_ids s" by (rule upd_sn_ids [OF assms(1)]) simp
  moreover have "\<forall>n \<in> set (session_list ?t). \<not> freed n \<and> session n \<le> lastsession s"
    using assms sn_index_less [OF assms(1)] set_update_subset_insert [of "session_list s"]
    by (fastforce simp: upd_sn_def sessions_ok_def)
  ultimately show ?thesis
    using assms(2) by (simp add: sessions_ok_def session_ids_def)
qed

lemma sessions_ok_commandsessions [simp]: "sessions_ok (s\<lparr>commandsessions := c\<rparr>) \<longleftrightarrow> sessions_ok s"
  by (simp add: sessions_ok_def)

lemma destroy_session_ga [simp]:
  "ga (destroy_session sid s) = ga s" "num_buses (destroy_session sid s) = num_buses s"
  by (simp_all add: destroy_session_def raise_ub_def split: option.split)

text \<open>However the thread of a registered session ends, the clean-up takes its node out of the
  session list, keeps the others in their order, and leaves no accessory locked by it.
\<close>

theorem end_client_thread_cleans:
  assumes "has_sn tid s" and "sessions_ok s" and "length (session_list s) < 2 ^ 32"
    and "session (sn_of tid s) = sid" and "sid \<noteq> 0" and "mode (sn_of tid s) \<noteq> smUndefined"
  shows "session_ids (end_client_thread tid s) = filter (\<lambda>x. x \<noteq> sid) (session_ids s) \<and>
    (\<forall>b addr. 1 \<le> b \<and> b \<le> num_buses s \<and> 0 < addr \<and> addr \<le> get_number_ga b s \<longrightarrow>
       ga_locked_by (ga_at b addr (end_client_thread tid s)) \<noteq> sid)"
proof -
  define s1 where "s1 = upd_sn tid (\<lambda>n. n\<lparr>mode := smUndefined\<rparr>) s"
  define s2 where "s2 = (if mode (sn_of tid s) = smCommand
    then s1\<lparr>commandsessions := u32 (commandsessions s - 1)\<rparr> else s1)"
  have t: "end_client_thread tid s = snd (stop_session sid (destroy_session sid s2))"
    using assms(4-6) by (simp add: end_client_thread_def Let_def s2_def s1_def)
  have ids: "session_ids s2 = session_ids s"
    using upd_sn_ids [OF assms(1), of "\<lambda>n. n\<lparr>mode := smUndefined\<rparr>"]
    by (simp add: s2_def s1_def session_ids_def)
  have "sessions_ok s2" using upd_sn_mode_ok [OF assms(1,2)] by (simp add: s2_def s1_def)
  moreover have "sid \<in> session ` set (session_list s2)"
    using ids assms(4) sn_index_less [OF assms(1)] by (metis image_eqI list.set_map nth_mem session_ids_def)
  moreover have "length (session_list s2) < 2 ^ 32" using assms(3) by (simp add: s2_def s1_def)
  ultimately have "session_list (destroy_session sid s2) = filter (\<lambda>n. session n \<noteq> sid) (session_list s2)"
    using destroy_session_effect [of s2 sid] assms(5) by blast
  then have "session_ids (destroy_session sid s2) = filter (\<lambda>x. x \<noteq> sid) (session_ids s2)"
    by (simp add: session_ids_def filter_map o_def)
  moreover have "ga s2 = ga s" "num_buses s2 = num_buses s" by (simp_all add: s2_def s1_def)
  ultimately show ?thesis
    using assms(5)
    by (auto simp: t ids stop_session_effect unlock_ga_bysessionid_pointwise release_by_def get_number_ga_def)
qed

text \<open>A client that leaves before GO is not cleaned up: its node stays in the list for ever, and
  when it had chosen the command mode the counter of command sessions, which only GO increments,
  is decremented.
\<close>

theorem unregistered_client_leaks:
  assumes "session (sn_of tid s) = 0"
  shows "length (session_list (end_client_thread tid s)) = length (session_list s) \<and>
    runningsessions (end_client_thread tid s) = runningsessions s \<and>
    (mode (sn_of tid s) = smCommand \<longrightarrow>
       commandsessions (end_client_thread tid s) = u32 (commandsessions s - 1))"
  using assms by (simp add: end_client_thread_def Let_def)

text \<open>One client, whose thread is 7, that has chosen the command mode and session 1.\<close>

definition one_thread :: srcpd where
  "one_thread = one_session\<lparr>session_list := map (\<lambda>n. n\<lparr>thread := 7, mode := smCommand\<rparr>) (session_list one_session)\<rparr>"

lemma one_thread_simps [simp]:
  "has_sn 7 one_thread" "sessions_ok one_thread" "session_ids one_thread = [1]"
  "session (sn_of 7 one_thread) = 1" "mode (sn_of 7 one_thread) = smCommand"
  by (simp_all add: one_thread_def has_sn_def sessions_ok_def session_ids_def sn_index_def one_client_defs
      Let_def u32_id u64_id)

theorem end_client_thread_cleans_witness: "session_ids (end_client_thread 7 one_thread) = []"
proof -
  have "length (session_list one_thread) < 2 ^ 32"
    using one_thread_simps(3) by (simp add: session_ids_def Cons_eq_map_conv one_thread_def)
  with end_client_thread_cleans [of 7 one_thread 1] show ?thesis by simp
qed

definition one_guest :: srcpd where
  "one_guest = srcpd_init\<lparr>runningsessions := 1, session_list := [\<lparr>session = 0, thread = 7, sock = 4,
     mode = smCommand, pipefd0 = -1, pipefd1 = -1, pipe = [], freed = False\<rparr>]\<rparr>"

theorem unregistered_client_leaks_witness:
  "length (session_list (end_client_thread 7 one_guest)) = 1 \<and>
   getnbr_commandsessions (end_client_thread 7 one_guest) = -1"
  using unregistered_client_leaks [of one_guest 7]
  by (simp add: one_guest_def sn_index_def srcpd_init_def getnbr_commandsessions_def u32_def s32_def)

lemma handshake_line:
  assumes "plain_line l" "ssplitstr 3 (strip_newline (l @ [CHR 0x0A])) = (nelem, p)"
  shows "handshake env tid k (map Byte (l @ [CHR 0x0A]) @ rest) s =
    (if nelem > 0 \<and> strncasecmp_eq (p ! 0) ''GO'' then client_go env tid k rest (between env k s)
     else (case handshake_command tid nelem p (between env k s) of
             (rc, s2) \<Rightarrow>
               if \<not> write_ok env k then Some ([], end_client_thread tid s2)
               else (case handshake env tid (Suc k) rest s2 of
                       None \<Rightarrow> None
                     | Some (replies, s3) \<Rightarrow> Some (srcp_fmt_msg rc (clock (between env k s)) # replies, s3))))"
  using assms(2)
  by (subst handshake.simps) (simp only: socket_readline_plain [OF assms(1)] Let_def fst_conv snd_conv, simp)

lemma upd_sn_same:
  assumes "sn_index tid s < length (session_list s)" "thread (f (sn_of tid s)) = tid" "thread (sn_of tid s) = tid"
  shows "sn_index tid (upd_sn tid f s) = sn_index tid s" "sn_of tid (upd_sn tid f s) = f (sn_of tid s)"
proof -
  let ?P = "\<lambda>n. thread n \<noteq> tid" and ?l = "session_list s" and ?i = "sn_index tid s"
  have l: "?l[?i := f (?l ! ?i)] = take ?i ?l @ f (?l ! ?i) # drop (Suc ?i) ?l"
    using assms(1) by (rule upd_conv_take_nth_drop)
  have "\<forall>n \<in> set (take ?i ?l). ?P n"
    unfolding sn_index_def by (metis (mono_tags) set_takeWhileD takeWhile_eq_take)
  then have "takeWhile ?P (?l[?i := f (?l ! ?i)]) = take ?i ?l"
    unfolding l using assms(2) by (simp add: takeWhile_append takeWhile_eq_all_conv)
  moreover have "session_list (upd_sn tid f s) = ?l[?i := f (?l ! ?i)]" by (simp add: upd_sn_def)
  ultimately show 1: "sn_index tid (upd_sn tid f s) = ?i"
    using assms(1) unfolding sn_index_def [of tid "upd_sn tid f s"] by simp
  show "sn_of tid (upd_sn tid f s) = f (sn_of tid s)"
    unfolding 1 using assms(1) by (simp add: upd_sn_def)
qed

lemma sn_message:
  "sn_index tid (enqueueInfoMessage m s) = sn_index tid s"
  "sn_index tid s < length (session_list s) \<Longrightarrow> sn_of tid (enqueueInfoMessage m s) = pipe_write m (sn_of tid s)"
proof -
  show 1: "sn_index tid (enqueueInfoMessage m s) = sn_index tid s"
    by (simp add: sn_index_def session_list_enqueueInfoMessage takeWhile_map o_def)
  show "sn_of tid (enqueueInfoMessage m s) = pipe_write m (sn_of tid s)"
    if "sn_index tid s < length (session_list s)"
    unfolding 1 using that by (simp add: session_list_enqueueInfoMessage)
qed

lemma register_session_sn:
  assumes "sn_index tid s < length (session_list s)" "mode (sn_of tid s) = smCommand"
  shows "register_session (sn_index tid s) s =
    (upd_sn tid (\<lambda>n. n\<lparr>session := next_session_id (lastsession s)\<rparr>) s)\<lparr>lastsession := next_session_id (lastsession s)\<rparr>"
proof -
  have eq: "(sn_of tid s)\<lparr>session := x, mode := smCommand\<rparr> = (sn_of tid s)\<lparr>session := x\<rparr>" for x
    using assms(2) by (cases "sn_of tid s") simp
  show ?thesis
    using assms by (intro srcpd.equality) (simp_all add: register_session_def Let_def upd_sn_def eq)
qed

lemma sn_lastsession [simp]:
  "sn_index tid (s\<lparr>lastsession := x\<rparr>) = sn_index tid s" "sn_index tid (s\<lparr>commandsessions := c\<rparr>) = sn_index tid s"
  by (simp_all add: sn_index_def)

definition hello :: "string list" where
  "hello = [''SET PROTOCOL SRCP 0.8'', ''SET CONNECTIONMODE SRCP COMMAND'', ''GO'']"

lemma hello_plain: "\<forall>l \<in> set hello. plain_line l"
  by (simp add: hello_def plain_line_def isvalidchar_def)

lemma hello_split:
  "ssplitstr 3 (strip_newline (hello ! 0 @ [CHR 0x0A])) = (3, [''SET'', ''PROTOCOL'', ''SRCP 0.8''])"
  "ssplitstr 3 (strip_newline (hello ! 1 @ [CHR 0x0A])) = (3, [''SET'', ''CONNECTIONMODE'', ''SRCP COMMAND''])"
  "ssplitstr 3 (strip_newline (hello ! 2 @ [CHR 0x0A])) = (1, [''GO'', [], []])"
  by (subst strip_newline_append; simp add: hello_def ssplitstr_eq_tokens blank_def numeral_eq_Suc)+

text \<open>C13. The whole dialogue of a command client: after the lines that choose the protocol and the
  command mode and GO, each answered with its code, the client has a session with the next id,
  its commands are answered one by one, and when the connection ends the clean-up runs on the
  state the last command left.
\<close>

theorem command_client_dialogue:
  assumes "has_sn tid s"
    and "\<forall>k s. between env k s = s" and "\<forall>k. write_ok env k" and "\<forall>l \<in> set ls. plain_line l"
    and "sid = next_session_id (lastsession s)"
  shows "\<exists>s'. session (sn_of tid s') = sid \<and> mode (sn_of tid s') = smCommand \<and>
      commandsessions s' = u32 (commandsessions s + 1) \<and> ga s' = ga s \<and> gl s' = gl s \<and>
      handshake env tid k (concat (map (\<lambda>l. map Byte (l @ [CHR 0x0A])) (hello @ ls))) s =
        (case serve_lines (cmd_env.truncate env) sid (k + 3) ls s' of
           None \<Rightarrow> None
         | Some (replies, how, t) \<Rightarrow>
             Some ([srcp_fmt_msg SRCP_OK_PROTOCOL (clock s), srcp_fmt_msg SRCP_OK_CONNMODE (clock s),
                stamp (clock s) @ '' 200 OK GO '' @ show_nat sid @ [CHR 0x0A]] @ replies,
              end_client_thread tid t))"
proof -
  let ?bytes = "\<lambda>ls. concat (map (\<lambda>l. map Byte (l @ [CHR 0x0A])) ls)"
  define s1 where "s1 = upd_sn tid (\<lambda>n. n\<lparr>mode := smCommand\<rparr>) s"
  define s2 where "s2 = register_session (sn_index tid s1) s1"
  define s3 where "s3 = snd (start_session (sn_index tid s2) s2)"
  define s4 where "s4 = s3\<lparr>commandsessions := u32 (commandsessions s3 + 1)\<rparr>"
  have sn: "sn_index tid s < length (session_list s)" "thread (sn_of tid s) = tid"
    using sn_index_less [OF assms(1)] by simp_all
  have sn1: "sn_index tid s1 = sn_index tid s" "sn_of tid s1 = (sn_of tid s)\<lparr>mode := smCommand\<rparr>"
    using upd_sn_same [OF sn(1) _ sn(2), of "\<lambda>n. n\<lparr>mode := smCommand\<rparr>"] sn(2)
    by (simp_all add: s1_def)
  have len1: "sn_index tid s1 < length (session_list s1)" using sn(1) sn1 by (simp add: s1_def)
  have last1: "lastsession s1 = lastsession s" "clock s1 = clock s" by (simp_all add: s1_def)
  let ?id = "\<lambda>n. n\<lparr>session := sid\<rparr>"
  have s2: "s2 = (upd_sn tid ?id s1)\<lparr>lastsession := sid\<rparr>"
    using register_session_sn [OF len1] sn1 last1 assms(5) by (simp add: s2_def)
  have sn2: "sn_index tid s2 = sn_index tid s" "sn_of tid s2 = (sn_of tid s)\<lparr>mode := smCommand, session := sid\<rparr>"
    using upd_sn_same [OF len1, of ?id] sn1 sn(2) by (simp_all add: s2)
  have len2: "sn_index tid s2 < length (session_list s2)" using sn(1) sn2 by (simp add: s2 s1_def)
  have s3: "s3 = enqueueInfoMessage (stamp (clock s2) @ '' 101 INFO 0 SESSION '' @ show_nat sid @ '' ''
      @ ''COMMAND'' @ [CHR 0x0A]) s2"
    using sn2 by (simp add: s3_def start_session_def mode_name_def)
  have sn4: "session (sn_of tid s4) = sid" "mode (sn_of tid s4) = smCommand"
    using sn_message(2) [OF len2] sn_message(1) [of tid _ s2] sn2 by (simp_all add: s4_def s3)
  have frame4: "commandsessions s4 = u32 (commandsessions s + 1)" "ga s4 = ga s" "gl s4 = gl s"
    by (simp_all add: s4_def s3 s2 s1_def upd_sn_def)
  have go: "client_go env tid (k + 2) (?bytes ls) s1 =
      (case serve_lines (cmd_env.truncate env) sid (k + 3) ls s4 of
         None \<Rightarrow> None
       | Some (replies, how, t) \<Rightarrow>
           Some ((stamp (clock s) @ '' 200 OK GO '' @ show_nat sid @ [CHR 0x0A]) # replies, end_client_thread tid t))"
  proof -
    have "session (sn_of tid s2) = sid" using sn2 by simp
    moreover have "mode (sn_of tid s3) = smCommand" using sn4(2) by (simp add: s4_def)
    ultimately show ?thesis
      unfolding client_go_def Let_def s2_def [symmetric] s3_def [symmetric] s4_def [symmetric]
      using assms(3) last1 doCmdClient_lines [OF assms(4), of "cmd_env.truncate env" sid "Suc (k + 2)" s4]
      by (simp add: numeral_eq_Suc split: option.split)
  qed
  have first: "?bytes (hello @ ls) = map Byte (hello ! 0 @ [CHR 0x0A]) @ map Byte (hello ! 1 @ [CHR 0x0A])
      @ map Byte (hello ! 2 @ [CHR 0x0A]) @ ?bytes ls"
    by (simp add: hello_def)
  have plain: "plain_line (hello ! 0)" "plain_line (hello ! 1)" "plain_line (hello ! 2)"
    using hello_plain by (simp_all add: hello_def)
  have cmd: "handshake_command tid 3 [''SET'', ''PROTOCOL'', ''SRCP 0.8''] s = (SRCP_OK_PROTOCOL, s)"
    "handshake_command tid 3 [''SET'', ''CONNECTIONMODE'', ''SRCP COMMAND''] s = (SRCP_OK_CONNMODE, s1)"
    by (simp_all add: handshake_command_def strncasecmp_eq_def tolower_def s1_def)
  have no_go: "\<not> strncasecmp_eq ''SET'' ''GO''" "strncasecmp_eq ''GO'' ''GO''"
    by (simp_all add: strncasecmp_eq_def tolower_def)
  have hs: "handshake env tid k (?bytes (hello @ ls)) s =
      (case client_go env tid (k + 2) (?bytes ls) s1 of
         None \<Rightarrow> None
       | Some (replies, t) \<Rightarrow>
           Some (srcp_fmt_msg SRCP_OK_PROTOCOL (clock s) # srcp_fmt_msg SRCP_OK_CONNMODE (clock s) # replies, t))"
    unfolding first handshake_line [OF plain(1) hello_split(1)] handshake_line [OF plain(2) hello_split(2)]
      handshake_line [OF plain(3) hello_split(3)]
    using assms(2,3) cmd no_go last1 by (simp split: option.split)
  show ?thesis
    by (rule exI [of _ s4], intro conjI sn4 frame4) (simp only: hs go, simp split: option.split)
qed

theorem command_client_dialogue_witness:
  "\<exists>s'. session (sn_of 7 s') = 1 \<and> mode (sn_of 7 s') = smCommand \<and>
     commandsessions s' = u32 (commandsessions one_guest + 1) \<and> ga s' = ga one_guest \<and> gl s' = gl one_guest \<and>
     handshake (cmd_env.extend env0 (client_env.fields None id)) 7 0
       (concat (map (\<lambda>l. map Byte (l @ [CHR 0x0A])) (hello @ [''FOO'']))) one_guest =
       (case serve_lines (cmd_env.truncate (cmd_env.extend env0 (client_env.fields None id))) 1 (0 + 3) [''FOO''] s' of
          None \<Rightarrow> None
        | Some (replies, how, t) \<Rightarrow>
            Some ([srcp_fmt_msg SRCP_OK_PROTOCOL (clock one_guest), srcp_fmt_msg SRCP_OK_CONNMODE (clock one_guest),
               stamp (clock one_guest) @ '' 200 OK GO '' @ show_nat 1 @ [CHR 0x0A]] @ replies,
             end_client_thread 7 t))"
  by (rule command_client_dialogue)
    (simp_all add: one_guest_def has_sn_def env0_def cmd_env.defs client_env.defs plain_line_def isvalidchar_def
       next_session_id_def srcpd_init_def u64_def)

end
