(* ===== verification/Ddl_Bus.thy ===== *)
theory Ddl_Bus
  imports Ddl_Refresh Client_Service
begin

unbundle bit_operations_syntax

text \<open>
  The bus thread \<open>thr_Manage_DDL\<close> of \<open>ddl.c\<close>: service mode requests, power, commands for locomotives,
  refresh, mfx management and accessories, one pass of its loop at a time. \<open>ddl_thread\<close> holds its local
  variables, the level of the output RTS that switches the booster, and the results that
  \<open>session_endwait\<close> passes to waiting sessions. \<open>cts\<close> is the level of the input that reports a shortcut.
\<close>

section \<open>State\<close>

record ddl_thread =
  gastep :: nat
  gatmp :: ga_data_t
  tv_ga :: timeval
  tv_mfx :: timeval
  nextmfxman :: int
  progwin :: nat
  rts :: bool
  sm_results :: "int list"

type_synonym bus_state = "drv \<times> ddl_thread"

definition timeSince :: "timeval \<Rightarrow> srcpd \<Rightarrow> int" where
  "timeSince tv s = (tv_sec (clock s) - tv_sec tv) * 1000000 + tv_usec (clock s) - tv_usec tv"

section \<open>Initialisation of devices\<close>

text \<open>\<open>stale\<close> is what the buffer \<open>optData\<close> of the command handler holds when the command has no such text (\<open>None\<close>): the
  handler passes the buffer without having written it.\<close>

definition init_gl_DDL :: "string \<Rightarrow> gl_data_t \<Rightarrow> string option \<Rightarrow> int \<times> gl_data_t" where
  "init_gl_DDL stale p optData =
     (if gl_protocol p = CHR ''M'' then
        (if gl_n_func p > 5 then SRCP_WRONGVALUE
         else if gl_protocolversion p = 1 then if gl_n_fs p = 14 then SRCP_OK else SRCP_WRONGVALUE
         else if gl_protocolversion p = 2 then
           if gl_n_fs p = 14 \<or> gl_n_fs p = 27 \<or> gl_n_fs p = 28 then SRCP_OK else SRCP_WRONGVALUE
         else SRCP_WRONGVALUE, p)
      else if gl_protocol p = CHR ''N'' then
        (if gl_n_func p > 32 then SRCP_WRONGVALUE
         else if gl_protocolversion p = 1 then
           if gl_id p < 128 \<and> (gl_n_fs p = 14 \<or> gl_n_fs p = 28 \<or> gl_n_fs p = 128) then SRCP_OK else SRCP_WRONGVALUE
         else if gl_protocolversion p = 2 then
           if gl_n_fs p = 28 \<or> gl_n_fs p = 128 then SRCP_OK else SRCP_WRONGVALUE
         else SRCP_WRONGVALUE, p)
      else if gl_protocol p = CHR ''X'' then
        if gl_n_func p > 32 \<or> gl_protocolversion p > 1 then (SRCP_WRONGVALUE, p)
        else (SRCP_OK,
          case scan_number (take 10 (dropWhile isspace (case optData of None \<Rightarrow> stale | Some text \<Rightarrow> text))) of
            None \<Rightarrow> p
          | Some (neg, n, _) \<Rightarrow> p\<lparr>gl_decuid := u32 (to_ulong neg n)\<rparr>)
      else (SRCP_UNSUPPORTEDDEVICEPROTOCOL, p))"

definition describe_gl_DDL :: "gl_data_t \<Rightarrow> string \<Rightarrow> string" where
  "describe_gl_DDL p msg = (if gl_protocol p = CHR ''X'' then msg @ '' '' @ show_int (gl_decuid p) else msg)"

definition init_ga_DDL :: "ga_data_t \<Rightarrow> int \<times> ga_data_t" where
  "init_ga_DDL g =
     (if ga_protocol g = CHR ''M'' then (if ga_id g \<le> 324 then SRCP_OK else SRCP_WRONGVALUE, g)
      else if ga_protocol g = CHR ''N'' then (if ga_id g \<le> 2044 then SRCP_OK else SRCP_WRONGVALUE, g)
      else (SRCP_UNSUPPORTEDDEVICEPROTOCOL, g))"

section \<open>Power\<close>

definition checkShortcut :: "bool \<Rightarrow> drv \<Rightarrow> bool \<times> drv" where
  "checkShortcut cts v =
     (let now = tv_sec (clock (srv v)) * 1000000 + tv_usec (clock (srv v)); arg = (if CHECKSHORT (ddl v) \<noteq> 2 then \<not> cts else cts)
      in if arg then
           (let v1 = (if short_detected (ddl v) = 0 then on_ddl (\<lambda>d. d\<lparr>short_detected := now\<rparr>) v else v)
            in (SHORTCUTDELAY (ddl v1) \<le> now - short_detected (ddl v1), v1))
         else (False, on_ddl (\<lambda>d. d\<lparr>short_detected := 0\<rparr>) v))"

definition cut_power :: "bus_t \<Rightarrow> string \<Rightarrow> drv \<Rightarrow> drv" where
  "cut_power b msg v =
     (let s1 = upd_bus b (\<lambda>d. d\<lparr>power_state := 0, power_changed := 2\<rparr>) (srv v);
          s2 = upd_bus b (\<lambda>d. d\<lparr>power_msg := msg\<rparr>) (snd (info_mcs b 1 (station_uid (ddl v)) [0xA, 1] s1))
      in v\<lparr>srv := enqueueInfoMessage (snd (infoPower b s2)) s2\<rparr>)"

definition power_is_off :: "bus_t \<Rightarrow> bool \<Rightarrow> bus_state \<Rightarrow> bool \<times> bus_state" where
  "power_is_off b cts x =
     (let (v, t) = x;
          v1 = (if CHECKSHORT (ddl v) \<noteq> 0 \<and> power_state (buses (srv v) b) \<noteq> 0 then
                  (let (short, v') = checkShortcut cts v
                   in if short then cut_power b ''SHORTCUT DETECTED'' (on_ddl (\<lambda>d. d\<lparr>short_detected := 0\<rparr>) v') else v')
                else v);
          v2 = (if CHECKCLIENTS (ddl v1) \<and> getnbr_commandsessions (srv v1) = 0 \<and> pingactive (srv v1) = 0 \<and>
                  power_state (buses (srv v1) b) \<noteq> 0 then cut_power b ''CONTROL LOST'' v1 else v1);
          d = buses (srv v2) b;
          (v3, t1) =
            (if power_changed d > 0 then
               (let s1 = snd (info_mcs b 0 0 [power_state d] (srv v2));
                    r = (if power_state d = 0 then False else if power_state d = 1 then True else rts t);
                    s2 = (if power_changed d = 1 then
                            (let s' = snd (info_mcs b 1 0 [power_state d] s1) in enqueueInfoMessage (snd (infoPower b s')) s')
                          else s1)
                in (v2\<lparr>srv := upd_bus b (\<lambda>d. d\<lparr>power_changed := 0\<rparr>) s2\<rparr>, t\<lparr>rts := r\<rparr>))
             else (v2, t))
      in (power_state (buses (srv v3) b) = 0, v3, t1))"

definition use_pgtrack :: "sm_protocol_t \<Rightarrow> ddl_data \<Rightarrow> ddl_data" where
  "use_pgtrack use d =
     (let d1 = (if (pgtrkonly d = PROTO_NONE) \<noteq> (use = PROTO_NONE) then nmra_idle 10 d else d) in d1\<lparr>pgtrkonly := use\<rparr>)"

section \<open>Service mode\<close>

abbreviation in_ddl :: "(ddl_data \<Rightarrow> int \<times> ddl_data) \<Rightarrow> drv \<Rightarrow> int \<times> drv" where
  "in_ddl f v \<equiv> (let (rc, d) = f (ddl v) in (rc, v\<lparr>ddl := d\<rparr>))"

definition sm_nmra :: "sm_t \<Rightarrow> ddl_data \<Rightarrow> int \<times> ddl_data" where
  "sm_nmra sm d =
     (let cv = sm_cvaddr sm; ix = sm_index sm; val = sm_value sm; page = calc_page cv; reg = (cv - 1) AND 3
      in case sm_command sm of
           SET \<Rightarrow>
             if sm_addr sm \<le> 0 \<and> PROGRAM_TRACK d then
               (let d1 = use_pgtrack PROTO_NMRA d
                in case sm_type sm of
                     REGISTER \<Rightarrow> (protocol_nmra_sm_phregister cv val False, d1)
                   | CV \<Rightarrow> protocol_nmra_sm_direct_cvbyte cv val False d1
                   | CV_BIT \<Rightarrow> protocol_nmra_sm_direct_cvbit cv ix val False d1
                   | PAGE \<Rightarrow> (protocol_nmra_sm_page page reg val False, d1)
                   | _ \<Rightarrow> (-1, d1))
             else
               (let d1 = use_pgtrack PROTO_NONE d; md = (if sm_addr sm > 127 then 2 else 1)
                in case sm_type sm of
                     CV \<Rightarrow> protocol_nmra_sm_write_cvbyte_pom (sm_addr sm) cv val md d1
                   | CV_BIT \<Rightarrow> protocol_nmra_sm_write_cvbit_pom (sm_addr sm) cv ix val md d1
                   | _ \<Rightarrow> (-1, d1))
         | GET \<Rightarrow>
             if sm_addr sm \<le> 0 then
               (let d1 = use_pgtrack PROTO_NMRA d
                in case sm_type sm of
                     REGISTER \<Rightarrow> (protocol_nmra_sm_get_phregister cv, d1)
                   | CV \<Rightarrow> protocol_nmra_sm_get_cvbyte cv d1
                   | CV_BIT \<Rightarrow> protocol_nmra_sm_direct_cvbit cv ix 1 True d1
                   | PAGE \<Rightarrow> (protocol_nmra_sm_get_page cv, d1)
                   | _ \<Rightarrow> (-1, d1))
             else (-1, d)
         | VERIFY \<Rightarrow>
             if sm_addr sm \<le> 0 then
               (let d1 = use_pgtrack PROTO_NMRA d;
                    (my_rc, d2) =
                      (case sm_type sm of
                         REGISTER \<Rightarrow> (protocol_nmra_sm_phregister cv val True, d1)
                       | CV \<Rightarrow> protocol_nmra_sm_direct_cvbyte cv val True d1
                       | CV_BIT \<Rightarrow> protocol_nmra_sm_direct_cvbit cv ix val True d1
                       | PAGE \<Rightarrow> (protocol_nmra_sm_page page reg val True, d1)
                       | _ \<Rightarrow> (0, d1))
                in (if my_rc = 1 then val else -1, d2))
             else (-1, d)
         | sm_command_t.TERM \<Rightarrow> (0, d)
         | INIT \<Rightarrow> (0, d))"

definition sm_mm :: "sm_t \<Rightarrow> ddl_data \<Rightarrow> int \<times> ddl_data" where
  "sm_mm sm d =
     (case sm_command sm of
        SET \<Rightarrow> mm_reg_prog (sm_type sm = MM_REG_UB) (sm_addr sm) (sm_cvaddr sm) (sm_value sm) (use_pgtrack PROTO_MM d)
      | GET \<Rightarrow> (mm_search_loco (sm_index sm), use_pgtrack PROTO_MM d)
      | VERIFY \<Rightarrow> (mm_search_loco (sm_index sm), use_pgtrack PROTO_MM d)
      | INIT \<Rightarrow> (0, d)
      | sm_command_t.TERM \<Rightarrow> (0, d))"

definition sm_mfx :: "sm_t \<Rightarrow> drv \<Rightarrow> int \<times> drv" where
  "sm_mfx sm v0 =
     (let v = on_ddl (use_pgtrack PROTO_NONE) v0
      in case sm_command sm of
           SET \<Rightarrow>
             (case sm_type sm of
                CV_MFX \<Rightarrow> smMfxSetCV (sm_addr sm) (sm_cvaddr sm) (sm_index sm) (sm_value sm) v
              | BIND_MFX \<Rightarrow> smMfxSetBind (sm_addr sm) (u32 (sm_value sm)) v
              | _ \<Rightarrow> (-1, v))
         | sm_command_t.TERM \<Rightarrow> (0, on_mfx (setMfxSM False) v)
         | INIT \<Rightarrow> (0, on_mfx (setMfxSM True) v)
         | _ \<Rightarrow>
             (case sm_type sm of
                CV_MFX \<Rightarrow> smMfxGetCV (sm_addr sm) (sm_cvaddr sm) (sm_index sm) (sm_value sm) v
              | BIND_MFX \<Rightarrow> smMfxVerBind (sm_addr sm) (u32 (sm_value sm)) v
              | _ \<Rightarrow> (-1, v)))"

definition handle_SM :: "bus_t \<Rightarrow> bus_state \<Rightarrow> bus_state" where
  "handle_SM b x =
     (let (v, t) = x
      in if allowSM (ddl v) then
           (case dequeueNextSM b (srv v) of
              (_, None, _) \<Rightarrow> x
            | (_, Some smakt, s) \<Rightarrow>
                (let v1 = v\<lparr>srv := s\<rparr>;
                     (rc, v2) = (case sm_protocol smakt of
                                   PROTO_NMRA \<Rightarrow> in_ddl (sm_nmra smakt) v1
                                 | PROTO_MM \<Rightarrow> in_ddl (sm_mm smakt) v1
                                 | PROTO_MFX \<Rightarrow> sm_mfx smakt v1
                                 | PROTO_NONE \<Rightarrow> (-1, v1))
                 in (v2, t\<lparr>sm_results := sm_results t @ [rc], progwin := 200\<rparr>)))
         else x)"

section \<open>Locomotives\<close>

definition handle_GL :: "bus_t \<Rightarrow> drv \<Rightarrow> drv option" where
  "handle_GL b v =
     (case dequeueNextGL b (srv v) of
        (Some i, s) \<Rightarrow>
          (let glp = gl_at b i s;
               (glp1, d1) = (if gl_protocol glp = CHR ''M'' then comp_maerklin_loco i glp (ddl v)
                             else if gl_protocol glp = CHR ''N'' then comp_nmra_multi_func i glp (ddl v)
                             else if gl_protocol glp = CHR ''X'' then
                               (let (g, d) = comp_mfx_loco i glp (ddl v)
                                in (g, if gl_direction g = -1 then sendDekoderTerm (gl_id g) d else d))
                             else (glp, ddl v))
           in Some (v\<lparr>srv := cacheSetGL b i glp1 (upd_glstate b i (\<lambda>_. glp1) s), ddl := d1\<rparr>))
      | (None, s) \<Rightarrow>
          (case refresh_loco b v of
             None \<Rightarrow> None
           | Some (sent, v1) \<Rightarrow> Some (if sent then v1 else on_ddl (\<lambda>d. (nmra_idle 1 d)\<lparr>spiLastMM := False\<rparr>) v1)))"

section \<open>Accessories\<close>

definition ga_emit :: "ga_data_t \<Rightarrow> ddl_data \<Rightarrow> ddl_data" where
  "ga_emit g d =
     (if ga_protocol g = CHR ''M'' then snd (comp_maerklin_ms (ga_id g) (ga_port g) (ga_action g) d)
      else if ga_protocol g = CHR ''N'' then snd (comp_nmra_accessory (ga_id g) (ga_port g) (ga_action g) (NMRA_GA_OFFSET d) d)
      else d)"

definition ga_activate :: "bus_t \<Rightarrow> bus_state \<Rightarrow> bus_state" where
  "ga_activate b x =
     (let (v, t) = x; v1 = on_ddl (ga_emit (gatmp t)) v; st = gastep t + 1
      in if st = 2 then
           (on_srv (\<lambda>s. snd (setGA b (ga_id (gatmp t)) (gatmp t) s)) v1, t\<lparr>gastep := (if ga_activetime (gatmp t) \<le> 0 then 0 else 2)\<rparr>)
         else (v1, t\<lparr>gastep := st\<rparr>))"

definition ga_deactivate :: "bus_t \<Rightarrow> bus_state \<Rightarrow> bus_state" where
  "ga_deactivate b x =
     (let (v, t) = x; v1 = on_ddl (ga_emit (gatmp t)) v; st = gastep t + 1
      in if st = 4 then (on_srv (\<lambda>s. snd (setGA b (ga_id (gatmp t)) (gatmp t) s)) v1, t\<lparr>gastep := 0\<rparr>)
         else (v1, t\<lparr>gastep := st\<rparr>))"

definition handle_GA :: "bus_t \<Rightarrow> bus_state \<Rightarrow> bus_state" where
  "handle_GA b x =
     (let (v, t) = x
      in if gastep t = 0 then
           (case dequeueNextGA b (srv v) of
              (_, None, _) \<Rightarrow> x
            | (_, Some g, s) \<Rightarrow> ga_activate b (v\<lparr>srv := s\<rparr>, t\<lparr>gatmp := g, tv_ga := clock (srv v)\<rparr>))
         else if gastep t = 1 then ga_activate b x
         else if gastep t = 2 then
           if timeSince (tv_ga t) (srv v) < ga_activetime (gatmp t) * 1000 then x
           else ga_deactivate b (v, t\<lparr>gatmp := (gatmp t)\<lparr>ga_action := 0\<rparr>\<rparr>)
         else if gastep t = 3 then ga_deactivate b x
         else x)"

section \<open>A pass of the bus thread\<close>

definition handle_mfx :: "bus_state \<Rightarrow> bus_state" where
  "handle_mfx x =
     (let (v, t) = x
      in if ENABLED_PROTOCOLS (ddl v) AND EP_MFX \<noteq> 0 \<and> allowSM (ddl v) \<and>
            (tv_sec (tv_mfx t) = 0 \<or> timeSince (tv_mfx t) (srv v) \<ge> nextmfxman t) then
           (let (us, v1) = mfxManagement v in (v1, t\<lparr>nextmfxman := us, tv_mfx := clock (srv v1)\<rparr>))
         else x)"

definition resume_SM :: "drv \<Rightarrow> drv" where
  "resume_SM v =
     (if resumeSM (ddl v) = Some PROTO_MFX then resumeMfxGetCV (on_ddl (\<lambda>d. d\<lparr>resumeSM := None\<rparr>) v) else v)"

definition track_work :: "bus_t \<Rightarrow> bus_state \<Rightarrow> bus_state option" where
  "track_work b x =
     (let (v, t) = x
      in case handle_GL b (resume_SM v) of None \<Rightarrow> None | Some v1 \<Rightarrow> Some (handle_GA b (handle_mfx (v1, t))))"

definition pass :: "bus_t \<Rightarrow> bool \<Rightarrow> bus_state \<Rightarrow> bus_state option" where
  "pass b cts x =
     (let (v1, t1) = handle_SM b x;
          (off, v2, t2) = power_is_off b cts (on_srv (upd_bus b (\<lambda>d. d\<lparr>watchdog := 4\<rparr>)) v1, t1)
      in if off then Some (v2, t2)
         else if pgtrkonly (ddl v2) \<noteq> PROTO_NONE then
           (let v3 = on_ddl (nmra_idle 1) v2
            in if progwin t2 \<noteq> 0 then Some (v3, t2\<lparr>progwin := progwin t2 - 1\<rparr>)
               else track_work b (on_ddl (use_pgtrack PROTO_NONE) v3, t2))
         else track_work b (v2, t2))"

definition thread_start :: ddl_thread where
  "thread_start = \<lparr>gastep = 0, gatmp = ga_zero, tv_ga = tv0, tv_mfx = tv0, nextmfxman = 0, progwin = 0, rts = False, sm_results = []\<rparr>"

section \<open>Accessory commands\<close>

text \<open>C20. An accessory is switched and released again: a command taken from the queue is sent in two passes and
  then reported; as long as its time has not passed nothing more happens and no other command is
  taken; then the release is sent in two passes and reported, and the next command can be taken. A
  command without a time is not released.
\<close>

theorem accessory_cycle:
  assumes "gastep t = 0" and "\<not> ring_isempty (ga_queue (ga (srv v) b))" and "g = ring_peek (ga_queue (ga (srv v) b))"
    and "s = snd (snd (dequeueNextGA b (srv v)))"
  shows "let x2 = handle_GA b (handle_GA b (v, t))
    in ddl (fst x2) = ga_emit g (ga_emit g (ddl v)) \<and> srv (fst x2) = snd (setGA b (ga_id g) g s) \<and>
       gastep (snd x2) = (if ga_activetime g \<le> 0 then 0 else 2) \<and>
       (ga_activetime g > 0 \<longrightarrow> (\<forall>w.
          (timeSince (clock (srv v)) (srv w) < ga_activetime g * 1000 \<longrightarrow> handle_GA b (w, snd x2) = (w, snd x2)) \<and>
          (timeSince (clock (srv v)) (srv w) \<ge> ga_activetime g * 1000 \<longrightarrow>
             (let x4 = handle_GA b (handle_GA b (w, snd x2)); off = g\<lparr>ga_action := 0\<rparr>
              in ddl (fst x4) = ga_emit off (ga_emit off (ddl w)) \<and> srv (fst x4) = snd (setGA b (ga_id g) off (srv w)) \<and> gastep (snd x4) = 0))))"
proof -
  define t1 where "t1 = t\<lparr>gatmp := g, tv_ga := clock (srv v), gastep := 1\<rparr>"
  define t2 where "t2 = t1\<lparr>gastep := (if ga_activetime g \<le> 0 then 0 else 2)\<rparr>"
  define v1 where "v1 = v\<lparr>srv := s, ddl := ga_emit g (ddl v)\<rparr>"
  define v2 where "v2 = v1\<lparr>srv := snd (setGA b (ga_id g) g s), ddl := ga_emit g (ddl v1)\<rparr>"
  have q: "\<exists>i. dequeueNextGA b (srv v) = (i, Some g, s)"
    using assms(2,3) by (auto simp: dequeueNextGA_def Let_def assms(4))
  then have 1: "handle_GA b (v, t) = (v1, t1)"
    using assms(1) by (auto simp: handle_GA_def ga_activate_def Let_def v1_def t1_def)
  have 2: "handle_GA b (v1, t1) = (v2, t2)"
    by (simp add: handle_GA_def ga_activate_def Let_def t1_def t2_def v1_def v2_def)
  have wait: "handle_GA b (w, t2) = (w, t2)" if "ga_activetime g > 0" "timeSince (clock (srv v)) (srv w) < ga_activetime g * 1000" for w
    using that by (simp add: handle_GA_def t2_def t1_def)
  define off where "off = g\<lparr>ga_action := 0\<rparr>"
  define t3 where "t3 = t2\<lparr>gatmp := off, gastep := 3\<rparr>"
  have 3: "handle_GA b (w, t2) = (w\<lparr>ddl := ga_emit off (ddl w)\<rparr>, t3)"
    if "ga_activetime g > 0" "timeSince (clock (srv v)) (srv w) \<ge> ga_activetime g * 1000" for w
    using that by (simp add: handle_GA_def ga_deactivate_def t3_def t2_def t1_def off_def Let_def)
  have 4: "handle_GA b (w, t3) = (w\<lparr>ddl := ga_emit off (ddl w), srv := snd (setGA b (ga_id g) off (srv w))\<rparr>, t3\<lparr>gastep := 0\<rparr>)" for w
    by (simp add: handle_GA_def ga_deactivate_def t3_def off_def Let_def)
  show ?thesis
    unfolding 1 2 Let_def fst_conv snd_conv
    using wait 3 4 by (auto simp: v2_def v1_def t2_def off_def)
qed

definition ga_waiting :: drv where
  "ga_waiting = drv_start (srcpd_init\<lparr>ga := (\<lambda>_. ga_bus_zero\<lparr>ga_queue := ring_put QUEUELEN_GA
     (ga_zero\<lparr>ga_id := 5, ga_protocol := CHR ''N'', ga_action := 1, ga_activetime := 200\<rparr>) (ga_queue ga_bus_zero)\<rparr>)\<rparr>)"

theorem accessory_cycle_witness:
  "gastep (snd (handle_GA 1 (handle_GA 1 (ga_waiting, thread_start)))) = 2"
proof -
  let ?q = "ga_queue (ga (srv ga_waiting) 1)"
  have e: "\<not> ring_isempty ?q" "ga_activetime (ring_peek ?q) = 200"
    by (simp_all add: ga_waiting_def drv_start_def ga_bus_zero_def ring_put_def ring_empty_def ring_isempty_def ring_peek_def
        ring_advance_def QUEUELEN_GA_def)
  show ?thesis
    using accessory_cycle [OF _ e(1) refl refl, of thread_start] e(2) by (simp add: thread_start_def Let_def)
qed

section \<open>Requests of the service mode\<close>

lemma gl_sm_frame [simp]:
  "sm_queue (upd_glstate b i f s) = sm_queue s" "sm_queue (gli_set b r n s) = sm_queue s" "sm_queue (raise_ub s) = sm_queue s"
  by (simp_all add: upd_glstate_def upd_gl_def gli_set_def raise_ub_def)

lemma getGLIndex_sm [simp]: "sm_queue (snd (getGLIndex b locid p s)) = sm_queue s"
  by (auto simp: getGLIndex_def Let_def upd_gl_def split: option.split)

lemma gl_default_init_sm [simp]: "sm_queue (gl_default_init b i locid s) = sm_queue s"
  by (auto simp: gl_default_init_def Let_def split: option.split prod.split)

lemma gl_enter_sm [simp]: "sm_queue (gl_enter b r s) = sm_queue s" by (simp add: gl_enter_def)

lemma get_gldata_ptr_sm [simp]: "sm_queue (snd (get_gldata_ptr b locid s)) = sm_queue s"
  using getGLIndex_sm [of b locid nul s]
  by (auto simp: get_gldata_ptr_def Let_def split: option.split prod.split simp del: getGLIndex_sm)

lemma set_decuid_sm [simp]: "sm_queue (srv (set_decuid a u v)) = sm_queue (srv v)"
  using get_gldata_ptr_sm [of "mfx_bus (mfx v)" "nat (a OR 0x4000)" "srv v"]
  by (auto simp: set_decuid_def split: option.split prod.split simp del: get_gldata_ptr_sm)

lemma sm_mfx_queue: "sm_queue (srv (snd (sm_mfx sm v))) = sm_queue (srv v)"
  by (auto simp: sm_mfx_def smMfxSetCV_def smMfxGetCV_def smMfxSetBind_def smMfxVerBind_def assignSID_def Let_def
      split: sm_command_t.split sm_type_t.split prod.split)


section \<open>Power\<close>

text \<open>C23. Nothing is sent without power: when the power of the bus is off, a pass that does not serve a service
  mode request shifts nothing out, takes no command from the queues for locomotives and accessories,
  and does not advance an accessory command.
\<close>

theorem power_off_silent:
  assumes "power_state (buses (srv v) b) = 0" and "\<not> allowSM (ddl v) \<or> ring_isempty (sm_queue (srv v) b)"
  shows "\<exists>w u. pass b cts (v, t) = Some (w, u) \<and> ddl w = ddl v \<and> gl (srv w) = gl (srv v) \<and> ga (srv w) = ga (srv v) \<and>
    gastep u = gastep t \<and> power_state (buses (srv w) b) = 0"
proof -
  have sm: "handle_SM b (v, t) = (v, t)" using assms(2) by (auto simp: handle_SM_def dequeueNextSM_def)
  show ?thesis
    using assms(1) unfolding pass_def sm
    by (auto simp: power_is_off_def Let_def)
qed

theorem power_off_silent_witness:
  "\<exists>w u. pass 1 True (drv_start srcpd_init, thread_start) = Some (w, u) \<and> ddl w = ddl (drv_start srcpd_init) \<and>
    gl (srv w) = gl (srv (drv_start srcpd_init)) \<and> ga (srv w) = ga (srv (drv_start srcpd_init)) \<and>
    gastep u = gastep thread_start \<and> power_state (buses (srv w) 1) = 0"
  by (rule power_off_silent) (simp_all add: drv_start_def srcpd_init_def bus_zero_def ring_isempty_def ring_empty_def)

section \<open>Shortcuts\<close>

text \<open>C21. A lasting shortcut cuts the power: when the shortcut input has reported a shortcut for the configured time, the
  next pass that serves no service mode request switches the power state and the booster output off, sends nothing
  on the track, and leaves every command in its queue.
\<close>

theorem shortcut_cuts_power:
  assumes "CHECKSHORT (ddl v) \<noteq> 0" and "cts = (CHECKSHORT (ddl v) = 2)" and "power_state (buses (srv v) b) \<noteq> 0"
    and "\<not> allowSM (ddl v) \<or> ring_isempty (sm_queue (srv v) b)" and "short_detected (ddl v) \<noteq> 0"
    and "SHORTCUTDELAY (ddl v) \<le> tv_sec (clock (srv v)) * 1000000 + tv_usec (clock (srv v)) - short_detected (ddl v)"
  shows "\<exists>w u. pass b cts (v, t) = Some (w, u) \<and> power_state (buses (srv w) b) = 0 \<and> \<not> rts u \<and>
    transfers (ddl w) = transfers (ddl v) \<and> gl (srv w) = gl (srv v) \<and> ga (srv w) = ga (srv v) \<and> short_detected (ddl w) = 0"
proof -
  have sm: "handle_SM b (v, t) = (v, t)" using assms(4) by (auto simp: handle_SM_def dequeueNextSM_def)
  let ?v = "on_srv (upd_bus b (\<lambda>d. d\<lparr>watchdog := 4\<rparr>)) v"
  have c: "checkShortcut cts ?v = (True, ?v)" using assms(1,2,5,6) by (auto simp: checkShortcut_def Let_def)
  have p: "power_state (buses (srv (cut_power b m w)) b) = 0" "power_changed (buses (srv (cut_power b m w)) b) = 2"
    "ddl (cut_power b m w) = ddl w" "gl (srv (cut_power b m w)) = gl (srv w)" "ga (srv (cut_power b m w)) = ga (srv w)" for m w
    by (simp_all add: cut_power_def Let_def)
  show ?thesis
    using assms(1,3) unfolding pass_def sm prod.case Let_def
    by (simp add: power_is_off_def c p Let_def)
qed

definition shorted :: drv where
  "shorted = (drv_start (srcpd_init\<lparr>clock := \<lparr>tv_sec = 2, tv_usec = 0\<rparr>, buses := (\<lambda>_. bus_zero\<lparr>power_state := 1\<rparr>)\<rparr>))\<lparr>ddl :=
     ddl_start\<lparr>CHECKSHORT := 1, SHORTCUTDELAY := 1000, short_detected := 1000000\<rparr>\<rparr>"

theorem shortcut_cuts_power_witness:
  "\<exists>w u. pass 1 False (shorted, thread_start) = Some (w, u) \<and> power_state (buses (srv w) 1) = 0 \<and> \<not> rts u \<and>
    transfers (ddl w) = transfers (ddl shorted) \<and> gl (srv w) = gl (srv shorted) \<and> ga (srv w) = ga (srv shorted) \<and>
    short_detected (ddl w) = 0"
  by (rule shortcut_cuts_power) (simp_all add: shorted_def drv_start_def srcpd_init_def ring_isempty_def ring_empty_def)

section \<open>Locomotives of the mfx protocol\<close>

lemma scan_uid:
  assumes "u < 10 ^ 10"
  shows "scan_number (take 10 (dropWhile isspace (show_nat u))) = Some (False, u, [])"
proof -
  have "is_dec (hd (show_nat u))" using show_nat_digits [OF hd_in_set [OF show_nat_nonempty]] .
  then have "\<not> isspace (hd (show_nat u))" by (auto simp: is_dec_def isspace_def)
  then have "dropWhile isspace (show_nat u) = show_nat u" by (cases "show_nat u") auto
  moreover have "length (show_nat u) \<le> 10" using length_show_nat [of u 9] assms by simp
  ultimately show ?thesis using scan_number_show [of "[]" "int u"] by (simp add: show_int_def)
qed

text \<open>The UID of an mfx locomotive: the INIT of an mfx locomotive stores the UID that the command gives, and the
  description shows it. A command without a UID, which is allowed, takes it from a buffer of the command
  handler that nobody has written: for every UID there is a content of the buffer that gives it.
\<close>

theorem mfx_init_uid:
  assumes "gl_protocol p = CHR ''X''" and "gl_n_func p \<le> 32" and "gl_protocolversion p \<le> 1" and "u < 2 ^ 32"
  shows "init_gl_DDL stale p (Some (show_nat u)) = (SRCP_OK, p\<lparr>gl_decuid := int u\<rparr>) \<and>
    describe_gl_DDL (snd (init_gl_DDL stale p (Some (show_nat u)))) msg = msg @ '' '' @ show_nat u \<and>
    (\<exists>stale. init_gl_DDL stale p None = (SRCP_OK, p\<lparr>gl_decuid := int u\<rparr>))"
proof -
  have "u < 10 ^ 10" using assms(4) by simp
  note scan = scan_uid [OF this]
  have u: "u32 (to_ulong False u) = int u" using assms(4) by (simp add: to_ulong_def u32_def)
  have e: "init_gl_DDL x p (Some (show_nat u)) = (SRCP_OK, p\<lparr>gl_decuid := int u\<rparr>)"
    "init_gl_DDL (show_nat u) p None = (SRCP_OK, p\<lparr>gl_decuid := int u\<rparr>)" for x
    using assms(1-3) scan u by (simp_all add: init_gl_DDL_def)
  then show ?thesis using assms(1) by (auto simp: describe_gl_DDL_def show_int_def)
qed

theorem mfx_init_uid_witness:
  "\<exists>stale. init_gl_DDL stale (gl_zero\<lparr>gl_id := 7, gl_protocol := CHR ''X'', gl_n_func := 16\<rparr>) None =
     (SRCP_OK, gl_zero\<lparr>gl_id := 7, gl_protocol := CHR ''X'', gl_n_func := 16, gl_decuid := 12345\<rparr>)"
  using mfx_init_uid [of "gl_zero\<lparr>gl_id := 7, gl_protocol := CHR ''X'', gl_n_func := 16\<rparr>" 12345] by (simp add: gl_zero_def)

section \<open>From the command to the track\<close>

lemma get_gldata_ptr_rest [simp]:
  "gl_queue (gl (snd (get_gldata_ptr b locid s)) c) = gl_queue (gl s c)" "buses (snd (get_gldata_ptr b locid s)) = buses s"
proof -
  obtain ro s1 where g: "getGLIndex b locid nul s = (ro, s1)" by fastforce
  have "gl_queue (gl (snd (getGLIndex b locid nul s)) c) = gl_queue (gl s c)" "buses (snd (getGLIndex b locid nul s)) = buses s" by simp_all
  then have "gl_queue (gl s1 c) = gl_queue (gl s c)" "buses s1 = buses s" by (simp_all only: g snd_conv)
  moreover have "gl_queue (gl (gl_default_init b i locid t) c) = gl_queue (gl t c)" "buses (gl_default_init b i locid t) = buses t" for i t
    by (auto simp: gl_default_init_def Let_def split: option.split prod.split)
  ultimately show "gl_queue (gl (snd (get_gldata_ptr b locid s)) c) = gl_queue (gl s c)" "buses (snd (get_gldata_ptr b locid s)) = buses s"
    unfolding get_gldata_ptr_def g by (auto simp: Let_def split: option.split)
qed

lemma gl_sync_rest [simp]: "buses (gl_sync b p c f s) = buses s" "sm_queue (gl_sync b p c f s) = sm_queue s"
proof -
  have "buses (fold (\<lambda>k s. if bit c k then snd (info_mcs b 0x0D it [int k, func_bit f k] s) else s) ks s) = buses s"
    "sm_queue (fold (\<lambda>k s. if bit c k then snd (info_mcs b 0x0D it [int k, func_bit f k] s) else s) ks s) = sm_queue s"
    for ks it s by (induction ks arbitrary: s) auto
  then show "buses (gl_sync b p c f s) = buses s" "sm_queue (gl_sync b p c f s) = sm_queue s"
    by (auto simp: gl_sync_def Let_def case_prod_unfold)
qed

lemma gl_push_sm [simp]: "sm_queue (gl_push b i s) = sm_queue s"
  by (simp add: gl_push_def Let_def upd_gl_def)

lemma enqueueGL_first:
  assumes inv: "gl_inv (gl s b)" and few: "numberOfGl (gl s b) \<le> 198" and idle: "gl_pending b s = []"
    and ok: "fst (enqueueGL b locid dir v m f s) = SRCP_OK"
  shows "\<exists>i p. gl_pending b (snd (enqueueGL b locid dir v m f s)) = [i] \<and>
    gl_inv (gl (snd (enqueueGL b locid dir v m f s)) b) \<and>
    gl_at b i (snd (enqueueGL b locid dir v m f s)) = gl_command dir v m f p \<and>
    buses (snd (enqueueGL b locid dir v m f s)) = buses s \<and> sm_queue (snd (enqueueGL b locid dir v m f s)) = sm_queue s"
proof -
  obtain i s1 where g: "get_gldata_ptr b locid s = (Some i, s1)"
    using ok by (cases "get_gldata_ptr b locid s", cases "fst (get_gldata_ptr b locid s)") (auto simp: enqueueGL_def srcp_codes)
  have st: "gl_state (gl_at b i s1) \<noteq> glsNone" using get_gldata_ptr_state [of b locid s i] g by simp
  have k: "gl_keeps b s s1" using get_gldata_ptr_keeps [of b s locid] g by simp
  define s2 where "s2 = upd_glstate b i (gl_command dir v m f) s1"
  define s3 where "s3 = (if calcspeed_fits v m (gl_n_fs (gl_at b i s1)) then s2 else raise_ub s2)"
  have s3: "gl s3 = gl (upd_glstate b i (gl_command dir v m f) s1)" by (simp add: s3_def s2_def)
  then have "gl_state (gl_at b i s3) \<noteq> glsNone" using st by simp
  then have e: "gl (snd (enqueueGL b locid dir v m f s)) = gl (gl_push b i s3)"
    and r: "buses (snd (enqueueGL b locid dir v m f s)) = buses s3" "sm_queue (snd (enqueueGL b locid dir v m f s)) = sm_queue s3"
    using g gl_enqueue_contents [where b = b and i = i and s = s3]
    by (simp_all add: enqueueGL_def Let_def s2_def [symmetric]) (simp_all add: s3_def split: if_splits)
  have inv3: "gl_inv (gl s3 b)" and "numberOfGl (gl s3 b) \<le> 198" and "gl_pending b s3 = []"
    using k inv few idle get_gldata_ptr_rest(1) [of b locid s b] g by (simp_all add: s3 gl_keeps_def)
  then have "gl_pending b (gl_push b i s3) = [i]"
    using gl_push_contents [of s3 b i] gl_inv_not_full [of s3 b] by (simp add: gl_inv_def)
  moreover have "gl_inv (gl (snd (enqueueGL b locid dir v m f s)) b)"
    using enqueueGL_keeps [of b s locid dir v m f] inv by (simp add: gl_keeps_def)
  moreover have "buses s3 = buses s" "sm_queue s3 = sm_queue s"
    using get_gldata_ptr_rest(2) [of b locid s] get_gldata_ptr_sm [of b locid s] g by (simp_all add: s3_def s2_def)
  ultimately show ?thesis by (intro exI [of _ i] exI [of _ "gl_at b i s1"]) (simp add: e s3 r)
qed

lemma track_kept:
  "prefix (transfers (ddl v)) (transfers (ddl (snd (mfxManagement v))))"
  "prefix (transfers d) (transfers (ga_emit g d))"
proof -
  have s: "prefix (transfers d) (transfers (send p ty n d))" for p ty n d using same_rest_send [of d p ty n] by (simp add: same_rest_def)
  have u: "prefix (transfers d) (transfers (sendUIDandRegCounter a c d))" "prefix (transfers d) (transfers (sendSearchNewDecoder a c d))" for a c d
    by (simp_all add: sendUIDandRegCounter_def sendSearchNewDecoder_def sendMFXPaket_def Let_def s)
  show "prefix (transfers (ddl v)) (transfers (ddl (snd (mfxManagement v))))"
    using prefix_order.trans [OF u(1) u(2)] by (auto simp: mfxManagement_def Let_def u)
  show "prefix (transfers d) (transfers (ga_emit g d))"
    by (auto simp: ga_emit_def comp_maerklin_ms_def comp_nmra_accessory_def Let_def s split: option.split)
qed

lemma work_kept: "prefix (transfers (ddl v)) (transfers (ddl (fst (handle_GA b (handle_mfx (v, t))))))"
proof -
  have a: "prefix (transfers (ddl v)) (transfers (ddl (fst (ga_activate b (v, t)))))"
    "prefix (transfers (ddl v)) (transfers (ddl (fst (ga_deactivate b (v, t)))))" for v t
    by (auto simp: ga_activate_def ga_deactivate_def Let_def track_kept)
  have g: "prefix (transfers (ddl v)) (transfers (ddl (fst (handle_GA b (v, t)))))" for v t
    using a [of "v\<lparr>srv := s\<rparr>" for s] a [of v] by (auto simp: handle_GA_def split: option.split prod.split)
  have m: "prefix (transfers (ddl v)) (transfers (ddl (fst (handle_mfx (v, t)))))"
    using track_kept(1) [of v] by (auto simp: handle_mfx_def split: prod.split)
  show ?thesis using prefix_order.trans [OF m] g [of "fst (handle_mfx (v, t))" "snd (handle_mfx (v, t))"] by simp
qed

lemma handle_GL_takes:
  assumes "gl_pending b (srv v) = i # q" and "ring_ok QUEUELEN_GL (gl_queue (gl (srv v) b))" and "gl_protocol (gl_at b i (srv v)) = CHR ''N''"
  shows "\<exists>w. handle_GL b v = Some w \<and> ddl w = snd (comp_nmra_multi_func i (gl_at b i (srv v)) (ddl v))"
proof -
  have ne: "\<not> ring_isempty (gl_queue (gl (srv v) b))" using assms(1,2) by (auto simp: ring_isempty_def ring_list_def ring_len_def)
  then have "ring_peek (gl_queue (gl (srv v) b)) = i" using ring_list_drop [OF assms(2) ne] assms(1) by simp
  then have "dequeueNextGL b (srv v) = (Some i, upd_gl b (\<lambda>g. g\<lparr>gl_queue := ring_drop QUEUELEN_GL (gl_queue (gl (srv v) b))\<rparr>) (srv v))"
    using ne by (simp add: dequeueNextGL_def)
  then show ?thesis using assms(3) by (simp add: handle_GL_def Let_def case_prod_unfold)
qed

lemma pass_with_power:
  assumes "\<not> allowSM (ddl v) \<or> ring_isempty (sm_queue (srv v) b)" and "power_state (buses (srv v) b) \<noteq> 0" and "CHECKSHORT (ddl v) = 0"
    and "\<not> CHECKCLIENTS (ddl v)" and "pgtrkonly (ddl v) = PROTO_NONE" and "resumeSM (ddl v) = None"
  shows "\<exists>w u. gl (srv w) = gl (srv v) \<and> ddl w = ddl v \<and> pass b cts (v, t) =
    (case handle_GL b w of None \<Rightarrow> None | Some x \<Rightarrow> Some (handle_GA b (handle_mfx (x, u))))"
proof -
  have sm: "handle_SM b (v, t) = (v, t)" using assms(1) by (auto simp: handle_SM_def dequeueNextSM_def)
  have "\<exists>w u. power_is_off b cts (on_srv (upd_bus b (\<lambda>d. d\<lparr>watchdog := 4\<rparr>)) v, t) = (False, w, u) \<and>
      gl (srv w) = gl (srv v) \<and> ddl w = ddl v"
    using assms(2-4) by (cases "power_changed (buses (srv v) b) > 0") (simp_all add: power_is_off_def Let_def)
  then obtain w u where "power_is_off b cts (on_srv (upd_bus b (\<lambda>d. d\<lparr>watchdog := 4\<rparr>)) v, t) = (False, w, u)"
    "gl (srv w) = gl (srv v)" "ddl w = ddl v" by blast
  then show ?thesis using assms(5,6)
    by (intro exI [of _ w] exI [of _ u]) (simp add: pass_def sm track_work_def resume_SM_def)
qed

lemma commanded_speed:
  assumes "gl_speedchange (gl_command dir v m f p) AND SCEMERG = 0" and "dir = 0 \<or> dir = 1" and "0 < m" and "1 \<le> gl_n_fs p" and "gl_n_fs p < 256"
  shows "nmra_speed (gl_command dir v m f p) = (let k = calcspeed v m (gl_n_fs p) in (if k = 0 then 0 else min 127 (k + 1), dir))"
proof -
  have "u8 (calcspeed v m (gl_n_fs p)) = calcspeed v m (gl_n_fs p)"
    using calcspeed_range [OF assms(3,4), of v] assms(5) by (simp add: u8_def)
  then show ?thesis using assms(1,2) by (auto simp: nmra_speed_def Let_def)
qed

lemma pass_drives:
  assumes "gl_pending b (srv v) = i # q" and "ring_ok QUEUELEN_GL (gl_queue (gl (srv v) b))" and "p = gl_at b i (srv v)"
    and "gl_protocol p = CHR ''N''" and "nmra_accepts p" and "gl_n_fs p = 14 \<or> gl_n_fs p = 28 \<or> gl_n_fs p = 128" and "spi_works (ddl v)"
    and "\<not> allowSM (ddl v) \<or> ring_isempty (sm_queue (srv v) b)" and "power_state (buses (srv v) b) \<noteq> 0" and "CHECKSHORT (ddl v) = 0"
    and "\<not> CHECKCLIENTS (ddl v)" and "pgtrkonly (ddl v) = PROTO_NONE" and "resumeSM (ddl v) = None"
  shows "\<exists>w u n hz bs post. pass b cts (v, t) = Some (w, u) \<and>
    transfers (ddl w) = transfers (ddl v) @ replicate (n + 2) (hz, bs) @ post \<and>
    (\<forall>adr. heard_drive (gl_n_fs p) adr (received bs) = (if adr = gl_id p then [(snd (nmra_speed p) = 1, fst (nmra_speed p))] else []))"
proof -
  obtain bs where tr: "transfers (snd (comp_nmra_multi_func i p (ddl v))) =
      transfers (ddl v) @ replicate (if fx_enabled p then 4 else 2) (SPI_BAUDRATE_NMRA_2, bs)"
    and h: "\<And>adr. heard adr (received bs) = (if adr = gl_id p then map (map (take_bit 8)) (fst (loco_instrs p)) else [])"
    using comp_nmra_transfers [OF assms(7,5), of i] by blast
  have "(if fx_enabled p then 4 else 2) = (if fx_enabled p then 2 else 0) + (2 :: nat)" by simp
  then obtain n where n: "transfers (snd (comp_nmra_multi_func i p (ddl v))) = transfers (ddl v) @ replicate (n + 2) (SPI_BAUDRATE_NMRA_2, bs)"
    using tr by metis
  have hd: "heard_drive (gl_n_fs p) adr (received bs) = (if adr = gl_id p then [(snd (nmra_speed p) = 1, fst (nmra_speed p))] else [])" for adr
    using drive_loco_instrs [OF assms(5,6)] by (simp add: heard_drive_def h List.map_filter_simps)
  obtain w u where w: "gl (srv w) = gl (srv v)" "ddl w = ddl v" and pass: "pass b cts (v, t) =
      (case handle_GL b w of None \<Rightarrow> None | Some x \<Rightarrow> Some (handle_GA b (handle_mfx (x, u))))"
    using pass_with_power [OF assms(8-13), of cts t] by auto
  obtain x where x: "handle_GL b w = Some x" "ddl x = snd (comp_nmra_multi_func i p (ddl v))"
    using handle_GL_takes [of w b i q] assms(1-4) by (auto simp: w)
  obtain post where "transfers (ddl (fst (handle_GA b (handle_mfx (x, u))))) = transfers (ddl x) @ post"
    using work_kept [of x b u] by (auto simp: prefix_def)
  then show ?thesis
    using pass x n hd
    by (intro exI [of _ "fst (handle_GA b (handle_mfx (x, u)))"] exI [of _ "snd (handle_GA b (handle_mfx (x, u)))"]
        exI [of _ n] exI [of _ SPI_BAUDRATE_NMRA_2] exI [of _ bs] exI [of _ post]) auto
qed

text \<open>C1. A drive command reaches the decoder: when the queue is empty and the power is on, after a SET for a DCC
  locomotive that the server has accepted the next pass of the bus thread shifts out, at least twice and before anything else,
  a signal in which the decoder with the address of the locomotive, and no other, hears one drive instruction, with
  the commanded direction and the speed step for the commanded speed.
\<close>

theorem command_reaches_decoder:
  assumes "gl_inv (gl (srv v) b)" and "numberOfGl (gl (srv v) b) \<le> 198" and "gl_pending b (srv v) = []" and "spi_works (ddl v)"
    and "enqueueGL b locid dir speed maxspeed f (srv v) = (SRCP_OK, s)" and "dir = 0 \<or> dir = 1" and "0 < maxspeed"
    and "p = gl_at b (hd (gl_pending b s)) s" and "gl_protocol p = CHR ''N''" and "loco_address (gl_id p) (gl_protocolversion p)"
    and "gl_n_fs p = 14 \<or> gl_n_fs p = 28 \<or> gl_n_fs p = 128" and "gl_speedchange p AND SCEMERG = 0"
    and "\<not> allowSM (ddl v) \<or> ring_isempty (sm_queue (srv v) b)" and "power_state (buses (srv v) b) \<noteq> 0" and "CHECKSHORT (ddl v) = 0"
    and "\<not> CHECKCLIENTS (ddl v)" and "pgtrkonly (ddl v) = PROTO_NONE" and "resumeSM (ddl v) = None"
  shows "\<exists>w u n hz bs post. pass b cts (v\<lparr>srv := s\<rparr>, t) = Some (w, u) \<and>
    transfers (ddl w) = transfers (ddl v) @ replicate (n + 2) (hz, bs) @ post \<and>
    (\<forall>adr. heard_drive (gl_n_fs p) adr (received bs) = (if adr = gl_id p then
       [(dir = 1, let k = calcspeed speed maxspeed (gl_n_fs p) in if k = 0 then 0 else min 127 (k + 1))] else []))"
proof -
  have ok: "fst (enqueueGL b locid dir speed maxspeed f (srv v)) = SRCP_OK" "snd (enqueueGL b locid dir speed maxspeed f (srv v)) = s"
    using assms(5) by simp_all
  obtain i q where i: "gl_pending b s = [i]" "gl_inv (gl s b)" "gl_at b i s = gl_command dir speed maxspeed f q"
    and r: "buses s = buses (srv v)" "sm_queue s = sm_queue (srv v)"
    using enqueueGL_first [OF assms(1-3) ok(1)] unfolding ok(2) by blast
  have pi: "p = gl_at b i s" "p = gl_command dir speed maxspeed f q" using assms(8) i by simp_all
  have q: "gl_n_fs q = gl_n_fs p" "1 \<le> gl_n_fs q" "gl_n_fs q < 256" using pi(2) assms(11) by auto
  let ?k = "calcspeed speed maxspeed (gl_n_fs p)"
  have sp: "nmra_speed p = (if ?k = 0 then 0 else min 127 (?k + 1), dir)"
    using commanded_speed [of dir speed maxspeed f q, OF _ assms(6,7) q(2,3)] assms(12) q(1) by (simp add: pi(2) [symmetric] Let_def)
  have acc: "nmra_accepts p"
    using assms(6,10) calcspeed_range [OF assms(7), of "gl_n_fs p" speed] q(1,2) by (auto simp: nmra_accepts_def sp)
  have rk: "ring_ok QUEUELEN_GL (gl_queue (gl s b))" using i(2) by (simp add: gl_inv_def)
  have "\<exists>w u n hz bs post. pass b cts (v\<lparr>srv := s\<rparr>, t) = Some (w, u) \<and>
    transfers (ddl w) = transfers (ddl (v\<lparr>srv := s\<rparr>)) @ replicate (n + 2) (hz, bs) @ post \<and>
    (\<forall>adr. heard_drive (gl_n_fs p) adr (received bs) = (if adr = gl_id p then [(snd (nmra_speed p) = 1, fst (nmra_speed p))] else []))"
    by (rule pass_drives [where i = i and q = "[]"]) (use rk i(1) pi(1) acc r assms(4,9,11,13-18) in simp_all)
  moreover have "ddl (v\<lparr>srv := s\<rparr>) = ddl v" by simp
  ultimately show ?thesis unfolding Let_def sp fst_conv snd_conv by metis
qed

definition dcc_loco :: gl_data_t where
  "dcc_loco = gl_zero\<lparr>gl_id := 3, gl_protocol := CHR ''N'', gl_protocolversion := 1, gl_n_fs := 28, gl_state := glsActive\<rparr>"

definition dcc_state :: srcpd where
  "dcc_state = (gl_demo ''N'')\<lparr>buses := (\<lambda>_. bus_zero\<lparr>power_state := 1\<rparr>), gl := (\<lambda>_. gl_bus_zero)(1 := gl_bus_zero\<lparr>numberOfGl := 4,
     glstate := (\<lambda>_. gl_zero)(1 := dcc_loco), gldir := Some (gldir_zero\<lparr>nmradir := (\<lambda>_. 0)(3 := 1), proto := (\<lambda>_. nul)(3 := CHR ''N'')\<rparr>)\<rparr>)\<rparr>"

lemma dcc_ptr: "get_gldata_ptr (Suc 0) 3 dcc_state = (Some 1, dcc_state)"
  by (simp add: get_gldata_ptr_def gl_eval dcc_state_def dcc_loco_def gl_bus_zero_def upd_gl_def)

lemma dcc_ready [simp]: "gl_inv (gl dcc_state 1)" "numberOfGl (gl dcc_state 1) = 4" "gl_pending 1 dcc_state = []"
proof -
  have "int (gli_read r (gldir_zero\<lparr>nmradir := (\<lambda>_. 0)(3 := 1), proto := (\<lambda>_. nul)(3 := CHR ''N'')\<rparr>)) \<le> 4" for r
    by (cases r) (simp_all add: gldir_zero_def)
  then show "gl_inv (gl dcc_state 1)" "numberOfGl (gl dcc_state 1) = 4" "gl_pending 1 dcc_state = []"
    by (simp_all add: gl_inv_def dcc_state_def gl_bus_zero_def)
qed

lemma dcc_driven:
  obtains s where "enqueueGL 1 3 1 7 14 0 dcc_state = (SRCP_OK, s)" "gl_pending 1 s = [1]" "gl_at 1 1 s = gl_command 1 7 14 0 dcc_loco"
proof -
  define s where "s = snd (enqueueGL 1 3 1 7 14 0 dcc_state)"
  have d: "gl_at 1 1 dcc_state = dcc_loco" "gl_state dcc_loco = glsActive" by (simp_all add: dcc_state_def dcc_loco_def)
  have e: "gl s = gl (gl_push 1 1 (upd_glstate 1 1 (gl_command 1 7 14 0) dcc_state))"
    using d by (simp add: s_def enqueueGL_def dcc_ptr Let_def gl_enqueue_contents) (simp add: gl_push_def Let_def queue_isfull_gl_def queue_len_gl_def)
  have "enqueueGL 1 3 1 7 14 0 dcc_state = (SRCP_OK, s)" by (simp add: s_def enqueueGL_def dcc_ptr Let_def)
  moreover have "ring_len 200 (gl_queue (gl dcc_state 1)) = 0" by (simp add: dcc_state_def gl_bus_zero_def ring_empty_def ring_len_def)
  then have "gl_pending 1 s = [1]" using e dcc_ready gl_push_contents [of _ 1 1] by (simp add: gl_inv_def queue_isfull_gl_def queue_len_gl_def)
  moreover have "gl_at 1 1 s = gl_command 1 7 14 0 dcc_loco" using e d by simp
  ultimately show thesis by (rule that)
qed

theorem command_reaches_decoder_witness:
  "\<exists>s w u n hz bs post. enqueueGL 1 3 1 7 14 0 dcc_state = (SRCP_OK, s) \<and>
    pass 1 True ((drv_start dcc_state)\<lparr>srv := s\<rparr>, thread_start) = Some (w, u) \<and>
    transfers (ddl w) = replicate (n + 2) (hz, bs) @ post \<and> heard_drive 28 3 (received bs) = [(True, 15)]"
proof -
  obtain s where s: "enqueueGL 1 3 1 7 14 0 dcc_state = (SRCP_OK, s)" "gl_pending 1 s = [1]" "gl_at 1 1 s = gl_command 1 7 14 0 dcc_loco"
    by (rule dcc_driven)
  have p: "gl_at 1 (hd (gl_pending 1 s)) s = gl_command 1 7 14 0 dcc_loco" using s by simp
  have c: "gl_protocol (gl_command 1 7 14 0 dcc_loco) = CHR ''N''" "gl_id (gl_command 1 7 14 0 dcc_loco) = 3"
    "gl_protocolversion (gl_command 1 7 14 0 dcc_loco) = 1" "gl_n_fs (gl_command 1 7 14 0 dcc_loco) = 28"
    "gl_speedchange (gl_command 1 7 14 0 dcc_loco) AND SCEMERG = 0"
    by (simp_all add: gl_command_def dcc_loco_def gl_zero_def gl_consts calcspeed_def clip_speed_def Let_def tdiv_def u8_def drop_bit_eq_div)
  have k: "calcspeed 7 14 28 = 14" by (simp add: calcspeed_def clip_speed_def Let_def tdiv_def drop_bit_eq_div)
  have d: "ring_isempty (sm_queue dcc_state 1)" "power_state (buses dcc_state 1) = 1"
    by (simp_all add: dcc_state_def gl_demo_def init_GL_def srcpd_init_def ring_isempty_def ring_empty_def)
  have "\<exists>w u n hz bs post. pass 1 True ((drv_start dcc_state)\<lparr>srv := s\<rparr>, thread_start) = Some (w, u) \<and>
    transfers (ddl w) = transfers (ddl (drv_start dcc_state)) @ replicate (n + 2) (hz, bs) @ post \<and>
    (\<forall>adr. heard_drive (gl_n_fs (gl_command 1 7 14 0 dcc_loco)) adr (received bs) = (if adr = gl_id (gl_command 1 7 14 0 dcc_loco) then
       [((1 :: int) = 1, let k = calcspeed 7 14 (gl_n_fs (gl_command 1 7 14 0 dcc_loco)) in if k = 0 then 0 else min 127 (k + 1))] else []))"
    by (rule command_reaches_decoder [where locid = 3 and f = 0])
      (use s(1) p c d dcc_ready in \<open>simp_all add: drv_start_def loco_address_def ddl_start_def spi_works_def\<close>)
  then obtain w u n hz bs post where w: "pass 1 True ((drv_start dcc_state)\<lparr>srv := s\<rparr>, thread_start) = Some (w, u)"
    "transfers (ddl w) = replicate (n + 2) (hz, bs) @ post"
    and h: "\<forall>adr. heard_drive 28 adr (received bs) = (if adr = 3 then [(True, 15)] else [])"
    unfolding c k Let_def by (auto simp: drv_start_def ddl_start_def)
  have "heard_drive 28 3 (received bs) = [(True, 15)]" using h by simp
  with s(1) w show ?thesis by blast
qed

end
