(* ===== verification/Mcs_Gateway.thy ===== *)
theory Mcs_Gateway
  imports Ddl_Bus
begin

unbundle bit_operations_syntax

text \<open>
  The gateway to a central station on a CAN bus (\<open>mcs-gateway.c\<close>) and the start and end of the DDL bus
  (\<open>init_bus_DDL\<close> and \<open>end_bus_thread\<close> of \<open>ddl.c\<close>), which start and end the gateway. A pass of \<open>thr_handleCAN\<close>
  handles one result of \<open>select\<close> and \<open>read\<close>. Frames that are written are appended to \<open>mcs_out\<close>; a failed
  write is only logged. The static variables of both files are in the record \<open>ddl_static\<close>, save those
  that are part of the daemon's state (\<open>mcs_bus\<close>, \<open>ownuid\<close>, \<open>ownhash\<close>, \<open>pingactive\<close>).
\<close>

section \<open>State\<close>

text \<open>
  \<open>line_open\<close>: the device of the bus is open; \<open>gw_open\<close>: the CAN socket is open; \<open>konf_serial\<close>: the last four bytes of
  \<open>gfpstkonf0H\<close>; \<open>proto_buf\<close>: the static array \<open>protocols\<close>; \<open>proto_buses\<close>: the buses whose \<open>protocols\<close> points to it;
  \<open>simma\<close> and \<open>accactive\<close>: local variables of the thread.
\<close>

record ddl_static =
  line_open :: bool
  gw_open :: bool
  softvers :: "int list"
  konf_serial :: "int list"
  proto_buf :: string
  proto_buses :: "bus_t set"
  simma :: bool
  accactive :: int

type_synonym gw_state = "drv \<times> ddl_static"

text \<open>
  What they find outside: whether the device can be opened and is an SPI device, whether a CAN interface is configured and can be bound, the number in the
  version string of the build, the serial number and the temperature of the platform, and what the other
  threads do while a service mode request waits for its result.
\<close>

record gw_env =
  line_ok :: bool
  spidev :: bool
  has_mcs :: bool
  bind_ok :: bool
  version :: nat
  serial :: nat
  temper :: nat
  sm_wait :: "srcpd \<Rightarrow> int option \<times> srcpd"

section \<open>Start and end\<close>

text \<open>\<open>htonl\<close> on a little-endian machine.\<close>

definition swap32 :: "int \<Rightarrow> int" where
  "swap32 i = be32 (rev (be32_bytes i))"

definition init_mcs_gateway :: "gw_env \<Rightarrow> bus_t \<Rightarrow> gw_state \<Rightarrow> gw_state" where
  "init_mcs_gateway e b x =
     (let (v, g) = x; u = u32 (station_uid (ddl v)); ouid = swap32 u;
          v1 = on_srv (\<lambda>s. s\<lparr>ownuid := u, ownhash := (((drop_bit 16 ouid) XOR ouid) AND 0xFF7F) OR 0x300\<rparr>) v;
          g1 = g\<lparr>softvers := be32_bytes u @ [u8 (int (version e div 100)), int (version e mod 100)] @ drop 6 (softvers g),
                 konf_serial := be32_bytes (int (serial e mod 1000000))\<rparr>
      in if gw_open g1 then (v1, g1)
         else if bind_ok e then (on_srv (\<lambda>s. s\<lparr>mcs_bus := b\<rparr>) v1, g1\<lparr>gw_open := True, simma := False, accactive := 0\<rparr>)
         else (v1, g1))"

definition end_handleCAN :: "gw_state \<Rightarrow> gw_state" where
  "end_handleCAN x = (let (v, g) = x in (on_srv (\<lambda>s. s\<lparr>mcs_bus := 0\<rparr>) v, g\<lparr>gw_open := False\<rparr>))"

definition reset_MFXPacketPool :: "drv \<Rightarrow> drv" where
  "reset_MFXPacketPool v =
     (let pool = MFXPacketPool (ddl v)
      in on_mfx stopMFXSearch (on_ddl (\<lambda>d. d\<lparr>MFXPacketPool := pool\<lparr>packets :=
           fold (\<lambda>i m. m(nat (knownAddresses pool i) := None)) [0..<NrOfKnownAddresses pool] (packets pool)\<rparr>\<rparr>) v))"

definition init_MaerklinPacketPool :: "ddl_data \<Rightarrow> ddl_data" where
  "init_MaerklinPacketPool d =
     d\<lparr>MaerklinPacketPool := (MaerklinPacketPool d)\<lparr>knownAddresses := (\<lambda>_. 0), NrOfKnownAddresses := 0\<rparr>\<rparr>"

definition init_NMRAPacketPool :: "ddl_data \<Rightarrow> ddl_data" where
  "init_NMRAPacketPool d = d\<lparr>NMRAPacketPool := pool_init\<rparr>"

definition init_MFXPacketPool :: "bus_t \<Rightarrow> drv \<Rightarrow> drv" where
  "init_MFXPacketPool b v =
     on_mfx (\<lambda>m. snd (startMFXManagement b (AUTO_MFX_SEARCH (ddl v)) m)) (on_ddl (\<lambda>d. d\<lparr>MFXPacketPool := pool_init\<rparr>) v)"

definition refresh_init :: tRefreshInfo where
  "refresh_init = \<lparr>last_refreshed_maerklin_loco = 0, last_refreshed_maerklin_fx = -1, last_refreshed_nmra_loco = 0,
     last_refreshed_mfx_loco = 0, protocol_refresh = 1\<rparr>"

text \<open>The letters of the enabled protocols overwrite the first characters of the static array.\<close>

definition proto_letters :: "int \<Rightarrow> string" where
  "proto_letters e = (if e AND EP_MAERKLIN \<noteq> 0 then ''M'' else []) @ (if e AND EP_NMRADCC \<noteq> 0 then ''N'' else []) @
     (if e AND EP_MFX \<noteq> 0 then ''X'' else [])"

definition init_lineDDL :: "gw_env \<Rightarrow> ddl_data \<Rightarrow> ddl_data" where
  "init_lineDDL e d = (if spidev e then d\<lparr>spiLastMM := False\<rparr> else d)"

definition init_bus_DDL :: "gw_env \<Rightarrow> bus_t \<Rightarrow> gw_state \<Rightarrow> gw_state" where
  "init_bus_DDL e b x =
     (let (v, g) = x; ep = ENABLED_PROTOCOLS (ddl v);
          v1 = (if line_open g then reset_MFXPacketPool (on_ddl reset_NMRAPacketPool v) else on_ddl (init_lineDDL e) v);
          v2 = on_ddl (\<lambda>d. d\<lparr>short_detected := 0, refreshInfo := refresh_init, refreshInfoFast := refresh_init, lastRefreshFast := False\<rparr>) v1;
          v3 = on_ddl (if ep AND EP_MAERKLIN \<noteq> 0 then init_MaerklinPacketPool
                 else (\<lambda>d. d\<lparr>MaerklinPacketPool := (MaerklinPacketPool d)\<lparr>NrOfKnownAddresses := 0\<rparr>\<rparr>)) v2;
          v4 = (if ep AND EP_NMRADCC \<noteq> 0 then on_ddl init_NMRAPacketPool v3 else v3);
          v5 = (if ep AND EP_MFX \<noteq> 0 then init_MFXPacketPool b v4 else v4);
          (v6, g1) = (if has_mcs e then init_mcs_gateway e b (v5, g) else (v5, g));
          v7 = on_ddl (\<lambda>d. d\<lparr>feedback := [], ownbusnr := b\<rparr>) v6;
          letters = proto_letters ep; buf = letters @ drop (length letters) (proto_buf g1);
          users = insert b (proto_buses g1)
      in (on_srv (\<lambda>s. s\<lparr>buses := (\<lambda>k. if k \<in> users then (buses s k)\<lparr>bus_protocols := Some buf\<rparr> else buses s k)\<rparr>) v7,
          g1\<lparr>line_open := line_open g \<or> line_ok e, proto_buf := buf, proto_buses := users\<rparr>))"

text \<open>The clean-up of the bus thread, up to the release of its memory.\<close>

definition end_bus_thread :: "drv \<times> ddl_thread \<Rightarrow> drv \<times> ddl_thread" where
  "end_bus_thread x =
     (let (v, t) = x; ep = ENABLED_PROTOCOLS (ddl v);
          v1 = (if ep AND EP_NMRADCC \<noteq> 0 then on_ddl reset_NMRAPacketPool v else v);
          v2 = (if ep AND EP_MFX \<noteq> 0 then reset_MFXPacketPool v1 else v1)
      in (v2, t\<lparr>rts := False\<rparr>))"

section \<open>Frames\<close>

abbreviation put_frame :: "can_frame \<Rightarrow> drv \<Rightarrow> drv" where
  "put_frame f v \<equiv> on_srv (\<lambda>s. s\<lparr>mcs_out := mcs_out s @ [f]\<rparr>) v"

text \<open>The configuration of the two pages that can be asked for.\<close>

definition gfpstkonf0 :: "ddl_static \<Rightarrow> int list list" where
  "gfpstkonf0 g = [[1, 0, 0, 0] @ konf_serial g, [0x36, 0x30, 0x34, 0x37, 0x33, 0, 0, 0],
     [0x62, 0x61, 0x73, 0x72, 0x63, 0x70, 0x64, 0], [0, 0, 0, 0, 0, 0, 0, 0]]"

definition gfpstkonf1 :: "int list list" where
  "gfpstkonf1 = [[0x01, 0xFF, 0x31, 0xF2, 0xC3, 0xC3, 0x00, 0x96], [0x01, 0xC2, 0x02, 0x58, 0x02, 0xBC, 0x02, 0xEE],
     [0x54, 0x45, 0x4D, 0x50, 0, 0x31, 0x35, 0], [0x37, 0x35, 0, 0xC2, 0xB0, 0x43, 0, 0]]"

definition send_datablock :: "int list list \<Rightarrow> drv \<Rightarrow> int \<times> drv" where
  "send_datablock info v =
     (int (length info),
      fold (\<lambda>(k, d). put_frame \<lparr>can_id = (0x003B0300 + k) OR CAN_EFF_FLAG, can_dlc = 8, can_data = d\<rparr>)
        (zip [1..int (length info)] info) v)"

text \<open>
  The handlers get the frame and return it as they have changed it when it is to be sent back;
  \<open>None\<close> stands for \<open>continue\<close>.
\<close>

abbreviation on_gw :: "(srcpd \<Rightarrow> srcpd) \<Rightarrow> gw_state \<Rightarrow> gw_state" where
  "on_gw f x \<equiv> (on_srv f (fst x), snd x)"

abbreviation gw_bus :: "gw_state \<Rightarrow> bus_t" where
  "gw_bus x \<equiv> mcs_bus (srv (fst x))"

definition put_data :: "(nat \<times> int) list \<Rightarrow> can_frame \<Rightarrow> can_frame" where
  "put_data us f = f\<lparr>can_data := fold (\<lambda>(k, d) ds. ds[k := u8 d]) us (can_data f)\<rparr>"

definition for_me :: "int \<Rightarrow> gw_state \<Rightarrow> bool" where
  "for_me u x \<longleftrightarrow> u = 0 \<or> u = ownuid (srv (fst x))"

definition mcs_clean :: "gw_env \<Rightarrow> gw_state \<Rightarrow> gw_state" where
  "mcs_clean e x = (let b = gw_bus x in init_bus_DDL e b (on_gw (cacheCleanGL None b) x))"

definition mcs_system :: "gw_env \<Rightarrow> can_frame \<Rightarrow> gw_state \<Rightarrow> can_frame option \<times> gw_state" where
  "mcs_system e f x =
     (let dat = can_data f; u = be32 dat; b = gw_bus x; sub = dat ! 4
      in if can_dlc f < 5 then
           if for_me u x then
             (Some (put_data [(4, getPower b (srv (fst x)))] f\<lparr>can_dlc := 5, can_data := take 4 (softvers (snd x)) @ drop 4 dat\<rparr>), x)
           else (None, x)
         else if sub = 0x00 then (None, if for_me u x then on_gw (\<lambda>s. snd (setPower b 0 ''BY MCS'' s)) x else x)
         else if sub = 0x01 then (None, if for_me u x then on_gw (\<lambda>s. snd (setPower b 1 ''BY MCS'' s)) x else x)
         else if sub = 0x03 then (Some f, on_gw (\<lambda>s. snd (handle_mcs_dir b (nat u) 4 s)) x)
         else if sub = 0x04 then
           (Some f, if u = ownuid (srv (fst x)) then mcs_clean e x else on_gw (\<lambda>s. snd (cacheTermGL b (nat u) s)) x)
         else if sub = 0x05 then
           (let (r, s) = handle_mcs_prot b (nat u) (dat ! 5) (srv (fst x)) in (if r < 0 then None else Some f, on_gw (\<lambda>_. s) x))
         else if sub = 0x06 then
           if for_me u x then (Some f, fst x, (snd x)\<lparr>accactive := be16 (drop 5 dat)\<rparr>) else (None, x)
         else if sub = 0x08 then (Some f, x)
         else if sub = 0x09 then (None, on_gw (handle_mfx_bind_verify (sm_wait e) b SET (be16 (drop 5 dat)) 0) x)
         else if sub = 0x0B then
           if take 4 dat \<noteq> take 4 (softvers (snd x)) then (None, x)
           else (Some (if dat ! 5 = 1
                   then put_data [(6, drop_bit 8 (int (temper e div 100))), (7, int (temper e div 100))] f\<lparr>can_dlc := 8\<rparr> else f), x)
         else if sub = 0x30 then (None, on_ddl (handle_seek (drop 5 dat) u) (fst x), snd x)
         else (None, x))"

definition mcs_accessory :: "can_frame \<Rightarrow> gw_state \<Rightarrow> gw_state" where
  "mcs_accessory f x =
     (let dat = can_data f; u = be32 dat; d = ddl (fst x);
          t = (if dat ! 5 = 0 then 0 else 10 * (if can_dlc f = 8 then be16 (drop 6 dat) else accactive (snd x)))
      in if u < 0x3000 \<or> u > 0x3FFF then x
         else if u AND 0x800 \<noteq> 0 then
           on_gw (handle_mcs_gacc (FWD_N_ACCESSORIES d) (CHR ''N'') ((u AND 0x7FF) + 1) (dat ! 4) (dat ! 5) t) x
         else on_gw (handle_mcs_gacc (FWD_M_ACCESSORIES d) (CHR ''M'') ((u AND 0x7FF) + 1) (dat ! 4) (dat ! 5) t) x)"

definition mcs_loco :: "int \<Rightarrow> can_frame \<Rightarrow> gw_state \<Rightarrow> can_frame option \<times> gw_state" where
  "mcs_loco code f x =
     (let dat = can_data f; u = be32 dat; b = gw_bus x; s = srv (fst x)
      in if code = 0x08 then
           (let (v, s1) = handle_mcs_speed b (nat u) (if can_dlc f = 6 then be16 (drop 4 dat) else -1) s
            in (Some (if can_dlc f = 4 \<and> v \<ge> 0 then put_data [(4, drop_bit 8 v), (5, v)] f\<lparr>can_dlc := 6\<rparr> else f), on_gw (\<lambda>_. s1) x))
         else if code = 0x0A then
           (let (v, s1) = handle_mcs_dir b (nat u) (if can_dlc f = 5 then dat ! 4 else -1) s
            in (Some (put_data [(4, v)] f\<lparr>can_dlc := (if v \<ge> 0 then 5 else can_dlc f)\<rparr>), on_gw (\<lambda>_. s1) x))
         else
           (let (v, s1) = handle_mcs_func b (nat u) (nat (dat ! 4)) (if can_dlc f > 5 then dat ! 5 else -1) s
            in (Some (put_data [(5, v)] f\<lparr>can_dlc := (if v \<ge> 0 then 6 else can_dlc f)\<rparr>), on_gw (\<lambda>_. s1) x)))"

definition mcs_config_page :: "can_frame \<Rightarrow> gw_state \<Rightarrow> can_frame option \<times> gw_state" where
  "mcs_config_page f x =
     (let dat = can_data f
      in if take 4 dat \<noteq> take 4 (softvers (snd x)) \<or> dat ! 4 \<notin> {0, 1} then (None, x)
         else (let (n, v) = send_datablock (if dat ! 4 = 0 then gfpstkonf0 (snd x) else gfpstkonf1) (fst x)
               in (Some (put_data [(5, n)] f\<lparr>can_dlc := 6\<rparr>), v, snd x)))"

definition mcs_command :: "gw_env \<Rightarrow> can_frame \<Rightarrow> gw_state \<Rightarrow> can_frame option \<times> gw_state" where
  "mcs_command e f x =
     (let dat = can_data f; u = be32 dat; b = gw_bus x; code = drop_bit 16 (can_id f AND 0x01FF0000); sid = be16 (drop 4 dat)
      in if code = 0x00 then mcs_system e f x
         else if code = 0x02 then
           (None, if can_dlc f = 1 then on_gw (handle_mcs_discovery (sm_wait e) b (dat ! 0) 0) x
                  else if can_dlc f = 5 then on_gw (handle_mcs_discovery (sm_wait e) b (dat ! 4) (s32 u)) x else x)
         else if code = 0x04 then
           (None, if sid < 1 \<or> sid > 0x3FFF then x else on_gw (handle_mfx_bind_verify (sm_wait e) b SET u sid) x)
         else if code = 0x06 then
           (None, if sid < 1 \<or> sid > 0x3FFF then x else on_gw (handle_mfx_bind_verify (sm_wait e) b VERIFY u sid) x)
         else if code = 0x08 \<or> code = 0x0A \<or> code = 0x0C then mcs_loco code f x
         else if code = 0x0E then
           (None, on_gw (handle_mcs_config (sm_wait e) b GET (s32 u) (sid AND 0x3FF) (drop_bit 2 (dat ! 4)) (dat ! 6) 0) x)
         else if code = 0x10 then
           (None, on_gw (handle_mcs_config (sm_wait e) b SET (s32 u) (sid AND 0x3FF) (drop_bit 2 (dat ! 4)) (dat ! 6) (dat ! 7)) x)
         else if code = 0x16 then (None, mcs_accessory f x)
         else if code = 0x30 then (Some (f\<lparr>can_dlc := 8, can_data := softvers (snd x)\<rparr>), x)
         else if code = 0x31 then
           (None, if be16 (drop 6 dat) AND 0xFFF0 \<in> {0x0030, 0xFFF0} then on_gw (\<lambda>s. s\<lparr>pingactive := 3\<rparr>) x else x)
         else if code = 0x01 then (None, if dat ! 4 = 0x0A then on_gw (\<lambda>s. snd (setPower b 0 ''OVERLOAD'' s)) x else x)
         else if code = 0x36 then (None, fst x, if dat ! 4 = 0x11 then (snd x)\<lparr>simma := True\<rparr> else snd x)
         else if code = 0x3A then mcs_config_page f x
         else (None, x))"

section \<open>A pass of the thread\<close>

datatype gw_event = Select_Error | Timeout | Read_Error | Frame can_frame

definition mcs_accepts :: "can_frame \<Rightarrow> bool" where
  "mcs_accepts f \<longleftrightarrow> can_id f AND 0xFE000380 = CAN_EFF_FLAG OR 0x300"

definition mcs_ping :: "gw_state \<Rightarrow> gw_state" where
  "mcs_ping x =
     (let (v, g) = on_gw (\<lambda>s. s\<lparr>pingactive := (if pingactive s > 0 then pingactive s - 1 else pingactive s)\<rparr>) x;
          v1 = put_frame \<lparr>can_id = 0x00300000 OR ownhash (srv v) OR CAN_EFF_FLAG, can_dlc = 0, can_data = []\<rparr> v
      in if simma g then
           (put_frame \<lparr>can_id = 0x00314711 OR CAN_EFF_FLAG, can_dlc = 8, can_data = [0, 0, 0, 0, 3, 8, 0xFF, 0xFF]\<rparr> v1, g\<lparr>simma := False\<rparr>)
         else (v1, g))"

definition mcs_reply :: "can_frame \<Rightarrow> gw_state \<Rightarrow> gw_state" where
  "mcs_reply f x =
     (put_frame (f\<lparr>can_id := (can_id f AND 0xFFFF0000) OR ownhash (srv (fst x)) OR 0x00010000\<rparr>) (fst x), snd x)"

fun handleCAN_pass :: "gw_env \<Rightarrow> gw_event \<Rightarrow> gw_state \<Rightarrow> gw_state" where
  "handleCAN_pass e Select_Error x = x"
| "handleCAN_pass e Timeout x = mcs_ping x"
| "handleCAN_pass e Read_Error x = x"
| "handleCAN_pass e (Frame f) x =
     (if mcs_accepts f then (case mcs_command e f x of (None, y) \<Rightarrow> y | (Some r, y) \<Rightarrow> mcs_reply r y) else x)"

section \<open>Replies\<close>

definition hash_ok :: "int \<Rightarrow> bool" where
  "hash_ok h \<longleftrightarrow> 0 \<le> h \<and> h < 2 ^ 16 \<and> h AND 0x380 = 0x300"

lemma init_hash_ok: "hash_ok (ownhash (srv (fst (init_mcs_gateway e b x))))"
proof -
  have h: "hash_ok ((y AND 0xFF7F) OR 0x300)" for y :: int
  proof -
    have "0 \<le> y AND 0xFF7F" "y AND 0xFF7F \<le> 0xFF7F" by (simp_all add: AND_upper2)
    then have "0 \<le> (y AND 0xFF7F) OR 0x300" "(y AND 0xFF7F) OR 0x300 < 2 ^ 16" using OR_upper [of "y AND 0xFF7F" 16 "0x300"] by auto
    moreover have "((y AND 0xFF7F) OR 0x300) AND 0x380 = (y AND (0xFF7F AND 0x380)) OR (0x300 AND 0x380)"
      by (simp only: bit.conj_disj_distrib2 and.assoc)
    moreover have "(y AND 0x300) OR 0x300 = (0x300 :: int)" by (simp add: bit_eq_iff bit_or_iff bit_and_iff) blast
    ultimately show ?thesis by (simp add: hash_ok_def)
  qed
  show ?thesis using h by (auto simp: init_mcs_gateway_def Let_def case_prod_unfold)
qed

lemma odd_code_silent:
  assumes "odd (drop_bit 16 (can_id f AND 0x01FF0000))"
  shows "fst (mcs_command e f x) = None \<and> mcs_out (srv (fst (snd (mcs_command e f x)))) = mcs_out (srv (fst x))"
proof -
  define c where "c = drop_bit 16 (can_id f AND 0x01FF0000)"
  have "odd c" using assms by (simp add: c_def)
  then have "c \<noteq> 0x00" "c \<noteq> 0x02" "c \<noteq> 0x04" "c \<noteq> 0x06" "c \<noteq> 0x08" "c \<noteq> 0x0A" "c \<noteq> 0x0C" "c \<noteq> 0x0E" "c \<noteq> 0x10"
    "c \<noteq> 0x16" "c \<noteq> 0x30" "c \<noteq> 0x36" "c \<noteq> 0x3A" by auto
  then show ?thesis unfolding mcs_command_def c_def [symmetric] Let_def by (simp add: setPower_def upd_bus_def)
qed

lemma response_code: "odd (drop_bit 16 (i AND 0x01FF0000)) \<longleftrightarrow> bit (i :: int) 16"
proof -
  have "odd (drop_bit 16 (i AND 0x01FF0000)) \<longleftrightarrow> bit (i AND 0x01FF0000) 16" by (simp add: bit_iff_odd_drop_bit)
  also have "\<dots> \<longleftrightarrow> bit i 16" by (simp add: bit_and_iff)
  finally show ?thesis .
qed

text \<open>C24. Replies end the dialogue: the hash that the gateway computes at its start marks its frames as those of a
  station; the reply to a frame that the gateway has accepted carries the command of the frame with the
  response bit and the own hash, is accepted by every other gateway, and no gateway answers it.
\<close>

theorem replies_end:
  assumes "mcs_accepts f" and "h = ownhash (srv (fst x))" and "hash_ok h" and "a = last (mcs_out (srv (fst (mcs_reply f x))))"
  shows "hash_ok (ownhash (srv (fst (init_mcs_gateway e b x)))) \<and>
    mcs_accepts a \<and> can_id a AND 0xFFFE0000 = can_id f AND 0xFFFE0000 \<and> bit (can_id a) 16 \<and> can_id a AND 0xFFFF = h \<and>
    mcs_out (srv (fst (handleCAN_pass e (Frame a) y))) = mcs_out (srv (fst y))"
proof -
  have a: "can_id a = (can_id f AND 0xFFFF0000) OR h OR 0x00010000" using assms(2,4) by (simp add: mcs_reply_def)
  have "h AND 0xFFFF = take_bit 16 h" by (simp add: take_bit_eq_mask mask_eq_exp_minus_1)
  then have h: "h AND 0xFFFF = h" "h AND 0x380 = 0x300" using assms(3) by (simp_all add: hash_ok_def take_bit_int_eq_self)
  have hm: "h AND m = h AND (0xFFFF AND m)" for m by (metis h(1) and.assoc)
  have am: "can_id a AND m = (can_id f AND (0xFFFF0000 AND m)) OR (h AND m) OR (0x00010000 AND m)" for m
    by (simp only: a bit.conj_disj_distrib2 and.assoc)
  have "can_id f AND 0xFE000000 = (can_id f AND 0xFE000380) AND 0xFE000000" by (simp add: and.assoc)
  then have f: "can_id f AND 0xFE000000 = 0x80000000" using assms(1) by (simp add: mcs_accepts_def CAN_EFF_FLAG_def)
  have acc: "mcs_accepts a"
    using f h(2) by (simp add: mcs_accepts_def am hm [of "0xFE000380"] CAN_EFF_FLAG_def)
  have "can_id a AND 0xFFFE0000 = can_id f AND 0xFFFE0000" "can_id a AND 0xFFFF = h"
    using h(1) by (simp_all add: am hm [of "0xFFFE0000"])
  moreover have b: "bit (can_id a) 16" by (simp add: a bit_or_iff)
  moreover have "mcs_out (srv (fst (handleCAN_pass e (Frame a) y))) = mcs_out (srv (fst y))"
    using odd_code_silent [OF response_code [THEN iffD2, OF b], of e y] by (simp add: acc case_prod_unfold)
  ultimately show ?thesis using acc init_hash_ok by blast
qed

definition static_zero :: ddl_static where
  "static_zero = \<lparr>line_open = False, gw_open = False, softvers = [0, 0, 0, 0, 0, 0, 0, 0], konf_serial = [0, 0, 0, 0],
     proto_buf = [], proto_buses = {}, simma = False, accactive = 0\<rparr>"

definition env_demo :: gw_env where
  "env_demo = \<lparr>line_ok = True, spidev = True, has_mcs = True, bind_ok = True, version = 123, serial = 4711, temper = 4500, sm_wait = (\<lambda>s. (None, s))\<rparr>"

definition ping_demo :: can_frame where
  "ping_demo = \<lparr>can_id = 0x80304711, can_dlc = 0, can_data = [0, 0, 0, 0, 0, 0, 0, 0]\<rparr>"

theorem replies_end_witness:
  "mcs_accepts (last (mcs_out (srv (fst (mcs_reply ping_demo (drv_start (srcpd_init\<lparr>ownhash := 0x301\<rparr>), static_zero))))))"
  using replies_end [of ping_demo _ "(drv_start (srcpd_init\<lparr>ownhash := 0x301\<rparr>), static_zero)" _ env_demo 1] 
  by (simp add: ping_demo_def mcs_accepts_def CAN_EFF_FLAG_def hash_ok_def drv_start_def)

section \<open>Commands of the station\<close>

lemma handle_mcs_speed_first:
  assumes inv: "gl_inv (gl s b)" and few: "numberOfGl (gl s b) \<le> 198" and idle: "gl_pending b s = []"
    and g: "get_gldata_ptr b (locid OR MCSADDRINDICATOR) s = (Some i, s1)" and val: "0 \<le> val"
    and k: "k = u8 (calcspeed val 1000 (gl_n_fs (gl_at b i s1)))" "k \<noteq> gl_speed (gl_at b i s1)"
  shows "\<exists>t. handle_mcs_speed b locid val s = (val, t) \<and> gl_pending b t = [i] \<and> ring_ok QUEUELEN_GL (gl_queue (gl t b)) \<and>
    gl_at b i t = (gl_at b i s1)\<lparr>gl_speed := k, gl_speedchange := gl_speedchange (gl_at b i s1) OR SCSPEED\<rparr> \<and>
    buses t = buses s \<and> sm_queue t = sm_queue s"
proof -
  define s3 where "s3 = upd_glstate b i (\<lambda>p. p\<lparr>gl_speedchange := gl_speedchange p OR SCSPEED\<rparr>) (upd_glstate b i (\<lambda>p. p\<lparr>gl_speed := k\<rparr>) s1)"
  have st: "gl_state (gl_at b i s3) \<noteq> glsNone"
    using get_gldata_ptr_state [of b "locid OR MCSADDRINDICATOR" s i] g by (simp add: s3_def)
  have e: "handle_mcs_speed b locid val s = (val, gl_push b i s3)"
    using val k gl_enqueue_contents [OF st] unfolding handle_mcs_speed_def g by (simp add: Let_def s3_def k(1) [symmetric])
  have kp: "gl_keeps b s s1" using get_gldata_ptr_keeps [of b s "locid OR MCSADDRINDICATOR"] g by simp
  have inv3: "gl_inv (gl s3 b)" "numberOfGl (gl s3 b) \<le> 198" "gl_pending b s3 = []"
    using kp inv few idle get_gldata_ptr_rest(1) [of b "locid OR MCSADDRINDICATOR" s b] g by (auto simp: s3_def gl_keeps_def gl_inv_def)
  then have "gl_pending b (gl_push b i s3) = [i]" "ring_ok QUEUELEN_GL (gl_queue (gl (gl_push b i s3) b))"
    using gl_push_contents [of s3 b i] gl_inv_not_full [of s3 b] gl_push_ring_ok [of s3 b i] by (simp_all add: gl_inv_def)
  moreover have "buses s3 = buses s" "sm_queue s3 = sm_queue s"
    using get_gldata_ptr_rest(2) [of b "locid OR MCSADDRINDICATOR" s] get_gldata_ptr_sm [of b "locid OR MCSADDRINDICATOR" s] g by (simp_all add: s3_def)
  ultimately show ?thesis unfolding e by (simp add: s3_def)
qed

text \<open>C3. The central station drives a locomotive: when the queue is empty and the power is on, a speed frame
  for a DCC locomotive that asks for another speed step is answered, and the next pass of the bus thread shifts out, at
  least twice and before anything else, a signal in which the decoder of the locomotive, and no other, hears one
  drive instruction, with the direction of the locomotive and the speed step for the speed in thousandths.
\<close>

theorem station_speed_reaches_decoder:
  assumes "b = mcs_bus (srv v)" and "gl_inv (gl (srv v) b)" and "numberOfGl (gl (srv v) b) \<le> 198" and "gl_pending b (srv v) = []"
    and "mcs_accepts f" and "drop_bit 16 (can_id f AND 0x01FF0000) = 0x08" and "can_dlc f = 6" and "val = be16 (drop 4 (can_data f))"
    and "get_gldata_ptr b (nat (be32 (can_data f)) OR MCSADDRINDICATOR) (srv v) = (Some i, s)" and "p = gl_at b i s"
    and "k = calcspeed val 1000 (gl_n_fs p)" and "k \<noteq> gl_speed p" and "gl_direction p = 0 \<or> gl_direction p = 1"
    and "gl_protocol p = CHR ''N''" and "loco_address (gl_id p) (gl_protocolversion p)"
    and "gl_n_fs p = 14 \<or> gl_n_fs p = 28 \<or> gl_n_fs p = 128" and "gl_speedchange p AND SCEMERG = 0" and "spi_works (ddl v)"
    and "\<not> allowSM (ddl v) \<or> ring_isempty (sm_queue (srv v) b)" and "power_state (buses (srv v) b) \<noteq> 0" and "CHECKSHORT (ddl v) = 0"
    and "\<not> CHECKCLIENTS (ddl v)" and "pgtrkonly (ddl v) = PROTO_NONE" and "resumeSM (ddl v) = None"
  shows "\<exists>v1 g1 a w u n hz bs post. handleCAN_pass e (Frame f) (v, g) = (v1, g1) \<and> a \<in> set (mcs_out (srv v1)) \<and> bit (can_id a) 16 \<and>
    pass b cts (v1, t) = Some (w, u) \<and> transfers (ddl w) = transfers (ddl v) @ replicate (n + 2) (hz, bs) @ post \<and>
    (\<forall>adr. heard_drive (gl_n_fs p) adr (received bs) =
       (if adr = gl_id p then [(gl_direction p = 1, if k = 0 then 0 else min 127 (k + 1))] else []))"
proof -
  have val: "0 \<le> val" by (simp add: assms(8) be16_def u16_def)
  have k: "0 \<le> k" "k \<le> gl_n_fs p" "u8 k = k"
    using assms(11,16) calcspeed_range [of 1000 "gl_n_fs p" val] by (auto simp: u8_def)
  obtain s1 where s1: "handle_mcs_speed b (nat (be32 (can_data f))) val (srv v) = (val, s1)" "gl_pending b s1 = [i]"
    "ring_ok QUEUELEN_GL (gl_queue (gl s1 b))" "gl_at b i s1 = p\<lparr>gl_speed := k, gl_speedchange := gl_speedchange p OR SCSPEED\<rparr>"
    "buses s1 = buses (srv v)" "sm_queue s1 = sm_queue (srv v)"
    using handle_mcs_speed_first [OF assms(2-4,9) val, of k] k(3) assms(10-12) by metis
  define q where "q = p\<lparr>gl_speed := k, gl_speedchange := gl_speedchange p OR SCSPEED\<rparr>"
  have "(gl_speedchange p OR SCSPEED) AND SCEMERG = 0"
    using assms(17) by (simp add: bit.conj_disj_distrib2 gl_consts)
  then have sp: "nmra_speed q = (if k = 0 then 0 else min 127 (k + 1), gl_direction p)" by (simp add: nmra_speed_def q_def Let_def min_def)
  then have acc: "nmra_accepts q" using assms(13,15) k by (auto simp: nmra_accepts_def q_def)
  let ?r = "f\<lparr>can_id := (can_id f AND 0xFFFF0000) OR ownhash s1 OR 0x00010000\<rparr>"
  define v1 where "v1 = v\<lparr>srv := s1\<lparr>mcs_out := mcs_out s1 @ [?r]\<rparr>\<rparr>"
  have h: "handleCAN_pass e (Frame f) (v, g) = (v1, g)"
    using s1(1) assms(1,5-8) by (simp add: mcs_command_def mcs_loco_def mcs_reply_def v1_def Let_def)
  have "\<exists>w u n hz bs post. pass b cts (v1, t) = Some (w, u) \<and>
    transfers (ddl w) = transfers (ddl v1) @ replicate (n + 2) (hz, bs) @ post \<and>
    (\<forall>adr. heard_drive (gl_n_fs q) adr (received bs) = (if adr = gl_id q then [(snd (nmra_speed q) = 1, fst (nmra_speed q))] else []))"
    by (rule pass_drives [where i = i and q = "[]"]) (use s1 acc assms(14,16,18-24) in \<open>simp_all add: v1_def q_def\<close>)
  moreover have "ddl v1 = ddl v" "gl_n_fs q = gl_n_fs p" "gl_id q = gl_id p" by (simp_all add: v1_def q_def)
  moreover have "?r \<in> set (mcs_out (srv v1))" "bit (can_id ?r) 16" by (simp_all add: v1_def bit_or_iff)
  ultimately show ?thesis using h unfolding sp fst_conv snd_conv by metis
qed

definition speed_demo :: can_frame where
  "speed_demo = \<lparr>can_id = 0x80084711, can_dlc = 6, can_data = [0, 0, 0xC0, 3, 0x01, 0xF4, 0, 0]\<rparr>"

definition station_demo :: drv where
  "station_demo = drv_start (dcc_state\<lparr>mcs_bus := 1\<rparr>)"

theorem station_speed_reaches_decoder_witness:
  "\<exists>v1 g1 w u n hz bs post. handleCAN_pass env_demo (Frame speed_demo) (station_demo, static_zero) = (v1, g1) \<and>
    pass 1 True (v1, thread_start) = Some (w, u) \<and> transfers (ddl w) = replicate (n + 2) (hz, bs) @ post \<and>
    heard_drive 28 3 (received bs) = [(False, 15)]"
proof -
  have "be32 (can_data speed_demo) = 49155" by (simp add: be32_def speed_demo_def u32_def push_bit_eq_mult)
  moreover have "(49155 :: nat) OR 0x10000 = 0x1C003" by (simp add: or_nat_def)
  ultimately have n: "nat (be32 (can_data speed_demo)) OR MCSADDRINDICATOR = 0x1C003" by (simp add: MCSADDRINDICATOR_def)
  have "(114691 :: nat) mod 16384 = 3" "(114691 :: nat) div 16384 = 7" by simp_all
  then have r: "gl_ref d 0x1C003 nul = Some (Nmra 3)" for d
    by (simp add: gl_ref_def take_bit_eq_mod drop_bit_eq_div ref_nmra_def gl_consts)
  have g: "get_gldata_ptr 1 0x1C003 (srv station_demo) = (Some 1, srv station_demo)"
    unfolding get_gldata_ptr_def getGLIndex_def r
    by (simp add: r dcc_state_def dcc_loco_def gl_bus_zero_def upd_gl_def station_demo_def drv_start_def Let_def gl_enter_def gli_get_def)
  have v: "be16 (drop 4 (can_data speed_demo)) = 500" by (simp add: be16_def speed_demo_def u16_def push_bit_eq_mult)
  have k: "calcspeed 500 1000 28 = 14" by (simp add: calcspeed_def clip_speed_def Let_def tdiv_def drop_bit_eq_div)
  have p: "gl_at 1 1 (srv station_demo) = dcc_loco" by (simp add: station_demo_def drv_start_def dcc_state_def)
  have d: "ring_isempty (sm_queue (srv station_demo) 1)" "power_state (buses (srv station_demo) 1) = 1" "gl (srv station_demo) = gl dcc_state"
    by (simp_all add: station_demo_def drv_start_def dcc_state_def gl_demo_def init_GL_def srcpd_init_def ring_isempty_def ring_empty_def)
  have "\<exists>v1 g1 a w u n hz bs post. handleCAN_pass env_demo (Frame speed_demo) (station_demo, static_zero) = (v1, g1) \<and>
    a \<in> set (mcs_out (srv v1)) \<and> bit (can_id a) 16 \<and> pass 1 True (v1, thread_start) = Some (w, u) \<and>
    transfers (ddl w) = transfers (ddl station_demo) @ replicate (n + 2) (hz, bs) @ post \<and>
    (\<forall>adr. heard_drive (gl_n_fs dcc_loco) adr (received bs) =
       (if adr = gl_id dcc_loco then [(gl_direction dcc_loco = 1, if (14 :: int) = 0 then 0 else min 127 (14 + 1))] else []))"
    by (rule station_speed_reaches_decoder [where i = 1 and s = "srv station_demo" and val = 500])
      (use g n v k p d dcc_ready in \<open>simp_all add: mcs_accepts_def CAN_EFF_FLAG_def speed_demo_def loco_address_def dcc_loco_def gl_zero_def
        station_demo_def drv_start_def ddl_start_def spi_works_def gl_consts\<close>)
  then show ?thesis by (fastforce simp: dcc_loco_def gl_zero_def station_demo_def drv_start_def ddl_start_def)
qed

text \<open>C29. The central station switches an accessory: an accessory frame enqueues, on the bus to which the accessories of its
  protocol are forwarded, one command with the address of the frame, its output and its action; the time is that of the frame,
  or else the time that the station has set, and none for a release.
\<close>

theorem station_switches_accessory:
  assumes "mcs_accepts f" and "drop_bit 16 (can_id f AND 0x01FF0000) = 0x16" and "be32 (can_data f) = u" and "0x3000 \<le> u" and "u \<le> 0x3FFF"
    and "(b, prot) = (if u AND 0x800 \<noteq> 0 then (FWD_N_ACCESSORIES (ddl v), CHR ''N'') else (FWD_M_ACCESSORIES (ddl v), CHR ''M''))"
    and "addr = (u AND 0x7FF) + 1" and "b \<noteq> 0" and "addr \<le> get_number_ga b (srv v)" and "ga_protocol (ga_at b addr (srv v)) = prot"
    and "ring_ok QUEUELEN_GA (ga_queue (ga (srv v) b))" and "\<not> queue_isfull_ga b (srv v)"
  shows "\<exists>w c. handleCAN_pass e (Frame f) (v, g) = (w, g) \<and> ga_pending b (srv w) = ga_pending b (srv v) @ [c] \<and>
    ga_protocol c = prot \<and> ga_id c = addr \<and> ga_port c = can_data f ! 4 \<and> ga_action c = can_data f ! 5 \<and>
    ga_activetime c = (if can_data f ! 5 = 0 then 0 else 10 * (if can_dlc f = 8 then be16 (drop 6 (can_data f)) else accactive g)) \<and>
    ddl w = ddl v \<and> gl (srv w) = gl (srv v)"
proof -
  let ?t = "if can_data f ! 5 = 0 then 0 else 10 * (if can_dlc f = 8 then be16 (drop 6 (can_data f)) else accactive g)"
  let ?q = "enqueueGA b addr (can_data f ! 4) (can_data f ! 5) ?t (srv v)"
  have "0 < addr" by (simp add: assms(7) add_nonneg_pos)
  then have ok: "fst ?q = SRCP_OK" using assms(9,12) by (simp add: enqueueGA_code)
  have h: "handleCAN_pass e (Frame f) (v, g) = (v\<lparr>srv := snd ?q\<rparr>, g)"
  proof -
    have g: "handle_mcs_gacc b prot addr (can_data f ! 4) (can_data f ! 5) ?t (srv v) = snd ?q"
      using assms(8-10) \<open>0 < addr\<close> by (simp add: handle_mcs_gacc_def)
    have c: "mcs_command e f (v, g) = (None, mcs_accessory f (v, g))" unfolding mcs_command_def assms(2) Let_def by simp
    have "mcs_accessory f (v, g) = (v\<lparr>srv := snd ?q\<rparr>, g)"
      using assms(4-6) unfolding mcs_accessory_def assms(3) Let_def assms(7) [symmetric] fst_conv snd_conv g [symmetric]
      by (cases "u AND 0x800 = 0") simp_all
    with c assms(1) show ?thesis by simp
  qed
  obtain c where c: "ga_carries (addr, can_data f ! 4, can_data f ! 5, ?t) c" "ga_protocol c = prot"
    "ga_pending b (snd ?q) = ga_pending b (srv v) @ [c]"
    using enqueueGA_appends [OF _ ok] assms(10,11) by (auto simp: QUEUELEN_GA_def)
  moreover have "gl (snd ?q) = gl (srv v)" by (simp add: enqueueGA_def Let_def)
  ultimately show ?thesis using h by auto
qed

definition switch_demo :: can_frame where
  "switch_demo = \<lparr>can_id = 0x80164711, can_dlc = 6, can_data = [0, 0, 0x38, 2, 1, 1, 0, 0]\<rparr>"

definition turnouts_demo :: drv where
  "turnouts_demo = drv_start (srcpd_init\<lparr>ga := (\<lambda>_. ga_bus_zero\<lparr>numberOfGa := 4, gastate := (\<lambda>_. ga_zero\<lparr>ga_protocol := CHR ''N''\<rparr>)\<rparr>)\<rparr>)"

theorem station_switches_accessory_witness:
  "\<exists>w c. handleCAN_pass env_demo (Frame switch_demo) (turnouts_demo, static_zero\<lparr>accactive := 20\<rparr>) = (w, static_zero\<lparr>accactive := 20\<rparr>) \<and>
    ga_pending 1 (srv w) = [c] \<and> ga_id c = 3 \<and> ga_port c = 1 \<and> ga_action c = 1 \<and> ga_activetime c = 200"
proof -
  have u: "be32 (can_data switch_demo) = 14338" by (simp add: be32_def switch_demo_def u32_def push_bit_eq_mult)
  have q: "ring_ok QUEUELEN_GA (ga_queue (ga (srv turnouts_demo) 1))" "\<not> queue_isfull_ga 1 (srv turnouts_demo)" "ga_pending 1 (srv turnouts_demo) = []"
    by (simp_all add: turnouts_demo_def drv_start_def ga_bus_zero_def queue_isfull_ga_def queue_len_ga_def ring_len_def ring_empty_def
        ring_ok_def ring_list_def QUEUELEN_GA_def)
  have "\<exists>w c. handleCAN_pass env_demo (Frame switch_demo) (turnouts_demo, static_zero\<lparr>accactive := 20\<rparr>) = (w, static_zero\<lparr>accactive := 20\<rparr>) \<and>
    ga_pending 1 (srv w) = ga_pending 1 (srv turnouts_demo) @ [c] \<and> ga_protocol c = CHR ''N'' \<and> ga_id c = 3 \<and>
    ga_port c = can_data switch_demo ! 4 \<and> ga_action c = can_data switch_demo ! 5 \<and>
    ga_activetime c = (if can_data switch_demo ! 5 = 0 then 0 else
      10 * (if can_dlc switch_demo = 8 then be16 (drop 6 (can_data switch_demo)) else accactive (static_zero\<lparr>accactive := 20\<rparr>))) \<and>
    ddl w = ddl turnouts_demo \<and> gl (srv w) = gl (srv turnouts_demo)"
    by (rule station_switches_accessory [OF _ _ u])
      (use q in \<open>simp_all add: mcs_accepts_def CAN_EFF_FLAG_def switch_demo_def turnouts_demo_def drv_start_def ddl_start_def get_number_ga_def\<close>)
  then show ?thesis unfolding q(3) by (auto simp: switch_demo_def)
qed

section \<open>Loss of control\<close>

lemma ping_step:
  "buses (srv (fst (mcs_ping x))) = buses (srv (fst x))" "ddl (fst (mcs_ping x)) = ddl (fst x)" "sm_queue (srv (fst (mcs_ping x))) = sm_queue (srv (fst x))"
  "commandsessions (srv (fst (mcs_ping x))) = commandsessions (srv (fst x))"
  "pingactive (srv (fst (mcs_ping x))) = (if pingactive (srv (fst x)) > 0 then pingactive (srv (fst x)) - 1 else pingactive (srv (fst x)))"
  by (cases "simma (snd x)"; simp add: mcs_ping_def Let_def)+

lemma pings:
  assumes "pingactive (srv (fst x)) = int n" "k \<le> n"
  shows "buses (srv (fst ((handleCAN_pass e Timeout ^^ k) x))) = buses (srv (fst x)) \<and> pingactive (srv (fst ((handleCAN_pass e Timeout ^^ k) x))) = int (n - k) \<and>
   ddl (fst ((handleCAN_pass e Timeout ^^ k) x)) = ddl (fst x) \<and> sm_queue (srv (fst ((handleCAN_pass e Timeout ^^ k) x))) = sm_queue (srv (fst x)) \<and>
   commandsessions (srv (fst ((handleCAN_pass e Timeout ^^ k) x))) = commandsessions (srv (fst x))"
  using assms(2) by (induction k) (auto simp: assms(1) ping_step)

text \<open>C22. Loss of control cuts the power: with the check of clients switched on and no command session left, the power stays on for
  as many seconds as the last answer of a station is remembered; when these have passed
  without another one, the next pass switches the power and the booster off and sends nothing.
\<close>

theorem control_lost_cuts_power:
  assumes "CHECKCLIENTS (ddl v)" and "getnbr_commandsessions (srv v) = 0" and "pingactive (srv v) = int n" and "power_state (buses (srv v) b) \<noteq> 0"
    and "\<not> allowSM (ddl v) \<or> ring_isempty (sm_queue (srv v) b)" and "CHECKSHORT (ddl v) = 0"
  shows "(\<forall>k < n. \<not> fst (power_is_off b cts (fst ((handleCAN_pass e Timeout ^^ k) (v, g)), t))) \<and>
    (\<exists>w u. pass b cts (fst ((handleCAN_pass e Timeout ^^ n) (v, g)), t) = Some (w, u) \<and> power_state (buses (srv w) b) = 0 \<and> \<not> rts u \<and>
       transfers (ddl w) = transfers (ddl v))"
proof -
  let ?x = "\<lambda>k. fst ((handleCAN_pass e Timeout ^^ k) (v, g))"
  have p: "k \<le> n \<Longrightarrow> buses (srv (?x k)) = buses (srv v) \<and> pingactive (srv (?x k)) = int (n - k) \<and> ddl (?x k) = ddl v \<and>
      sm_queue (srv (?x k)) = sm_queue (srv v) \<and> commandsessions (srv (?x k)) = commandsessions (srv v)" for k
    using pings [of "(v, g)" n k e] assms(3) by simp
  have "\<not> fst (power_is_off b cts (?x k, t))" if "k < n" for k
    using p [of k] that assms(3,4,6) by (simp add: power_is_off_def Let_def case_prod_unfold)
  moreover have "\<exists>w u. pass b cts (?x n, t) = Some (w, u) \<and> power_state (buses (srv w) b) = 0 \<and> \<not> rts u \<and> transfers (ddl w) = transfers (ddl v)"
  proof -
    have sm: "handle_SM b (?x n, t) = (?x n, t)" using assms(5) p [of n] by (auto simp: handle_SM_def dequeueNextSM_def)
    have c: "power_state (buses (srv (cut_power b m w)) b) = 0" "power_changed (buses (srv (cut_power b m w)) b) = 2"
      "ddl (cut_power b m w) = ddl w" for m w
      by (simp_all add: cut_power_def Let_def)
    have s: "getnbr_commandsessions (upd_bus b h (srv (?x n))) = 0" "pingactive (upd_bus b h (srv (?x n))) = 0" for h
      using p [of n] assms(2,3) by (simp_all add: getnbr_commandsessions_def upd_bus_def)
    show ?thesis using assms(1,4,6) p [of n] unfolding pass_def sm prod.case Let_def by (simp add: power_is_off_def c s Let_def)
  qed
  ultimately show ?thesis by blast
qed

definition unattended :: drv where
  "unattended = (drv_start (srcpd_init\<lparr>pingactive := 3, buses := (\<lambda>_. bus_zero\<lparr>power_state := 1\<rparr>)\<rparr>))\<lparr>ddl := ddl_start\<lparr>CHECKCLIENTS := True\<rparr>\<rparr>"

theorem control_lost_cuts_power_witness:
  "\<exists>w u. pass 1 True (fst ((handleCAN_pass env_demo Timeout ^^ 3) (unattended, static_zero)), thread_start) = Some (w, u) \<and>
    power_state (buses (srv w) 1) = 0 \<and> \<not> rts u"
proof -
  have "CHECKCLIENTS (ddl unattended)" "getnbr_commandsessions (srv unattended) = 0" "pingactive (srv unattended) = int 3"
    "power_state (buses (srv unattended) 1) \<noteq> 0" "\<not> allowSM (ddl unattended) \<or> ring_isempty (sm_queue (srv unattended) 1)" "CHECKSHORT (ddl unattended) = 0"
    by (simp_all add: unattended_def drv_start_def srcpd_init_def getnbr_commandsessions_def s32_def ring_isempty_def ring_empty_def ddl_start_def)
  from control_lost_cuts_power [OF this, of True env_demo static_zero thread_start] show ?thesis by blast
qed

section \<open>Starting a bus again\<close>

text \<open>What the start of a bus does to the mfx search and keeps of the configuration.\<close>

lemma init_bus_mfx:
  "mfx (fst (init_bus_DDL e b (v, g))) =
     (let m = (if line_open g then stopMFXSearch (mfx v) else mfx v)
      in if ENABLED_PROTOCOLS (ddl v) AND EP_MFX \<noteq> 0 then snd (startMFXManagement b (AUTO_MFX_SEARCH (ddl v)) m) else m)"
  "line_open (snd (init_bus_DDL e b (v, g))) \<longleftrightarrow> line_open g \<or> line_ok e"
  "ENABLED_PROTOCOLS (ddl (fst (init_bus_DDL e b (v, g)))) = ENABLED_PROTOCOLS (ddl v)"
proof -
  have gw: "mfx (fst (init_mcs_gateway e b x)) = mfx (fst x)" "ddl (fst (init_mcs_gateway e b x)) = ddl (fst x)" for x
    by (auto simp: init_mcs_gateway_def Let_def case_prod_unfold)
  define ep where "ep = ENABLED_PROTOCOLS (ddl v)"
  define v1 where "v1 = (if line_open g then reset_MFXPacketPool (on_ddl reset_NMRAPacketPool v) else on_ddl (init_lineDDL e) v)"
  define v2 where "v2 = on_ddl (\<lambda>d. d\<lparr>short_detected := 0, refreshInfo := refresh_init, refreshInfoFast := refresh_init, lastRefreshFast := False\<rparr>) v1"
  define v3 where "v3 = on_ddl (if ep AND EP_MAERKLIN \<noteq> 0 then init_MaerklinPacketPool
    else (\<lambda>d. d\<lparr>MaerklinPacketPool := (MaerklinPacketPool d)\<lparr>NrOfKnownAddresses := 0\<rparr>\<rparr>)) v2"
  define v4 where "v4 = (if ep AND EP_NMRADCC \<noteq> 0 then on_ddl init_NMRAPacketPool v3 else v3)"
  define v5 where "v5 = (if ep AND EP_MFX \<noteq> 0 then init_MFXPacketPool b v4 else v4)"
  define x6 where "x6 = (if has_mcs e then init_mcs_gateway e b (v5, g) else (v5, g))"
  have i: "mfx (fst (init_bus_DDL e b (v, g))) = mfx (fst x6)" "line_open (snd (init_bus_DDL e b (v, g))) \<longleftrightarrow> line_open g \<or> line_ok e"
    "ENABLED_PROTOCOLS (ddl (fst (init_bus_DDL e b (v, g)))) = ENABLED_PROTOCOLS (ddl (fst x6))"
    unfolding init_bus_DDL_def prod.case Let_def ep_def [symmetric] v1_def [symmetric] v2_def [symmetric] v3_def [symmetric] v4_def [symmetric] v5_def [symmetric]
      x6_def [symmetric] by (simp_all add: case_prod_unfold)
  have m4: "mfx v4 = (if line_open g then stopMFXSearch (mfx v) else mfx v)" "ENABLED_PROTOCOLS (ddl v4) = ep" "AUTO_MFX_SEARCH (ddl v4) = AUTO_MFX_SEARCH (ddl v)"
    by (simp_all add: v4_def v3_def v2_def v1_def ep_def reset_MFXPacketPool_def init_MaerklinPacketPool_def init_NMRAPacketPool_def init_lineDDL_def
        reset_NMRAPacketPool_def Let_def)
  have "mfx (fst x6) = mfx v5" "ENABLED_PROTOCOLS (ddl (fst x6)) = ENABLED_PROTOCOLS (ddl v5)" by (simp_all add: x6_def gw)
  moreover have "mfx v5 = (if ep AND EP_MFX \<noteq> 0 then snd (startMFXManagement b (AUTO_MFX_SEARCH (ddl v)) (mfx v4)) else mfx v4)" "ENABLED_PROTOCOLS (ddl v5) = ep"
    using m4(2,3) by (simp_all add: v5_def init_MFXPacketPool_def)
  ultimately show "mfx (fst (init_bus_DDL e b (v, g))) =
     (let m = (if line_open g then stopMFXSearch (mfx v) else mfx v)
      in if ENABLED_PROTOCOLS (ddl v) AND EP_MFX \<noteq> 0 then snd (startMFXManagement b (AUTO_MFX_SEARCH (ddl v)) m) else m)"
    "line_open (snd (init_bus_DDL e b (v, g))) \<longleftrightarrow> line_open g \<or> line_ok e"
    "ENABLED_PROTOCOLS (ddl (fst (init_bus_DDL e b (v, g)))) = ENABLED_PROTOCOLS (ddl v)"
    using i m4(1) by (simp_all add: Let_def ep_def)
qed

text \<open>The automatic search for mfx decoders ends with the first reset: the start of the bus begins the search, but when a
  reset of the server starts the bus again, the search is stopped and not begun again.
\<close>

theorem search_ends_at_reset:
  assumes "ENABLED_PROTOCOLS (ddl v) AND EP_MFX \<noteq> 0" and "AUTO_MFX_SEARCH (ddl v)" and "mfx_bus (mfx v) = 0" and "b \<noteq> 0"
    and "\<not> line_open g" and "line_ok e"
  shows "let x1 = init_bus_DDL e b (v, g); x2 = init_bus_DDL e b x1
    in searchstep (mfx (fst x1)) = 0 \<and> searchstep (mfx (fst x2)) = 1"
proof -
  obtain w h where x1: "init_bus_DDL e b (v, g) = (w, h)" by force
  have "mfx w = snd (startMFXManagement b True (mfx v))" "line_open h" "ENABLED_PROTOCOLS (ddl w) AND EP_MFX \<noteq> 0"
    using init_bus_mfx [of e b v g] assms by (simp_all add: x1)
  moreover from this have "searchstep (mfx w) = 0" "mfx_bus (mfx w) = b" using assms(3) by (simp_all add: startMFXManagement_def Let_def)
  ultimately show ?thesis using init_bus_mfx(1) [of e b w h] assms(4) by (simp add: x1 startMFXManagement_def stopMFXSearch_def)
qed

theorem search_ends_at_reset_witness:
  "searchstep (mfx (fst (init_bus_DDL env_demo 1 (init_bus_DDL env_demo 1
     ((drv_start srcpd_init)\<lparr>ddl := ddl_start\<lparr>AUTO_MFX_SEARCH := True\<rparr>, mfx := mfx_start\<lparr>mfx_bus := 0\<rparr>\<rparr>, static_zero))))) = 1"
  using search_ends_at_reset [of "(drv_start srcpd_init)\<lparr>ddl := ddl_start\<lparr>AUTO_MFX_SEARCH := True\<rparr>, mfx := mfx_start\<lparr>mfx_bus := 0\<rparr>\<rparr>" 1 static_zero env_demo]
  by (simp add: ddl_start_def EP_MFX_def static_zero_def env_demo_def Let_def)

lemma init_bus_protocols:
  assumes "init_bus_DDL e b (v, g) = (v1, g1)" and "buf = proto_letters (ENABLED_PROTOCOLS (ddl v)) @ drop (length (proto_letters (ENABLED_PROTOCOLS (ddl v)))) (proto_buf g)"
  shows "proto_buf g1 = buf" "proto_buses g1 = insert b (proto_buses g)"
    "k \<in> insert b (proto_buses g) \<Longrightarrow> bus_protocols (buses (srv v1) k) = Some buf"
proof -
  have gw: "proto_buf (snd (init_mcs_gateway e b x)) = proto_buf (snd x)" "proto_buses (snd (init_mcs_gateway e b x)) = proto_buses (snd x)" for x
    by (auto simp: init_mcs_gateway_def Let_def case_prod_unfold)
  have v1: "v1 = fst (init_bus_DDL e b (v, g))" "g1 = snd (init_bus_DDL e b (v, g))" using assms(1) by simp_all
  show "proto_buf g1 = buf" "proto_buses g1 = insert b (proto_buses g)"
    "k \<in> insert b (proto_buses g) \<Longrightarrow> bus_protocols (buses (srv v1) k) = Some buf"
    unfolding v1 by (auto simp: init_bus_DDL_def assms(2) gw Let_def case_prod_unfold)
qed

text \<open>Two buses share their protocols: the names of the protocols are kept in one static array, so that after a bus
  for all protocols the start of a second one for DCC only gives both the protocols \<open>NNX\<close>: the first no longer
  accepts Motorola locomotives, and the second accepts mfx locomotives that it cannot drive.
\<close>

theorem protocols_shared:
  assumes "ENABLED_PROTOCOLS (ddl v) = 7" and "ENABLED_PROTOCOLS d = 2" and "proto_buf g = []" and "b \<noteq> c"
  shows "let (v1, g1) = init_bus_DDL e b (v, g); (v2, g2) = init_bus_DDL e c (v1\<lparr>ddl := d\<rparr>, g1\<lparr>line_open := False\<rparr>)
    in bus_supports_protocol b (CHR ''M'') (srv v2) \<noteq> SRCP_OK \<and> bus_supports_protocol c (CHR ''X'') (srv v2) = SRCP_OK"
proof -
  obtain v1 g1 where 1: "init_bus_DDL e b (v, g) = (v1, g1)" by fastforce
  obtain v2 g2 where 2: "init_bus_DDL e c (v1\<lparr>ddl := d\<rparr>, g1\<lparr>line_open := False\<rparr>) = (v2, g2)" by fastforce
  have "proto_letters 7 = ''MNX''" "proto_letters 2 = ''N''" by code_simp+
  then have "proto_buf g1 = ''MNX''" "b \<in> proto_buses g1" using init_bus_protocols(1,2) [OF 1 refl] assms(1,3) by simp_all
  then have "bus_protocols (buses (srv v2) k) = Some ''NNX''" if "k = b \<or> k = c" for k
    using init_bus_protocols(3) [OF 2 refl, of k] that assms(2) \<open>proto_letters 2 = ''N''\<close> by auto
  then show ?thesis unfolding 1 2 by (simp add: 2 bus_supports_protocol_def srcp_codes)
qed

theorem protocols_shared_witness:
  "let (v1, g1) = init_bus_DDL env_demo 1 (drv_start srcpd_init, static_zero);
       (v2, g2) = init_bus_DDL env_demo 2 (v1\<lparr>ddl := ddl_start\<lparr>ENABLED_PROTOCOLS := 2\<rparr>\<rparr>, g1\<lparr>line_open := False\<rparr>)
    in bus_supports_protocol 1 (CHR ''M'') (srv v2) \<noteq> SRCP_OK \<and> bus_supports_protocol 2 (CHR ''X'') (srv v2) = SRCP_OK"
  by (rule protocols_shared) (simp_all add: drv_start_def ddl_start_def static_zero_def)

end
