(* ===== verification/Loopback.thy ===== *)
theory Loopback
  imports Client_Service
begin

unbundle bit_operations_syntax

text \<open>
  The simulation driver \<open>loopback.c\<close>: a bus without hardware that reports every command as done. \<open>loopback\<close> holds the driver's
  data (the accessories that wait for their release), the static array of configuration variables, and the
  results that \<open>session_endwait\<close> passes to waiting sessions. \<open>loopback_pass\<close> is one pass of the
  bus thread \<open>thr_sendrec_LOOPBACK\<close>; the pauses of a millisecond are left out.
\<close>

section \<open>State\<close>

type_synonym ga_slots = "nat \<Rightarrow> ga_data_t"

record loopback =
  tga :: ga_slots
  lb_cv :: "int \<Rightarrow> int"
  lb_results :: "int list"

type_synonym lb_state = "srcpd \<times> loopback"

definition MAX_CV_NUMBER :: int where [code_unfold]: "MAX_CV_NUMBER = 255"

definition cmpTime :: "timeval \<Rightarrow> timeval \<Rightarrow> bool" where
  "cmpTime t1 t2 \<longleftrightarrow> tv_sec t2 > tv_sec t1 \<or> (tv_sec t2 = tv_sec t1 \<and> tv_usec t2 > tv_usec t1)"

section \<open>Initialisation\<close>

definition init_gl_LOOPBACK :: "gl_data_t \<Rightarrow> string option \<Rightarrow> int \<times> gl_data_t" where
  "init_gl_LOOPBACK p optData =
     (if gl_protocol p = CHR ''L'' \<or> gl_protocol p = CHR ''S'' then if gl_n_fs p = 31 then SRCP_OK else SRCP_WRONGVALUE
      else if gl_protocol p = CHR ''P'' then SRCP_OK
      else if gl_protocol p = CHR ''M'' then
        if gl_protocolversion p = 1 then if gl_n_fs p = 14 then SRCP_OK else SRCP_WRONGVALUE
        else if gl_protocolversion p = 2 then if gl_n_fs p = 14 \<or> gl_n_fs p = 27 \<or> gl_n_fs p = 28 then SRCP_OK else SRCP_WRONGVALUE
        else SRCP_WRONGVALUE
      else if gl_protocol p = CHR ''N'' then
        if gl_protocolversion p = 1 \<or> gl_protocolversion p = 2 then
          if gl_n_fs p = 14 \<or> gl_n_fs p = 28 \<or> gl_n_fs p = 128 then SRCP_OK else SRCP_WRONGVALUE
        else SRCP_WRONGVALUE
      else SRCP_UNSUPPORTEDDEVICEPROTOCOL, p)"

definition init_ga_LOOPBACK :: "ga_data_t \<Rightarrow> int \<times> ga_data_t" where
  "init_ga_LOOPBACK g =
     (if ga_protocol g = CHR ''M'' \<or> ga_protocol g = CHR ''N'' \<or> ga_protocol g = CHR ''P'' \<or> ga_protocol g = CHR ''S'' then SRCP_OK
      else SRCP_UNSUPPORTEDDEVICEPROTOCOL, g)"

definition init_bus_LOOPBACK :: "bus_t \<Rightarrow> srcpd \<Rightarrow> srcpd" where
  "init_bus_LOOPBACK b s = upd_bus b (\<lambda>d. d\<lparr>bus_protocols := Some ''LSPMN''\<rparr>) s"

section \<open>Commands\<close>

definition handle_power_command :: "bus_t \<Rightarrow> srcpd \<Rightarrow> srcpd" where
  "handle_power_command b s =
     (let s1 = upd_bus b (\<lambda>d. d\<lparr>power_changed := 0\<rparr>) s
      in upd_bus b (\<lambda>d. d\<lparr>watchdog := watchdog d + 1\<rparr>) (enqueueInfoMessage (snd (infoPower b s1)) s1))"

text \<open>The register of the physical register mode that a number names; \<open>None\<close> stands for the page register, which is not stored.\<close>

definition lb_register :: "int \<Rightarrow> int option" where
  "lb_register r = (if r < 5 \<or> r > 6 then Some r else if r = 5 then Some 29 else None)"

definition lb_get :: "sm_t \<Rightarrow> (int \<Rightarrow> int) \<Rightarrow> int" where
  "lb_get sm cv =
     (case sm_type sm of
        REGISTER \<Rightarrow>
          if 0 < sm_cvaddr sm \<and> sm_cvaddr sm < 9 then
            (case lb_register (sm_cvaddr sm) of None \<Rightarrow> 1 | Some r \<Rightarrow> cv r)
          else -1
      | PAGE \<Rightarrow> if 0 \<le> sm_cvaddr sm \<and> sm_cvaddr sm \<le> MAX_CV_NUMBER then cv (sm_cvaddr sm) else -1
      | CV \<Rightarrow> if 0 \<le> sm_cvaddr sm \<and> sm_cvaddr sm \<le> MAX_CV_NUMBER then cv (sm_cvaddr sm) else -1
      | CV_BIT \<Rightarrow>
          if 0 \<le> sm_cvaddr sm \<and> 0 \<le> sm_index sm \<and> sm_index sm < 8 \<and> sm_cvaddr sm \<le> MAX_CV_NUMBER
          then of_bool (bit (cv (sm_cvaddr sm)) (nat (sm_index sm))) else -1
      | _ \<Rightarrow> -1)"

definition lb_set :: "sm_t \<Rightarrow> int \<Rightarrow> (int \<Rightarrow> int) \<Rightarrow> int \<times> (int \<Rightarrow> int)" where
  "lb_set sm val cv =
     (case sm_type sm of
        REGISTER \<Rightarrow>
          if 0 < sm_cvaddr sm \<and> sm_cvaddr sm < 9 then
            (val, case lb_register (sm_cvaddr sm) of None \<Rightarrow> cv | Some r \<Rightarrow> cv(r := val))
          else (-1, cv)
      | PAGE \<Rightarrow> if 0 \<le> sm_cvaddr sm \<and> sm_cvaddr sm \<le> MAX_CV_NUMBER then (val, cv(sm_cvaddr sm := val)) else (-1, cv)
      | CV \<Rightarrow> if 0 \<le> sm_cvaddr sm \<and> sm_cvaddr sm \<le> MAX_CV_NUMBER then (val, cv(sm_cvaddr sm := val)) else (-1, cv)
      | CV_BIT \<Rightarrow>
          if 0 \<le> sm_cvaddr sm \<and> 0 \<le> sm_index sm \<and> sm_index sm < 8 \<and> 0 \<le> val \<and> val \<le> 1 \<and> sm_cvaddr sm \<le> MAX_CV_NUMBER then
            (val, cv(sm_cvaddr sm := (if val \<noteq> 0 then set_bit else unset_bit) (nat (sm_index sm)) (cv (sm_cvaddr sm))))
          else (-1, cv)
      | _ \<Rightarrow> (val, cv))"

definition lb_verify :: "sm_t \<Rightarrow> int \<Rightarrow> (int \<Rightarrow> int) \<Rightarrow> int" where
  "lb_verify sm val cv =
     (case sm_type sm of
        REGISTER \<Rightarrow>
          if 0 < sm_cvaddr sm \<and> sm_cvaddr sm < 9 then
            if val = (case lb_register (sm_cvaddr sm) of None \<Rightarrow> 1 | Some r \<Rightarrow> cv r) then val else -1
          else -1
      | PAGE \<Rightarrow> if 0 \<le> sm_cvaddr sm \<and> sm_cvaddr sm \<le> MAX_CV_NUMBER \<and> val = cv (sm_cvaddr sm) then val else -1
      | CV \<Rightarrow> if 0 \<le> sm_cvaddr sm \<and> sm_cvaddr sm \<le> MAX_CV_NUMBER \<and> val = cv (sm_cvaddr sm) then val else -1
      | CV_BIT \<Rightarrow>
          if 0 \<le> sm_cvaddr sm \<and> 0 \<le> sm_index sm \<and> sm_index sm < 8 \<and> sm_cvaddr sm \<le> MAX_CV_NUMBER \<and>
             val = of_bool (bit (cv (sm_cvaddr sm)) (nat (sm_index sm))) then val else -1
      | _ \<Rightarrow> val)"

text \<open>The array is cleared before each request is executed.\<close>

definition lb_execute :: "sm_t \<Rightarrow> (int \<Rightarrow> int) \<Rightarrow> int \<times> (int \<Rightarrow> int)" where
  "lb_execute sm old =
     (let val = sm_value sm AND 255; cv = (\<lambda>_. 0)
      in case sm_command sm of
           GET \<Rightarrow> (lb_get sm cv, cv)
         | SET \<Rightarrow> lb_set sm val cv
         | VERIFY \<Rightarrow> (lb_verify sm val cv, cv)
         | _ \<Rightarrow> (val, cv))"

definition handle_sm_command :: "bus_t \<Rightarrow> lb_state \<Rightarrow> lb_state" where
  "handle_sm_command b x =
     (case dequeueNextSM b (fst x) of
        (_, None, _) \<Rightarrow> x
      | (_, Some sm, s) \<Rightarrow>
          (let (r, cv) = lb_execute sm (lb_cv (snd x))
           in (upd_bus b (\<lambda>d. d\<lparr>watchdog := watchdog d + 1\<rparr>) s, (snd x)\<lparr>lb_cv := cv, lb_results := lb_results (snd x) @ [r]\<rparr>)))"

definition handle_gl_command :: "bus_t \<Rightarrow> srcpd \<Rightarrow> srcpd" where
  "handle_gl_command b s =
     (let s2 = (case dequeueNextGL b s of
          (None, s1) \<Rightarrow> s1
        | (Some i, s1) \<Rightarrow>
            (let p = gl_at b i s1; gltmp = (if gl_speedchange p AND SCEMERG \<noteq> 0 then p\<lparr>gl_speed := 0\<rparr> else p)
             in cacheSetGL b i gltmp (upd_glstate b i (\<lambda>p. p\<lparr>gl_speedchange := 0\<rparr>) s1)))
      in upd_bus b (\<lambda>d. d\<lparr>watchdog := watchdog d + 1\<rparr>) s2)"

text \<open>The time at which an accessory is to be released.\<close>

definition due_time :: "timeval \<Rightarrow> int \<Rightarrow> timeval" where
  "due_time now at =
     (let sec = tv_sec now + tdiv at 1000; usec = tv_usec now + (at - tdiv at 1000 * 1000) * 1000
      in if usec > 1000000 then \<lparr>tv_sec = sec + 1, tv_usec = usec - 1000000\<rparr> else \<lparr>tv_sec = sec, tv_usec = usec\<rparr>)"

text \<open>The slots of the accessories that wait for their release, with the accessory of a command entered in the first free one.\<close>

definition await_release :: "timeval \<Rightarrow> ga_data_t \<Rightarrow> ga_slots \<Rightarrow> ga_slots" where
  "await_release now g t =
     (if ga_action g \<noteq> 0 \<and> ga_activetime g > 0 then
        (case find (\<lambda>i. ga_id (t i) = 0) [0..<50] of
           None \<Rightarrow> t
         | Some i \<Rightarrow> t(i := g\<lparr>ga_t := due_time now (ga_activetime g)\<rparr>))
      else t)"

definition handle_ga_command :: "bus_t \<Rightarrow> lb_state \<Rightarrow> lb_state" where
  "handle_ga_command b x =
     (case dequeueNextGA b (fst x) of
        (_, None, _) \<Rightarrow> x
      | (_, Some g, s) \<Rightarrow>
          (let good = (0 \<le> ga_port g \<and> ga_port g < int MAXGAPORT);
               g1 = (if good then g\<lparr>ga_tv := (ga_tv g)(nat (ga_port g) := clock s)\<rparr> else g);
               s1 = snd (setGA b (ga_id g) g1 (if good then s else raise_ub s));
               l1 = (snd x)\<lparr>tga := await_release (clock s) g1 (tga (snd x))\<rparr>
           in (upd_bus b (\<lambda>d. d\<lparr>watchdog := watchdog d + 1\<rparr>) s1, l1)))"

section \<open>The bus thread\<close>

definition release_slot :: "bus_t \<Rightarrow> timeval \<Rightarrow> nat \<Rightarrow> srcpd \<times> ga_slots \<Rightarrow> srcpd \<times> ga_slots" where
  "release_slot b now i x =
     (let g = snd x i
      in if ga_id g > 0 \<and> cmpTime (ga_t g) now then
           (snd (setGA b (ga_id g) (g\<lparr>ga_action := 0\<rparr>) (fst x)), (snd x)(i := g\<lparr>ga_id := 0\<rparr>))
         else x)"

definition release_slots :: "bus_t \<Rightarrow> srcpd \<times> ga_slots \<Rightarrow> srcpd \<times> ga_slots" where
  "release_slots b x = fold (release_slot b (clock (fst x))) [0..<50] x"

definition release_due :: "bus_t \<Rightarrow> lb_state \<Rightarrow> lb_state" where
  "release_due b x = (let (s, t) = release_slots b (fst x, tga (snd x)) in (s, (snd x)\<lparr>tga := t\<rparr>))"

definition loopback_start :: "loopback \<Rightarrow> loopback" where
  "loopback_start l = l\<lparr>tga := (\<lambda>i. if i < 50 then (tga l i)\<lparr>ga_id := 0\<rparr> else tga l i)\<rparr>"

definition loopback_pass :: "bus_t \<Rightarrow> lb_state \<Rightarrow> lb_state" where
  "loopback_pass b x =
     (let s1 = upd_bus b (\<lambda>d. d\<lparr>watchdog := 1\<rparr>) (fst x);
          s2 = (if power_changed (buses s1 b) = 1 then handle_power_command b s1 else s1);
          x1 = (if queue_SM_isempty b s2 then (s2, snd x) else handle_sm_command b (s2, snd x))
      in if power_state (buses (fst x1) b) = 0 then x1
         else
           (let s3 = (if queue_GL_isempty b (fst x1) then fst x1 else handle_gl_command b (fst x1));
                x2 = release_due b (s3, snd x1);
                x3 = (if queue_GA_isempty b (fst x2) then x2 else handle_ga_command b x2)
            in (upd_bus b (\<lambda>d. d\<lparr>watchdog := watchdog d + 1\<rparr>) (fst x3), snd x3)))"

section \<open>Release of accessories\<close>

lemma initGA_other: "nat a \<noteq> nat addr \<Longrightarrow> ga_at b a (snd (initGA b addr p s)) = ga_at b a s"
  "numberOfGa (ga (snd (initGA b addr p s)) c) = numberOfGa (ga s c)"
  by (auto simp: initGA_def Let_def split: prod.split option.split)

lemma setGA_action:
  assumes "0 < addr" "addr \<le> get_number_ga b s"
  shows "ga_action (ga_at b addr (snd (setGA b addr g s))) = ga_action g"
    "nat a \<noteq> nat addr \<Longrightarrow> ga_at b a (snd (setGA b addr g s)) = ga_at b a s"
  using assms by (simp_all add: setGA_def Let_def initGA_other)

lemma setGA_number: "numberOfGa (ga (snd (setGA b addr g s)) c) = numberOfGa (ga s c)"
  by (simp add: setGA_def Let_def initGA_other)

definition slot_due :: "timeval \<Rightarrow> ga_slots \<Rightarrow> nat \<Rightarrow> bool" where
  "slot_due now t i \<longleftrightarrow> ga_id (t i) > 0 \<and> cmpTime (ga_t (t i)) now"

lemma release_fold:
  assumes "distinct ks" and "x = fold (release_slot b now) ks (s, t)"
  shows "snd x i = (if i \<in> set ks \<and> slot_due now t i then (t i)\<lparr>ga_id := 0\<rparr> else t i) \<and>
    numberOfGa (ga (fst x) b) = numberOfGa (ga s b) \<and>
    (0 < a \<and> a \<le> numberOfGa (ga s b) \<longrightarrow>
      (if \<exists>k \<in> set ks. slot_due now t k \<and> ga_id (t k) = a then ga_action (ga_at b a (fst x)) = 0 else ga_at b a (fst x) = ga_at b a s))"
  using assms
proof (induction ks arbitrary: x i a rule: rev_induct)
  case (snoc k ks)
  define y where "y = fold (release_slot b now) ks (s, t)"
  have x: "x = release_slot b now k y" using snoc.prems(2) by (simp add: y_def)
  have ks: "distinct ks" "k \<notin> set ks" using snoc.prems(1) by auto
  note IH = snoc.IH [OF ks(1) y_def]
  have k: "snd y k = t k" using IH [of k] ks(2) by simp
  show ?case
  proof (cases "slot_due now t k")
    case True
    let ?g = "t k"
    have xs: "fst x = snd (setGA b (ga_id ?g) (?g\<lparr>ga_action := 0\<rparr>) (fst y))" "snd x = (snd y)(k := ?g\<lparr>ga_id := 0\<rparr>)"
      using True k by (simp_all add: x release_slot_def slot_due_def Let_def)
    have n: "numberOfGa (ga (fst y) b) = numberOfGa (ga s b)" using IH by blast
    have id: "0 < ga_id ?g" using True by (simp add: slot_due_def)
    have eq: "ga_action (ga_at b a (fst x)) = 0" if "a = ga_id ?g" "a \<le> numberOfGa (ga s b)"
      using setGA_action(1) [OF id, of b "fst y" "?g\<lparr>ga_action := 0\<rparr>"] that n by (simp add: xs get_number_ga_def)
    have ne: "ga_at b a (fst x) = ga_at b a (fst y)" if "a \<noteq> ga_id ?g" "0 < a"
    proof (cases "ga_id ?g \<le> get_number_ga b (fst y)")
      case False then show ?thesis by (simp add: xs setGA_def)
    next
      case T: True show ?thesis unfolding xs using setGA_action(2) [OF id T] that id by simp
    qed
    have "snd x i = (if i \<in> set (ks @ [k]) \<and> slot_due now t i then (t i)\<lparr>ga_id := 0\<rparr> else t i)"
      using IH [of i] True by (auto simp: xs)
    moreover have "numberOfGa (ga (fst x) b) = numberOfGa (ga s b)" using n by (simp add: xs setGA_number)
    moreover have "0 < a \<and> a \<le> numberOfGa (ga s b) \<longrightarrow> (if \<exists>k \<in> set (ks @ [k]). slot_due now t k \<and> ga_id (t k) = a
        then ga_action (ga_at b a (fst x)) = 0 else ga_at b a (fst x) = ga_at b a s)"
      using IH [of i a] eq ne True by (cases "a = ga_id ?g") auto
    ultimately show ?thesis by blast
  next
    case False
    then have "x = y" using k by (auto simp: x release_slot_def slot_due_def Let_def)
    then show ?thesis using IH [of i a] False by auto
  qed
qed simp

lemma release_slots_exact:
  assumes "x = release_slots b (s, t)"
  shows "(\<forall>i. snd x i = (if i < 50 \<and> slot_due (clock s) t i then (t i)\<lparr>ga_id := 0\<rparr> else t i)) \<and>
    (\<forall>a. 0 < a \<and> a \<le> get_number_ga b s \<longrightarrow>
      (if \<exists>i < 50. slot_due (clock s) t i \<and> ga_id (t i) = a then ga_action (ga_at b a (fst x)) = 0 else ga_at b a (fst x) = ga_at b a s))"
proof -
  have x: "x = fold (release_slot b (clock s)) [0..<50] (s, t)" using assms by (simp add: release_slots_def del: upt_rec_numeral)
  have b: "i \<in> set [0..<50] \<longleftrightarrow> i < 50" for i :: nat by (simp del: upt_rec_numeral)
  have "(\<exists>k \<in> set [0..<50]. P k) \<longleftrightarrow> (\<exists>i < 50. P i)" for P :: "nat \<Rightarrow> bool" using b by blast
  then show ?thesis using release_fold [OF distinct_upt x] unfolding b get_number_ga_def by presburger
qed

text \<open>Accessories are released in time: a pass of the loop over the waiting accessories releases exactly those whose time is over:
  every address of such a slot is switched off and the slot becomes free, the other slots stay as they are,
  and no other accessory is changed.
\<close>

theorem release_due_exact:
  assumes "x = release_due b (s, l)"
  shows "(\<forall>i. tga (snd x) i = (if i < 50 \<and> slot_due (clock s) (tga l) i then (tga l i)\<lparr>ga_id := 0\<rparr> else tga l i)) \<and>
    (\<forall>a. 0 < a \<and> a \<le> get_number_ga b s \<longrightarrow>
      (if \<exists>i < 50. slot_due (clock s) (tga l) i \<and> ga_id (tga l i) = a then ga_action (ga_at b a (fst x)) = 0 else ga_at b a (fst x) = ga_at b a s))"
  using release_slots_exact [OF refl, of b s "tga l"] by (simp add: assms release_due_def Let_def case_prod_unfold)

definition lb_zero :: loopback where
  "lb_zero = \<lparr>tga = (\<lambda>_. ga_zero), lb_cv = (\<lambda>_. 0), lb_results = []\<rparr>"

theorem release_due_exact_witness:
  "ga_action (ga_at 1 2 (fst (release_due 1 (ga_demo, lb_zero\<lparr>tga := (\<lambda>_. ga_zero)(3 := ga_zero\<lparr>ga_id := 2, ga_action := 1\<rparr>)\<rparr>)))) = 0"
proof -
  let ?l = "lb_zero\<lparr>tga := (\<lambda>_. ga_zero)(3 := ga_zero\<lparr>ga_id := 2, ga_action := 1\<rparr>)\<rparr>"
  have "slot_due (clock ga_demo) (tga ?l) 3" "ga_id (tga ?l 3) = 2" by (simp_all add: slot_due_def cmpTime_def ga_zero_def tv0_def)
  then have e: "\<exists>i < 50. slot_due (clock ga_demo) (tga ?l) i \<and> ga_id (tga ?l i) = 2" by (intro exI [of _ 3]) simp
  have "0 < (2 :: int) \<and> 2 \<le> get_number_ga 1 ga_demo \<longrightarrow> (if \<exists>i < 50. slot_due (clock ga_demo) (tga ?l) i \<and> ga_id (tga ?l i) = 2
      then ga_action (ga_at 1 2 (fst (release_due 1 (ga_demo, ?l)))) = 0 else ga_at 1 2 (fst (release_due 1 (ga_demo, ?l))) = ga_at 1 2 ga_demo)"
    by (rule spec [OF release_due_exact [OF refl, of 1 ga_demo ?l, THEN conjunct2]])
  moreover have "0 < (2 :: int) \<and> 2 \<le> get_number_ga 1 ga_demo" by simp
  ultimately show ?thesis unfolding if_P [OF e] by (rule mp)
qed

text \<open>The simulated decoder forgets what is written: a configuration variable that has been set reads as zero, and verifying the
  value that was written fails, because each request clears the variables first.
\<close>

theorem loopback_forgets:
  assumes "0 \<le> a" and "a \<le> 255" and "0 < val" and "val \<le> 255"
    and "w = sm\<lparr>sm_command := SET, sm_type := CV, sm_cvaddr := a, sm_value := val\<rparr>"
  shows "fst (lb_execute w cv) = val \<and> fst (lb_execute (w\<lparr>sm_command := GET\<rparr>) (snd (lb_execute w cv))) = 0 \<and>
    fst (lb_execute (w\<lparr>sm_command := VERIFY\<rparr>) (snd (lb_execute w cv))) = -1"
proof -
  have "val AND 255 = take_bit 8 val" by (simp add: take_bit_eq_mask mask_eq_exp_minus_1)
  then have "val AND 255 = val" using assms(3,4) by (simp add: take_bit_int_eq_self)
  then show ?thesis using assms by (simp add: lb_execute_def lb_get_def lb_set_def lb_verify_def MAX_CV_NUMBER_def)
qed

theorem loopback_forgets_witness:
  "fst (lb_execute (sm_zero\<lparr>sm_command := GET, sm_type := CV, sm_cvaddr := 3, sm_value := 7\<rparr>)
     (snd (lb_execute (sm_zero\<lparr>sm_command := SET, sm_type := CV, sm_cvaddr := 3, sm_value := 7\<rparr>) (\<lambda>_. 0)))) = 0"
  using loopback_forgets [of 3 7 _ sm_zero "\<lambda>_. 0"] by (simp add: sm_zero_def)

end
