(* ===== verification/Canbus.thy ===== *)
theory Canbus
  imports Loopback
begin

unbundle bit_operations_syntax

text \<open>
  The driver \<open>canbus.c\<close> for accessories and feedback modules on a CAN bus. \<open>canbus\<close> holds the driver's data
  (\<open>CANBUS_DATA\<close>), the descriptor of the socket, the local variable \<open>pause\<close> of the bus thread, and the frames that have been
  written; \<open>can_write_ok\<close> says whether the \<open>k\<close>th call of \<open>write\<close> succeeds. \<open>canbus_pass\<close> is one pass of the bus thread
  \<open>thr_sendrec_CANBUS\<close>, with what \<open>select\<close> and \<open>read\<close> return as its argument. A frame that is sent holds the
  \<open>can_dlc\<close> bytes of its data, a frame that is received all eight. A call that waits on a full queue of contacts is \<open>None\<close>.
\<close>

section \<open>State\<close>

record canbus =
  can_fd :: int
  can_tga :: ga_slots
  pause_between_cmd :: int
  pause :: int
  can_out :: "can_frame list"
  can_writes :: nat
  can_write_ok :: "nat \<Rightarrow> bool"

type_synonym cb_state = "srcpd \<times> canbus"

text \<open>
  What opening the socket finds: the descriptor that \<open>socket\<close> returns, the name of the interface, and whether \<open>ioctl\<close> knows
  it, \<open>bind\<close> and \<open>setsockopt\<close> succeed.
\<close>

record can_env =
  can_socket :: int
  can_path :: string
  can_if_known :: bool
  can_bind_ok :: bool
  can_filter_ok :: bool

datatype can_event = Can_Error | Can_Timeout | Can_Short_Read | Can_Frame can_frame

definition INVALID_SOCKET :: int where [code_unfold]: "INVALID_SOCKET = -1"
definition CAN_RTR_FLAG :: int where [code_unfold]: "CAN_RTR_FLAG = 0x40000000"
definition IFNAMSIZ :: nat where [code_unfold]: "IFNAMSIZ = 16"
definition FD_SETSIZE :: int where [code_unfold]: "FD_SETSIZE = 1024"

section \<open>The socket\<close>

text \<open>A name that does not fit into \<open>ifr_name\<close> is written past its end; \<open>ioctl\<close> fails on the descriptor of a socket that could not be made.\<close>

definition initSocketCan :: "can_env \<Rightarrow> cb_state \<Rightarrow> bool \<times> cb_state" where
  "initSocketCan e x =
     (let (s, c) = x; s1 = (if length (can_path e) < IFNAMSIZ then s else raise_ub s)
      in if can_socket e < 0 \<or> \<not> can_if_known e then (False, s1, c\<lparr>can_fd := INVALID_SOCKET\<rparr>)
         else if \<not> can_bind_ok e then (False, s1, c\<lparr>can_fd := INVALID_SOCKET\<rparr>)
         else (can_filter_ok e, s1, c\<lparr>can_fd := can_socket e\<rparr>))"

definition closeSocketCan :: "canbus \<Rightarrow> canbus" where
  "closeSocketCan c = (if can_fd c > 0 then c\<lparr>can_fd := INVALID_SOCKET\<rparr> else c)"

definition sendCanMsg :: "can_frame \<Rightarrow> bool \<Rightarrow> bool \<Rightarrow> canbus \<Rightarrow> bool \<times> canbus" where
  "sendCanMsg msg extended rtr c =
     (if can_fd c \<le> 0 then (False, c)
      else
        (let m1 = (if extended then msg\<lparr>can_id := can_id msg OR CAN_EFF_FLAG\<rparr> else msg);
             m2 = (if rtr then m1\<lparr>can_id := can_id m1 OR CAN_RTR_FLAG\<rparr> else m1);
             c1 = c\<lparr>can_writes := Suc (can_writes c)\<rparr>
         in if can_write_ok c (can_writes c) then (True, c1\<lparr>can_out := can_out c1 @ [m2]\<rparr>) else (False, c1)))"

text \<open>\<open>FD_SET\<close> writes outside of the set when the descriptor is not in its range.\<close>

definition checkCanMsg :: "bus_t \<Rightarrow> can_event \<Rightarrow> cb_state \<Rightarrow> (bool \<times> cb_state) option" where
  "checkCanMsg b ev x =
     (let (s, c) = x; s1 = (if 0 \<le> can_fd c \<and> can_fd c < FD_SETSIZE then s else raise_ub s)
      in case ev of
           Can_Error \<Rightarrow> Some (False, s1, c)
         | Can_Timeout \<Rightarrow> Some (False, s1, c)
         | Can_Short_Read \<Rightarrow> Some (True, s1, c)
         | Can_Frame msg \<Rightarrow>
             (let ty = (can_id msg AND 0x1FFFFF00) + (if can_dlc msg \<noteq> 0 then can_data msg ! 0 else 0)
              in if ty = 0x1A1 \<or> ty = 0x1A2 then
                   map_option (\<lambda>r. (True, snd r, c)) (setFB b ((can_id msg AND 0xFF) * 16 + can_data msg ! 1 + 1) (ty AND 1) s1)
                 else Some (True, s1, c)))"

section \<open>Commands\<close>

definition init_ga_CANBUS :: "ga_data_t \<Rightarrow> int \<times> ga_data_t" where
  "init_ga_CANBUS g =
     (if ga_protocol g = CHR ''M'' \<or> ga_protocol g = CHR ''N'' \<or> ga_protocol g = CHR ''P'' \<or> ga_protocol g = CHR ''S'' then SRCP_OK
      else SRCP_UNSUPPORTEDDEVICEPROTOCOL, g)"

definition init_bus_CANBUS :: "can_env \<Rightarrow> bus_t \<Rightarrow> cb_state \<Rightarrow> cb_state" where
  "init_bus_CANBUS e b x =
     (let (s, c) = x; (_, s1, c1) = initSocketCan e (upd_bus b (\<lambda>d. d\<lparr>bus_protocols := Some ''LSPMN''\<rparr>) s, c);
          msg = \<lparr>can_id = 0x100, can_dlc = 8, can_data = map (\<lambda>j. int j * 10) [0..<8]\<rparr>
      in (s1, snd (sendCanMsg msg False False c1)))"

definition handle_power_command_CANBUS :: "bus_t \<Rightarrow> srcpd \<Rightarrow> srcpd" where
  "handle_power_command_CANBUS b s =
     (let s1 = upd_bus b (\<lambda>d. d\<lparr>power_changed := 0\<rparr>) s
      in upd_bus b (\<lambda>d. d\<lparr>watchdog := watchdog d + 1\<rparr>) (enqueueInfoMessage (snd (infoPower b s1)) s1))"

text \<open>A command for a port other than 0 and 1 is taken from the queue and dropped.\<close>

definition handle_ga_command_CANBUS :: "bus_t \<Rightarrow> cb_state \<Rightarrow> cb_state" where
  "handle_ga_command_CANBUS b x =
     (case dequeueNextGA b (fst x) of
        (_, None, _) \<Rightarrow> x
      | (_, Some g, s) \<Rightarrow>
          (let addr = ga_id g; good = (0 \<le> ga_port g \<and> ga_port g < int MAXGAPORT);
               g1 = (if good then g\<lparr>ga_tv := (ga_tv g)(nat (ga_port g) := clock s)\<rparr> else g);
               s1 = (if good then s else raise_ub s)
           in if ga_port g \<noteq> 0 \<and> ga_port g \<noteq> 1 then (s1, snd x)
              else
                (let msg = \<lparr>can_id = u32 (0x200 + tdiv addr 8), can_dlc = 2,
                       can_data = [if ga_port g = 0 then 0x31 else 0x32, addr AND 7]\<rparr>;
                     c1 = snd (sendCanMsg msg False False (snd x));
                     s2 = snd (setGA b addr g1 s1);
                     c2 = c1\<lparr>can_tga := await_release (clock s) g1 (can_tga c1)\<rparr>
                 in (upd_bus b (\<lambda>d. d\<lparr>watchdog := watchdog d + 1\<rparr>) s2, c2))))"

section \<open>The bus thread\<close>

definition end_bus_thread_CANBUS :: "canbus \<Rightarrow> canbus" where
  "end_bus_thread_CANBUS c = closeSocketCan c"

definition canbus_start :: "canbus \<Rightarrow> canbus" where
  "canbus_start c = c\<lparr>pause := 0, can_tga := (\<lambda>i. if i < 50 then (can_tga c i)\<lparr>ga_id := 0\<rparr> else can_tga c i)\<rparr>"

definition release_due_CANBUS :: "bus_t \<Rightarrow> cb_state \<Rightarrow> cb_state" where
  "release_due_CANBUS b x = (let (s, t) = release_slots b (fst x, can_tga (snd x)) in (s, (snd x)\<lparr>can_tga := t\<rparr>))"

text \<open>The part of a pass that is reached with power on.\<close>

definition canbus_work :: "bus_t \<Rightarrow> can_event \<Rightarrow> cb_state \<Rightarrow> cb_state option" where
  "canbus_work b ev x =
     (let x1 = release_due_CANBUS b x;
          x2 = (if pause (snd x1) > 0 then (fst x1, (snd x1)\<lparr>pause := pause (snd x1) - 1\<rparr>)
                else if queue_GA_isempty b (fst x1) then x1
                else (let y = handle_ga_command_CANBUS b x1 in (fst y, (snd y)\<lparr>pause := s32 (pause_between_cmd (snd y))\<rparr>)));
          x3 = (upd_bus b (\<lambda>d. d\<lparr>watchdog := watchdog d + 1\<rparr>) (fst x2), snd x2)
      in map_option snd (checkCanMsg b ev x3))"

definition canbus_pass :: "bus_t \<Rightarrow> can_event \<Rightarrow> cb_state \<Rightarrow> cb_state option" where
  "canbus_pass b ev x =
     (let s1 = upd_bus b (\<lambda>d. d\<lparr>watchdog := 1\<rparr>) (fst x);
          s2 = (if power_changed (buses s1 b) = 1 then handle_power_command_CANBUS b s1 else s1)
      in if power_state (buses s2 b) = 0 then Some (s2, snd x) else canbus_work b ev (s2, snd x))"

section \<open>Switching\<close>

text \<open>How a module on the bus reads a frame: the accessory and the position.\<close>

definition module_hears :: "can_frame \<Rightarrow> (int \<times> int) option" where
  "module_hears f =
     (if 0x200 \<le> can_id f \<and> can_id f < 0x800 \<and> can_dlc f = 2 \<and> can_data f ! 0 \<in> {0x31, 0x32} \<and> 0 \<le> can_data f ! 1 \<and> can_data f ! 1 < 8
      then Some ((can_id f - 0x200) * 8 + can_data f ! 1, can_data f ! 0 - 0x31) else None)"

lemma setGA_kept [simp]:
  "buses (snd (setGA b a g s)) = buses s" "clock (snd (setGA b a g s)) = clock s" "fb (snd (setGA b a g s)) = fb s"
  "ga_queue (ga (snd (setGA b a g s)) c) = ga_queue (ga s c)"
  by (auto simp: setGA_def initGA_def Let_def split: prod.split option.split)

lemma release_slots_kept [simp]:
  "buses (fst (release_slots b x)) = buses (fst x)" "clock (fst (release_slots b x)) = clock (fst x)" "fb (fst (release_slots b x)) = fb (fst x)"
  "ga_queue (ga (fst (release_slots b x)) c) = ga_queue (ga (fst x) c)"
  "numberOfGa (ga (fst (release_slots b x)) c) = numberOfGa (ga (fst x) c)"
proof -
  let ?P = "\<lambda>y. buses (fst y) = buses (fst x) \<and> clock (fst y) = clock (fst x) \<and> fb (fst y) = fb (fst x) \<and>
    ga_queue (ga (fst y) c) = ga_queue (ga (fst x) c) \<and> numberOfGa (ga (fst y) c) = numberOfGa (ga (fst x) c)"
  have "?P (fold (release_slot b now) ks y)" if "?P y" for ks now y
    using that by (induction ks arbitrary: y) (auto simp: release_slot_def Let_def setGA_number)
  then have "?P (release_slots b x)" by (simp add: release_slots_def del: upt_rec_numeral)
  then show "buses (fst (release_slots b x)) = buses (fst x)" "clock (fst (release_slots b x)) = clock (fst x)" "fb (fst (release_slots b x)) = fb (fst x)"
    "ga_queue (ga (fst (release_slots b x)) c) = ga_queue (ga (fst x) c)"
    "numberOfGa (ga (fst (release_slots b x)) c) = numberOfGa (ga (fst x) c)" by blast+
qed

lemma module_hears_frame:
  assumes "0 \<le> a" "a < 0x3000" "p = 0 \<or> p = 1"
  shows "module_hears \<lparr>can_id = u32 (0x200 + tdiv a 8), can_dlc = 2, can_data = [if p = 0 then 0x31 else 0x32, a AND 7]\<rparr> = Some (a, p)"
proof -
  have 7: "a AND 7 = a mod 8" using take_bit_eq_mask [of 3 a] by (simp add: take_bit_eq_mod mask_eq_exp_minus_1)
  have d: "tdiv a 8 = a div 8" using assms(1) by (simp add: tdiv_nonneg)
  have u: "u32 (0x200 + a div 8) = 0x200 + a div 8" using assms(1,2) by (intro u32_id) auto
  show ?thesis using assms by (auto simp: module_hears_def 7 d u)
qed

lemma setFB_returns:
  assumes "min_time (fb s b) = 0"
  obtains r s' where "setFB b p v s = Some (r, s')" "ga s' = ga s"
proof -
  have "\<exists>r s'. updateFB b p v s = Some (r, s')" using assms unfolding updateFB_def Let_def by simp
  then show thesis using that setFB_ga [of b p v s] unfolding setFB_def by fastforce
qed

lemma checkCanMsg_returns:
  assumes "min_time (fb s b) = 0"
  obtains r s' where "checkCanMsg b ev (s, c) = Some (r, s', c)" "ga s' = ga s"
proof (cases ev)
  case (Can_Frame f)
  let ?s1 = "if 0 \<le> can_fd c \<and> can_fd c < FD_SETSIZE then s else raise_ub s"
  have "min_time (fb ?s1 b) = 0" "ga ?s1 = ga s" using assms by (simp_all add: raise_ub_def)
  then have "\<exists>r s'. setFB b p v ?s1 = Some (r, s') \<and> ga s' = ga s" for p v using setFB_returns by metis
  then have "\<exists>r s'. checkCanMsg b ev (s, c) = Some (r, s', c) \<and> ga s' = ga s"
    unfolding checkCanMsg_def Let_def Can_Frame by fastforce
  with that show thesis by blast
qed (use that [of False] that [of True] in \<open>simp_all add: checkCanMsg_def Let_def raise_ub_def\<close>)

lemma canbus_pass_with_power:
  assumes "power_state (buses s b) \<noteq> 0"
  obtains s2 where "ga s2 = ga s" "fb s2 = fb s" "clock s2 = clock s" "canbus_pass b ev (s, c) = canbus_work b ev (s2, c)"
proof -
  let ?s1 = "upd_bus b (\<lambda>d. d\<lparr>watchdog := 1\<rparr>) s"
  define s2 where "s2 = (if power_changed (buses ?s1 b) = 1 then handle_power_command_CANBUS b ?s1 else ?s1)"
  have "ga s2 = ga s" "fb s2 = fb s" "clock s2 = clock s" "power_state (buses s2 b) = power_state (buses s b)"
    by (auto simp: s2_def handle_power_command_CANBUS_def Let_def)
  moreover have "canbus_pass b ev (s, c) = (if power_state (buses s2 b) = 0 then Some (s2, c) else canbus_work b ev (s2, c))"
    unfolding canbus_pass_def Let_def fst_conv snd_conv s2_def [symmetric] ..
  ultimately show thesis using assms that by simp
qed

lemma handle_ga_CANBUS_sends:
  assumes "ring_ok 50 (ga_queue (ga s b))" "ga_pending b s = g # gs" "ga_port g = 0 \<or> ga_port g = 1"
    and "0 < ga_id g" "ga_id g \<le> get_number_ga b s" "0 < can_fd c" "can_write_ok c (can_writes c)"
    and "y = handle_ga_command_CANBUS b (s, c)"
  shows "can_out (snd y) = can_out c @ [\<lparr>can_id = u32 (0x200 + tdiv (ga_id g) 8), can_dlc = 2,
      can_data = [if ga_port g = 0 then 0x31 else 0x32, ga_id g AND 7]\<rparr>] \<and> ga_action (ga_at b (ga_id g) (fst y)) = ga_action g \<and>
    ga_pending b (fst y) = gs \<and> pause_between_cmd (snd y) = pause_between_cmd c \<and> fb (fst y) = fb s"
proof -
  obtain i s1 where d: "dequeueNextGA b s = (i, Some g, s1)" "ga_pending b s1 = gs"
    using gaq.deq_front [OF assms(1,2)] by (metis prod.collapse)
  then have "get_number_ga b s1 = get_number_ga b s" "fb s1 = fb s"
    by (auto simp: dequeueNextGA_def get_number_ga_def Let_def split: if_splits)
  moreover have "0 \<le> ga_port g" "ga_port g < int MAXGAPORT" using assms(3) by (auto simp: MAXGAPORT_def)
  moreover have "ga_port g \<noteq> 0 \<and> ga_port g \<noteq> 1 \<longleftrightarrow> False" using assms(3) by blast
  ultimately show ?thesis
    using assms(4-7) d(2) by (simp add: assms(8) handle_ga_command_CANBUS_def d(1) Let_def sendCanMsg_def setGA_action(1))
qed

text \<open>C27. An accessory command reaches its module on the CAN bus: with power on and the pause since the last command over, a pass of
  the bus thread takes the command at the head of the queue, whatever frame arrives meanwhile, and writes one frame, from
  which a module reads exactly the accessory and the position of the command; the table shows the action, and the
  pause before the next command is set.
\<close>

theorem canbus_switches_accessory:
  assumes "power_state (buses s b) \<noteq> 0" and "pause c \<le> 0" and "0 < can_fd c" and "can_write_ok c (can_writes c)"
    and "min_time (fb s b) = 0" and "ring_ok 50 (ga_queue (ga s b))" and "ga_pending b s = g # gs"
    and "ga_port g = 0 \<or> ga_port g = 1" and "0 < ga_id g" and "ga_id g \<le> get_number_ga b s" and "ga_id g < 0x3000"
  shows "\<exists>s' c' f. canbus_pass b ev (s, c) = Some (s', c') \<and> can_out c' = can_out c @ [f] \<and>
    module_hears f = Some (ga_id g, ga_port g) \<and> ga_action (ga_at b (ga_id g) s') = ga_action g \<and>
    ga_pending b s' = gs \<and> pause c' = s32 (pause_between_cmd c)"
proof -
  obtain s2 where s2: "ga s2 = ga s" "fb s2 = fb s" "clock s2 = clock s" "canbus_pass b ev (s, c) = canbus_work b ev (s2, c)"
    by (rule canbus_pass_with_power [OF assms(1)])
  obtain s3 c3 where x: "release_due_CANBUS b (s2, c) = (s3, c3)" by force
  then have s3: "ga_queue (ga s3 b) = ga_queue (ga s b)" "get_number_ga b s3 = get_number_ga b s" "fb s3 = fb s"
    and c3: "pause c3 = pause c" "can_fd c3 = can_fd c" "can_out c3 = can_out c" "can_writes c3 = can_writes c"
      "can_write_ok c3 = can_write_ok c" "pause_between_cmd c3 = pause_between_cmd c"
    using s2 by (auto simp: release_due_CANBUS_def get_number_ga_def Let_def case_prod_unfold)
  have ne: "\<not> queue_GA_isempty b s3" using ring_isempty_iff [OF assms(6)] assms(7) by (simp add: queue_GA_isempty_def s3)
  define y where "y = handle_ga_command_CANBUS b (s3, c3)"
  define f where "f = \<lparr>can_id = u32 (0x200 + tdiv (ga_id g) 8), can_dlc = 2, can_data = [if ga_port g = 0 then 0x31 else 0x32, ga_id g AND 7]\<rparr>"
  have y: "can_out (snd y) = can_out c @ [f]" "ga_action (ga_at b (ga_id g) (fst y)) = ga_action g"
    "ga_pending b (fst y) = gs" "pause_between_cmd (snd y) = pause_between_cmd c" "fb (fst y) = fb s"
    using handle_ga_CANBUS_sends [of s3 b g gs c3 y] assms s3 c3 by (simp_all add: y_def f_def)
  let ?u = "upd_bus b (\<lambda>d. d\<lparr>watchdog := watchdog d + 1\<rparr>) (fst y)" and ?c = "(snd y)\<lparr>pause := s32 (pause_between_cmd (snd y))\<rparr>"
  have "canbus_work b ev (s2, c) = map_option snd (checkCanMsg b ev (?u, ?c))"
    using assms(2) ne by (simp add: canbus_work_def x Let_def c3 y_def)
  moreover obtain r s' where "checkCanMsg b ev (?u, ?c) = Some (r, s', ?c)" "ga s' = ga ?u"
    by (rule checkCanMsg_returns [of ?u b]) (use assms(5) y(5) in simp)
  moreover have "module_hears f = Some (ga_id g, ga_port g)" using module_hears_frame assms by (simp add: f_def)
  ultimately show ?thesis using y by (simp add: s2(4))
qed

definition canbus_open :: canbus where
  "canbus_open = \<lparr>can_fd = 3, can_tga = (\<lambda>_. ga_zero), pause_between_cmd = 20, pause = 0, can_out = [], can_writes = 0, can_write_ok = (\<lambda>_. True)\<rparr>"

definition can_demo :: srcpd where
  "can_demo = upd_bus 1 (\<lambda>d. d\<lparr>power_state := 1\<rparr>) (upd_ga 1 (\<lambda>a. a\<lparr>ga_queue := ring_put 50 (ga_zero\<lparr>ga_id := 3, ga_port := 1, ga_action := 1\<rparr>) (ga_queue a)\<rparr>)
     ga_demo)"

lemma can_demo_simps:
  "power_state (buses can_demo 1) = 1" "min_time (fb can_demo 1) = 0" "get_number_ga 1 can_demo = 4"
  "ring_ok 50 (ga_queue (ga can_demo 1))" "ring_list 50 (ga_queue (ga can_demo 1)) = [ga_zero\<lparr>ga_id := 3, ga_port := 1, ga_action := 1\<rparr>]"
  by (simp_all add: can_demo_def ga_demo_def init_GA_def srcpd_init_def get_number_ga_def upd_ga_def
    ring_ok_def ring_list_def ring_len_def ring_put_def ring_advance_def Let_def ga_bus_zero_def ring_empty_def fb_bus_zero_def)

theorem canbus_switches_accessory_witness:
  "\<exists>s' c' f. canbus_pass 1 (Can_Frame \<lparr>can_id = 0x105, can_dlc = 2, can_data = [0xA1, 2, 0, 0, 0, 0, 0, 0]\<rparr>) (can_demo, canbus_open) = Some (s', c') \<and>
     can_out c' = [f] \<and> module_hears f = Some (3, 1) \<and> ga_action (ga_at 1 3 s') = 1 \<and> pause c' = 20"
proof -
  have "s32 20 = 20" by (simp add: s32_def)
  then show ?thesis
  using canbus_switches_accessory [of can_demo 1 canbus_open "ga_zero\<lparr>ga_id := 3, ga_port := 1, ga_action := 1\<rparr>" "[]"
      "Can_Frame \<lparr>can_id = 0x105, can_dlc = 2, can_data = [0xA1, 2, 0, 0, 0, 0, 0, 0]\<rparr>"] by (auto simp: canbus_open_def can_demo_simps simp del: One_nat_def)
qed

section \<open>Feedback\<close>

lemma can_id_parts:
  "x AND 0x1FFFFF00 = 256 * (x div 256 mod 2 ^ 21)" "x AND 0xFF = x mod 256" for x :: int
proof -
  have "x AND push_bit 8 (mask 21) = push_bit 8 (take_bit 21 (drop_bit 8 x))" by (rule bit_eqI) (auto simp: bit_simps)
  then show "x AND 0x1FFFFF00 = 256 * (x div 256 mod 2 ^ 21)"
    by (simp add: mask_eq_exp_minus_1 push_bit_eq_mult take_bit_eq_mod drop_bit_eq_div mult.commute)
  show "x AND 0xFF = x mod 256" using take_bit_eq_mask [of 8 x] by (simp add: take_bit_eq_mod mask_eq_exp_minus_1)
qed

text \<open>C28. A feedback module is heard: when module \<open>m\<close> reports its contact \<open>i\<close> as occupied or free, the contact that belongs to
  them, and no other, has the reported state afterwards; a frame outside the identifiers of the modules changes nothing.
\<close>

theorem canbus_reports_contact:
  assumes "0 \<le> m" and "m < 256" and "0 \<le> i" and "i < 16" and "m * 16 + i < get_number_fb b s"
    and "can_id f = 0x100 + m" and "can_dlc f \<noteq> 0" and "can_data f ! 0 = (if occ then 0xA1 else 0xA2)" and "can_data f ! 1 = i"
    and "min_time (fb s b) = 0" and "\<forall>k. 0 \<le> fb_change (fb_at b k s)" and "0 \<le> can_fd c" and "can_fd c < FD_SETSIZE"
  shows "(\<exists>s'. checkCanMsg b (Can_Frame f) (s, c) = Some (True, s', c) \<and>
      (\<forall>k. fb_state (fb_at b k s') = (if k = nat m * 16 + nat i then of_bool occ else fb_state (fb_at b k s)))) \<and>
    (\<forall>h. can_id h div 256 mod 2 ^ 21 \<noteq> 1 \<and> 0 \<le> can_data h ! 0 \<and> can_data h ! 0 < 256 \<longrightarrow>
      checkCanMsg b (Can_Frame h) (s, c) = Some (True, s, c))"
proof (rule conjI)
  let ?p = "m * 16 + i + 1" and ?v = "of_bool occ :: int"
  have id: "can_id f AND 0x1FFFFF00 = 256" "can_id f AND 0xFF = m" using assms(1,2,6) by (auto simp: can_id_parts div_add1_eq)
  have v: "(0x1A1 :: int) AND 1 = 1" "(0x1A2 :: int) AND 1 = 0" by simp_all
  have "checkCanMsg b (Can_Frame f) (s, c) = map_option (\<lambda>r. (True, snd r, c)) (updateFB b ?p ?v s)"
    using assms(7-9,12,13) by (simp add: checkCanMsg_def id Let_def setFB_def)
  moreover obtain s' where "updateFB b ?p ?v s = Some (SRCP_OK, s')"
    "\<forall>k. fb_state (fb_at b k s') = (if k = nat (?p - 1) then ?v else fb_state (fb_at b k s))"
    by (rule updateFB_direct [of ?p b s ?v]) (use assms in auto)
  moreover have "nat (?p - 1) = nat m * 16 + nat i" using assms(1,3) by (simp add: nat_add_distrib nat_mult_distrib)
  ultimately show "\<exists>s'. checkCanMsg b (Can_Frame f) (s, c) = Some (True, s', c) \<and>
      (\<forall>k. fb_state (fb_at b k s') = (if k = nat m * 16 + nat i then of_bool occ else fb_state (fb_at b k s)))" by simp
  have "256 * q + d \<noteq> 0x1A1 \<and> 256 * q + d \<noteq> 0x1A2" if "q \<noteq> 1" "0 \<le> d" "d < 256" for q d :: int using that by presburger
  then show "\<forall>h. can_id h div 256 mod 2 ^ 21 \<noteq> 1 \<and> 0 \<le> can_data h ! 0 \<and> can_data h ! 0 < 256 \<longrightarrow>
      checkCanMsg b (Can_Frame h) (s, c) = Some (True, s, c)"
    using assms(12,13) by (auto simp: checkCanMsg_def can_id_parts Let_def)
qed

theorem canbus_reports_contact_witness:
  "\<exists>s'. checkCanMsg 1 (Can_Frame \<lparr>can_id = 0x100, can_dlc = 2, can_data = [0xA1, 2, 0, 0, 0, 0, 0, 0]\<rparr>) (fb_demo 0, canbus_open) = Some (True, s', canbus_open) \<and>
     fb_state (fb_at 1 2 s') = 1"
  using canbus_reports_contact [of 0 2 1 "fb_demo 0" "\<lparr>can_id = 0x100, can_dlc = 2, can_data = [0xA1, 2, 0, 0, 0, 0, 0, 0]\<rparr>" True canbus_open]
  by (auto simp: canbus_open_def FD_SETSIZE_def)

text \<open>
  A bus whose interface is unknown starts all the same, and its thread then writes outside of a set of descriptors: \<open>init_bus_CANBUS\<close> leaves
  the descriptor -1, which \<open>checkCanMsg\<close> passes to \<open>FD_SET\<close> as soon as power is on.
\<close>

theorem canbus_unopened_wild:
  assumes "\<not> can_if_known e" and "init_bus_CANBUS e b x = (s, c)" and "power_state (buses s b) \<noteq> 0"
  shows "\<exists>s' c'. canbus_pass b Can_Timeout (s, canbus_start c) = Some (s', c') \<and> ub s'"
proof -
  have "can_fd c = -1" using assms(1,2)
    by (auto simp: init_bus_CANBUS_def initSocketCan_def sendCanMsg_def INVALID_SOCKET_def Let_def case_prod_unfold)
  moreover obtain s2 where "canbus_pass b Can_Timeout (s, canbus_start c) = canbus_work b Can_Timeout (s2, canbus_start c)"
    by (rule canbus_pass_with_power [OF assms(3)])
  moreover have "can_fd (snd (release_due_CANBUS b y)) = can_fd (snd y)" for y
    by (simp add: release_due_CANBUS_def Let_def case_prod_unfold)
  moreover have "can_fd (snd (handle_ga_command_CANBUS b y)) = can_fd (snd y)" for y
    by (auto simp: handle_ga_command_CANBUS_def sendCanMsg_def Let_def split: prod.split option.split)
  ultimately show ?thesis
    by (simp add: canbus_work_def checkCanMsg_def canbus_start_def raise_ub_def Let_def)
qed

theorem canbus_unopened_wild_witness:
  "\<exists>s c s' c'. init_bus_CANBUS \<lparr>can_socket = 3, can_path = ''can7'', can_if_known = False, can_bind_ok = True, can_filter_ok = True\<rparr> 1
       (can_demo, canbus_open) = (s, c) \<and> canbus_pass 1 Can_Timeout (s, canbus_start c) = Some (s', c') \<and> ub s'"
proof -
  let ?e = "\<lparr>can_socket = 3, can_path = ''can7'', can_if_known = False, can_bind_ok = True, can_filter_ok = True\<rparr>"
  obtain s c where i: "init_bus_CANBUS ?e 1 (can_demo, canbus_open) = (s, c)" by force
  then have "power_state (buses s 1) \<noteq> 0"
    by (auto simp: init_bus_CANBUS_def initSocketCan_def Let_def IFNAMSIZ_def can_demo_simps simp del: One_nat_def)
  then show ?thesis using canbus_unopened_wild [OF _ i] i by auto
qed

end
