(* ===== verification/Config.thy ===== *)
theory Config
  imports Mcs_Gateway Canbus
begin

unbundle bit_operations_syntax

text \<open>
  Reading the configuration: \<open>config-srcpd.c\<close> and the functions \<open>readconfig_server\<close>, \<open>readconfig_DDL\<close>, \<open>readconfig_LOOPBACK\<close>
  and \<open>readconfig_CANBUS\<close> of the drivers that the build enables. The document that libxml2 returns is a tree: \<open>xml_name\<close> is the name of a
  node (\<open>text\<close> and \<open>comment\<close> for those nodes), \<open>xml_props\<close> its attributes, \<open>xml_text\<close> what \<open>xmlNodeListGetString\<close> returns for its
  children. \<open>bus_cfg\<close> holds the fields of a bus that only configuration and start use; those that the commands use are
  in \<open>bus_data_t\<close>. Members of the union \<open>device\<close> that share memory on a 64 bit machine (\<open>path\<close> with \<open>hostname\<close>, \<open>fd\<close> with
  \<open>protocol\<close>) are one field. A process that exits with a failure is \<open>None\<close>.
\<close>

section \<open>State\<close>

datatype xml = Xml (xml_name: string) (xml_props: "(string \<times> string) list") (xml_text: "string option") (xml_children: "xml list")

text \<open>The drivers of the build; a function pointer to the functions of a driver is the driver.\<close>

datatype driver = Drv_server | Drv_DDL | Drv_LOOPBACK | Drv_CANBUS

definition SERVER_SERVER :: int where [code_unfold]: "SERVER_SERVER = 0"
definition SERVER_DDL :: int where [code_unfold]: "SERVER_DDL = 1"
definition SERVER_LOOPBACK :: int where [code_unfold]: "SERVER_LOOPBACK = 6"
definition SERVER_CANBUS :: int where [code_unfold]: "SERVER_CANBUS = 15"

record server_data =
  TCPPORT :: int
  listenip :: "string option"
  username :: "string option"
  groupname :: "string option"

record ddl_config =
  ddl_number_gl :: int
  ddl_number_ga :: int
  FB_DEVNAME :: string
  MCS_DEVNAME :: string
  ddl_cfg :: ddl_data

record loopback_config =
  lb_number_ga :: int
  lb_number_gl :: int
  lb_number_fb :: int

record canbus_config =
  cb_number_ga :: int
  cb_number_fb :: int
  cb_pause :: int

datatype driver_data = No_Data | Server_Data server_data | DDL_Data ddl_config | LOOPBACK_Data loopback_config | CANBUS_Data canbus_config

record bus_cfg =
  debuglevel :: int
  bus_type :: int
  devicetype :: int
  dev_path :: "string option"
  dev_fd :: int
  baudrate :: int
  net_port :: "string option"
  init_func :: "driver option"
  thr_func :: "driver option"
  driverdata :: driver_data

record config =
  cfg_srv :: srcpd
  cfg :: "nat \<Rightarrow> bus_cfg"
  PIDFILENAME :: string

text \<open>
  What the functions find outside: whether \<open>malloc\<close> succeeds for the driver data and the device tables of a bus, what fresh memory holds,
  the entry of \<open>getservbyname\<close>, those of \<open>getprotobyname\<close>, and the buffer \<open>stale\<close> of \<open>init_gl_DDL\<close>.
\<close>

record cfg_env =
  malloc_ok :: "nat \<Rightarrow> bool"
  gl_mem :: "nat \<Rightarrow> bool"
  gldir_mem :: "nat \<Rightarrow> bool"
  ga_mem :: "nat \<Rightarrow> bool"
  fb_mem :: "nat \<Rightarrow> bool"
  raw_ddl :: ddl_config
  raw_pause :: int
  servport :: "int option"
  protobyname :: "string \<Rightarrow> int option"
  optbuf :: string

definition HW_UNDEFINED :: int where [code_unfold]: "HW_UNDEFINED = 0"
definition HW_FILENAME :: int where [code_unfold]: "HW_FILENAME = 1"
definition HW_NETWORK :: int where [code_unfold]: "HW_NETWORK = 2"
definition USE_WATCHDOG :: int where [code_unfold]: "USE_WATCHDOG = 1"
definition AUTO_POWER_ON :: int where [code_unfold]: "AUTO_POWER_ON = 2"
definition RESTORE_COM_SETTINGS :: int where [code_unfold]: "RESTORE_COM_SETTINGS = 4"
definition USE_AUTODETECTION :: int where [code_unfold]: "USE_AUTODETECTION = 8"
definition DBG_INFO :: int where [code_unfold]: "DBG_INFO = 4"
definition DBG_DEBUG :: int where [code_unfold]: "DBG_DEBUG = 5"
definition MAXPATHLEN :: nat where [code_unfold]: "MAXPATHLEN = 4096"

definition bus_cfg_zero :: bus_cfg where
  "bus_cfg_zero = \<lparr>debuglevel = 0, bus_type = 0, devicetype = 0, dev_path = None, dev_fd = 0, baudrate = 0, net_port = None,
     init_func = None, thr_func = None, driverdata = No_Data\<rparr>"

section \<open>Access\<close>

text \<open>Writing to a bus; an index outside of the array has no defined meaning.\<close>

definition upd_cfg :: "nat \<Rightarrow> (bus_cfg \<Rightarrow> bus_cfg) \<Rightarrow> config \<Rightarrow> config" where
  "upd_cfg b f c = c\<lparr>cfg := (cfg c)(b := f (cfg c b))\<rparr>"

definition on_cfg_srv :: "(srcpd \<Rightarrow> srcpd) \<Rightarrow> config \<Rightarrow> config" where
  "on_cfg_srv f c = c\<lparr>cfg_srv := f (cfg_srv c)\<rparr>"

definition in_buses :: "nat \<Rightarrow> config \<Rightarrow> config" where
  "in_buses b c = (if b < MAX_BUSES then c else on_cfg_srv raise_ub c)"

definition formatting :: "xml \<Rightarrow> bool" where
  "formatting n \<longleftrightarrow> prefix ''text'' (xml_name n) \<or> prefix ''comment'' (xml_name n)"

definition with_text :: "(string \<Rightarrow> 'a \<Rightarrow> 'a) \<Rightarrow> xml \<Rightarrow> 'a \<Rightarrow> 'a" where
  "with_text f n a = (case xml_text n of None \<Rightarrow> a | Some txt \<Rightarrow> f txt a)"

definition strncpy :: "nat \<Rightarrow> string \<Rightarrow> string \<Rightarrow> string" where
  "strncpy k txt buf = take k (txt @ replicate k nul) @ drop k buf"

definition strtoul :: "string \<Rightarrow> int" where
  "strtoul s = (case scan_number s of
       None \<Rightarrow> 0
     | Some (neg, n, _) \<Rightarrow> if int n \<ge> 2 ^ 64 then 2 ^ 64 - 1 else u64 (if neg then - int n else int n))"

section \<open>The server\<close>

definition server_tag :: "xml \<Rightarrow> server_data \<times> string \<Rightarrow> server_data \<times> string" where
  "server_tag n =
     (let name = xml_name n
      in if formatting n then id
         else if name = ''tcp-port'' then with_text (\<lambda>txt (d, pf). (d\<lparr>TCPPORT := u16 (atoi txt)\<rparr>, pf)) n
         else if name = ''listen-ip'' then with_text (\<lambda>txt (d, pf). (d\<lparr>listenip := Some txt\<rparr>, pf)) n
         else if name = ''pid-file'' then with_text (\<lambda>txt (d, pf). (d, take (MAXPATHLEN - 2) txt)) n
         else if name = ''username'' then with_text (\<lambda>txt (d, pf). (d\<lparr>username := Some txt\<rparr>, pf)) n
         else if name = ''groupname'' then with_text (\<lambda>txt (d, pf). (d\<lparr>groupname := Some txt\<rparr>, pf)) n
         else id)"

definition readconfig_server :: "cfg_env \<Rightarrow> xml \<Rightarrow> nat \<Rightarrow> config \<Rightarrow> (nat \<times> config) option" where
  "readconfig_server e node b c =
     (if \<not> malloc_ok e 0 then None
      else
        (let d0 = \<lparr>TCPPORT = (case servport e of None \<Rightarrow> 4303 | Some p \<Rightarrow> p), listenip = None, username = None, groupname = None\<rparr>;
             (d, pf) = fold server_tag (xml_children node) (d0, PIDFILENAME c);
             c1 = upd_cfg 0 (\<lambda>k. k\<lparr>bus_type := SERVER_SERVER, init_func := Some Drv_server, driverdata := Server_Data d\<rparr>) c;
             c2 = on_cfg_srv (upd_bus 0 (\<lambda>k. k\<lparr>bus_description := ''SESSION SERVER TIME GM''\<rparr>)) c1
         in Some (1, c2\<lparr>PIDFILENAME := pf\<rparr>)))"

section \<open>DDL\<close>

definition enable_ep :: "bool \<Rightarrow> int \<Rightarrow> ddl_data \<Rightarrow> ddl_data" where
  "enable_ep on ep d = d\<lparr>ENABLED_PROTOCOLS := (if on then ENABLED_PROTOCOLS d OR ep else ENABLED_PROTOCOLS d AND NOT ep)\<rparr>"

definition on_ddl_cfg :: "(ddl_data \<Rightarrow> ddl_data) \<Rightarrow> ddl_config \<Rightarrow> ddl_config" where
  "on_ddl_cfg f k = k\<lparr>ddl_cfg := f (ddl_cfg k)\<rparr>"

definition ddl_tag :: "xml \<Rightarrow> ddl_config \<Rightarrow> ddl_config" where
  "ddl_tag n =
     (let name = xml_name n
      in if formatting n then id
         else if name = ''number_gl'' then with_text (\<lambda>txt k. k\<lparr>ddl_number_gl := atoi txt\<rparr>) n
         else if name = ''number_ga'' then with_text (\<lambda>txt k. k\<lparr>ddl_number_ga := atoi txt\<rparr>) n
         else if name = ''enable_checkshort_checking'' then
           with_text (\<lambda>txt. on_ddl_cfg (\<lambda>d. d\<lparr>CHECKSHORT := (if txt = ''inverse'' then 2 else of_bool (txt = ''yes''))\<rparr>)) n
         else if name = ''enable_client_checking'' then with_text (\<lambda>txt. on_ddl_cfg (\<lambda>d. d\<lparr>CHECKCLIENTS := (txt = ''yes'')\<rparr>)) n
         else if name = ''enable_maerklin'' then with_text (\<lambda>txt. on_ddl_cfg (enable_ep (txt = ''yes'') EP_MAERKLIN)) n
         else if name = ''enable_nmradcc'' then with_text (\<lambda>txt. on_ddl_cfg (enable_ep (txt = ''yes'') EP_NMRADCC)) n
         else if name = ''enable_mfx'' then
           (case xml_text n of
              Some txt \<Rightarrow> on_ddl_cfg (\<lambda>d. let u = u32 (strtoul txt) in enable_ep (u \<noteq> 0) EP_MFX (d\<lparr>station_uid := u\<rparr>))
            | None \<Rightarrow> on_ddl_cfg (enable_ep False EP_MFX))
         else if name = ''shortcut_failure_delay'' then with_text (\<lambda>txt. on_ddl_cfg (\<lambda>d. d\<lparr>SHORTCUTDELAY := atoi txt\<rparr>)) n
         else if name = ''nmra_ga_offset'' then with_text (\<lambda>txt. on_ddl_cfg (\<lambda>d. d\<lparr>NMRA_GA_OFFSET := atoi txt\<rparr>)) n
         else if name = ''program_track'' then with_text (\<lambda>txt. on_ddl_cfg (\<lambda>d. d\<lparr>PROGRAM_TRACK := (txt = ''yes'')\<rparr>)) n
         else if name = ''booster_comm'' then with_text (\<lambda>txt. on_ddl_cfg (\<lambda>d. d\<lparr>BOOSTER_COMM := (txt = ''yes'')\<rparr>)) n
         else if name = ''mfx_search'' then with_text (\<lambda>txt. on_ddl_cfg (\<lambda>d. d\<lparr>AUTO_MFX_SEARCH := (txt = ''yes'')\<rparr>)) n
         else if name = ''fb_device'' then with_text (\<lambda>txt k. k\<lparr>FB_DEVNAME := strncpy 15 txt (FB_DEVNAME k)\<rparr>) n
         else if name = ''mcs_device'' then with_text (\<lambda>txt k. k\<lparr>MCS_DEVNAME := strncpy 15 txt (MCS_DEVNAME k)\<rparr>) n
         else if name = ''forward_mm_ga'' then with_text (\<lambda>txt. on_ddl_cfg (\<lambda>d. d\<lparr>FWD_M_ACCESSORIES := nat (u64 (atoi txt))\<rparr>)) n
         else if name = ''forward_nmra_ga'' then with_text (\<lambda>txt. on_ddl_cfg (\<lambda>d. d\<lparr>FWD_N_ACCESSORIES := nat (u64 (atoi txt))\<rparr>)) n
         else id)"

definition ddl_defaults :: "nat \<Rightarrow> ddl_config \<Rightarrow> ddl_config" where
  "ddl_defaults b raw =
     raw\<lparr>ddl_number_gl := 255, ddl_number_ga := 324, FB_DEVNAME := (FB_DEVNAME raw)[0 := nul], MCS_DEVNAME := (MCS_DEVNAME raw)[0 := nul],
       ddl_cfg := (ddl_cfg raw)\<lparr>CHECKSHORT := 0, SHORTCUTDELAY := 0, CHECKCLIENTS := False, ENABLED_PROTOCOLS := EP_MAERKLIN OR EP_NMRADCC,
         NMRA_GA_OFFSET := 0, PROGRAM_TRACK := True, BOOSTER_COMM := False, AUTO_MFX_SEARCH := False,
         FWD_M_ACCESSORIES := b, FWD_N_ACCESSORIES := b\<rparr>\<rparr>"

definition readconfig_DDL :: "cfg_env \<Rightarrow> xml \<Rightarrow> nat \<Rightarrow> config \<Rightarrow> nat \<times> config" where
  "readconfig_DDL e node b c0 =
     (let c = in_buses b c0
      in if \<not> malloc_ok e b then (0, upd_cfg b (\<lambda>k. k\<lparr>driverdata := No_Data\<rparr>) c)
         else
           (let k1 = fold ddl_tag (xml_children node) (ddl_defaults b (raw_ddl e));
                c1 = on_cfg_srv (upd_bus b (\<lambda>d. d\<lparr>bus_description := ''GA GL SM POWER LOCK'', init_gl_func := Some (init_gl_DDL (optbuf e)),
                       describe_gl_func := Some describe_gl_DDL, init_ga_func := Some init_ga_DDL\<rparr>)) c;
                (rga, s1) = init_GA (ga_mem e b) b (ddl_number_ga k1) (cfg_srv c1);
                k2 = (if rga \<noteq> 0 then k1\<lparr>ddl_number_ga := 0\<rparr> else k1);
                (rgl, s2) = init_GL (gl_mem e b) (gldir_mem e b) b (nat (u32 (ddl_number_gl k2))) s1;
                k3 = (if rgl \<noteq> 0 then k2\<lparr>ddl_number_gl := 0\<rparr> else k2)
            in (1, upd_cfg b (\<lambda>k. k\<lparr>bus_type := SERVER_DDL, init_func := Some Drv_DDL, thr_func := Some Drv_DDL, driverdata := DDL_Data k3\<rparr>)
                     (c1\<lparr>cfg_srv := s2\<rparr>))))"

section \<open>Loopback and CAN bus\<close>

definition loopback_tag :: "xml \<Rightarrow> loopback_config \<Rightarrow> loopback_config" where
  "loopback_tag n =
     (let name = xml_name n
      in if formatting n then id
         else if name = ''number_fb'' then with_text (\<lambda>txt k. k\<lparr>lb_number_fb := atoi txt\<rparr>) n
         else if name = ''number_gl'' then with_text (\<lambda>txt k. k\<lparr>lb_number_gl := atoi txt\<rparr>) n
         else if name = ''number_ga'' then with_text (\<lambda>txt k. k\<lparr>lb_number_ga := atoi txt\<rparr>) n
         else id)"

definition readconfig_LOOPBACK :: "cfg_env \<Rightarrow> xml \<Rightarrow> nat \<Rightarrow> config \<Rightarrow> nat \<times> config" where
  "readconfig_LOOPBACK e node b c0 =
     (let c = in_buses b c0
      in if \<not> malloc_ok e b then (0, upd_cfg b (\<lambda>k. k\<lparr>driverdata := No_Data\<rparr>) c)
         else
           (let k1 = fold loopback_tag (xml_children node) \<lparr>lb_number_ga = 256, lb_number_gl = 80, lb_number_fb = 0\<rparr>;
                c1 = on_cfg_srv (upd_bus b (\<lambda>d. d\<lparr>bus_description := ''GA GL FB SM POWER LOCK DESCRIPTION'',
                       init_gl_func := Some init_gl_LOOPBACK, init_ga_func := Some init_ga_LOOPBACK\<rparr>)) c;
                (rgl, s1) = init_GL (gl_mem e b) (gldir_mem e b) b (nat (u32 (lb_number_gl k1))) (cfg_srv c1);
                k2 = (if rgl \<noteq> 0 then k1\<lparr>lb_number_gl := 0\<rparr> else k1);
                (rga, s2) = init_GA (ga_mem e b) b (lb_number_ga k2) s1;
                k3 = (if rga \<noteq> 0 then k2\<lparr>lb_number_ga := 0\<rparr> else k2);
                (rfb, s3) = init_FB (fb_mem e b) b (lb_number_fb k3) s2;
                k4 = (if rfb \<noteq> 0 then k3\<lparr>lb_number_fb := 0\<rparr> else k3)
            in (1, upd_cfg b (\<lambda>k. k\<lparr>bus_type := SERVER_LOOPBACK, init_func := Some Drv_LOOPBACK, thr_func := Some Drv_LOOPBACK,
                     driverdata := LOOPBACK_Data k4\<rparr>) (c1\<lparr>cfg_srv := s3\<rparr>))))"

definition canbus_tag :: "xml \<Rightarrow> canbus_config \<Rightarrow> canbus_config" where
  "canbus_tag n =
     (let name = xml_name n
      in if formatting n then id
         else if name = ''number_fb'' then with_text (\<lambda>txt k. k\<lparr>cb_number_fb := atoi txt\<rparr>) n
         else if name = ''number_ga'' then with_text (\<lambda>txt k. k\<lparr>cb_number_ga := atoi txt\<rparr>) n
         else if name = ''pause_between_commands'' then with_text (\<lambda>txt k. k\<lparr>cb_pause := u32 (atoi txt)\<rparr>) n
         else id)"

definition readconfig_CANBUS :: "cfg_env \<Rightarrow> xml \<Rightarrow> nat \<Rightarrow> config \<Rightarrow> nat \<times> config" where
  "readconfig_CANBUS e node b c0 =
     (let c = in_buses b c0
      in if \<not> malloc_ok e b then (0, upd_cfg b (\<lambda>k. k\<lparr>driverdata := No_Data\<rparr>) c)
         else
           (let k1 = fold canbus_tag (xml_children node) \<lparr>cb_number_ga = 256, cb_number_fb = 0, cb_pause = raw_pause e\<rparr>;
                c1 = on_cfg_srv (upd_bus b (\<lambda>d. d\<lparr>bus_description := ''GA GL FB SM POWER LOCK'', init_ga_func := Some init_ga_CANBUS\<rparr>)) c;
                (rga, s1) = init_GA (ga_mem e b) b (cb_number_ga k1) (cfg_srv c1);
                k2 = (if rga \<noteq> 0 then k1\<lparr>cb_number_ga := 0\<rparr> else k1);
                (rfb, s2) = init_FB (fb_mem e b) b (cb_number_fb k2) s1;
                k3 = (if rfb \<noteq> 0 then k2\<lparr>cb_number_fb := 0\<rparr> else k2)
            in (1, upd_cfg b (\<lambda>k. k\<lparr>bus_type := SERVER_CANBUS, init_func := Some Drv_CANBUS, thr_func := Some Drv_CANBUS,
                     driverdata := CANBUS_Data k3\<rparr>) (c1\<lparr>cfg_srv := s2\<rparr>))))"

section \<open>Buses\<close>

definition device_tag :: "cfg_env \<Rightarrow> nat \<Rightarrow> xml \<Rightarrow> config \<Rightarrow> config" where
  "device_tag e b n c =
     (let ty = map_of (xml_props n) ''type'';
          c1 = (if ty = None \<or> ty = Some ''filename'' then upd_cfg b (\<lambda>k. k\<lparr>devicetype := HW_FILENAME\<rparr>) c
                else if ty = Some ''network'' then upd_cfg b (\<lambda>k. k\<lparr>devicetype := HW_NETWORK\<rparr>) c
                else c)
      in case xml_text n of
           None \<Rightarrow> c1
         | Some txt \<Rightarrow>
             if devicetype (cfg c1 b) = HW_FILENAME then upd_cfg b (\<lambda>k. k\<lparr>dev_path := Some txt\<rparr>) c1
             else if devicetype (cfg c1 b) = HW_NETWORK then
               (let c2 = upd_cfg b (\<lambda>k. k\<lparr>dev_path := Some txt, net_port := map_of (xml_props n) ''port''\<rparr>) c1
                in case map_of (xml_props n) ''protocol'' of
                     None \<Rightarrow> upd_cfg b (\<lambda>k. k\<lparr>dev_fd := 6\<rparr>) c2
                   | Some p \<Rightarrow> (case protobyname e p of
                       None \<Rightarrow> on_cfg_srv raise_ub c2
                     | Some i \<Rightarrow> upd_cfg b (\<lambda>k. k\<lparr>dev_fd := i\<rparr>) c2))
             else c1)"

definition set_flag :: "nat \<Rightarrow> bool \<Rightarrow> int \<Rightarrow> config \<Rightarrow> config" where
  "set_flag b on f = on_cfg_srv (upd_bus b (\<lambda>d. d\<lparr>bus_flags := (if on then bus_flags d OR f else bus_flags d AND NOT f)\<rparr>))"

definition verbosity_of :: "string \<Rightarrow> int" where
  "verbosity_of txt = (let v = atoi txt in if v < 0 \<or> v > DBG_DEBUG then DBG_DEBUG else v)"

definition known_speed :: "int \<Rightarrow> int" where
  "known_speed v = (if v \<in> {2400, 4800, 9600, 19200, 38400, 57600, 115200} then v else 2400)"

definition common_tag :: "cfg_env \<Rightarrow> nat \<Rightarrow> xml \<Rightarrow> config \<Rightarrow> config" where
  "common_tag e b n =
     (let name = xml_name n
      in if name = ''device'' then device_tag e b n
         else if name = ''verbosity'' then with_text (\<lambda>txt. upd_cfg b (\<lambda>k. k\<lparr>debuglevel := verbosity_of txt\<rparr>)) n
         else if name = ''use_watchdog'' then with_text (\<lambda>txt. if txt = ''yes'' then set_flag b True USE_WATCHDOG else id) n
         else if name = ''restore_device_settings'' then with_text (\<lambda>txt. if txt = ''yes'' then set_flag b True RESTORE_COM_SETTINGS else id) n
         else if name = ''auto_power_on'' then with_text (\<lambda>txt. if txt = ''yes'' then set_flag b True AUTO_POWER_ON else id) n
         else if name = ''speed'' then with_text (\<lambda>txt. upd_cfg b (\<lambda>k. k\<lparr>baudrate := known_speed (atoi txt)\<rparr>)) n
         else if name = ''auto_speed_detection'' then
           with_text (\<lambda>txt. if txt = ''yes'' then set_flag b True USE_AUTODETECTION else if txt = ''no'' then set_flag b False USE_AUTODETECTION else id) n
         else id)"

text \<open>
  One child of a bus element; \<open>b\<close> is \<open>current_bus\<close>, the number that the element had at its start, and the pair holds
  \<open>busnumber\<close>. The drivers that the build leaves out are only logged, like unknown tags.
\<close>

definition register_child :: "cfg_env \<Rightarrow> nat \<Rightarrow> xml \<Rightarrow> nat \<times> config \<Rightarrow> (nat \<times> config) option" where
  "register_child e b n x =
     (let (bn, c) = x; name = xml_name n; added = (\<lambda>(k, c'). (bn + k, c'))
      in if formatting n then Some x
         else if prefix ''server'' name then (if bn = 0 then map_option added (readconfig_server e n bn c) else Some x)
         else if name = ''ddl'' then Some (added (readconfig_DDL e n bn c))
         else if name = ''loopback'' then Some (added (readconfig_LOOPBACK e n bn c))
         else if name = ''canbus'' then Some (added (readconfig_CANBUS e n bn c))
         else Some (bn, common_tag e b n c))"

definition bus_defaults :: "nat \<Rightarrow> config \<Rightarrow> config" where
  "bus_defaults b c =
     on_cfg_srv (upd_bus b (\<lambda>d. d\<lparr>bus_flags := 0, bus_protocols := None, init_gl_func := None, describe_gl_func := None, init_ga_func := None,
         init_fb_func := None\<rparr>))
       (upd_cfg b (\<lambda>k. k\<lparr>debuglevel := DBG_INFO, thr_func := None, init_func := None, devicetype := HW_UNDEFINED, dev_path := None\<rparr>) c)"

fun register_children :: "cfg_env \<Rightarrow> nat \<Rightarrow> xml list \<Rightarrow> nat \<times> config \<Rightarrow> (nat \<times> config) option" where
  "register_children e b [] x = Some x"
| "register_children e b (n # ns) x =
     (case register_child e b n x of None \<Rightarrow> None | Some x' \<Rightarrow> register_children e b ns x')"

definition register_bus :: "cfg_env \<Rightarrow> nat \<Rightarrow> xml \<Rightarrow> config \<Rightarrow> (nat \<times> config) option" where
  "register_bus e bn node c =
     (if xml_name node \<noteq> ''bus'' then Some (bn, c)
      else if bn \<ge> MAX_BUSES then Some (bn, c)
      else register_children e bn (xml_children node) (bn, bus_defaults bn c))"

fun walk_children :: "cfg_env \<Rightarrow> xml list \<Rightarrow> nat \<Rightarrow> config \<Rightarrow> (nat \<times> config) option" where
  "walk_children e [] bn c = Some (bn, c)"
| "walk_children e (n # ns) bn c =
     (case register_bus e bn n c of
        None \<Rightarrow> None
      | Some (bn', c') \<Rightarrow> walk_children e ns bn' (on_cfg_srv (\<lambda>s. s\<lparr>num_buses := nat (u64 (int bn' - 1))\<rparr>) c'))"

definition walk_config_xml :: "cfg_env \<Rightarrow> xml option \<Rightarrow> config \<Rightarrow> (nat \<times> config) option" where
  "walk_config_xml e root c = (case root of None \<Rightarrow> Some (0, c) | Some r \<Rightarrow> walk_children e (xml_children r) 0 c)"

text \<open>The argument is what \<open>xmlParseFile\<close> returns: \<open>None\<close> for no document, else the root of the document, if it has one.\<close>

definition readConfig :: "cfg_env \<Rightarrow> xml option option \<Rightarrow> config \<Rightarrow> (bool \<times> config) option" where
  "readConfig e doc c =
     (let c1 = c\<lparr>cfg_srv := (cfg_srv c)\<lparr>buses := (\<lambda>_. bus_zero), num_buses := 0\<rparr>, cfg := (\<lambda>_. bus_cfg_zero)\<rparr>
      in case doc of
           None \<Rightarrow> Some (False, c1)
         | Some root \<Rightarrow> map_option (\<lambda>(rb, c'). (rb > 0, c')) (walk_config_xml e root c1))"


section \<open>Values of the driver\<close>

text \<open>The text of the last child with a name that has one, and the last child with a name.\<close>

definition last_text :: "string \<Rightarrow> xml list \<Rightarrow> string option" where
  "last_text tag ns = Option.bind (find (\<lambda>n. xml_name n = tag \<and> xml_text n \<noteq> None) (rev ns)) xml_text"

definition last_node :: "string \<Rightarrow> xml list \<Rightarrow> xml option" where
  "last_node tag ns = find (\<lambda>n. xml_name n = tag) (rev ns)"

lemma last_text_snoc: "last_text tag (ns @ [n]) = (if xml_name n = tag \<and> xml_text n \<noteq> None then xml_text n else last_text tag ns)"
  by (auto simp: last_text_def)

lemma last_node_snoc: "last_node tag (ns @ [n]) = (if xml_name n = tag then Some n else last_node tag ns)"
  by (simp add: last_node_def)

lemma last_empty [simp]: "last_text tag [] = None" "last_node tag [] = None"
  by (simp_all add: last_text_def last_node_def)

lemma fold_last_text:
  assumes "\<And>n k. F (step n k) = (if xml_name n = tag then case xml_text n of None \<Rightarrow> F k | Some t \<Rightarrow> g t else F k)"
  shows "F (fold step ns k) = (case last_text tag ns of None \<Rightarrow> F k | Some t \<Rightarrow> g t)"
  by (induction ns rule: rev_induct) (auto simp: assms last_text_snoc split: option.split)

lemma fold_last_node:
  assumes "\<And>n k. F (step n k) = (if xml_name n = tag then g n else F k)"
  shows "F (fold step ns k) = (case last_node tag ns of None \<Rightarrow> F k | Some n \<Rightarrow> g n)"
  by (induction ns rule: rev_induct) (auto simp: assms last_node_snoc split: option.split)

lemmas tag_defs = formatting_def with_text_def on_ddl_cfg_def enable_ep_def Let_def EP_MAERKLIN_def EP_NMRADCC_def EP_MFX_def

lemma enable_ep_bits:
  "ENABLED_PROTOCOLS (enable_ep on EP_MAERKLIN d) AND EP_MAERKLIN \<noteq> 0 \<longleftrightarrow> on"
  "ENABLED_PROTOCOLS (enable_ep on EP_NMRADCC d) AND EP_NMRADCC \<noteq> 0 \<longleftrightarrow> on"
  "ENABLED_PROTOCOLS (enable_ep on EP_MFX d) AND EP_MFX \<noteq> 0 \<longleftrightarrow> on"
  "ENABLED_PROTOCOLS (enable_ep on EP_NMRADCC d) AND EP_MAERKLIN = ENABLED_PROTOCOLS d AND EP_MAERKLIN"
  "ENABLED_PROTOCOLS (enable_ep on EP_MFX d) AND EP_MAERKLIN = ENABLED_PROTOCOLS d AND EP_MAERKLIN"
  "ENABLED_PROTOCOLS (enable_ep on EP_MAERKLIN d) AND EP_NMRADCC = ENABLED_PROTOCOLS d AND EP_NMRADCC"
  "ENABLED_PROTOCOLS (enable_ep on EP_MFX d) AND EP_NMRADCC = ENABLED_PROTOCOLS d AND EP_NMRADCC"
  "ENABLED_PROTOCOLS (enable_ep on EP_MAERKLIN d) AND EP_MFX = ENABLED_PROTOCOLS d AND EP_MFX"
  "ENABLED_PROTOCOLS (enable_ep on EP_NMRADCC d) AND EP_MFX = ENABLED_PROTOCOLS d AND EP_MFX"
proof -
  have ne: "EP_MAERKLIN \<noteq> 0" "EP_NMRADCC \<noteq> 0" "EP_MFX \<noteq> 0" by (simp_all add: EP_MAERKLIN_def EP_NMRADCC_def EP_MFX_def)
  have a: "(x OR e) AND e = e" "(x AND NOT e) AND e = 0" for x e :: int
    by (auto intro!: bit_eqI simp: bit_simps)
  have b: "(x OR e) AND f = x AND f" "(x AND NOT e) AND f = x AND f" if "e AND f = 0" for x e f :: int
  proof -
    have "\<not> (bit e n \<and> bit f n)" for n using arg_cong [OF that, of "\<lambda>y. bit y n"] by (simp add: bit_and_iff)
    then show "(x OR e) AND f = x AND f" "(x AND NOT e) AND f = x AND f" by (auto intro!: bit_eqI simp: bit_simps)
  qed
  show "ENABLED_PROTOCOLS (enable_ep on EP_MAERKLIN d) AND EP_MAERKLIN \<noteq> 0 \<longleftrightarrow> on"
    "ENABLED_PROTOCOLS (enable_ep on EP_NMRADCC d) AND EP_NMRADCC \<noteq> 0 \<longleftrightarrow> on"
    "ENABLED_PROTOCOLS (enable_ep on EP_MFX d) AND EP_MFX \<noteq> 0 \<longleftrightarrow> on"
    by (simp_all add: enable_ep_def a ne)
  have disj: "EP_NMRADCC AND EP_MAERKLIN = 0" "EP_MFX AND EP_MAERKLIN = 0" "EP_MAERKLIN AND EP_NMRADCC = 0" "EP_MFX AND EP_NMRADCC = 0"
    "EP_MAERKLIN AND EP_MFX = 0" "EP_NMRADCC AND EP_MFX = 0" by (simp_all add: EP_MAERKLIN_def EP_NMRADCC_def EP_MFX_def)
  show "ENABLED_PROTOCOLS (enable_ep on EP_NMRADCC d) AND EP_MAERKLIN = ENABLED_PROTOCOLS d AND EP_MAERKLIN"
  "ENABLED_PROTOCOLS (enable_ep on EP_MFX d) AND EP_MAERKLIN = ENABLED_PROTOCOLS d AND EP_MAERKLIN"
  "ENABLED_PROTOCOLS (enable_ep on EP_MAERKLIN d) AND EP_NMRADCC = ENABLED_PROTOCOLS d AND EP_NMRADCC"
  "ENABLED_PROTOCOLS (enable_ep on EP_MFX d) AND EP_NMRADCC = ENABLED_PROTOCOLS d AND EP_NMRADCC"
  "ENABLED_PROTOCOLS (enable_ep on EP_MAERKLIN d) AND EP_MFX = ENABLED_PROTOCOLS d AND EP_MFX"
  "ENABLED_PROTOCOLS (enable_ep on EP_NMRADCC d) AND EP_MFX = ENABLED_PROTOCOLS d AND EP_MFX"
    by (simp_all add: enable_ep_def b disj)
qed

text \<open>The fields of the driver data, each read from its own tag.\<close>

lemma ddl_values:
  assumes "k' = fold ddl_tag ns k"
  shows "ddl_number_gl k' = (case last_text ''number_gl'' ns of None \<Rightarrow> ddl_number_gl k | Some t \<Rightarrow> atoi t)"
    "ddl_number_ga k' = (case last_text ''number_ga'' ns of None \<Rightarrow> ddl_number_ga k | Some t \<Rightarrow> atoi t)"
    "CHECKSHORT (ddl_cfg k') = (case last_text ''enable_checkshort_checking'' ns of None \<Rightarrow> CHECKSHORT (ddl_cfg k)
       | Some t \<Rightarrow> if t = ''inverse'' then 2 else of_bool (t = ''yes''))"
    "CHECKCLIENTS (ddl_cfg k') = (case last_text ''enable_client_checking'' ns of None \<Rightarrow> CHECKCLIENTS (ddl_cfg k) | Some t \<Rightarrow> t = ''yes'')"
    "SHORTCUTDELAY (ddl_cfg k') = (case last_text ''shortcut_failure_delay'' ns of None \<Rightarrow> SHORTCUTDELAY (ddl_cfg k) | Some t \<Rightarrow> atoi t)"
    "PROGRAM_TRACK (ddl_cfg k') = (case last_text ''program_track'' ns of None \<Rightarrow> PROGRAM_TRACK (ddl_cfg k) | Some t \<Rightarrow> t = ''yes'')"
    "FWD_M_ACCESSORIES (ddl_cfg k') = (case last_text ''forward_mm_ga'' ns of None \<Rightarrow> FWD_M_ACCESSORIES (ddl_cfg k) | Some t \<Rightarrow> nat (u64 (atoi t)))"
  unfolding assms by (rule fold_last_text, simp add: ddl_tag_def tag_defs split: option.split)+

lemma ddl_protocols:
  assumes "k' = fold ddl_tag ns k"
  shows "ENABLED_PROTOCOLS (ddl_cfg k') AND EP_MAERKLIN \<noteq> 0 \<longleftrightarrow>
      (case last_text ''enable_maerklin'' ns of None \<Rightarrow> ENABLED_PROTOCOLS (ddl_cfg k) AND EP_MAERKLIN \<noteq> 0 | Some t \<Rightarrow> t = ''yes'')"
    "ENABLED_PROTOCOLS (ddl_cfg k') AND EP_NMRADCC \<noteq> 0 \<longleftrightarrow>
      (case last_text ''enable_nmradcc'' ns of None \<Rightarrow> ENABLED_PROTOCOLS (ddl_cfg k) AND EP_NMRADCC \<noteq> 0 | Some t \<Rightarrow> t = ''yes'')"
    "ENABLED_PROTOCOLS (ddl_cfg k') AND EP_MFX \<noteq> 0 \<longleftrightarrow>
      (case last_node ''enable_mfx'' ns of None \<Rightarrow> ENABLED_PROTOCOLS (ddl_cfg k) AND EP_MFX \<noteq> 0
       | Some n \<Rightarrow> (case xml_text n of None \<Rightarrow> False | Some t \<Rightarrow> u32 (strtoul t) \<noteq> 0))"
proof -
  have upd: "ENABLED_PROTOCOLS (enable_ep on ep (d\<lparr>station_uid := u\<rparr>)) = ENABLED_PROTOCOLS (enable_ep on ep d)" for on ep u d
    by (simp add: enable_ep_def)
  note bits = formatting_def with_text_def on_ddl_cfg_def Let_def enable_ep_bits upd
  show "ENABLED_PROTOCOLS (ddl_cfg k') AND EP_MAERKLIN \<noteq> 0 \<longleftrightarrow>
      (case last_text ''enable_maerklin'' ns of None \<Rightarrow> ENABLED_PROTOCOLS (ddl_cfg k) AND EP_MAERKLIN \<noteq> 0 | Some t \<Rightarrow> t = ''yes'')"
    unfolding assms by (rule fold_last_text) (simp add: ddl_tag_def bits split: option.split)
  show "ENABLED_PROTOCOLS (ddl_cfg k') AND EP_NMRADCC \<noteq> 0 \<longleftrightarrow>
      (case last_text ''enable_nmradcc'' ns of None \<Rightarrow> ENABLED_PROTOCOLS (ddl_cfg k) AND EP_NMRADCC \<noteq> 0 | Some t \<Rightarrow> t = ''yes'')"
    unfolding assms by (rule fold_last_text) (simp add: ddl_tag_def bits split: option.split)
  show "ENABLED_PROTOCOLS (ddl_cfg k') AND EP_MFX \<noteq> 0 \<longleftrightarrow>
      (case last_node ''enable_mfx'' ns of None \<Rightarrow> ENABLED_PROTOCOLS (ddl_cfg k) AND EP_MFX \<noteq> 0
       | Some n \<Rightarrow> (case xml_text n of None \<Rightarrow> False | Some t \<Rightarrow> u32 (strtoul t) \<noteq> 0))"
    unfolding assms by (rule fold_last_node) (simp add: ddl_tag_def bits split: option.split)
qed

text \<open>The device tables, with enough memory.\<close>

lemma init_tables:
  assumes "b < MAX_BUSES"
  shows "init_GA True b n s = (0, if n > 0 then upd_ga b (\<lambda>g. g\<lparr>numberOfGa := n, gastate := (\<lambda>_. ga_zero)\<rparr>) s else s)"
    "init_GL True True b k s = (0, if k > 0 then upd_gl b (\<lambda>g. g\<lparr>numberOfGl := int k, glstate := (\<lambda>_. gl_zero), gldir := Some gldir_zero\<rparr>) s else s)"
    "init_FB True b n s = (0, if n > 0 then upd_fb b (\<lambda>g. g\<lparr>numberOfFb := n,
       fbstate := (\<lambda>_. \<lparr>fb_timestamp = clock s, fb_state = 0, fb_change = 0\<rparr>)\<rparr>) s else s)"
  using assms by (auto simp: init_GA_def init_GL_def init_FB_def upd_gl_def Let_def)

text \<open>C18. The configuration of a DDL bus is what its element says: reading it gives one more bus of that type, whose tables
  have the configured sizes, and each value is that of the last tag with its name that has a text, and the documented default without one;
  mfx is enabled exactly by a last tag with a number of the station that is not zero.
\<close>

theorem ddl_config_values:
  assumes "b < MAX_BUSES" and "malloc_ok e b" and "gl_mem e b" and "gldir_mem e b" and "ga_mem e b"
    and "readconfig_DDL e node b c = (n, c')" and "ns = xml_children node"
  shows "n = 1 \<and> bus_type (cfg c' b) = SERVER_DDL \<and> thr_func (cfg c' b) = Some Drv_DDL \<and>
    (\<exists>k d. driverdata (cfg c' b) = DDL_Data k \<and> d = ddl_cfg k \<and>
      ddl_number_gl k = (case last_text ''number_gl'' ns of None \<Rightarrow> 255 | Some t \<Rightarrow> atoi t) \<and>
      ddl_number_ga k = (case last_text ''number_ga'' ns of None \<Rightarrow> 324 | Some t \<Rightarrow> atoi t) \<and>
      (0 < ddl_number_gl k \<longrightarrow> numberOfGl (gl (cfg_srv c') b) = ddl_number_gl k) \<and>
      (0 < ddl_number_ga k \<longrightarrow> numberOfGa (ga (cfg_srv c') b) = ddl_number_ga k) \<and>
      CHECKSHORT d = (case last_text ''enable_checkshort_checking'' ns of None \<Rightarrow> 0 | Some t \<Rightarrow> if t = ''inverse'' then 2 else of_bool (t = ''yes'')) \<and>
      SHORTCUTDELAY d = (case last_text ''shortcut_failure_delay'' ns of None \<Rightarrow> 0 | Some t \<Rightarrow> atoi t) \<and>
      (CHECKCLIENTS d \<longleftrightarrow> last_text ''enable_client_checking'' ns = Some ''yes'') \<and>
      (PROGRAM_TRACK d \<longleftrightarrow> last_text ''program_track'' ns \<in> {None, Some ''yes''}) \<and>
      (ENABLED_PROTOCOLS d AND EP_MAERKLIN \<noteq> 0 \<longleftrightarrow> last_text ''enable_maerklin'' ns \<in> {None, Some ''yes''}) \<and>
      (ENABLED_PROTOCOLS d AND EP_NMRADCC \<noteq> 0 \<longleftrightarrow> last_text ''enable_nmradcc'' ns \<in> {None, Some ''yes''}) \<and>
      (ENABLED_PROTOCOLS d AND EP_MFX \<noteq> 0 \<longleftrightarrow> (\<exists>m t. last_node ''enable_mfx'' ns = Some m \<and> xml_text m = Some t \<and> u32 (strtoul t) \<noteq> 0)) \<and>
      FWD_M_ACCESSORIES d = (case last_text ''forward_mm_ga'' ns of None \<Rightarrow> b | Some t \<Rightarrow> nat (u64 (atoi t))))"
proof -
  define k where "k = fold ddl_tag ns (ddl_defaults b (raw_ddl e))"
  note vals = ddl_values [OF k_def] and eps = ddl_protocols [OF k_def]
  have dflt: "ddl_number_gl (ddl_defaults b r) = 255" "ddl_number_ga (ddl_defaults b r) = 324" "CHECKSHORT (ddl_cfg (ddl_defaults b r)) = 0"
    "SHORTCUTDELAY (ddl_cfg (ddl_defaults b r)) = 0" "\<not> CHECKCLIENTS (ddl_cfg (ddl_defaults b r))" "PROGRAM_TRACK (ddl_cfg (ddl_defaults b r))"
    "FWD_M_ACCESSORIES (ddl_cfg (ddl_defaults b r)) = b" "ENABLED_PROTOCOLS (ddl_cfg (ddl_defaults b r)) = 3" for r
    by (simp_all add: ddl_defaults_def EP_MAERKLIN_def EP_NMRADCC_def)
  have ep: "(3 :: int) AND EP_MAERKLIN \<noteq> 0" "(3 :: int) AND EP_NMRADCC \<noteq> 0" "(3 :: int) AND EP_MFX = 0"
    by (simp_all add: EP_MAERKLIN_def EP_NMRADCC_def EP_MFX_def)
  have "atoi t < 2 ^ 31" for t by (auto simp: atoi_def s32_def split: option.split)
  then have gl: "ddl_number_gl k < 2 ^ 31" unfolding vals dflt by (simp split: option.split)
  have u: "nat (u32 (ddl_number_gl k)) = nat (ddl_number_gl k)" if "0 < ddl_number_gl k" using that gl by (simp add: u32_id)
  have "readconfig_DDL e node b c = (1, upd_cfg b (\<lambda>x. x\<lparr>bus_type := SERVER_DDL, init_func := Some Drv_DDL, thr_func := Some Drv_DDL, driverdata := DDL_Data k\<rparr>)
      (c\<lparr>cfg_srv := snd (init_GL True True b (nat (u32 (ddl_number_gl k))) (snd (init_GA True b (ddl_number_ga k)
        (upd_bus b (\<lambda>d. d\<lparr>bus_description := ''GA GL SM POWER LOCK'', init_gl_func := Some (init_gl_DDL (optbuf e)),
                       describe_gl_func := Some describe_gl_DDL, init_ga_func := Some init_ga_DDL\<rparr>) (cfg_srv c)))))\<rparr>))"
    using assms(1-5) unfolding readconfig_DDL_def in_buses_def Let_def assms(7) [symmetric] k_def [symmetric] by (simp add: init_tables on_cfg_srv_def)
  then have c': "n = 1" "c' = upd_cfg b (\<lambda>x. x\<lparr>bus_type := SERVER_DDL, init_func := Some Drv_DDL, thr_func := Some Drv_DDL, driverdata := DDL_Data k\<rparr>)
      (c\<lparr>cfg_srv := snd (init_GL True True b (nat (u32 (ddl_number_gl k))) (snd (init_GA True b (ddl_number_ga k)
        (upd_bus b (\<lambda>d. d\<lparr>bus_description := ''GA GL SM POWER LOCK'', init_gl_func := Some (init_gl_DDL (optbuf e)),
                       describe_gl_func := Some describe_gl_DDL, init_ga_func := Some init_ga_DDL\<rparr>) (cfg_srv c)))))\<rparr>)" using assms(6) by simp_all
  have "driverdata (cfg c' b) = DDL_Data k" "bus_type (cfg c' b) = SERVER_DDL" "thr_func (cfg c' b) = Some Drv_DDL"
    unfolding c' by (simp_all add: upd_cfg_def)
  moreover have "0 < ddl_number_ga k \<Longrightarrow> numberOfGa (ga (cfg_srv c') b) = ddl_number_ga k"
    unfolding c' by (simp add: upd_cfg_def init_tables [OF assms(1)] upd_ga_def upd_gl_def)
  moreover have "0 < ddl_number_gl k \<Longrightarrow> numberOfGl (gl (cfg_srv c') b) = ddl_number_gl k"
    unfolding c' by (simp add: upd_cfg_def init_tables [OF assms(1)] upd_gl_def u)
  moreover have "CHECKCLIENTS (ddl_cfg k) \<longleftrightarrow> last_text ''enable_client_checking'' ns = Some ''yes''"
    "PROGRAM_TRACK (ddl_cfg k) \<longleftrightarrow> last_text ''program_track'' ns \<in> {None, Some ''yes''}"
    unfolding vals by (simp_all add: dflt split: option.split)
  moreover have "ENABLED_PROTOCOLS (ddl_cfg k) AND EP_MAERKLIN \<noteq> 0 \<longleftrightarrow> last_text ''enable_maerklin'' ns \<in> {None, Some ''yes''}"
    "ENABLED_PROTOCOLS (ddl_cfg k) AND EP_NMRADCC \<noteq> 0 \<longleftrightarrow> last_text ''enable_nmradcc'' ns \<in> {None, Some ''yes''}"
    "ENABLED_PROTOCOLS (ddl_cfg k) AND EP_MFX \<noteq> 0 \<longleftrightarrow> (\<exists>m t. last_node ''enable_mfx'' ns = Some m \<and> xml_text m = Some t \<and> u32 (strtoul t) \<noteq> 0)"
    unfolding eps by (simp_all add: dflt ep split: option.split)
  ultimately show ?thesis using c'(1) vals [unfolded dflt] by blast
qed


section \<open>Buses of a configuration\<close>

text \<open>What a bus element asks for.\<close>

definition driver_tag :: "xml \<Rightarrow> driver option" where
  "driver_tag n =
     (if formatting n then None
      else if prefix ''server'' (xml_name n) then Some Drv_server
      else if xml_name n = ''ddl'' then Some Drv_DDL
      else if xml_name n = ''loopback'' then Some Drv_LOOPBACK
      else if xml_name n = ''canbus'' then Some Drv_CANBUS
      else None)"

definition bus_drivers :: "xml \<Rightarrow> driver list" where
  "bus_drivers node = List.map_filter driver_tag (xml_children node)"

definition says_yes :: "string \<Rightarrow> xml list \<Rightarrow> bool" where
  "says_yes tag ns \<longleftrightarrow> (\<exists>n \<in> set ns. xml_name n = tag \<and> xml_text n = Some ''yes'')"

fun type_of :: "driver \<Rightarrow> int" where
  "type_of Drv_server = SERVER_SERVER"
| "type_of Drv_DDL = SERVER_DDL"
| "type_of Drv_LOOPBACK = SERVER_LOOPBACK"
| "type_of Drv_CANBUS = SERVER_CANBUS"

fun groups_of :: "driver \<Rightarrow> string" where
  "groups_of Drv_server = ''SESSION SERVER TIME GM''"
| "groups_of Drv_DDL = ''GA GL SM POWER LOCK''"
| "groups_of Drv_LOOPBACK = ''GA GL FB SM POWER LOCK DESCRIPTION''"
| "groups_of Drv_CANBUS = ''GA GL FB SM POWER LOCK''"

text \<open>The data that a driver expects in its bus.\<close>

fun holds :: "driver \<Rightarrow> driver_data \<Rightarrow> bool" where
  "holds Drv_server (Server_Data _) = True"
| "holds Drv_DDL (DDL_Data _) = True"
| "holds Drv_LOOPBACK (LOOPBACK_Data _) = True"
| "holds Drv_CANBUS (CANBUS_Data _) = True"
| "holds _ _ = False"

definition bus_is :: "driver \<Rightarrow> nat \<Rightarrow> config \<Rightarrow> bool" where
  "bus_is d b c \<longleftrightarrow> bus_type (cfg c b) = type_of d \<and> holds d (driverdata (cfg c b)) \<and> init_func (cfg c b) = Some d \<and>
     thr_func (cfg c b) = (if d = Drv_server then None else Some d) \<and> bus_description (buses (cfg_srv c) b) = groups_of d"

definition has_flag :: "int \<Rightarrow> nat \<Rightarrow> config \<Rightarrow> bool" where
  "has_flag f b c \<longleftrightarrow> bus_flags (buses (cfg_srv c) b) AND f \<noteq> 0"

definition bus_kept :: "nat \<Rightarrow> config \<Rightarrow> config \<Rightarrow> bool" where
  "bus_kept k c c' \<longleftrightarrow> cfg c' k = cfg c k \<and> buses (cfg_srv c') k = buses (cfg_srv c) k"

lemma bus_kept_trans: "bus_kept k c c' \<Longrightarrow> bus_kept k c' c'' \<Longrightarrow> bus_kept k c c''"
  by (simp add: bus_kept_def)

lemma bus_kept_is: "bus_kept k c c' \<Longrightarrow> bus_is d k c' = bus_is d k c" "bus_kept k c c' \<Longrightarrow> has_flag f k c' = has_flag f k c"
  by (simp_all add: bus_kept_def bus_is_def has_flag_def)

lemma init_buses [simp]:
  "buses (snd (init_GA m b n s)) = buses s" "buses (snd (init_GL m m' b k s)) = buses s" "buses (snd (init_FB m b n s)) = buses s"
  "ub (snd (init_GA m b n s)) = ub s" "ub (snd (init_GL m m' b k s)) = ub s" "ub (snd (init_FB m b n s)) = ub s"
  by (simp_all add: init_GA_def init_GL_def init_FB_def upd_gl_def upd_ga_def upd_fb_def Let_def)

text \<open>A driver element takes the next bus.\<close>

definition driver_step :: "driver \<Rightarrow> nat \<Rightarrow> config \<Rightarrow> config \<Rightarrow> bool" where
  "driver_step d b c c' \<longleftrightarrow> bus_is d b c' \<and> bus_flags (buses (cfg_srv c') b) = bus_flags (buses (cfg_srv c) b) \<and>
     (\<forall>k. k \<noteq> b \<longrightarrow> bus_kept k c c') \<and> ub (cfg_srv c') = ub (cfg_srv c)"

lemma driver_steps:
  assumes "b < MAX_BUSES" "malloc_ok e b"
  shows "readconfig_DDL e n b c = (k, c') \<Longrightarrow> k = 1 \<and> driver_step Drv_DDL b c c'"
    "readconfig_LOOPBACK e n b c = (k, c') \<Longrightarrow> k = 1 \<and> driver_step Drv_LOOPBACK b c c'"
    "readconfig_CANBUS e n b c = (k, c') \<Longrightarrow> k = 1 \<and> driver_step Drv_CANBUS b c c'"
  using assms
  by (auto simp: readconfig_DDL_def readconfig_LOOPBACK_def readconfig_CANBUS_def in_buses_def Let_def case_prod_unfold driver_step_def bus_is_def
      bus_kept_def upd_cfg_def on_cfg_srv_def)

lemma server_step:
  assumes "malloc_ok e 0" "thr_func (cfg c 0) = None"
  shows "\<exists>c'. readconfig_server e n b c = Some (1, c') \<and> driver_step Drv_server 0 c c'"
  using assms by (simp add: readconfig_server_def Let_def case_prod_unfold driver_step_def bus_is_def bus_kept_def upd_cfg_def on_cfg_srv_def)

lemma register_driver:
  assumes "driver_tag n = Some d" "d = Drv_server \<longleftrightarrow> bn = 0" "bn < MAX_BUSES" "malloc_ok e bn" "thr_func (cfg c bn) = None"
  shows "\<exists>c'. register_child e b n (bn, c) = Some (Suc bn, c') \<and> driver_step d bn c c'"
proof (cases "d = Drv_server")
  case True
  then have "\<not> formatting n" "prefix ''server'' (xml_name n)" "bn = 0" using assms(1,2) by (auto simp: driver_tag_def split: if_splits)
  then show ?thesis using server_step [of e c n 0] assms(4,5) True by (auto simp: register_child_def)
next
  case False
  then have d: "\<not> formatting n" "\<not> prefix ''server'' (xml_name n)"
    "xml_name n = ''ddl'' \<and> d = Drv_DDL \<or> xml_name n = ''loopback'' \<and> d = Drv_LOOPBACK \<or> xml_name n = ''canbus'' \<and> d = Drv_CANBUS"
    using assms(1) by (auto simp: driver_tag_def split: if_splits)
  note st = driver_steps [OF assms(3,4), of n c]
  show ?thesis using d(3)
    by (elim disjE conjE) (use d(1,2) st(1) [OF prod.collapse [symmetric]] st(2) [OF prod.collapse [symmetric]] st(3) [OF prod.collapse [symmetric]]
        in \<open>simp add: register_child_def Let_def case_prod_unfold\<close>)+
qed

text \<open>The other children change only the bus of the element.\<close>

lemma flag_or: "(x OR f) AND f = f" "(x AND NOT f) AND f = 0" for x f :: int
  by (auto intro!: bit_eqI simp: bit_simps)

lemma flags_apart:
  "(x OR USE_WATCHDOG) AND AUTO_POWER_ON = x AND AUTO_POWER_ON" "(x OR RESTORE_COM_SETTINGS) AND AUTO_POWER_ON = x AND AUTO_POWER_ON"
  "(x OR USE_AUTODETECTION) AND AUTO_POWER_ON = x AND AUTO_POWER_ON" "(x AND NOT USE_AUTODETECTION) AND AUTO_POWER_ON = x AND AUTO_POWER_ON"
  "(x OR AUTO_POWER_ON) AND AUTO_POWER_ON \<noteq> 0" for x :: int
proof -
  have "(x AND NOT 8) AND 2 = x AND (2 :: int)" by (simp add: and.assoc)
  moreover have "(x OR 1) AND 2 = x AND (2 :: int)" "(x OR 4) AND 2 = x AND (2 :: int)" "(x OR 8) AND 2 = x AND (2 :: int)"
    by (simp_all add: bit.conj_disj_distrib2)
  ultimately show "(x OR USE_WATCHDOG) AND AUTO_POWER_ON = x AND AUTO_POWER_ON" "(x OR RESTORE_COM_SETTINGS) AND AUTO_POWER_ON = x AND AUTO_POWER_ON"
  "(x OR USE_AUTODETECTION) AND AUTO_POWER_ON = x AND AUTO_POWER_ON" "(x AND NOT USE_AUTODETECTION) AND AUTO_POWER_ON = x AND AUTO_POWER_ON"
  "(x OR AUTO_POWER_ON) AND AUTO_POWER_ON \<noteq> 0"
    unfolding flag_or by (simp_all add: USE_WATCHDOG_def AUTO_POWER_ON_def RESTORE_COM_SETTINGS_def USE_AUTODETECTION_def)
qed

definition other_step :: "xml list \<Rightarrow> nat \<Rightarrow> config \<Rightarrow> config \<Rightarrow> bool" where
  "other_step ns b c c' \<longleftrightarrow> (\<forall>d. bus_is d b c \<longrightarrow> bus_is d b c') \<and> thr_func (cfg c' b) = thr_func (cfg c b) \<and>
     (has_flag AUTO_POWER_ON b c' \<longleftrightarrow> has_flag AUTO_POWER_ON b c \<or> says_yes ''auto_power_on'' ns) \<and>
     (\<forall>k. k \<noteq> b \<longrightarrow> bus_kept k c c') \<and> ub (cfg_srv c') = ub (cfg_srv c)"

lemma device_step:
  assumes "\<forall>p. protobyname e p \<noteq> None"
  shows "other_step [] b c (device_tag e b n c)"
proof -
  have p: "(case protobyname e p of None \<Rightarrow> x | Some i \<Rightarrow> f i) = f (the (protobyname e p))" for p f and x :: config
    using assms by (metis option.case_eq_if)
  show ?thesis unfolding device_tag_def p Let_def
    by (auto simp: other_step_def bus_is_def has_flag_def says_yes_def bus_kept_def upd_cfg_def split: option.split)
qed

lemma common_step:
  assumes "\<forall>p. protobyname e p \<noteq> None"
  shows "other_step [n] b c (common_tag e b n c)"
proof (cases "xml_name n = ''device''")
  case True
  then show ?thesis using device_step [OF assms, of b c n] by (simp add: common_tag_def other_step_def says_yes_def)
next
  case False
  then show ?thesis
    by (auto simp: common_tag_def other_step_def bus_is_def has_flag_def says_yes_def bus_kept_def upd_cfg_def with_text_def set_flag_def on_cfg_srv_def
        flags_apart Let_def split: option.split)
qed

lemma other_step_refl: "says_yes ''auto_power_on'' ns = False \<Longrightarrow> other_step ns b c c"
  by (simp add: other_step_def bus_kept_def)

lemma other_step_trans: "other_step ns b c c' \<Longrightarrow> other_step ms b c' c'' \<Longrightarrow> other_step (ns @ ms) b c c''"
  by (auto simp: other_step_def says_yes_def intro: bus_kept_trans)

lemma register_other:
  assumes "driver_tag n = None" "\<forall>p. protobyname e p \<noteq> None"
  shows "\<exists>c'. register_child e b n (bn, c) = Some (bn, c') \<and> other_step [n] b c c'"
proof (cases "formatting n")
  case True
  then have "says_yes ''auto_power_on'' [n] = False" by (auto simp: formatting_def says_yes_def)
  then show ?thesis using True by (simp add: register_child_def other_step_refl)
next
  case False
  with assms(1) have "\<not> prefix ''server'' (xml_name n)" "xml_name n \<noteq> ''ddl''" "xml_name n \<noteq> ''loopback''" "xml_name n \<noteq> ''canbus''"
    by (auto simp: driver_tag_def split: if_splits)
  then show ?thesis using False common_step [OF assms(2)] by (simp add: register_child_def)
qed

lemma register_others:
  assumes "List.map_filter driver_tag ns = []" "\<forall>p. protobyname e p \<noteq> None"
  shows "\<exists>c'. register_children e b ns (bn, c) = Some (bn, c') \<and> other_step ns b c c'"
  using assms(1)
proof (induction ns arbitrary: c)
  case Nil show ?case by (simp add: other_step_refl says_yes_def)
next
  case (Cons n ns)
  then have n: "driver_tag n = None" "List.map_filter driver_tag ns = []" by (auto simp: List.map_filter_simps split: option.splits)
  obtain c1 where c1: "register_child e b n (bn, c) = Some (bn, c1)" "other_step [n] b c c1" using register_other [OF n(1) assms(2)] by blast
  obtain c2 where "register_children e b ns (bn, c1) = Some (bn, c2)" "other_step ns b c1 c2" using Cons.IH [OF n(2)] by blast
  then show ?case using c1 other_step_trans [OF c1(2), of ns c2] by simp
qed

lemma register_children_append:
  "register_children e b (xs @ ys) x = Option.bind (register_children e b xs x) (register_children e b ys)"
  by (induction xs arbitrary: x) (auto split: option.split)

lemma map_filter_single:
  assumes "List.map_filter f xs = [d]"
  shows "\<exists>as x bs. xs = as @ x # bs \<and> List.map_filter f as = [] \<and> f x = Some d \<and> List.map_filter f bs = []"
  using assms
proof (induction xs)
  case (Cons x xs)
  show ?case
  proof (cases "f x")
    case None
    then obtain as y bs where "xs = as @ y # bs" "List.map_filter f as = []" "f y = Some d" "List.map_filter f bs = []"
      using Cons by (auto simp: List.map_filter_simps)
    then show ?thesis using None by (intro exI [of _ "x # as"] exI [of _ y] exI [of _ bs]) (simp add: List.map_filter_simps)
  next
    case (Some a)
    then show ?thesis using Cons.prems by (intro exI [of _ "[]"] exI [of _ x] exI [of _ xs]) (simp add: List.map_filter_simps)
  qed
qed (simp add: List.map_filter_simps)

text \<open>A bus element with one driver becomes one bus of that driver.\<close>

lemma register_one_bus:
  assumes "xml_name node = ''bus''" "bus_drivers node = [d]" "d = Drv_server \<longleftrightarrow> bn = 0" "bn < MAX_BUSES" "malloc_ok e bn"
    and "\<forall>p. protobyname e p \<noteq> None"
  shows "\<exists>c'. register_bus e bn node c = Some (Suc bn, c') \<and> bus_is d bn c' \<and>
    (has_flag AUTO_POWER_ON bn c' \<longleftrightarrow> says_yes ''auto_power_on'' (xml_children node)) \<and> (\<forall>k. k \<noteq> bn \<longrightarrow> bus_kept k c c') \<and> ub (cfg_srv c') = ub (cfg_srv c)"
proof -
  obtain as n bs where ns: "xml_children node = as @ n # bs" "List.map_filter driver_tag as = []" "driver_tag n = Some d" "List.map_filter driver_tag bs = []"
    using map_filter_single [of driver_tag "xml_children node" d] assms(2) unfolding bus_drivers_def by blast
  let ?c0 = "bus_defaults bn c"
  have c0: "thr_func (cfg ?c0 bn) = None" "\<not> has_flag AUTO_POWER_ON bn ?c0" "\<forall>k. k \<noteq> bn \<longrightarrow> bus_kept k c ?c0" "ub (cfg_srv ?c0) = ub (cfg_srv c)"
    by (simp_all add: bus_defaults_def has_flag_def bus_kept_def on_cfg_srv_def upd_cfg_def)
  obtain c1 where c1: "register_children e bn as (bn, ?c0) = Some (bn, c1)" "other_step as bn ?c0 c1" using register_others [OF ns(2) assms(6)] by blast
  then have "thr_func (cfg c1 bn) = None" using c0(1) by (simp add: other_step_def)
  then obtain c2 where c2: "register_child e bn n (bn, c1) = Some (Suc bn, c2)" "driver_step d bn c1 c2"
    using register_driver [OF ns(3) assms(3-5)] by blast
  obtain c3 where c3: "register_children e bn bs (Suc bn, c2) = Some (Suc bn, c3)" "other_step bs bn c2 c3" using register_others [OF ns(4) assms(6)] by blast
  have no: "\<not> (xml_name n = ''auto_power_on'')" using ns(3) by (auto simp: driver_tag_def split: if_splits)
  have "register_bus e bn node c = Some (Suc bn, c3)"
    using assms(1,4) c1(1) c2(1) c3(1) by (simp add: register_bus_def ns(1) register_children_append)
  moreover have "bus_is d bn c3" using c2(2) c3(2) by (simp add: driver_step_def other_step_def)
  moreover have "has_flag AUTO_POWER_ON bn c3 \<longleftrightarrow> says_yes ''auto_power_on'' (xml_children node)"
    using c1(2) c2(2) c3(2) c0(2) no by (auto simp: driver_step_def other_step_def ns(1) says_yes_def has_flag_def)
  moreover have "\<forall>k. k \<noteq> bn \<longrightarrow> bus_kept k c c3"
    using c0(3) c1(2) c2(2) c3(2) by (simp add: driver_step_def other_step_def bus_kept_def)
  moreover have "ub (cfg_srv c3) = ub (cfg_srv c)" using c0(4) c1(2) c2(2) c3(2) by (simp add: driver_step_def other_step_def)
  ultimately show ?thesis by blast
qed

lemma walk_buses:
  assumes "bs = filter (\<lambda>n. xml_name n = ''bus'') ns" "bn + length bs \<le> MAX_BUSES" "\<forall>b. malloc_ok e b" "\<forall>p. protobyname e p \<noteq> None"
    and "\<forall>i < length bs. \<exists>d. bus_drivers (bs ! i) = [d] \<and> (d = Drv_server \<longleftrightarrow> bn + i = 0)"
  shows "\<exists>c'. walk_children e ns bn c = Some (bn + length bs, c') \<and>
    (ns \<noteq> [] \<longrightarrow> num_buses (cfg_srv c') = nat (u64 (int (bn + length bs) - 1))) \<and>
    (\<forall>i < length bs. bus_is (hd (bus_drivers (bs ! i))) (bn + i) c' \<and>
      (has_flag AUTO_POWER_ON (bn + i) c' \<longleftrightarrow> says_yes ''auto_power_on'' (xml_children (bs ! i)))) \<and>
    (\<forall>k < bn. bus_kept k c c') \<and> ub (cfg_srv c') = ub (cfg_srv c)"
  using assms(1,2,5)
proof (induction ns arbitrary: bn c bs)
  case Nil then show ?case by (simp add: bus_kept_def)
next
  case (Cons n ns)
  let ?num = "\<lambda>k c. on_cfg_srv (\<lambda>s. s\<lparr>num_buses := nat (u64 (int k - 1))\<rparr>) c"
  have kn: "bus_kept k c (?num m c)" "ub (cfg_srv (?num m c)) = ub (cfg_srv c)" for k m c by (simp_all add: bus_kept_def on_cfg_srv_def)
  show ?case
  proof (cases "xml_name n = ''bus''")
    case False
    then have "register_bus e bn n c = Some (bn, c)" by (simp add: register_bus_def)
    moreover have bs: "bs = filter (\<lambda>n. xml_name n = ''bus'') ns" using Cons.prems(1) False by simp
    obtain c2 where c2: "walk_children e ns bn (?num bn c) = Some (bn + length bs, c2)"
      "ns \<noteq> [] \<longrightarrow> num_buses (cfg_srv c2) = nat (u64 (int (bn + length bs) - 1))"
      "\<forall>i < length bs. bus_is (hd (bus_drivers (bs ! i))) (bn + i) c2 \<and>
        (has_flag AUTO_POWER_ON (bn + i) c2 \<longleftrightarrow> says_yes ''auto_power_on'' (xml_children (bs ! i)))"
      "\<forall>k < bn. bus_kept k (?num bn c) c2" "ub (cfg_srv c2) = ub (cfg_srv (?num bn c))"
      using Cons.IH [OF bs Cons.prems(2,3), of "?num bn c"] by blast
    moreover have "num_buses (cfg_srv c2) = nat (u64 (int (bn + length bs) - 1))" using c2(1,2) by (cases ns) (auto simp: bs on_cfg_srv_def)
    moreover have "\<forall>k < bn. bus_kept k c c2" using c2(4) kn(1) bus_kept_trans by blast
    ultimately show ?thesis using kn(2) by simp
  next
    case True
    define cs where "cs = filter (\<lambda>n. xml_name n = ''bus'') ns"
    have bs: "bs = n # cs" using Cons.prems(1) True by (simp add: cs_def)
    obtain d where d: "bus_drivers n = [d]" "d = Drv_server \<longleftrightarrow> bn = 0" using Cons.prems(3) by (force simp: bs)
    obtain c1 where c1: "register_bus e bn n c = Some (Suc bn, c1)" "bus_is d bn c1"
      "has_flag AUTO_POWER_ON bn c1 \<longleftrightarrow> says_yes ''auto_power_on'' (xml_children n)" "\<forall>k. k \<noteq> bn \<longrightarrow> bus_kept k c c1" "ub (cfg_srv c1) = ub (cfg_srv c)"
      using register_one_bus [OF True d _ _ assms(4), of c] assms(3) Cons.prems(2) by (auto simp: bs)
    have "\<forall>i < length cs. \<exists>d. bus_drivers (cs ! i) = [d] \<and> (d = Drv_server \<longleftrightarrow> Suc bn + i = 0)"
    proof (intro allI impI)
      fix i assume "i < length cs"
      then show "\<exists>d. bus_drivers (cs ! i) = [d] \<and> (d = Drv_server \<longleftrightarrow> Suc bn + i = 0)" using Cons.prems(3) [rule_format, of "Suc i"] by (simp add: bs)
    qed
    then obtain c2 where c2: "walk_children e ns (Suc bn) (?num (Suc bn) c1) = Some (Suc bn + length cs, c2)"
      "ns \<noteq> [] \<longrightarrow> num_buses (cfg_srv c2) = nat (u64 (int (Suc bn + length cs) - 1))"
      "\<forall>i < length cs. bus_is (hd (bus_drivers (cs ! i))) (Suc bn + i) c2 \<and>
        (has_flag AUTO_POWER_ON (Suc bn + i) c2 \<longleftrightarrow> says_yes ''auto_power_on'' (xml_children (cs ! i)))"
      "\<forall>k < Suc bn. bus_kept k (?num (Suc bn) c1) c2" "ub (cfg_srv c2) = ub (cfg_srv (?num (Suc bn) c1))"
      using Cons.IH [OF cs_def, of "Suc bn" "?num (Suc bn) c1"] Cons.prems(2) by (auto simp: bs)
    have k2: "bus_kept k c1 c2" if "k \<le> bn" for k using c2(4) that kn(1) [of k c1 "Suc bn"] by (auto intro: bus_kept_trans)
    have "num_buses (cfg_srv c2) = nat (u64 (int (bn + length bs) - 1))"
      using c2(1,2) by (cases ns) (auto simp: bs on_cfg_srv_def cs_def)
    moreover have "bus_is (hd (bus_drivers (bs ! i))) (bn + i) c2 \<and>
      (has_flag AUTO_POWER_ON (bn + i) c2 \<longleftrightarrow> says_yes ''auto_power_on'' (xml_children (bs ! i)))" if "i < length bs" for i
    proof (cases i)
      case 0 then show ?thesis using c1(2,3) bus_kept_is [OF k2 [of bn]] by (simp add: bs d)
    next
      case (Suc j) then show ?thesis using c2(3) that by (simp add: bs)
    qed
    moreover have "\<forall>k < bn. bus_kept k c c2" using c1(4) k2 by (metis bus_kept_trans less_imp_le nat_neq_iff)
    moreover have "ub (cfg_srv c2) = ub (cfg_srv c)" unfolding c2(5) kn(2) c1(5) ..
    ultimately show ?thesis using c1(1) c2(1) by (simp add: bs)
  qed
qed


definition el :: "string \<Rightarrow> string \<Rightarrow> xml" where
  "el name txt = Xml name [] (Some txt) []"

definition demo_conf :: xml where
  "demo_conf = Xml ''srcpd'' [] None
     [Xml ''text'' [] None [], Xml ''bus'' [] None [Xml ''server'' [] None [el ''tcp-port'' ''4303'']],
      Xml ''comment'' [] None [],
      Xml ''bus'' [] None [Xml ''ddl'' [] None [el ''number_ga'' ''100'', el ''enable_maerklin'' ''no''], el ''auto_power_on'' ''yes'', el ''device'' ''/dev/spidev0.0'']]"

definition cfg_env_demo :: cfg_env where
  "cfg_env_demo = \<lparr>malloc_ok = (\<lambda>_. True), gl_mem = (\<lambda>_. True), gldir_mem = (\<lambda>_. True), ga_mem = (\<lambda>_. True), fb_mem = (\<lambda>_. True),
     raw_ddl = \<lparr>ddl_number_gl = 0, ddl_number_ga = 0, FB_DEVNAME = replicate 16 nul, MCS_DEVNAME = replicate 16 nul, ddl_cfg = ddl_start\<rparr>,
     raw_pause = 0, servport = None, protobyname = (\<lambda>_. Some 6), optbuf = []\<rparr>"

definition config_zero :: config where
  "config_zero = \<lparr>cfg_srv = srcpd_init, cfg = (\<lambda>_. bus_cfg_zero), PIDFILENAME = ''/var/run/srcpd.pid''\<rparr>"


theorem ddl_config_values_witness:
  "\<exists>n c' k. readconfig_DDL cfg_env_demo (Xml ''ddl'' [] None [el ''number_ga'' ''100'', el ''enable_maerklin'' ''no'']) 1 config_zero = (n, c') \<and>
     driverdata (cfg c' 1) = DDL_Data k \<and> ddl_number_gl k = 255 \<and> ENABLED_PROTOCOLS (ddl_cfg k) AND EP_MAERKLIN = 0"
proof -
  let ?n = "Xml ''ddl'' [] None [el ''number_ga'' ''100'', el ''enable_maerklin'' ''no'']"
  obtain n c' where r: "readconfig_DDL cfg_env_demo ?n 1 config_zero = (n, c')" by force
  have env: "1 < MAX_BUSES" "malloc_ok cfg_env_demo 1" "gl_mem cfg_env_demo 1" "gldir_mem cfg_env_demo 1" "ga_mem cfg_env_demo 1" by (simp_all add: cfg_env_demo_def)
  have t: "last_text ''enable_maerklin'' (xml_children ?n) = Some ''no''" "last_text ''number_gl'' (xml_children ?n) = None"
    by (simp_all add: last_text_def el_def)
  have no: "Some ''no'' \<notin> {None, Some ''yes''}" by simp
  obtain k where "driverdata (cfg c' 1) = DDL_Data k" "ddl_number_gl k = (case last_text ''number_gl'' (xml_children ?n) of None \<Rightarrow> 255 | Some t \<Rightarrow> atoi t)"
    "ENABLED_PROTOCOLS (ddl_cfg k) AND EP_MAERKLIN \<noteq> 0 \<longleftrightarrow> last_text ''enable_maerklin'' (xml_children ?n) \<in> {None, Some ''yes''}"
    using ddl_config_values [OF env r refl] by blast
  then show ?thesis using r no unfolding t option.case by blast
qed

text \<open>
  The bound on the number of buses is tested once for each bus element: a last element with two drivers takes two numbers, and the second is outside of the
  array of buses.
\<close>

theorem config_bus_overrun:
  assumes "xml_name node = ''bus''" and "xml_children node = [m, n]" and "driver_tag m = Some d" and "driver_tag n = Some d'"
    and "d \<noteq> Drv_server" and "d' \<noteq> Drv_server" and "\<forall>b. malloc_ok e b"
  shows "\<exists>c'. register_bus e (MAX_BUSES - 1) node c = Some (MAX_BUSES + 1, c') \<and> ub (cfg_srv c')"
proof -
  let ?b = "MAX_BUSES - 1" and ?c0 = "bus_defaults (MAX_BUSES - 1) c"
  have "thr_func (cfg ?c0 ?b) = None" by (simp add: bus_defaults_def upd_cfg_def on_cfg_srv_def)
  then obtain c1 where c1: "register_child e ?b m (?b, ?c0) = Some (MAX_BUSES, c1)"
    using register_driver [OF assms(3), of ?b e ?c0 ?b] assms(5,7) by auto
  have n: "\<not> formatting n" "\<not> prefix ''server'' (xml_name n)" "xml_name n = ''ddl'' \<or> xml_name n = ''loopback'' \<or> xml_name n = ''canbus''"
    using assms(4,6) by (auto simp: driver_tag_def split: if_splits)
  have "\<exists>c'. register_child e ?b n (MAX_BUSES, c1) = Some (MAX_BUSES + 1, c') \<and> ub (cfg_srv c')"
    using n(3) assms(7)
    by (elim disjE) (simp_all add: register_child_def n(1,2) readconfig_DDL_def readconfig_LOOPBACK_def readconfig_CANBUS_def in_buses_def Let_def case_prod_unfold
      on_cfg_srv_def raise_ub_def upd_cfg_def)
  then show ?thesis using c1 assms(1,2) by (auto simp: register_bus_def)
qed

theorem config_bus_overrun_witness:
  "\<exists>c'. register_bus cfg_env_demo 7 (Xml ''bus'' [] None [Xml ''loopback'' [] None [], Xml ''ddl'' [] None []]) config_zero = Some (9, c') \<and> ub (cfg_srv c')"
  using config_bus_overrun [of "Xml ''bus'' [] None [Xml ''loopback'' [] None [], Xml ''ddl'' [] None []]" "Xml ''loopback'' [] None []" "Xml ''ddl'' [] None []"
      Drv_LOOPBACK Drv_DDL cfg_env_demo config_zero] by (simp add: driver_tag_def formatting_def cfg_env_demo_def)

text \<open>
  \<open>strncpy\<close> leaves the last byte of the name of a device as it was in the allocated memory, so that a name of 15 characters or more need not end.
\<close>

theorem devname_unterminated:
  assumes "15 \<le> length txt" and "nul \<notin> set txt" and "FB_DEVNAME k = buf" and "length buf = 16" and "buf ! 15 \<noteq> nul"
  shows "nul \<notin> set (FB_DEVNAME (ddl_tag (el ''fb_device'' txt) k))"
proof -
  have "drop 15 buf = [buf ! 15]" using assms(4) by (simp add: Cons_nth_drop_Suc [symmetric])
  then show ?thesis using assms by (auto simp: ddl_tag_def tag_defs el_def strncpy_def dest: in_set_takeD)
qed

theorem devname_unterminated_witness:
  "nul \<notin> set (FB_DEVNAME (ddl_tag (el ''fb_device'' ''/dev/ttyAMA0123'') ((raw_ddl cfg_env_demo)\<lparr>FB_DEVNAME := replicate 16 (CHR ''x'')\<rparr>)))"
  using devname_unterminated [of "''/dev/ttyAMA0123''" "(raw_ddl cfg_env_demo)\<lparr>FB_DEVNAME := replicate 16 (CHR ''x'')\<rparr>"] by simp

end
