(* ===== verification/Daemon.thy ===== *)
theory Daemon
  imports Config
begin

unbundle bit_operations_syntax

text \<open>
  The process: \<open>main\<close> and the functions that it calls in \<open>srcpd.c\<close>, the bus threads and their watchdog of \<open>config-srcpd.c\<close>, the network service of
  \<open>netservice.c\<close>, and \<open>terminate_all_sessions\<close>. \<open>daemon\<close> holds what the process keeps outside of the tables of \<open>srcpd\<close>: the static variables of the drivers, their data
  for each bus, the threads that run, and whether the data of a bus has been given back. Files, command line and the change to a
  background process are left out; a process that exits with a failure is \<open>None\<close>.
\<close>

section \<open>State\<close>

record daemon =
  conf :: config
  drv_mfx :: mfx_data
  drv_static :: ddl_static
  cans :: "nat \<Rightarrow> canbus"
  bus_thread :: "nat \<Rightarrow> driver option"
  ddl_threads :: "nat \<Rightarrow> ddl_thread"
  data_freed :: "nat \<Rightarrow> bool"
  time_thread :: bool
  net_thread :: "int option"
  sleep_ctr :: int

text \<open>
  What the process finds outside: the results of \<open>pthread_create\<close> for the buses, the clock and the network service, those of \<open>open\<close> for the devices of the buses,
  and the surroundings of the drivers.
\<close>

record daemon_env =
  cfg_e :: cfg_env
  gw_e :: "nat \<Rightarrow> gw_env"
  can_e :: "nat \<Rightarrow> can_env"
  dev_fds :: "nat \<Rightarrow> int"
  bus_thread_ok :: "nat \<Rightarrow> bool"
  time_thread_ok :: bool
  net_thread_ok :: bool

abbreviation server :: "daemon \<Rightarrow> srcpd" where
  "server d \<equiv> cfg_srv (conf d)"

definition on_server :: "(srcpd \<Rightarrow> srcpd) \<Rightarrow> daemon \<Rightarrow> daemon" where
  "on_server f d = d\<lparr>conf := on_cfg_srv f (conf d)\<rparr>"

section \<open>Start of the buses\<close>

text \<open>The data of a DDL bus with the variables that all DDL buses share, and back; the line is open when the descriptor of the bus is positive.\<close>

definition ddl_view :: "nat \<Rightarrow> ddl_config \<Rightarrow> daemon \<Rightarrow> gw_state" where
  "ddl_view b k d = (\<lparr>srv = server d, ddl = ddl_cfg k, mfx = drv_mfx d\<rparr>, (drv_static d)\<lparr>line_open := (0 < dev_fd (cfg (conf d) b))\<rparr>)"

definition ddl_store :: "nat \<Rightarrow> ddl_config \<Rightarrow> gw_state \<Rightarrow> daemon \<Rightarrow> daemon" where
  "ddl_store b k x d =
     d\<lparr>conf := upd_cfg b (\<lambda>q. q\<lparr>driverdata := DDL_Data (k\<lparr>ddl_cfg := ddl (fst x)\<rparr>)\<rparr>) (on_cfg_srv (\<lambda>_. srv (fst x)) (conf d)),
       drv_mfx := mfx (fst x), drv_static := snd x\<rparr>"

text \<open>
  The initialisation function \<open>f\<close> of bus \<open>b\<close>. A DDL bus whose device cannot be opened ends the process; \<open>line_ok\<close> of its surroundings is the success of the
  settings of the line that follow. The name of a CAN interface is copied from the device path, which is a null pointer when there is no device element.
\<close>

definition init_bus :: "daemon_env \<Rightarrow> nat \<Rightarrow> driver \<Rightarrow> daemon \<Rightarrow> daemon option" where
  "init_bus e b f d =
     (let path = dev_path (cfg (conf d) b); fd = dev_fd (cfg (conf d) b)
      in case f of
           Drv_server \<Rightarrow> Some (on_server (\<lambda>s. snd (init_bus_server b s)) d)
         | Drv_LOOPBACK \<Rightarrow> Some (on_server (init_bus_LOOPBACK b) d)
         | Drv_DDL \<Rightarrow>
             (case driverdata (cfg (conf d) b) of
                DDL_Data k \<Rightarrow>
                  if fd \<le> 0 \<and> (path = None \<or> dev_fds e b < 0) then None
                  else
                    (let g = (gw_e e b)\<lparr>line_ok := line_ok (gw_e e b) \<and> 0 < dev_fds e b, spidev := (path \<noteq> None \<and> strstr (the path) ''spidev''),
                           has_mcs := (MCS_DEVNAME k ! 0 \<noteq> nul)\<rparr>;
                         d1 = ddl_store b k (init_bus_DDL g b (ddl_view b k d)) d
                     in Some (if fd \<le> 0
                              then d1\<lparr>conf := upd_cfg b (\<lambda>q. q\<lparr>dev_fd := (if line_ok (gw_e e b) then dev_fds e b else -1)\<rparr>) (conf d1)\<rparr>
                              else d1))
              | _ \<Rightarrow> Some (on_server raise_ub d))
         | Drv_CANBUS \<Rightarrow>
             (case (driverdata (cfg (conf d) b), path) of
                (CANBUS_Data k, Some p) \<Rightarrow>
                  (let (s, c) = init_bus_CANBUS ((can_e e b)\<lparr>can_path := p\<rparr>) b (server d, (cans d b)\<lparr>pause_between_cmd := cb_pause k\<rparr>)
                   in Some ((on_server (\<lambda>_. s) d)\<lparr>cans := (cans d)(b := c)\<rparr>))
              | _ \<Rightarrow> Some (on_server raise_ub d)))"

text \<open>All four functions return 0, so that no failure is reported here.\<close>

fun init_each_bus :: "daemon_env \<Rightarrow> nat list \<Rightarrow> daemon \<Rightarrow> daemon option" where
  "init_each_bus e [] d = Some d"
| "init_each_bus e (i # is) d =
     (case init_func (cfg (conf d) i) of None \<Rightarrow> init_each_bus e is d | Some f \<Rightarrow> Option.bind (init_bus e i f d) (init_each_bus e is))"

definition init_all_buses :: "daemon_env \<Rightarrow> daemon \<Rightarrow> daemon option" where
  "init_all_buses e d = init_each_bus e [0..<Suc (num_buses (server d))] d"

section \<open>Threads\<close>

definition auto_power :: "nat \<Rightarrow> srcpd \<Rightarrow> srcpd" where
  "auto_power i s =
     (if bus_flags (buses s i) AND AUTO_POWER_ON = AUTO_POWER_ON then snd (setPower i 1 ''AUTO POWER ON'' s)
      else snd (setPower i 0 ''AUTO POWER OFF'' s))"

fun create_bus_threads :: "daemon_env \<Rightarrow> nat list \<Rightarrow> daemon \<Rightarrow> daemon option" where
  "create_bus_threads e [] d = Some d"
| "create_bus_threads e (i # is) d =
     (let f = thr_func (cfg (conf d) i)
      in if f \<noteq> None \<and> \<not> bus_thread_ok e i then None
         else create_bus_threads e is (on_server (auto_power i)
                (if f \<noteq> None then d\<lparr>bus_thread := (bus_thread d)(i := f)\<rparr> else d)))"

definition create_all_bus_threads :: "daemon_env \<Rightarrow> daemon \<Rightarrow> daemon option" where
  "create_all_bus_threads e d = create_bus_threads e [1..<Suc (num_buses (server d))] d"

text \<open>The port is read from the driver data of bus 0, whatever driver it belongs to.\<close>

definition create_netservice_thread :: "daemon_env \<Rightarrow> daemon \<Rightarrow> daemon option" where
  "create_netservice_thread e d =
     (if \<not> net_thread_ok e then None
      else case driverdata (cfg (conf d) 0) of
             Server_Data k \<Rightarrow> Some (d\<lparr>net_thread := Some (TCPPORT k)\<rparr>)
           | _ \<Rightarrow> Some (on_server raise_ub d))"

definition create_time_thread :: "daemon_env \<Rightarrow> daemon \<Rightarrow> daemon" where
  "create_time_thread e d = (if time_thread_ok e then d\<lparr>time_thread := True\<rparr> else d)"

definition create_all_threads :: "daemon_env \<Rightarrow> daemon \<Rightarrow> daemon option" where
  "create_all_threads e d =
     (case create_all_bus_threads e (create_time_thread e (on_server (set_server_state ssInitializing) d)) of
        None \<Rightarrow> None
      | Some d1 \<Rightarrow> map_option (on_server (set_server_state ssRunning)) (create_netservice_thread e d1))"

text \<open>Reading the configuration allocates the data of the drivers; then the buses are initialised and the threads created. The signal SIGHUP does the same.\<close>

definition configure :: "daemon_env \<Rightarrow> xml option option \<Rightarrow> daemon \<Rightarrow> daemon option" where
  "configure e doc d =
     (case readConfig (cfg_e e) doc (conf d) of
        None \<Rightarrow> None
      | Some (ok, c) \<Rightarrow>
          if \<not> ok then None else Option.bind (init_all_buses e (d\<lparr>conf := c, data_freed := (\<lambda>_. False)\<rparr>)) (create_all_threads e))"

text \<open>What \<open>main\<close> does before it reads the configuration.\<close>

definition tables_started :: "daemon \<Rightarrow> daemon" where
  "tables_started d = on_server (\<lambda>s. startup_TIME (startup_FB (startup_GA (startup_GL s)))) d"

definition main_start :: "daemon_env \<Rightarrow> xml option option \<Rightarrow> daemon \<Rightarrow> daemon option" where
  "main_start e doc d =
     map_option (\<lambda>d. d\<lparr>sleep_ctr := 10\<rparr>) (configure e doc (tables_started d))"

section \<open>The end of a bus thread\<close>

text \<open>The clean-up functions of the drivers, which give back the data of the bus at their end.\<close>

definition end_bus :: "nat \<Rightarrow> daemon \<Rightarrow> daemon" where
  "end_bus b d =
     (let d1 = (case bus_thread d b of
            None \<Rightarrow> on_server raise_ub d
          | Some Drv_DDL \<Rightarrow>
              (case driverdata (cfg (conf d) b) of
                 DDL_Data k \<Rightarrow>
                   (let (v, g) = ddl_view b k d; (v1, t) = end_bus_thread (v, ddl_threads d b);
                        x = (if MCS_DEVNAME k ! 0 \<noteq> nul then end_handleCAN (v1, g) else (v1, g))
                    in (ddl_store b k x d)\<lparr>ddl_threads := (ddl_threads d)(b := t)\<rparr>)
               | _ \<Rightarrow> on_server raise_ub d)
          | Some Drv_CANBUS \<Rightarrow> d\<lparr>cans := (cans d)(b := end_bus_thread_CANBUS (cans d b))\<rparr>
          | Some _ \<Rightarrow> d)
      in d1\<lparr>bus_thread := (bus_thread d1)(b := None), data_freed := (data_freed d1)(b := True)\<rparr>)"

text \<open>A thread that starts on data that has been given back writes to it.\<close>

definition restart_bus :: "nat \<Rightarrow> daemon \<Rightarrow> daemon" where
  "restart_bus b d =
     (let d1 = d\<lparr>bus_thread := (bus_thread d)(b := thr_func (cfg (conf d) b))\<rparr>
      in if data_freed d b then on_server raise_ub d1 else d1)"

definition bus_hangs :: "nat \<Rightarrow> srcpd \<Rightarrow> bool" where
  "bus_hangs b s \<longleftrightarrow> bus_flags (buses s b) AND USE_WATCHDOG \<noteq> 0 \<and> watchdog (buses s b) = 0 \<and> \<not> queue_GL_isempty b s \<and> \<not> queue_GA_isempty b s"

fun watch_buses :: "daemon_env \<Rightarrow> nat list \<Rightarrow> daemon \<Rightarrow> daemon" where
  "watch_buses e [] d = d"
| "watch_buses e (b # bs) d =
     (let rest = (\<lambda>d. watch_buses e bs (on_server (upd_bus b (\<lambda>q. q\<lparr>watchdog := 0\<rparr>)) d))
      in if bus_hangs b (server d) then
           (let d1 = end_bus b d in if bus_thread_ok e b then rest (restart_bus b d1) else d1)
         else rest d)"

definition run_bus_watchdog :: "daemon_env \<Rightarrow> daemon \<Rightarrow> daemon" where
  "run_bus_watchdog e d = watch_buses e [1..<Suc (num_buses (server d))] d"

section \<open>The main loop\<close>

text \<open>What is done every second, and one pass of the loop; the first argument of a pass is what the other threads do during the pause of 100 ms. \<open>None\<close> is the end of the loop.\<close>

definition main_tick :: "daemon_env \<Rightarrow> daemon \<Rightarrow> daemon" where
  "main_tick e d = run_bus_watchdog e (on_server (\<lambda>s. unlock_ga_bytime (unlock_gl_bytime s)) d)"

definition main_pass :: "daemon_env \<Rightarrow> (daemon \<Rightarrow> daemon) \<Rightarrow> daemon \<Rightarrow> daemon option" where
  "main_pass e others d =
     (if get_server_state (server d) = ssTerminating then None
      else
        (let d1 = others d; n = sleep_ctr d1 - 1
         in if n = 0 then Some ((main_tick e (d1\<lparr>sleep_ctr := n\<rparr>))\<lparr>sleep_ctr := 10\<rparr>) else Some (d1\<lparr>sleep_ctr := n\<rparr>)))"

fun main_passes :: "daemon_env \<Rightarrow> (daemon \<Rightarrow> daemon) list \<Rightarrow> daemon \<Rightarrow> daemon option" where
  "main_passes e [] d = Some d"
| "main_passes e (f # fs) d = Option.bind (main_pass e f d) (main_passes e fs)"

section \<open>The end of the process\<close>

text \<open>
  \<open>alive\<close> says which client threads still run: each of them is cancelled and does its clean-up. The wait for the number of sessions to become 0 is not bounded.
\<close>

definition terminate_all_sessions :: "(nat \<Rightarrow> bool) \<Rightarrow> srcpd \<Rightarrow> srcpd option" where
  "terminate_all_sessions alive s =
     (if session_list s = [] then Some s
      else
        (let s1 = fold end_client_thread (filter alive (map thread (session_list s))) s
         in if runningsessions s1 = 0 then Some s1 else None))"

definition cancel_all_bus_threads :: "daemon \<Rightarrow> daemon" where
  "cancel_all_bus_threads d = fold end_bus [1..<Suc (num_buses (server d))] d"

definition cancel_all_threads :: "(nat \<Rightarrow> bool) \<Rightarrow> daemon \<Rightarrow> daemon option" where
  "cancel_all_threads alive d =
     (let d1 = (on_server server_shutdown d)\<lparr>net_thread := None, data_freed := (data_freed d)(0 := True), time_thread := False\<rparr>;
          d2 = cancel_all_bus_threads d1
      in map_option (\<lambda>s. on_server (\<lambda>_. s) d2) (terminate_all_sessions alive (server d2)))"

definition sighup_handler :: "(nat \<Rightarrow> bool) \<Rightarrow> daemon_env \<Rightarrow> xml option option \<Rightarrow> daemon \<Rightarrow> daemon option" where
  "sighup_handler alive e doc d = Option.bind (cancel_all_threads alive d) (configure e doc)"

definition sigterm_handler :: "daemon \<Rightarrow> daemon" where
  "sigterm_handler d = on_server (set_server_state ssTerminating) d"

section \<open>The network service\<close>

text \<open>The data base of groups and users, and whether the system calls succeed; the state is the pair of effective group and user.\<close>

record priv_env =
  grnam :: "string \<Rightarrow> int option"
  grgid :: "int \<Rightarrow> bool"
  pwnam :: "string \<Rightarrow> int option"
  pwuid :: "int \<Rightarrow> bool"
  setegid_ok :: bool
  seteuid_ok :: bool

definition look_up :: "(string \<Rightarrow> int option) \<Rightarrow> (int \<Rightarrow> bool) \<Rightarrow> string \<Rightarrow> int option" where
  "look_up nam known s = (case nam s of Some i \<Rightarrow> Some i | None \<Rightarrow> let i = u32 (atoi s) in if known i then Some i else None)"

definition change_privileges :: "priv_env \<Rightarrow> server_data \<Rightarrow> int \<times> int \<Rightarrow> int \<times> int" where
  "change_privileges e k ids =
     (let (g, u) = ids;
          g1 = (case groupname k of
                  None \<Rightarrow> g
                | Some grp \<Rightarrow> (case look_up (grnam e) (grgid e) grp of Some i \<Rightarrow> if setegid_ok e then i else g | None \<Rightarrow> g));
          u1 = (case username k of
                  None \<Rightarrow> u
                | Some uid \<Rightarrow> (case look_up (pwnam e) (pwuid e) uid of Some i \<Rightarrow> if seteuid_ok e then i else u | None \<Rightarrow> u))
      in (g1, u1))"

text \<open>One connection: the result of \<open>accept\<close>, of setting the socket option, of allocating the session node and of creating the client thread.\<close>

datatype accept_event = Accept_Failed | Accepted (acc_socket: int) (acc_option_ok: bool) (acc_alloc: bool) (acc_thread: bool)

definition accept_pass :: "accept_event \<Rightarrow> srcpd \<Rightarrow> srcpd" where
  "accept_pass ev s =
     (case ev of
        Accept_Failed \<Rightarrow> s
      | Accepted sk opt alloc thr \<Rightarrow>
          if \<not> opt then s
          else if \<not> alloc then create_anonymous_session sk False s
          else
            (let s1 = create_anonymous_session sk True s
             in if thr then s1 else destroy_anonymous_session 0 s1))"

section \<open>The end of all sessions\<close>

text \<open>What the end of a session leaves of the others: all but the messages in their pipes.\<close>

definition node_view :: "session_node_t \<Rightarrow> sessionid_t \<times> nat \<times> session_mode \<times> bool" where
  "node_view n = (session n, thread n, mode n, freed n)"

definition sessions_view :: "srcpd \<Rightarrow> (sessionid_t \<times> nat \<times> session_mode \<times> bool) list \<times> int \<times> nat \<times> nat" where
  "sessions_view s = (map node_view (session_list s), runningsessions s, lastsession s, num_buses s)"

lemma sessions_view_message [simp]: "sessions_view (enqueueInfoMessage m s) = sessions_view s"
  by (simp add: sessions_view_def session_list_enqueueInfoMessage node_view_def)

lemma sessions_ok_view:
  assumes "sessions_view t = sessions_view s" shows "sessions_ok t \<longleftrightarrow> sessions_ok s"
proof -
  have v: "map node_view (session_list t) = map node_view (session_list s)" "runningsessions t = runningsessions s" "lastsession t = lastsession s"
    using assms by (simp_all add: sessions_view_def)
  have "map session (session_list t) = map session (session_list s)" using arg_cong [OF v(1), of "map fst"] by (simp add: o_def node_view_def)
  moreover have fr: "(\<forall>n \<in> set (session_list u). \<not> freed n \<and> session n \<le> k) \<longleftrightarrow> (\<forall>(i, _, _, f) \<in> set (map node_view (session_list u)). \<not> f \<and> i \<le> k)" for u k
    by (auto simp: node_view_def)
  have "(\<forall>n \<in> set (session_list t). \<not> freed n \<and> session n \<le> lastsession t) \<longleftrightarrow> (\<forall>n \<in> set (session_list s). \<not> freed n \<and> session n \<le> lastsession s)"
    unfolding fr v ..
  moreover have "length (session_list t) = length (session_list s)" using arg_cong [OF v(1), of length] by simp
  ultimately show ?thesis using v(2) unfolding sessions_ok_def by metis
qed

lemma unlock_sessions [simp]:
  "sessions_view (unlock_ga_bysessionid sid s) = sessions_view s" "sessions_view (unlock_gl_bysessionid sid s) = sessions_view s"
proof -
  have v: "sessions_view (upd_gastate b a f t) = sessions_view t" "sessions_view (upd_glstate b i h t) = sessions_view t" for b a f i h t
    by (simp_all add: sessions_view_def upd_gastate_def upd_ga_def upd_glstate_def upd_gl_def)
  let ?P = "\<lambda>t. sessions_view t = sessions_view s"
  show "?P (unlock_ga_bysessionid sid s)"
    unfolding unlock_ga_bysessionid_def
    by (rule fold_invariant [where P = ?P], simp, rule fold_invariant [where P = ?P]) (simp_all add: unlockGA_def v)
  show "?P (unlock_gl_bysessionid sid s)"
    unfolding unlock_gl_bysessionid_def
    by (rule fold_invariant [where P = ?P], simp, rule fold_invariant [where P = ?P]) (simp_all add: release_gl_def cacheUnlockGL_def Let_def v)
qed

lemma stop_session_view [simp]: "sessions_view (snd (stop_session sid s)) = sessions_view s"
  by (simp add: stop_session_def)

lemma end_first_client:
  assumes "session_list s = n # ns" "session n \<noteq> 0" "mode n \<noteq> smUndefined" "sessions_ok s" "length (session_list s) < 2 ^ 32"
    and "t = end_client_thread (thread n) s"
  shows "map node_view (session_list t) = map node_view ns \<and> sessions_ok t \<and> num_buses t = num_buses s \<and>
    (\<forall>b. numberOfGa (ga t b) = numberOfGa (ga s b)) \<and>
    (\<forall>b a. ga_locked_by (gastate (ga t b) a) = (if 1 \<le> b \<and> b \<le> num_buses s \<and> 1 \<le> a \<and> int a \<le> numberOfGa (ga s b) \<and>
       ga_locked_by (gastate (ga s b) a) = session n then 0 else ga_locked_by (gastate (ga s b) a)))"
proof -
  let ?sid = "session n"
  have i: "sn_index (thread n) s = 0" by (simp add: sn_index_def assms(1))
  define s2 where "s2 = (let s1 = upd_sn (thread n) (\<lambda>n. n\<lparr>mode := smUndefined\<rparr>) s
    in if mode n = smCommand then s1\<lparr>commandsessions := u32 (commandsessions s - 1)\<rparr> else s1)"
  have t: "t = snd (stop_session ?sid (destroy_session ?sid s2))"
    using assms(2,3) by (simp add: assms(6) end_client_thread_def i assms(1) Let_def s2_def)
  have s2: "session_list s2 = n\<lparr>mode := smUndefined\<rparr> # ns" "runningsessions s2 = runningsessions s" "lastsession s2 = lastsession s"
    "ga s2 = ga s" "num_buses s2 = num_buses s"
    by (simp_all add: s2_def Let_def upd_sn_def i assms(1))
  have "sessions_ok s2" using assms(4) by (simp add: sessions_ok_def s2 assms(1))
  then have d: "sessions_ok (destroy_session ?sid s2)" "session_list (destroy_session ?sid s2) = filter (\<lambda>m. session m \<noteq> ?sid) (session_list s2)"
    using destroy_session_effect [of s2 ?sid] assms(1,2,5) by (auto simp: s2)
  have "?sid \<notin> session ` set ns" using assms(2,4) by (auto simp: sessions_ok_def assms(1))
  then have ns: "session_list (destroy_session ?sid s2) = ns" unfolding d(2) s2(1) by (simp add: filter_id_conv) (metis image_eqI)
  have dg: "ga (destroy_session ?sid s2) = ga s" "num_buses (destroy_session ?sid s2) = num_buses s"
    by (auto simp: destroy_session_def raise_ub_def s2 split: option.split)
  have v: "sessions_view t = sessions_view (destroy_session ?sid s2)" by (simp add: t)
  then have "map node_view (session_list t) = map node_view ns" "num_buses t = num_buses s" using ns dg by (simp_all add: sessions_view_def)
  moreover have "sessions_ok t" using sessions_ok_view [OF v] d(1) by simp
  moreover have "gastate (ga t b) a = (if 1 \<le> b \<and> b \<le> num_buses s \<and> 1 \<le> a \<and> int a \<le> numberOfGa (ga s b)
      then release_by ?sid (clock (destroy_session ?sid s2)) (gastate (ga s b) a) else gastate (ga s b) a)" for b a
    by (simp add: t stop_session_effect unlock_ga_bysessionid_pointwise dg s2(4,5))
  moreover have "numberOfGa (ga t b) = numberOfGa (ga s b)" for b
  proof -
    let ?P = "\<lambda>u. numberOfGa (ga u b) = numberOfGa (ga (destroy_session ?sid s2) b)"
    have "?P (unlock_ga_bysessionid ?sid (destroy_session ?sid s2))"
      unfolding unlock_ga_bysessionid_def
      by (rule fold_invariant [where P = ?P], simp, rule fold_invariant [where P = ?P]) (simp_all add: unlockGA_def)
    then show ?thesis by (simp add: t stop_session_effect dg s2(4))
  qed
  ultimately show ?thesis by (auto simp: release_by_def)
qed

text \<open>The clean-ups of all clients, one after the other.\<close>

lemma end_all_clients:
  assumes "map node_view (session_list s) = map node_view ns" "\<forall>n \<in> set ns. session n \<noteq> 0 \<and> mode n \<noteq> smUndefined" "sessions_ok s" "length ns < 2 ^ 32"
    and "t = fold end_client_thread (map thread ns) s"
  shows "session_list t = [] \<and> sessions_ok t \<and> num_buses t = num_buses s \<and> (\<forall>b. numberOfGa (ga t b) = numberOfGa (ga s b)) \<and>
    (\<forall>b a. ga_locked_by (gastate (ga t b) a) = (if 1 \<le> b \<and> b \<le> num_buses s \<and> 1 \<le> a \<and> int a \<le> numberOfGa (ga s b) \<and>
       ga_locked_by (gastate (ga s b) a) \<in> session ` set ns then 0 else ga_locked_by (gastate (ga s b) a)))"
  using assms
proof (induction ns arbitrary: s)
  case Nil then show ?case by simp
next
  case (Cons n ns)
  obtain m ms where m: "session_list s = m # ms" "node_view m = node_view n" "map node_view ms = map node_view ns" using Cons.prems(1) by auto
  then have mn: "session m = session n" "thread m = thread n" "mode m = mode n" by (simp_all add: node_view_def)
  define s1 where "s1 = end_client_thread (thread m) s"
  have "length ms = length ns" using m(3) map_eq_imp_length_eq by blast
  then have e: "map node_view (session_list s1) = map node_view ns" "sessions_ok s1" "num_buses s1 = num_buses s"
    "\<forall>b. numberOfGa (ga s1 b) = numberOfGa (ga s b)"
    "\<forall>b a. ga_locked_by (gastate (ga s1 b) a) = (if 1 \<le> b \<and> b \<le> num_buses s \<and> 1 \<le> a \<and> int a \<le> numberOfGa (ga s b) \<and>
       ga_locked_by (gastate (ga s b) a) = session n then 0 else ga_locked_by (gastate (ga s b) a))"
    using end_first_client [OF m(1) _ _ Cons.prems(3) _ s1_def] Cons.prems(2,4) m(3) by (auto simp: mn m(1))
  have "t = fold end_client_thread (map thread ns) s1" using Cons.prems(5) by (simp add: s1_def mn)
  note IH = Cons.IH [OF e(1) _ e(2) _ this]
  have z: "0 \<notin> session ` set ns" using Cons.prems(2) by auto
  show ?case using IH Cons.prems(2,4) e(3-5) z by (auto simp: image_iff)
qed

text \<open>C16. Shutting down ends all sessions: when every client in the session list has completed its handshake and its thread runs, the wait for the
  end of the sessions returns, the list is empty, the count is zero, and no accessory is locked by any of them.
\<close>

theorem all_sessions_end:
  assumes "sessions_ok s" and "\<forall>n \<in> set (session_list s). session n \<noteq> 0 \<and> mode n \<noteq> smUndefined \<and> alive (thread n)" and "length (session_list s) < 2 ^ 32"
  shows "\<exists>t. terminate_all_sessions alive s = Some t \<and> session_list t = [] \<and> runningsessions t = 0 \<and>
    (\<forall>b a. 1 \<le> b \<and> b \<le> num_buses s \<and> 0 < a \<and> a \<le> get_number_ga b s \<longrightarrow> ga_locked_by (ga_at b a t) \<notin> set (session_ids s))"
proof (cases "session_list s = []")
  case True then show ?thesis using assms(1) by (simp add: terminate_all_sessions_def sessions_ok_def session_ids_def)
next
  case False
  let ?ns = "session_list s" and ?t = "fold end_client_thread (map thread (session_list s)) s"
  have "filter alive (map thread ?ns) = map thread ?ns" using assms(2) by (auto intro!: filter_True)
  moreover have e: "session_list ?t = []" "sessions_ok ?t"
    "\<forall>b a. ga_locked_by (gastate (ga ?t b) a) = (if 1 \<le> b \<and> b \<le> num_buses s \<and> 1 \<le> a \<and> int a \<le> numberOfGa (ga s b) \<and>
       ga_locked_by (gastate (ga s b) a) \<in> session ` set ?ns then 0 else ga_locked_by (gastate (ga s b) a))"
    using end_all_clients [OF refl _ assms(1,3) refl] assms(2) by blast+
  moreover have "runningsessions ?t = 0" using e(1,2) by (simp add: sessions_ok_def)
  moreover have "0 \<notin> set (session_ids s)" using assms(2) by (auto simp: session_ids_def)
  ultimately show ?thesis using False
    by (auto simp: terminate_all_sessions_def Let_def session_ids_def get_number_ga_def)
qed

theorem all_sessions_end_witness:
  "\<exists>t. terminate_all_sessions (\<lambda>_. True) one_thread = Some t \<and> session_list t = []"
proof -
  have "set (map session (session_list one_thread)) = {1}" using one_thread_simps(3) by (simp only: session_ids_def) simp
  then have "\<forall>n \<in> set (session_list one_thread). session n = 1" by (metis imageI list.set_map singletonD)
  moreover have "\<forall>n \<in> set (session_list one_thread). mode n = smCommand" by (simp add: one_thread_def)
  moreover have "length (session_list one_thread) < 2 ^ 32"
    using one_thread_simps(3) by (simp add: session_ids_def Cons_eq_map_conv one_thread_def)
  ultimately show ?thesis using all_sessions_end [OF one_thread_simps(2), of "\<lambda>_. True"] by fastforce
qed

text \<open>The ids and the threads in the list, which the clean-up of one client keeps or of which it takes out those of one id.\<close>

definition id_threads :: "srcpd \<Rightarrow> (sessionid_t \<times> nat) list" where
  "id_threads s = map (\<lambda>n. (session n, thread n)) (session_list s)"

lemma id_threads_view: "sessions_view t = sessions_view s \<Longrightarrow> id_threads t = id_threads s"
proof -
  assume "sessions_view t = sessions_view s"
  then have "map (\<lambda>(i, h, _). (i, h)) (map node_view (session_list t)) = map (\<lambda>(i, h, _). (i, h)) (map node_view (session_list s))"
    by (simp add: sessions_view_def)
  then show ?thesis by (simp add: id_threads_def node_view_def o_def)
qed

lemma one_thread_per_id:
  "distinct (filter (\<lambda>x. x \<noteq> 0) (map fst p)) \<Longrightarrow> (x, a) \<in> set p \<Longrightarrow> (x, b) \<in> set p \<Longrightarrow> x \<noteq> (0 :: nat) \<Longrightarrow> a = b"
  by (induction p) (force split: if_splits)+

lemma end_client_ids:
  assumes "has_sn tid s" "sessions_ok s" "length (session_list s) < 2 ^ 32" and t: "t = end_client_thread tid s"
  shows "sessions_ok t \<and> length (session_list t) < 2 ^ 32 \<and> (\<forall>x h. (x, h) \<in> set (id_threads s) \<and> (x = 0 \<or> h \<noteq> tid) \<longrightarrow> (x, h) \<in> set (id_threads t))"
proof -
  let ?n = "sn_of tid s" and ?i = "sn_index tid s"
  define s2 where "s2 = (let s1 = upd_sn tid (\<lambda>n. n\<lparr>mode := smUndefined\<rparr>) s
    in if mode ?n = smCommand then s1\<lparr>commandsessions := u32 (commandsessions s - 1)\<rparr> else s1)"
  note i = sn_index_less [OF assms(1)]
  have "id_threads (upd_sn tid (\<lambda>n. n\<lparr>mode := smUndefined\<rparr>) s) = id_threads s"
    using i by (simp add: id_threads_def upd_sn_def map_update) (metis (no_types, lifting) list_update_id nth_map)
  then have ids: "id_threads s2 = id_threads s" by (simp add: s2_def Let_def id_threads_def)
  have ok: "sessions_ok s2" using upd_sn_mode_ok [OF assms(1,2)] by (simp add: s2_def Let_def)
  have len: "length (session_list s2) = length (session_list s)" by (simp add: s2_def Let_def)
  show ?thesis
  proof (cases "mode ?n \<noteq> smUndefined \<and> session ?n \<noteq> 0")
    case False
    then have "t = s2" by (auto simp: t end_client_thread_def Let_def s2_def)
    then show ?thesis using ids ok len assms(3) by simp
  next
    case True
    let ?sid = "session ?n"
    define s3 where "s3 = destroy_session ?sid s2"
    have t: "t = snd (stop_session ?sid s3)" using True by (simp add: t end_client_thread_def Let_def s2_def s3_def)
    have at: "(?sid, tid) \<in> set (id_threads s)" using i by (auto simp: id_threads_def in_set_conv_nth intro!: exI [of _ ?i])
    moreover have "session ` set (session_list s2) = fst ` set (id_threads s2)" by (simp add: id_threads_def image_image)
    ultimately have "?sid \<in> session ` set (session_list s2)" unfolding ids by force
    then have d: "sessions_ok s3" "session_list s3 = filter (\<lambda>n. session n \<noteq> ?sid) (session_list s2)"
      using destroy_session_effect [OF ok] True len assms(3) by (simp_all add: s3_def)
    have it: "id_threads t = filter (\<lambda>(x, _). x \<noteq> ?sid) (id_threads s)"
      using id_threads_view [of t s3] d(2) by (simp add: t ids [symmetric]) (simp add: id_threads_def filter_map o_def)
    have "distinct (filter (\<lambda>x. x \<noteq> 0) (map fst (id_threads s)))" using assms(2) by (simp add: sessions_ok_def id_threads_def o_def)
    note dist = this
    have u: "h = tid" if "(?sid, h) \<in> set (id_threads s)" for h
      by (rule one_thread_per_id [OF dist that at]) (use True in simp)
    have "(x, h) \<in> set (id_threads t)" if "(x, h) \<in> set (id_threads s)" "x = 0 \<or> h \<noteq> tid" for x h
    proof -
      have "x \<noteq> ?sid" using that u [of h] True by metis
      then show ?thesis using that(1) by (simp add: it)
    qed
    then have "\<forall>x h. (x, h) \<in> set (id_threads s) \<and> (x = 0 \<or> h \<noteq> tid) \<longrightarrow> (x, h) \<in> set (id_threads t)" by blast
    moreover have "sessions_ok t" using sessions_ok_view [of t s3] d(1) by (simp add: t)
    moreover have "length (session_list t) \<le> length (session_list s)"
      using arg_cong [OF it, of length] length_filter_le [of "\<lambda>(x, _). x \<noteq> ?sid" "id_threads s"] by (simp add: id_threads_def)
    ultimately show ?thesis using assms(3) by simp
  qed
qed

lemma unregistered_stays:
  assumes "sessions_ok s" "length (session_list s) < 2 ^ 32" "distinct hs" "set hs \<subseteq> snd ` set (id_threads s)" "(0, h) \<in> set (id_threads s)"
  shows "sessions_ok (fold end_client_thread hs s) \<and> (0, h) \<in> set (id_threads (fold end_client_thread hs s))"
  using assms
proof (induction hs arbitrary: s)
  case Nil then show ?case by simp
next
  case (Cons i hs)
  have "has_sn i s" using Cons.prems(4) by (auto simp: has_sn_def id_threads_def)
  note e = end_client_ids [OF this Cons.prems(1,2) refl]
  have "set hs \<subseteq> snd ` set (id_threads (end_client_thread i s))"
  proof
    fix j assume "j \<in> set hs"
    then obtain x where "(x, j) \<in> set (id_threads s)" "j \<noteq> i" using Cons.prems(3,4) by force
    then have "(x, j) \<in> set (id_threads (end_client_thread i s))" using e by blast
    then show "j \<in> snd ` set (id_threads (end_client_thread i s))" by force
  qed
  then show ?case using Cons.IH [of "end_client_thread i s"] Cons.prems(3,5) e by simp
qed

text \<open>
  A client that is connected but has not sent GO, and equally one that has left before, is not in the way of the clean-up of the others, but its node
  is never taken out of the list: the daemon then waits for ever when it is shut down.
\<close>

theorem shutdown_hangs:
  assumes "sessions_ok s" and "length (session_list s) < 2 ^ 32" and "distinct (map thread (session_list s))"
    and "n \<in> set (session_list s)" and "session n = 0"
  shows "terminate_all_sessions alive s = None"
proof -
  let ?hs = "filter alive (map thread (session_list s))" and ?t = "fold end_client_thread (filter alive (map thread (session_list s))) s"
  have "(0, thread n) \<in> set (id_threads s)" using assms(4,5) by (force simp: id_threads_def)
  moreover have "set ?hs \<subseteq> snd ` set (id_threads s)" by (force simp: id_threads_def)
  moreover have "distinct ?hs" using assms(3) by (rule distinct_filter)
  ultimately have "sessions_ok ?t" "(0, thread n) \<in> set (id_threads ?t)" using unregistered_stays [OF assms(1,2), of ?hs] by blast+
  then have "runningsessions ?t \<noteq> 0" by (auto simp: sessions_ok_def id_threads_def)
  moreover have "session_list s \<noteq> []" using assms(4) by auto
  ultimately show ?thesis by (simp add: terminate_all_sessions_def Let_def)
qed

theorem shutdown_hangs_witness: "terminate_all_sessions alive one_client = None"
proof -
  obtain n where n: "session_list one_client = [n]" using one_client_simps(3) by (cases "session_list one_client") auto
  then have "session n = 0" using one_client_simps(2) by simp
  then show ?thesis using shutdown_hangs [OF one_client_simps(1), of n alive] n by simp
qed

section \<open>The network service\<close>

text \<open>
  A user that does not exist is read as a number, which is 0 when the name begins with a letter, so that the daemon that should give
  up its privileges keeps those of root.
\<close>

theorem unknown_user_is_root:
  assumes "username k = Some name" and "pwnam e name = None" and "atoi name = 0" and "pwuid e 0" and "seteuid_ok e"
  shows "snd (change_privileges e k ids) = 0"
  using assms by (simp add: change_privileges_def look_up_def Let_def split_beta u32_id)

theorem unknown_user_is_root_witness:
  "snd (change_privileges \<lparr>grnam = \<lambda>_. None, grgid = \<lambda>_. False, pwnam = \<lambda>_. None, pwuid = \<lambda>i. i = 0, setegid_ok = True, seteuid_ok = True\<rparr>
     \<lparr>TCPPORT = 4303, listenip = None, username = Some ''nobdy'', groupname = None\<rparr> (0, 0)) = 0"
proof -
  have "atoi ''nobdy'' = 0" by code_simp
  then show ?thesis by (intro unknown_user_is_root [of _ "''nobdy''"]) simp_all
qed

text \<open>When the thread for a client cannot be created, the list keeps a link to the node that has been given back.\<close>

theorem failed_client_thread_dangling:
  "ub (enqueueInfoMessage msg (accept_pass (Accepted sk True True False) s))"
proof -
  let ?s = "create_anonymous_session sk True s"
  have "session_list (destroy_anonymous_session 0 ?s) \<noteq> []" by (simp add: create_anonymous_session_def list_add_def destroy_anonymous_session_def)
  moreover have "touches_freed ns (\<lambda>n. False)" if "n \<in> set ns" "freed n" for ns :: "session_node_t list" and n
    using that by (induction ns) auto
  from this have "touches_freed (session_list (destroy_anonymous_session 0 ?s)) (\<lambda>n. False)"
    by (simp add: create_anonymous_session_def list_add_def destroy_anonymous_session_def)
  ultimately show ?thesis by (simp add: accept_pass_def enqueueInfoMessage_def session_enqueue_info_message_def Let_def)
qed

section \<open>Starting the daemon\<close>

text \<open>What the start of the buses and of the threads leaves of the configuration.\<close>

definition srv_keeps :: "srcpd \<Rightarrow> srcpd \<Rightarrow> bool" where
  "srv_keeps s s' \<longleftrightarrow> num_buses s' = num_buses s \<and> ub s' = ub s \<and>
     (\<forall>k. bus_flags (buses s' k) = bus_flags (buses s k) \<and> bus_description (buses s' k) = bus_description (buses s k))"

definition cfg_keeps :: "config \<Rightarrow> config \<Rightarrow> bool" where
  "cfg_keeps c c' \<longleftrightarrow> srv_keeps (cfg_srv c) (cfg_srv c') \<and>
     (\<forall>k. bus_type (cfg c' k) = bus_type (cfg c k) \<and> init_func (cfg c' k) = init_func (cfg c k) \<and> thr_func (cfg c' k) = thr_func (cfg c k) \<and>
       (\<forall>g. holds g (driverdata (cfg c k)) \<longrightarrow> holds g (driverdata (cfg c' k))) \<and>
       (\<forall>j. driverdata (cfg c k) = Server_Data j \<longrightarrow> driverdata (cfg c' k) = Server_Data j))"

lemma srv_keeps_refl [simp]: "srv_keeps s s" by (simp add: srv_keeps_def)

lemma srv_keeps_trans: "srv_keeps a b \<Longrightarrow> srv_keeps b c \<Longrightarrow> srv_keeps a c" by (simp add: srv_keeps_def)

lemma cfg_keeps_trans: "cfg_keeps a b \<Longrightarrow> cfg_keeps b c \<Longrightarrow> cfg_keeps a c"
  by (auto simp: cfg_keeps_def intro: srv_keeps_trans)

lemma cfg_keeps_refl [simp]: "cfg_keeps c c" by (simp add: cfg_keeps_def)

lemma cfg_keeps_srv: "srv_keeps (cfg_srv c) (f (cfg_srv c)) \<Longrightarrow> cfg_keeps c (on_cfg_srv f c)"
  by (simp add: cfg_keeps_def on_cfg_srv_def)

lemma on_cfg_srv_sel [simp]: "cfg (on_cfg_srv f c) = cfg c" "cfg_srv (on_cfg_srv f c) = f (cfg_srv c)"
  by (simp_all add: on_cfg_srv_def)

lemma on_server_conf [simp]: "conf (on_server f d) = on_cfg_srv f (conf d)" "bus_thread (on_server f d) = bus_thread d" "net_thread (on_server f d) = net_thread d"
  by (simp_all add: on_server_def)

lemma bus_is_keeps: "cfg_keeps c c' \<Longrightarrow> bus_is g k c \<Longrightarrow> bus_is g k c'" "cfg_keeps c c' \<Longrightarrow> has_flag f k c' = has_flag f k c"
  by (simp_all add: cfg_keeps_def srv_keeps_def bus_is_def has_flag_def)

lemma init_bus_DDL_keeps: "srv_keeps (srv (fst x)) (srv (fst (init_bus_DDL e b x)))"
proof -
  have on: "srv (init_MFXPacketPool b v) = srv v" "srv (reset_MFXPacketPool v) = srv v" for v
    by (simp_all add: init_MFXPacketPool_def reset_MFXPacketPool_def Let_def)
  have g: "srv_keeps (srv v) (srv (fst (init_mcs_gateway e b (v, g))))" for v g
    by (simp add: init_mcs_gateway_def Let_def srv_keeps_def)
  show ?thesis
    unfolding init_bus_DDL_def Let_def case_prod_unfold fst_conv
    using g by (simp add: srv_keeps_def on)
qed

text \<open>The device of the bus can be used.\<close>

definition device_usable :: "daemon_env \<Rightarrow> driver \<Rightarrow> nat \<Rightarrow> config \<Rightarrow> bool" where
  "device_usable e f i c \<longleftrightarrow>
     (f = Drv_DDL \<longrightarrow> 0 < dev_fd (cfg c i) \<or> dev_path (cfg c i) \<noteq> None \<and> 0 \<le> dev_fds e i) \<and>
     (f = Drv_CANBUS \<longrightarrow> (\<exists>p. dev_path (cfg c i) = Some p \<and> length p < IFNAMSIZ))"

definition same_device :: "nat \<Rightarrow> config \<Rightarrow> config \<Rightarrow> bool" where
  "same_device i c c' \<longleftrightarrow> dev_fd (cfg c' i) = dev_fd (cfg c i) \<and> dev_path (cfg c' i) = dev_path (cfg c i)"

lemma init_bus_keeps:
  assumes "bus_is f b (conf d)" "device_usable e f b (conf d)"
  shows "\<exists>d'. init_bus e b f d = Some d' \<and> cfg_keeps (conf d) (conf d') \<and> bus_thread d' = bus_thread d \<and> (\<forall>k. k \<noteq> b \<longrightarrow> same_device k (conf d) (conf d'))"
proof (cases f)
  case Drv_server
  then show ?thesis by (auto simp: init_bus_def init_bus_server_def srv_keeps_def same_device_def Let_def intro!: cfg_keeps_srv)
next
  case Drv_LOOPBACK
  then show ?thesis by (auto simp: init_bus_def init_bus_LOOPBACK_def srv_keeps_def same_device_def Let_def intro!: cfg_keeps_srv)
next
  case Drv_DDL
  then obtain k where k: "driverdata (cfg (conf d) b) = DDL_Data k" using assms(1) by (cases "driverdata (cfg (conf d) b)") (auto simp: bus_is_def)
  have x: "srv_keeps (server d) (srv (fst (init_bus_DDL g b (ddl_view b k d))))" for g
    using init_bus_DDL_keeps [of "ddl_view b k d"] by (simp add: ddl_view_def)
  have "cfg_keeps (conf d) (conf (ddl_store b k y d))" if "srv_keeps (server d) (srv (fst y))" for y
    using that k by (auto simp: ddl_store_def cfg_keeps_def upd_cfg_def on_cfg_srv_def elim: holds.elims)
  then have st: "cfg_keeps (conf d) (conf (ddl_store b k (init_bus_DDL g b (ddl_view b k d)) d))" for g using x by blast
  have fd: "cfg_keeps c (upd_cfg b (\<lambda>q. q\<lparr>dev_fd := z\<rparr>) c)" for c z by (simp add: cfg_keeps_def upd_cfg_def)
  show ?thesis using k Drv_DDL assms(2) cfg_keeps_trans [OF st fd] st
    by (auto simp: init_bus_def device_usable_def Let_def same_device_def ddl_store_def upd_cfg_def)
next
  case Drv_CANBUS
  then obtain k where k: "driverdata (cfg (conf d) b) = CANBUS_Data k" using assms(1) by (cases "driverdata (cfg (conf d) b)") (auto simp: bus_is_def)
  obtain p where p: "dev_path (cfg (conf d) b) = Some p" "length p < IFNAMSIZ" using Drv_CANBUS assms(2) by (auto simp: device_usable_def)
  have "srv_keeps s (fst (init_bus_CANBUS (h\<lparr>can_path := p\<rparr>) b (s, c)))" for h s c
    using p(2) by (simp add: init_bus_CANBUS_def initSocketCan_def Let_def case_prod_unfold srv_keeps_def)
  then show ?thesis using k Drv_CANBUS p(1) by (auto simp: init_bus_def Let_def case_prod_unfold same_device_def intro!: cfg_keeps_srv)
qed

lemma init_buses_keep:
  assumes "\<forall>i \<in> set is. \<exists>f. bus_is f i (conf d) \<and> device_usable e f i (conf d)" "distinct is"
  shows "\<exists>d'. init_each_bus e is d = Some d' \<and> cfg_keeps (conf d) (conf d') \<and> bus_thread d' = bus_thread d"
  using assms
proof (induction "is" arbitrary: d)
  case Nil then show ?case by simp
next
  case (Cons i "is")
  obtain f where f: "bus_is f i (conf d)" "device_usable e f i (conf d)" using Cons.prems by auto
  then have i: "init_func (cfg (conf d) i) = Some f" by (simp add: bus_is_def)
  obtain d1 where d1: "init_bus e i f d = Some d1" "cfg_keeps (conf d) (conf d1)" "bus_thread d1 = bus_thread d"
    "\<forall>k. k \<noteq> i \<longrightarrow> same_device k (conf d) (conf d1)" using init_bus_keeps [OF f] by blast
  have "\<exists>f. bus_is f j (conf d1) \<and> device_usable e f j (conf d1)" if js: "j \<in> set is" for j
  proof -
    have j: "same_device j (conf d) (conf d1)" using js Cons.prems(2) d1(4) by auto
    obtain g where "bus_is g j (conf d)" "device_usable e g j (conf d)" using js Cons.prems(1) by (meson list.set_intros(2))
    then have "bus_is g j (conf d1)" "device_usable e g j (conf d1)" using bus_is_keeps(1) [OF d1(2)] j by (auto simp: device_usable_def same_device_def)
    then show ?thesis by blast
  qed
  then obtain d' where "init_each_bus e is d1 = Some d'" "cfg_keeps (conf d1) (conf d')" "bus_thread d' = bus_thread d1"
    using Cons.IH [of d1] Cons.prems(2) by auto
  then show ?case using i d1 cfg_keeps_trans [OF d1(2)] by simp
qed

lemma auto_power_keeps: "srv_keeps s (auto_power i s)"
  by (simp add: auto_power_def setPower_def srv_keeps_def upd_bus_def)

text \<open>The bus threads, and the power of the buses.\<close>

lemma create_bus_threads_run:
  assumes "\<forall>i \<in> set is. bus_thread_ok e i" "distinct is"
  shows "\<exists>d'. create_bus_threads e is d = Some d' \<and> cfg_keeps (conf d) (conf d') \<and> net_thread d' = net_thread d \<and>
    (\<forall>i. bus_thread d' i = (if i \<in> set is \<and> thr_func (cfg (conf d) i) \<noteq> None then thr_func (cfg (conf d) i) else bus_thread d i) \<and>
      getPower i (server d') = (if i \<in> set is then (if bus_flags (buses (server d) i) AND AUTO_POWER_ON = AUTO_POWER_ON then 1 else 0) else getPower i (server d)))"
  using assms
proof (induction "is" arbitrary: d)
  case Nil then show ?case by simp
next
  case (Cons i "is")
  let ?f = "thr_func (cfg (conf d) i)"
  define d1 where "d1 = on_server (auto_power i) (if ?f \<noteq> None then d\<lparr>bus_thread := (bus_thread d)(i := ?f)\<rparr> else d)"
  have c: "create_bus_threads e (i # is) d = create_bus_threads e is d1" using Cons.prems by (simp add: d1_def Let_def)
  have k: "cfg_keeps (conf d) (conf d1)" using cfg_keeps_srv [where f = "auto_power i", OF auto_power_keeps, of "conf d"] by (simp add: d1_def)
  have d1: "bus_thread d1 = (if ?f \<noteq> None then (bus_thread d)(i := ?f) else bus_thread d)" "net_thread d1 = net_thread d" "server d1 = auto_power i (server d)"
    by (simp_all add: d1_def on_cfg_srv_def)
  obtain d' where d': "create_bus_threads e is d1 = Some d'" "cfg_keeps (conf d1) (conf d')" "net_thread d' = net_thread d1"
    "\<And>j. bus_thread d' j = (if j \<in> set is \<and> thr_func (cfg (conf d1) j) \<noteq> None then thr_func (cfg (conf d1) j) else bus_thread d1 j)"
    "\<And>j. getPower j (server d') = (if j \<in> set is then (if bus_flags (buses (server d1) j) AND AUTO_POWER_ON = AUTO_POWER_ON then 1 else 0) else getPower j (server d1))"
    using Cons.IH [of d1] Cons.prems by auto
  have e: "thr_func (cfg (conf d1) j) = thr_func (cfg (conf d) j)" "bus_flags (buses (auto_power i s) j) = bus_flags (buses s j)" for j s
    using k auto_power_keeps [of s i] by (simp_all add: cfg_keeps_def srv_keeps_def)
  have p: "getPower j (auto_power i s) = (if j = i then (if bus_flags (buses s i) AND AUTO_POWER_ON = AUTO_POWER_ON then 1 else 0) else getPower j s)" for j s
    by (simp add: auto_power_def getPower_def setPower_def)
  have "bus_thread d' j = (if j \<in> set (i # is) \<and> thr_func (cfg (conf d) j) \<noteq> None then thr_func (cfg (conf d) j) else bus_thread d j)" for j
    using Cons.prems(2) by (auto simp: d'(4) d1(1) e(1))
  moreover have "getPower j (server d') = (if j \<in> set (i # is) then (if bus_flags (buses (server d) j) AND AUTO_POWER_ON = AUTO_POWER_ON then 1 else 0)
      else getPower j (server d))" for j
    using Cons.prems(2) by (auto simp: d'(5) d1(3) e(2) p)
  moreover have "cfg_keeps (conf d) (conf d')" using k d'(2) by (rule cfg_keeps_trans)
  ultimately show ?case unfolding c d'(1) using d'(3) d1(2) by auto
qed

text \<open>Configuring the daemon, at the start or later.\<close>

lemma configure_runs:
  assumes "readConfig (cfg_e e) doc (conf d) = Some (True, c)"
    and "driver_of 0 = Drv_server" and "\<forall>i. 1 \<le> i \<and> i \<le> num_buses (cfg_srv c) \<longrightarrow> driver_of i \<noteq> Drv_server"
    and "\<forall>i \<le> num_buses (cfg_srv c). bus_is (driver_of i) i c \<and> device_usable e (driver_of i) i c"
    and "\<forall>i. bus_thread_ok e i" and "net_thread_ok e"
  shows "\<exists>d' k. configure e doc d = Some d' \<and> get_server_state (server d') = ssRunning \<and> ub (server d') = ub (cfg_srv c) \<and>
    driverdata (cfg c 0) = Server_Data k \<and> net_thread d' = Some (TCPPORT k) \<and>
    (\<forall>i \<le> num_buses (cfg_srv c). bus_is (driver_of i) i (conf d') \<and>
      (1 \<le> i \<longrightarrow> bus_thread d' i = Some (driver_of i) \<and> getPower i (server d') = (if bus_flags (buses (cfg_srv c) i) AND AUTO_POWER_ON \<noteq> 0 then 1 else 0)))"
proof -
  let ?n = "num_buses (cfg_srv c)" and ?d0 = "d\<lparr>conf := c, data_freed := (\<lambda>_. False)\<rparr>"
  have "\<forall>i \<in> set [0..<Suc ?n]. \<exists>f. bus_is f i (conf ?d0) \<and> device_usable e f i (conf ?d0)"
    using assms(4) by (auto simp: less_Suc_eq_le simp del: upt_Suc)
  then obtain d1 where d1: "init_all_buses e ?d0 = Some d1" "cfg_keeps c (conf d1)"
    using init_buses_keep [of "[0..<Suc ?n]" ?d0 e] by (auto simp: init_all_buses_def)
  define d2 where "d2 = create_time_thread e (on_server (set_server_state ssInitializing) d1)"
  have "cfg_keeps (conf d1) (conf d2)" by (auto simp: d2_def create_time_thread_def set_server_state_def srv_keeps_def intro!: cfg_keeps_srv)
  then have k2: "cfg_keeps c (conf d2)" using cfg_keeps_trans [OF d1(2)] by blast
  then have n2: "num_buses (server d2) = ?n" by (simp add: cfg_keeps_def srv_keeps_def)
  obtain d3 where d3: "create_all_bus_threads e d2 = Some d3" "cfg_keeps (conf d2) (conf d3)"
    "\<And>i. bus_thread d3 i = (if i \<in> set [1..<Suc ?n] \<and> thr_func (cfg (conf d2) i) \<noteq> None then thr_func (cfg (conf d2) i) else bus_thread d2 i)"
    "\<And>i. getPower i (server d3) = (if i \<in> set [1..<Suc ?n] then (if bus_flags (buses (server d2) i) AND AUTO_POWER_ON = AUTO_POWER_ON then 1 else 0)
       else getPower i (server d2))"
    using create_bus_threads_run [of "[1..<Suc ?n]" e d2] assms(5) unfolding create_all_bus_threads_def n2 by (auto simp del: upt_Suc)
  have k3: "cfg_keeps c (conf d3)" using k2 d3(2) cfg_keeps_trans by blast
  obtain k where k: "driverdata (cfg c 0) = Server_Data k" using assms(2,4) by (cases "driverdata (cfg c 0)") (auto simp: bus_is_def)
  then have "driverdata (cfg (conf d3) 0) = Server_Data k" using k3 by (simp add: cfg_keeps_def)
  then have net: "create_netservice_thread e d3 = Some (d3\<lparr>net_thread := Some (TCPPORT k)\<rparr>)" using assms(6) by (simp add: create_netservice_thread_def)
  define d' where "d' = on_server (set_server_state ssRunning) (d3\<lparr>net_thread := Some (TCPPORT k)\<rparr>)"
  have "configure e doc d = Some d'"
    using assms(1) d1(1) d3(1) net by (simp add: configure_def create_all_threads_def d2_def d'_def Let_def)
  moreover have k': "cfg_keeps (conf d3) (conf d')" by (auto simp: d'_def set_server_state_def srv_keeps_def intro!: cfg_keeps_srv)
  then have c': "cfg_keeps c (conf d')" using k3 cfg_keeps_trans by blast
  moreover have "bus_is (driver_of i) i (conf d')" if "i \<le> ?n" for i using assms(4) that bus_is_keeps(1) [OF c'] by blast
  moreover have "bus_thread d' i = Some (driver_of i)" if "1 \<le> i" "i \<le> ?n" for i
  proof -
    have "thr_func (cfg (conf d2) i) = Some (driver_of i)" using assms(3,4) that k2 by (simp add: cfg_keeps_def bus_is_def)
    then show ?thesis using d3(3) [of i] that by (simp add: d'_def)
  qed
  moreover have "getPower i (server d') = (if bus_flags (buses (cfg_srv c) i) AND AUTO_POWER_ON \<noteq> 0 then 1 else 0)" if "1 \<le> i" "i \<le> ?n" for i
  proof -
    have "(x AND AUTO_POWER_ON = AUTO_POWER_ON) \<longleftrightarrow> x AND AUTO_POWER_ON \<noteq> 0" for x :: int
    proof -
      have "x AND 2 = (if bit x 1 then 2 else 0)" by (rule bit_eqI) (auto simp: bit_simps bit_2_iff)
      then show ?thesis by (auto simp: AUTO_POWER_ON_def)
    qed
    moreover have "bus_flags (buses (server d2) i) = bus_flags (buses (cfg_srv c) i)" using k2 by (simp add: cfg_keeps_def srv_keeps_def)
    ultimately have "getPower i (server d3) = (if bus_flags (buses (cfg_srv c) i) AND AUTO_POWER_ON \<noteq> 0 then 1 else 0)"
      using d3(4) [of i] that by (simp only: set_upt atLeastLessThan_iff less_Suc_eq_le) simp
    then show ?thesis by (simp add: d'_def getPower_def set_server_state_def)
  qed
  moreover have "get_server_state (server d') = ssRunning" "net_thread d' = Some (TCPPORT k)"
    by (simp_all add: d'_def get_server_state_def set_server_state_def on_cfg_srv_def)
  ultimately show ?thesis using k by (auto simp: cfg_keeps_def srv_keeps_def)
qed


definition loop_conf :: xml where
  "loop_conf = Xml ''srcpd'' [] None [Xml ''bus'' [] None [Xml ''server'' [] None []], Xml ''bus'' [] None [Xml ''loopback'' [] None [], el ''auto_power_on'' ''yes'']]"

definition loop_drivers :: "nat \<Rightarrow> driver" where
  "loop_drivers i = (if i = 0 then Drv_server else Drv_LOOPBACK)"

definition daemon_env_demo :: daemon_env where
  "daemon_env_demo = \<lparr>cfg_e = cfg_env_demo, gw_e = (\<lambda>_. env_demo),
     can_e = (\<lambda>_. \<lparr>can_socket = 3, can_path = ''can0'', can_if_known = True, can_bind_ok = True, can_filter_ok = True\<rparr>),
     dev_fds = (\<lambda>_. 5), bus_thread_ok = (\<lambda>_. True), time_thread_ok = True, net_thread_ok = True\<rparr>"

definition daemon_zero :: daemon where
  "daemon_zero = \<lparr>conf = config_zero, drv_mfx = mfx_start, drv_static = static_zero, cans = (\<lambda>_. canbus_open), bus_thread = (\<lambda>_. None),
     ddl_threads = (\<lambda>_. thread_start), data_freed = (\<lambda>_. False), time_thread = False, net_thread = None, sleep_ctr = 0\<rparr>"


section \<open>The watchdog\<close>

text \<open>What the end of a bus thread leaves of the tables.\<close>

lemma end_bus_frame:
  "buses (server (end_bus b d)) = buses (server d)" "gl (server (end_bus b d)) = gl (server d)" "ga (server (end_bus b d)) = ga (server d)"
  "num_buses (server (end_bus b d)) = num_buses (server d)" "server_state (server (end_bus b d)) = server_state (server d)"
  "thr_func (cfg (conf (end_bus b d)) k) = thr_func (cfg (conf d) k)" "bus_thread (end_bus b d) k = (if k = b then None else bus_thread d k)"
  "data_freed (end_bus b d) = (data_freed d)(b := True)" "sleep_ctr (end_bus b d) = sleep_ctr d" "ub (server d) \<Longrightarrow> ub (server (end_bus b d))"
proof -
  have v: "srv (fst (end_bus_thread (v, t))) = srv v" for v t
    by (simp add: end_bus_thread_def reset_MFXPacketPool_def Let_def)
  have w: "srv (fst (end_handleCAN (v, g))) = (srv v)\<lparr>mcs_bus := 0\<rparr>" for v g by (simp add: end_handleCAN_def)
  show "buses (server (end_bus b d)) = buses (server d)" "gl (server (end_bus b d)) = gl (server d)" "ga (server (end_bus b d)) = ga (server d)"
    "num_buses (server (end_bus b d)) = num_buses (server d)" "server_state (server (end_bus b d)) = server_state (server d)"
    "thr_func (cfg (conf (end_bus b d)) k) = thr_func (cfg (conf d) k)" "bus_thread (end_bus b d) k = (if k = b then None else bus_thread d k)"
    "data_freed (end_bus b d) = (data_freed d)(b := True)" "sleep_ctr (end_bus b d) = sleep_ctr d" "ub (server d) \<Longrightarrow> ub (server (end_bus b d))"
    by (auto simp: end_bus_def Let_def case_prod_unfold ddl_store_def ddl_view_def upd_cfg_def v w raise_ub_def on_server_def on_cfg_srv_def
        split: option.split driver.split driver_data.split)
qed

lemma restart_bus_frame:
  "buses (server (restart_bus b d)) = buses (server d)" "gl (server (restart_bus b d)) = gl (server d)" "ga (server (restart_bus b d)) = ga (server d)"
  "num_buses (server (restart_bus b d)) = num_buses (server d)" "server_state (server (restart_bus b d)) = server_state (server d)"
  "thr_func (cfg (conf (restart_bus b d)) k) = thr_func (cfg (conf d) k)"
  "bus_thread (restart_bus b d) k = (if k = b then thr_func (cfg (conf d) b) else bus_thread d k)"
  "sleep_ctr (restart_bus b d) = sleep_ctr d" "ub (server (restart_bus b d)) \<longleftrightarrow> ub (server d) \<or> data_freed d b"
  by (simp_all add: restart_bus_def Let_def raise_ub_def on_server_def on_cfg_srv_def)

definition clear_watchdog :: "nat \<Rightarrow> daemon \<Rightarrow> daemon" where
  "clear_watchdog b d = on_server (upd_bus b (\<lambda>q. q\<lparr>watchdog := 0\<rparr>)) d"

definition watch_bus :: "nat \<Rightarrow> daemon \<Rightarrow> daemon" where
  "watch_bus b d = clear_watchdog b (if bus_hangs b (server d) then restart_bus b (end_bus b d) else d)"

lemma watch_bus_frame:
  "gl (server (watch_bus b d)) = gl (server d)" "ga (server (watch_bus b d)) = ga (server d)" "num_buses (server (watch_bus b d)) = num_buses (server d)"
  "server_state (server (watch_bus b d)) = server_state (server d)" "sleep_ctr (watch_bus b d) = sleep_ctr d"
  "thr_func (cfg (conf (watch_bus b d)) k) = thr_func (cfg (conf d) k)"
  "bus_thread (watch_bus b d) k = (if k = b \<and> bus_hangs b (server d) then thr_func (cfg (conf d) b) else bus_thread d k)"
  "buses (server (watch_bus b d)) = (buses (server d))(b := (buses (server d) b)\<lparr>watchdog := 0\<rparr>)"
  "ub (server d) \<or> bus_hangs b (server d) \<Longrightarrow> ub (server (watch_bus b d))"
  by (auto simp: watch_bus_def clear_watchdog_def end_bus_frame restart_bus_frame on_server_def upd_bus_def)

lemma watch_buses_fold: "\<forall>b \<in> set bs. bus_thread_ok e b \<Longrightarrow> watch_buses e bs d = fold watch_bus bs d"
  by (induction bs arbitrary: d) (simp_all add: watch_bus_def clear_watchdog_def Let_def)

lemma bus_hangs_watch: "k \<noteq> b \<Longrightarrow> bus_hangs k (server (watch_bus b d)) = bus_hangs k (server d)"
  by (simp add: bus_hangs_def watch_bus_frame queue_GL_isempty_def queue_GA_isempty_def)

lemma watch_fold:
  assumes "distinct bs"
  shows "bus_thread (fold watch_bus bs d) k = (if k \<in> set bs \<and> bus_hangs k (server d) then thr_func (cfg (conf d) k) else bus_thread d k) \<and>
    watchdog (buses (server (fold watch_bus bs d)) k) = (if k \<in> set bs then 0 else watchdog (buses (server d) k)) \<and>
    (ub (server d) \<or> (\<exists>b \<in> set bs. bus_hangs b (server d)) \<longrightarrow> ub (server (fold watch_bus bs d)))"
  using assms
proof (induction bs arbitrary: d)
  case Nil then show ?case by simp
next
  case (Cons b bs)
  have h: "bus_hangs j (server (watch_bus b d)) = bus_hangs j (server d)" if "j \<in> set bs" for j
    using that Cons.prems by (intro bus_hangs_watch) auto
  have u: "ub (server d) \<or> (\<exists>j \<in> set (b # bs). bus_hangs j (server d)) \<Longrightarrow> ub (server (watch_bus b d)) \<or> (\<exists>j \<in> set bs. bus_hangs j (server (watch_bus b d)))"
    using watch_bus_frame(9) [of d b] h by auto
  show ?case using Cons.IH [of "watch_bus b d"] Cons.prems u h by (auto simp: watch_bus_frame)
qed

text \<open>The watchdog starts again exactly the buses that hang, and those buses only: after it has run, a bus that uses the watchdog, has commands waiting in both queues and
  has not counted since the last run has a new thread of its driver, every other thread is the same, and all counters are zero.
\<close>

theorem watchdog_restarts:
  assumes "\<forall>b. bus_thread_ok e b" and "1 \<le> k" and "k \<le> num_buses (server d)"
  shows "bus_thread (run_bus_watchdog e d) k = (if bus_hangs k (server d) then thr_func (cfg (conf d) k) else bus_thread d k) \<and>
    watchdog (buses (server (run_bus_watchdog e d)) k) = 0 \<and> bus_thread (run_bus_watchdog e d) 0 = bus_thread d 0"
  using watch_fold [of "[1..<Suc (num_buses (server d))]" d k] watch_fold [of "[1..<Suc (num_buses (server d))]" d 0] assms
  by (auto simp: run_bus_watchdog_def watch_buses_fold simp del: upt_Suc)

text \<open>
  But the thread that is cancelled has given back the data of the bus in its clean-up, and the new one works on it.
\<close>

theorem watchdog_restart_wild:
  assumes "\<forall>b. bus_thread_ok e b" and "1 \<le> k" and "k \<le> num_buses (server d)" and "bus_hangs k (server d)"
  shows "ub (server (run_bus_watchdog e d))"
proof -
  have "\<exists>b \<in> set [1..<Suc (num_buses (server d))]. bus_hangs b (server d)" using assms(2-4) by (intro bexI [of _ k]) (simp_all del: upt_Suc)
  then show ?thesis using watch_fold [of "[1..<Suc (num_buses (server d))]" d k] assms(1)
    by (simp add: run_bus_watchdog_def watch_buses_fold del: upt_Suc)
qed

definition hanging :: daemon where
  "hanging = on_server (\<lambda>s. upd_gl 1 (\<lambda>g. g\<lparr>gl_queue := (gl_queue g)\<lparr>inp := 1, outp := 0\<rparr>\<rparr>) (upd_ga 1 (\<lambda>g. g\<lparr>ga_queue := (ga_queue g)\<lparr>inp := 1, outp := 0\<rparr>\<rparr>)
     (upd_bus 1 (\<lambda>q. q\<lparr>bus_flags := USE_WATCHDOG, watchdog := 0\<rparr>) s)))
     (daemon_zero\<lparr>conf := upd_cfg 1 (\<lambda>q. q\<lparr>thr_func := Some Drv_LOOPBACK\<rparr>) config_zero\<rparr>)"

lemma hanging_simps:
  "num_buses (server hanging) = 1" "bus_hangs 1 (server hanging)" "\<forall>b. bus_thread_ok daemon_env_demo b"
  "thr_func (cfg (conf hanging) 1) = Some Drv_LOOPBACK"
  by (simp_all add: hanging_def config_zero_def upd_cfg_def bus_hangs_def USE_WATCHDOG_def queue_GL_isempty_def queue_GA_isempty_def ring_isempty_def
      daemon_env_demo_def daemon_zero_def srcpd_init_def)

theorem watchdog_restarts_witness: "bus_thread (run_bus_watchdog daemon_env_demo hanging) 1 = Some Drv_LOOPBACK"
  using watchdog_restarts [OF hanging_simps(3), of 1 hanging] hanging_simps by simp

theorem watchdog_restart_wild_witness: "ub (server (run_bus_watchdog daemon_env_demo hanging))"
  using watchdog_restart_wild [OF hanging_simps(3), of 1 hanging] hanging_simps by simp

section \<open>The main loop\<close>

text \<open>Time passes and nothing else happens.\<close>

definition clock_to :: "timeval \<Rightarrow> daemon \<Rightarrow> daemon" where
  "clock_to t d = on_server (\<lambda>s. s\<lparr>clock := t\<rparr>) d"

text \<open>The part of the state that the locks of the accessories depend on.\<close>

definition lock_view :: "daemon \<Rightarrow> (bus_t \<Rightarrow> ga_bus) \<times> nat \<times> server_state_t" where
  "lock_view d = (ga (server d), num_buses (server d), server_state (server d))"

lemma unlock_gl_bytime_frame:
  "ga (unlock_gl_bytime s) = ga s" "num_buses (unlock_gl_bytime s) = num_buses s" "server_state (unlock_gl_bytime s) = server_state s"
proof -
  let ?P = "\<lambda>t. ga t = ga s \<and> num_buses t = num_buses s \<and> server_state t = server_state s"
  have v: "ga (upd_glstate b i h t) = ga t" "num_buses (upd_glstate b i h t) = num_buses t" "server_state (upd_glstate b i h t) = server_state t" for b i h t
    by (simp_all add: upd_glstate_def upd_gl_def)
  have "?P t \<Longrightarrow> ?P (tick_lock_gl b j t)" for b j t
    by (simp add: tick_lock_gl_def cacheUnlockGL_def Let_def v)
  then have "?P (unlock_gl_bytime s)"
    unfolding unlock_gl_bytime_def by (rule_tac fold_invariant [where P = ?P], simp, rule_tac fold_invariant [where P = ?P]) simp_all
  then show "ga (unlock_gl_bytime s) = ga s" "num_buses (unlock_gl_bytime s) = num_buses s" "server_state (unlock_gl_bytime s) = server_state s" by simp_all
qed

lemma unlock_ga_bytime_state: "server_state (unlock_ga_bytime s) = server_state s"
proof -
  let ?P = "\<lambda>t. server_state t = server_state s"
  show ?thesis unfolding unlock_ga_bytime_def
    by (rule fold_invariant [where P = ?P], simp, rule fold_invariant [where P = ?P]) (simp_all add: tick_lock_ga_def unlockGA_def Let_def upd_gastate_def upd_ga_def)
qed

lemma run_bus_watchdog_view:
  assumes "\<forall>b. bus_thread_ok e b"
  shows "lock_view (run_bus_watchdog e d) = lock_view d"
proof -
  have "lock_view (fold watch_bus bs d) = lock_view d" for bs
    by (rule fold_invariant [where P = "\<lambda>x. lock_view x = lock_view d"]) (simp_all add: lock_view_def watch_bus_frame)
  then show ?thesis using assms by (simp add: run_bus_watchdog_def watch_buses_fold)
qed

text \<open>Passes in which the counter does not become zero, and the tenth.\<close>

lemma quiet_passes:
  assumes "int (length ts) < sleep_ctr d" "server_state (server d) \<noteq> ssTerminating"
  shows "\<exists>d'. main_passes e (map clock_to ts) d = Some d' \<and> sleep_ctr d' = sleep_ctr d - int (length ts) \<and> lock_view d' = lock_view d"
  using assms
proof (induction ts arbitrary: d)
  case Nil then show ?case by simp
next
  case (Cons t ts)
  let ?d = "(clock_to t d)\<lparr>sleep_ctr := sleep_ctr d - 1\<rparr>"
  have sc: "sleep_ctr (clock_to t d) = sleep_ctr d" by (simp add: clock_to_def on_server_def)
  have "main_pass e (clock_to t) d = Some ?d" using Cons.prems by (simp add: main_pass_def Let_def sc get_server_state_def)
  moreover have v: "lock_view ?d = lock_view d" "server_state (server ?d) = server_state (server d)" by (simp_all add: clock_to_def lock_view_def)
  moreover obtain d' where "main_passes e (map clock_to ts) ?d = Some d'" "sleep_ctr d' = sleep_ctr d - 1 - int (length ts)" "lock_view d' = lock_view ?d"
    using Cons.IH [of ?d] Cons.prems v by auto
  ultimately show ?case by simp
qed

lemma main_passes_append: "main_passes e (fs @ gs) d = Option.bind (main_passes e fs d) (main_passes e gs)"
proof (induction fs arbitrary: d)
  case (Cons f fs) then show ?case by (cases "main_pass e f d") simp_all
qed simp

lemma ten_passes:
  assumes "length ts = 10" "sleep_ctr d = 10" "server_state (server d) \<noteq> ssTerminating" "\<forall>b. bus_thread_ok e b"
  shows "\<exists>d' t s. main_passes e (map clock_to ts) d = Some d' \<and> sleep_ctr d' = 10 \<and> lock_view d' = (ga s, num_buses s, server_state s) \<and>
    s = unlock_ga_bytime t \<and> lock_view d = (ga t, num_buses t, server_state t)"
proof -
  obtain us u where ts: "ts = us @ [u]" "length us = 9" using assms(1) by (cases ts rule: rev_cases) auto
  obtain d1 where d1: "main_passes e (map clock_to us) d = Some d1" "sleep_ctr d1 = 1" "lock_view d1 = lock_view d"
    using quiet_passes [of us d e] assms(2,3) ts(2) by auto
  let ?t = "unlock_gl_bytime (server (clock_to u d1))"
  let ?d2 = "(main_tick e ((clock_to u d1)\<lparr>sleep_ctr := 0\<rparr>))\<lparr>sleep_ctr := 10\<rparr>"
  have "sleep_ctr (clock_to u d1) = 1" using d1(2) by (simp add: clock_to_def on_server_def)
  then have "main_pass e (clock_to u) d1 = Some ?d2"
    using d1(3) assms(3) by (simp add: main_pass_def Let_def get_server_state_def lock_view_def)
  then have "main_passes e (map clock_to ts) d = Some ?d2" by (simp add: ts(1) main_passes_append d1(1))
  moreover have "lock_view ?d2 = (ga (unlock_ga_bytime ?t), num_buses (unlock_ga_bytime ?t), server_state (unlock_ga_bytime ?t))"
  proof -
    have "lock_view ?d2 = lock_view (main_tick e ((clock_to u d1)\<lparr>sleep_ctr := 0\<rparr>))" by (simp add: lock_view_def)
    also have "\<dots> = lock_view (on_server (\<lambda>s. unlock_ga_bytime (unlock_gl_bytime s)) ((clock_to u d1)\<lparr>sleep_ctr := 0\<rparr>))"
      by (simp add: main_tick_def run_bus_watchdog_view [OF assms(4)])
    finally show ?thesis by (simp add: lock_view_def)
  qed
  moreover have "lock_view d = (ga ?t, num_buses ?t, server_state ?t)"
    using d1(3) by (simp add: lock_view_def unlock_gl_bytime_frame clock_to_def)
  ultimately show ?thesis by (intro exI [of _ ?d2] exI [of _ ?t] exI [of _ "unlock_ga_bytime ?t"]) simp
qed

text \<open>C19. Timed locks are released by the main loop: while the daemon runs and nobody else touches an accessory, after ten passes of 100 ms for each second the lock of an
  accessory with a duration of at least one second is gone once that many seconds have passed, not before, and a lock without a duration is kept.
\<close>

theorem main_loop_releases_locks:
  assumes "length ts = 10 * n" and "sleep_ctr d = 10" and "get_server_state (server d) \<noteq> ssTerminating" and "\<forall>b. bus_thread_ok e b"
    and "1 \<le> b" and "b \<le> num_buses (server d)" and "0 < addr" and "addr \<le> get_number_ga b (server d)"
  shows "\<exists>d'. main_passes e (map clock_to ts) d = Some d' \<and>
    ga_locked_by (ga_at b addr (server d')) =
      (if 0 < ga_lockduration (ga_at b addr (server d)) \<and> ga_lockduration (ga_at b addr (server d)) \<le> int n then 0 else ga_locked_by (ga_at b addr (server d)))"
  using assms(1-3,6,8)
proof (induction n arbitrary: ts d)
  case 0 then show ?case by simp
next
  case (Suc n)
  have len: "length (take 10 ts) = 10" "length (drop 10 ts) = 10 * n" using Suc.prems(1) by simp_all
  obtain d1 t s where d1: "main_passes e (map clock_to (take 10 ts)) d = Some d1" "sleep_ctr d1 = 10" "lock_view d1 = (ga s, num_buses s, server_state s)"
    "s = unlock_ga_bytime t" "lock_view d = (ga t, num_buses t, server_state t)"
    using ten_passes [OF len(1) Suc.prems(2) _ assms(4)] Suc.prems(3) unfolding get_server_state_def by blast
  have n1: "num_buses (server d1) = num_buses (server d)" "get_server_state (server d1) \<noteq> ssTerminating" "get_number_ga b (server d1) = get_number_ga b (server d)"
    using d1(3-5) Suc.prems(3) by (auto simp: lock_view_def get_server_state_def get_number_ga_def unlock_ga_bytime_pointwise unlock_ga_bytime_state)
  have a1: "ga_at b addr (server d1) = age_lock (clock t) (ga_at b addr (server d))"
    using d1(3-5) assms(5,7) Suc.prems(4,5) by (auto simp: lock_view_def get_number_ga_def unlock_ga_bytime_pointwise)
  obtain d' where d': "main_passes e (map clock_to (drop 10 ts)) d1 = Some d'"
    "ga_locked_by (ga_at b addr (server d')) =
      (if 0 < ga_lockduration (ga_at b addr (server d1)) \<and> ga_lockduration (ga_at b addr (server d1)) \<le> int n then 0 else ga_locked_by (ga_at b addr (server d1)))"
    using Suc.IH [OF len(2) d1(2) n1(2)] n1 Suc.prems(4,5) by auto
  have "main_passes e (map clock_to ts) d = Some d'"
    using d1(1) d'(1) main_passes_append [of e "map clock_to (take 10 ts)" "map clock_to (drop 10 ts)" d] by (simp flip: map_append)
  then show ?case using d'(2) by (auto simp: a1 age_lock_def)
qed

definition locked_demo :: daemon where
  "locked_demo = (on_server (\<lambda>_. snd (lockGA 1 3 2 5 ga_demo)) daemon_zero)\<lparr>sleep_ctr := 10\<rparr>"

theorem main_loop_releases_locks_witness:
  "\<exists>d'. main_passes daemon_env_demo (replicate 20 (clock_to tv0)) locked_demo = Some d' \<and> ga_locked_by (ga_at 1 3 (server d')) = 0"
proof -
  have "ga_lockduration (ga_at 1 3 (server locked_demo)) = 2" "1 \<le> num_buses (server locked_demo)"
    "3 \<le> get_number_ga 1 (server locked_demo)" "sleep_ctr locked_demo = 10"
    by (simp_all add: locked_demo_def lockGA_def Let_def ga_bus_zero_def ga_zero_def get_server_state_def)
  moreover have "get_server_state (server locked_demo) \<noteq> ssTerminating"
    by (simp add: locked_demo_def lockGA_def Let_def get_server_state_def upd_gastate_def upd_ga_def ga_demo_def init_GA_def srcpd_init_def)
  moreover have "\<forall>b. bus_thread_ok daemon_env_demo b" by (simp add: daemon_env_demo_def)
  ultimately show ?thesis
    using main_loop_releases_locks [of "replicate 20 tv0" 2 locked_demo daemon_env_demo 1 3] by (simp add: map_replicate)
qed

end
